(* ===== verification/Prelude.thy ===== *)
theory Prelude
  imports Main "HOL-Library.Word" "HOL-Library.Multiset" "HOL-Library.Monad_Syntax"
begin

text \<open>
  Shared vocabulary of the development: the C integer types the driver uses, the errno
  values it tests, the search-and-unlink operation on intrusive lists
  (\<^verbatim>\<open>xorg_list_for_each_entry_safe\<close> with a \<^verbatim>\<open>break\<close>), and the collections of
  simplification rules the component theories fill.
\<close>

unbundle bit_operations_syntax

section \<open>Collections\<close>

named_theorems frame_simps \<open>which fields of the state an operation leaves alone\<close>
named_theorems inv_intros \<open>operations that keep an invariant\<close>

section \<open>C integers\<close>

type_synonym u8 = "8 word"
type_synonym u16 = "16 word"
type_synonym u32 = "32 word"
type_synonym u64 = "64 word"

text \<open>
  Values of type \<^verbatim>\<open>short\<close> and \<^verbatim>\<open>int\<close> are integers in range; storing a wider
  value truncates it to two's complement.
\<close>

definition to_short :: "int \<Rightarrow> int" where
  "to_short i = signed_take_bit 15 i"

definition to_int32 :: "int \<Rightarrow> int" where
  "to_int32 i = signed_take_bit 31 i"

definition is_short :: "int \<Rightarrow> bool" where
  "is_short i \<longleftrightarrow> - 32768 \<le> i \<and> i < 32768"

lemma to_short_id [simp]: "is_short i \<Longrightarrow> to_short i = i"
  by (simp add: to_short_def is_short_def signed_take_bit_int_eq_self)

lemma is_short_to_short [simp]: "is_short (to_short i)"
  using signed_take_bit_int_greater_eq_minus_exp [of 15 i] signed_take_bit_int_less_exp [of 15 i]
  by (simp add: to_short_def is_short_def)

lemma to_int32_id: "- 2147483648 \<le> i \<Longrightarrow> i < 2147483648 \<Longrightarrow> to_int32 i = i"
  by (simp add: to_int32_def signed_take_bit_int_eq_self)

section \<open>errno\<close>

text \<open>The errno values of the generic Linux ABI; the driver only compares them.\<close>

abbreviation (input) EINTR :: int where "EINTR \<equiv> 4"
abbreviation (input) ENXIO :: int where "ENXIO \<equiv> 6"
abbreviation (input) EAGAIN :: int where "EAGAIN \<equiv> 11"
abbreviation (input) ENOMEM :: int where "ENOMEM \<equiv> 12"
abbreviation (input) EACCES :: int where "EACCES \<equiv> 13"
abbreviation (input) EBUSY :: int where "EBUSY \<equiv> 16"
abbreviation (input) EINVAL :: int where "EINVAL \<equiv> 22"
abbreviation (input) ENOTTY :: int where "ENOTTY \<equiv> 25"
abbreviation (input) ENOSYS :: int where "ENOSYS \<equiv> 38"

section \<open>Unlinking the first matching entry of a list\<close>

fun pop_first :: "('a \<Rightarrow> bool) \<Rightarrow> 'a list \<Rightarrow> ('a \<times> 'a list) option" where
  "pop_first P [] = None"
| "pop_first P (x # xs) =
     (if P x then Some (x, xs) else map_option (\<lambda>(y, ys). (y, x # ys)) (pop_first P xs))"

lemma pop_first_None_iff [simp]: "pop_first P xs = None \<longleftrightarrow> (\<forall>x \<in> set xs. \<not> P x)"
  by (induction xs) auto

lemma pop_first_SomeD:
  assumes "pop_first P xs = Some (y, ys)"
  obtains us vs where "xs = us @ y # vs" and "ys = us @ vs" and "P y" and "\<forall>u \<in> set us. \<not> P u"
proof -
  have "\<exists>us vs. xs = us @ y # vs \<and> ys = us @ vs \<and> P y \<and> (\<forall>u \<in> set us. \<not> P u)"
    using assms
  proof (induction xs arbitrary: ys)
    case Nil
    then show ?case by simp
  next
    case (Cons x xs)
    show ?case
    proof (cases "P x")
      case True
      with Cons.prems show ?thesis by (intro exI [of _ "[]"] exI [of _ xs]) auto
    next
      case False
      with Cons.prems obtain zs where zs: "pop_first P xs = Some (y, zs)" "ys = x # zs"
        by auto
      from Cons.IH [OF zs(1)] obtain us vs
        where "xs = us @ y # vs" "zs = us @ vs" "P y" "\<forall>u \<in> set us. \<not> P u" by blast
      with False zs(2) show ?thesis by (intro exI [of _ "x # us"] exI [of _ vs]) auto
    qed
  qed
  with that show thesis by blast
qed

lemma pop_first_satisfies: "pop_first P xs = Some (y, ys) \<Longrightarrow> P y"
  by (erule pop_first_SomeD) simp

lemma pop_first_mset: "pop_first P xs = Some (y, ys) \<Longrightarrow> mset xs = add_mset y (mset ys)"
  by (erule pop_first_SomeD) simp

lemma pop_first_set: "pop_first P xs = Some (y, ys) \<Longrightarrow> set xs = insert y (set ys)"
  by (erule pop_first_SomeD) simp

lemma pop_first_length: "pop_first P xs = Some (y, ys) \<Longrightarrow> length xs = Suc (length ys)"
  by (erule pop_first_SomeD) simp

lemma pop_first_distinct_map:
  "pop_first P xs = Some (y, ys) \<Longrightarrow> distinct (map f xs) \<Longrightarrow>
     distinct (map f ys) \<and> f y \<notin> f ` set ys"
  by (erule pop_first_SomeD) auto

lemma find_Some_mem: "find P xs = Some x \<Longrightarrow> x \<in> set xs \<and> P x"
  by (induction xs) (auto split: if_splits)

lemma find_append:
  "find P (xs @ ys) = (case find P xs of None \<Rightarrow> find P ys | Some x \<Rightarrow> Some x)"
  by (induction xs) auto

section \<open>Words and naturals\<close>

lemma unat_u64_mod: "unat (x mod y :: u64) = unat x mod unat y"
  by (simp add: unat_mod)

lemma unat_plus_if_no_overflow:
  "unat (x :: u64) + unat y < 18446744073709551616 \<Longrightarrow> unat (x + y) = unat x + unat y"
  by (simp add: unat_word_ariths)

lemma unat_minus_if_le: "(y :: u64) \<le> x \<Longrightarrow> unat (x - y) = unat x - unat y"
  by (simp add: unat_sub)

end
