(* ===== verification/Driver_Types.thy ===== *)
theory Driver_Types
  imports Prelude
begin

text \<open>
  The structures of \<^verbatim>\<open>src/src/drmmode_display.h\<close> the modelled code reads and writes,
  with the X server structures they hang off (\<^verbatim>\<open>xf86CrtcRec\<close>, \<^verbatim>\<open>DisplayModeRec\<close>)
  and the libdrm mode record. A pointer to a CRTC is its position in
  \<^verbatim>\<open>xf86_config->crtc\<close>, a pointer to a pixmap is a number, and a null pointer is
  \<open>None\<close>. Fields no modelled operation uses are left out.
\<close>

section \<open>Modes\<close>

text \<open>The fields of the server's \<^verbatim>\<open>DisplayModeRec\<close> the driver converts.\<close>

record display_mode =
  m_Clock :: int
  m_HDisplay :: int
  m_HSyncStart :: int
  m_HSyncEnd :: int
  m_HTotal :: int
  m_HSkew :: int
  m_VDisplay :: int
  m_VSyncStart :: int
  m_VSyncEnd :: int
  m_VTotal :: int
  m_VScan :: int
  m_Flags :: int
  m_type :: int
  m_name :: "string option"

definition zero_mode :: display_mode where
  "zero_mode = \<lparr>m_Clock = 0, m_HDisplay = 0, m_HSyncStart = 0, m_HSyncEnd = 0, m_HTotal = 0,
     m_HSkew = 0, m_VDisplay = 0, m_VSyncStart = 0, m_VSyncEnd = 0, m_VTotal = 0, m_VScan = 0,
     m_Flags = 0, m_type = 0, m_name = None\<rparr>"

text \<open>libdrm's \<^verbatim>\<open>drmModeModeInfo\<close>; the name is a buffer of 32 bytes.\<close>

record kmode =
  k_clock :: u32
  k_hdisplay :: u16
  k_hsync_start :: u16
  k_hsync_end :: u16
  k_htotal :: u16
  k_hskew :: u16
  k_vdisplay :: u16
  k_vsync_start :: u16
  k_vsync_end :: u16
  k_vtotal :: u16
  k_vscan :: u16
  k_vrefresh :: u32
  k_flags :: u32
  k_type :: u32
  k_name :: "char list"

section \<open>Properties and formats\<close>

record prop_enum_info =
  pe_name :: string
  pe_valid :: bool
  pe_value :: u64

record prop_info =
  pi_name :: string
  pi_prop_id :: u32
  pi_enum_values :: "prop_enum_info list"

record plane_format =
  fmt_format :: u32
  fmt_modifiers :: "u64 list"

datatype plane_property =
  PLANE_TYPE | PLANE_FB_ID | PLANE_IN_FORMATS | PLANE_CRTC_ID | PLANE_SRC_X | PLANE_SRC_Y
| PLANE_SRC_W | PLANE_SRC_H | PLANE_CRTC_X | PLANE_CRTC_Y | PLANE_CRTC_W | PLANE_CRTC_H

datatype crtc_property = CRTC_ACTIVE | CRTC_MODE_ID

datatype connector_property = CONNECTOR_CRTC_ID

text \<open>The index of an enumerator, as the arrays \<^verbatim>\<open>props_plane[]\<close> and \<^verbatim>\<open>props[]\<close> use it.\<close>

fun plane_property_index :: "plane_property \<Rightarrow> nat" where
  "plane_property_index PLANE_TYPE = 0"
| "plane_property_index PLANE_FB_ID = 1"
| "plane_property_index PLANE_IN_FORMATS = 2"
| "plane_property_index PLANE_CRTC_ID = 3"
| "plane_property_index PLANE_SRC_X = 4"
| "plane_property_index PLANE_SRC_Y = 5"
| "plane_property_index PLANE_SRC_W = 6"
| "plane_property_index PLANE_SRC_H = 7"
| "plane_property_index PLANE_CRTC_X = 8"
| "plane_property_index PLANE_CRTC_Y = 9"
| "plane_property_index PLANE_CRTC_W = 10"
| "plane_property_index PLANE_CRTC_H = 11"

fun crtc_property_index :: "crtc_property \<Rightarrow> nat" where
  "crtc_property_index CRTC_ACTIVE = 0"
| "crtc_property_index CRTC_MODE_ID = 1"

fun connector_property_index :: "connector_property \<Rightarrow> nat" where
  "connector_property_index CONNECTOR_CRTC_ID = 0"

abbreviation (input) PLANE_COUNT :: nat where "PLANE_COUNT \<equiv> 12"
abbreviation (input) CRTC_COUNT :: nat where "CRTC_COUNT \<equiv> 2"

lemma plane_property_index_less: "plane_property_index p < PLANE_COUNT"
  by (cases p) simp_all

lemma plane_property_index_inject [simp]:
  "plane_property_index p = plane_property_index q \<longleftrightarrow> p = q"
  by (cases p; cases q; simp)

text \<open>The enumerators are ordered as C numbers them.\<close>

instantiation plane_property :: linorder
begin

definition less_eq_plane_property :: "plane_property \<Rightarrow> plane_property \<Rightarrow> bool" where
  "less_eq_plane_property p q \<longleftrightarrow> plane_property_index p \<le> plane_property_index q"

definition less_plane_property :: "plane_property \<Rightarrow> plane_property \<Rightarrow> bool" where
  "less_plane_property p q \<longleftrightarrow> plane_property_index p < plane_property_index q"

instance
  by standard (auto simp: less_eq_plane_property_def less_plane_property_def)

end

section \<open>Buffers\<close>

text \<open>
  A \<^verbatim>\<open>struct dumb_bo\<close> and the parts of a GBM buffer the driver asks for; a
  \<^verbatim>\<open>drmmode_bo\<close> holds one or the other.
\<close>

record dumb_bo =
  db_handle :: u32
  db_size :: u32
  db_ptr :: bool
  db_pitch :: u32

record gbm_bo =
  gb_handle :: u32
  gb_stride :: u32
  gb_format :: u32
  gb_modifier :: u64
  gb_planes :: "(u32 \<times> u32 \<times> u32) list"

record drmmode_bo =
  bo_width :: u32
  bo_height :: u32
  bo_dumb :: "dumb_bo option"
  bo_used_modifiers :: bool
  bo_gbm :: "gbm_bo option"

definition no_bo :: drmmode_bo where
  "no_bo = \<lparr>bo_width = 0, bo_height = 0, bo_dumb = None, bo_used_modifiers = False, bo_gbm = None\<rparr>"

text \<open>
  The memory of a pixmap the EXA layer did not give a dumb buffer (\<^verbatim>\<open>struct LoongsonBuf\<close>;
  \<open>lb_pDat\<close> is its address, if it has any), and the EXA private of a pixmap
  (\<^verbatim>\<open>struct ms_exa_pixmap_priv\<close>).
\<close>

record loongson_buf =
  lb_pDat :: "nat option"
  lb_size :: u32
  lb_pitch :: u32
  lb_width :: u32
  lb_height :: u32

definition zero_buf :: loongson_buf where
  "zero_buf = \<lparr>lb_pDat = None, lb_size = 0, lb_pitch = 0, lb_width = 0, lb_height = 0\<rparr>"

record exa_priv =
  ep_bo :: "dumb_bo option"
  ep_fd :: int
  ep_pitch :: int
  ep_owned :: bool
  ep_buf :: loongson_buf
  ep_usage_hint :: u32

definition zero_exa :: exa_priv where
  "zero_exa = \<lparr>ep_bo = None, ep_fd = 0, ep_pitch = 0, ep_owned = False, ep_buf = zero_buf, ep_usage_hint = 0\<rparr>"

text \<open>
  The static \<^verbatim>\<open>exa_prepare_args\<close> (\<^verbatim>\<open>struct ms_exa_prepare_args\<close>): pixmaps
  and pictures by number, the pointers null at first.
\<close>

record exa_args =
  solid_alu :: int
  solid_planemask :: u32
  solid_fg :: u32
  copy_src :: "nat option"
  copy_alu :: int
  copy_planemask :: u32
  comp_op :: int
  comp_src_picture :: "nat option"
  comp_mask_picture :: "nat option"
  comp_dst_picture :: "nat option"
  comp_src :: "nat option"
  comp_mask :: "nat option"

definition zero_args :: exa_args where
  "zero_args = \<lparr>solid_alu = 0, solid_planemask = 0, solid_fg = 0, copy_src = None, copy_alu = 0,
     copy_planemask = 0, comp_op = 0, comp_src_picture = None, comp_mask_picture = None,
     comp_dst_picture = None, comp_src = None, comp_mask = None\<rparr>"

text \<open>What \<^verbatim>\<open>devPrivate.ptr\<close> of a pixmap points to: a mapped dumb buffer or allocated memory.\<close>

datatype pixel_store = BO_MAPPING u32 | BUF_MEMORY nat

section \<open>CRTCs\<close>

abbreviation (input) DPMSModeOn :: int where "DPMSModeOn \<equiv> 0"
abbreviation (input) DPMSModeStandby :: int where "DPMSModeStandby \<equiv> 1"
abbreviation (input) DPMSModeSuspend :: int where "DPMSModeSuspend \<equiv> 2"
abbreviation (input) DPMSModeOff :: int where "DPMSModeOff \<equiv> 3"

abbreviation (input) RR_Rotate_0 :: nat where "RR_Rotate_0 \<equiv> 1"
abbreviation (input) RR_Rotate_90 :: nat where "RR_Rotate_90 \<equiv> 2"
abbreviation (input) RR_Rotate_180 :: nat where "RR_Rotate_180 \<equiv> 4"
abbreviation (input) RR_Rotate_270 :: nat where "RR_Rotate_270 \<equiv> 8"

text \<open>
  An \<^verbatim>\<open>xf86CrtcRec\<close> with its \<^verbatim>\<open>drmmode_crtc_private_rec\<close>. \<open>mode_list\<close> holds
  the mode blobs created for the CRTC, newest first, and \<open>current_mode\<close> points to one of them. \<open>desired_mode\<close> is
  \<open>None\<close> while its \<^verbatim>\<open>CrtcHDisplay\<close> is zero.
\<close>

record crtc =
  crtc_index :: nat
  crtc_scrn :: nat
  enabled :: bool
  active :: bool
  crtc_x :: int
  crtc_y :: int
  crtc_mode :: display_mode
  rotation :: nat
  crtc_id :: u32
  vblank_pipe :: u32
  dpms_mode :: int
  props :: "prop_info list"
  props_plane :: "prop_info list"
  plane_id :: u32
  current_mode :: "(kmode \<times> u32) option"
  mode_list :: "(kmode \<times> u32) list"
  formats :: "plane_format list"
  rotate_bo :: drmmode_bo
  rotate_fb_id :: u32
  prime_pixmap :: "nat option"
  prime_pixmap_back :: "nat option"
  prime_pixmap_x :: int
  msc_prev :: u32
  msc_high :: u64
  need_modeset :: bool
  enable_flipping :: bool
  flipping_active :: bool
  desired_mode :: "display_mode option"
  desired_rotation :: nat
  desired_x :: int
  desired_y :: int
  cursor_bo :: "dumb_bo option"
  cursor_up :: bool

text \<open>A CRTC as \<^verbatim>\<open>xnfcalloc\<close> leaves it: every field zero.\<close>

definition zero_crtc :: crtc where
  "zero_crtc = \<lparr>crtc_index = 0, crtc_scrn = 0, enabled = False, active = False, crtc_x = 0, crtc_y = 0,
     crtc_mode = zero_mode, rotation = 0, crtc_id = 0, vblank_pipe = 0, dpms_mode = 0,
     props = [], props_plane = [], plane_id = 0, current_mode = None, mode_list = [],
     formats = [], rotate_bo = no_bo, rotate_fb_id = 0, prime_pixmap = None,
     prime_pixmap_back = None, prime_pixmap_x = 0, msc_prev = 0, msc_high = 0,
     need_modeset = False, enable_flipping = False, flipping_active = False, desired_mode = None,
     desired_rotation = 0, desired_x = 0, desired_y = 0, cursor_bo = None, cursor_up = False\<rparr>"

text \<open>\<^verbatim>\<open>ms_crtc_on\<close>: enabled and powered.\<close>

definition ms_crtc_on :: "crtc \<Rightarrow> bool" where
  "ms_crtc_on c \<longleftrightarrow> enabled c \<and> dpms_mode c = DPMSModeOn"

end
