(* ===== verification/Geometry.thy ===== *)
theory Geometry
  imports Driver_Types
begin

text \<open>
  Which CRTC shows a drawable (\<^verbatim>\<open>src/src/vblank.c\<close>, first half): boxes and their
  intersection, the box of a CRTC, the CRTC with the greatest coverage, and the fallback to
  the primary output's CRTC when a drawable is on a slave output. Box coordinates are C
  \<^verbatim>\<open>short\<close>s, areas C \<^verbatim>\<open>int\<close>s.
\<close>

section \<open>Boxes\<close>

record box =
  bx1 :: int
  by1 :: int
  bx2 :: int
  by2 :: int

definition zero_box :: box where
  "zero_box = \<lparr>bx1 = 0, by1 = 0, bx2 = 0, by2 = 0\<rparr>"

definition ms_box_intersect :: "box \<Rightarrow> box \<Rightarrow> box" where
  "ms_box_intersect a b =
     (let l = (if bx1 a > bx1 b then bx1 a else bx1 b);
          r = (if bx2 a < bx2 b then bx2 a else bx2 b)
      in if l \<ge> r then zero_box
         else let t = (if by1 a > by1 b then by1 a else by1 b);
                  u = (if by2 a < by2 b then by2 a else by2 b)
              in if t \<ge> u then zero_box else \<lparr>bx1 = l, by1 = t, bx2 = r, by2 = u\<rparr>)"

definition ms_box_area :: "box \<Rightarrow> int" where
  "ms_box_area b = to_int32 ((bx2 b - bx1 b) * (by2 b - by1 b))"

text \<open>
  The box of a CRTC. \<open>W\<close> and \<open>H\<close> stand for the server's \<^verbatim>\<open>xf86ModeWidth\<close> and
  \<^verbatim>\<open>xf86ModeHeight\<close>.
\<close>

definition ms_crtc_box ::
  "(display_mode \<Rightarrow> nat \<Rightarrow> int) \<Rightarrow> (display_mode \<Rightarrow> nat \<Rightarrow> int) \<Rightarrow> crtc \<Rightarrow> box" where
  "ms_crtc_box W H c =
     (if enabled c then
        \<lparr>bx1 = to_short (crtc_x c), by1 = to_short (crtc_y c),
         bx2 = to_short (crtc_x c + W (crtc_mode c) (rotation c)),
         by2 = to_short (crtc_y c + H (crtc_mode c) (rotation c))\<rparr>
      else zero_box)"

text \<open>
  RandR's view of a CRTC: its mode, when it has one, is the pair of width and height;
  \<open>rr_dev\<close> is the CRTC behind \<^verbatim>\<open>devPrivate\<close>.
\<close>

record rr_crtc =
  rr_id :: nat
  rr_x :: int
  rr_y :: int
  rr_mode :: "(int \<times> int) option"
  rr_rotation :: nat
  rr_dev :: crtc

definition ms_randr_crtc_box :: "rr_crtc \<Rightarrow> box" where
  "ms_randr_crtc_box c =
     (case rr_mode c of
        None \<Rightarrow> zero_box
      | Some (w, h) \<Rightarrow>
          if rr_rotation c = RR_Rotate_90 \<or> rr_rotation c = RR_Rotate_270 then
            \<lparr>bx1 = to_short (rr_x c), by1 = to_short (rr_y c),
             bx2 = to_short (rr_x c + h), by2 = to_short (rr_y c + w)\<rparr>
          else
            \<lparr>bx1 = to_short (rr_x c), by1 = to_short (rr_y c),
             bx2 = to_short (rr_x c + w), by2 = to_short (rr_y c + h)\<rparr>)"

section \<open>Screens\<close>

record rr_output =
  ro_id :: nat
  ro_screen :: nat
  ro_crtc :: "rr_crtc option"

record rr_scr_priv =
  primaryOutput :: "rr_output option"
  rr_crtcs :: "rr_crtc list"
  rr_outputs :: "rr_output list"

text \<open>
  A screen: its identity, whether it is a GPU screen, whether it is an output slave, its
  CRTC configuration, its RandR private and the screens slaved to it.
\<close>

datatype screen =
  Screen (scr_id: nat) (isGPU: bool) (is_output_slave: bool) (xf86_config: "crtc list option")
    (rr_priv: "rr_scr_priv option") (slave_list: "screen list")

fun first_connected_output :: "rr_crtc list \<Rightarrow> rr_output list \<Rightarrow> rr_output option" where
  "first_connected_output [] outs = None"
| "first_connected_output (c # cs) outs =
     (case find (\<lambda>out. map_option rr_id (ro_crtc out) = Some (rr_id c)) outs of
        Some out \<Rightarrow> Some out
      | None \<Rightarrow> first_connected_output cs outs)"

definition ms_first_output :: "screen \<Rightarrow> rr_output option" where
  "ms_first_output s =
     (case rr_priv s of
        None \<Rightarrow> None
      | Some p \<Rightarrow>
          (case primaryOutput p of
             Some out \<Rightarrow>
               if ro_crtc out \<noteq> None \<and> ro_screen out = scr_id s then Some out
               else first_connected_output (rr_crtcs p) (rr_outputs p)
           | None \<Rightarrow> first_connected_output (rr_crtcs p) (rr_outputs p)))"

section \<open>The covering CRTC\<close>

text \<open>The loop both variants run: keep the first CRTC that is on with the greatest coverage.\<close>

fun covering_scan ::
  "('c \<Rightarrow> bool) \<Rightarrow> ('c \<Rightarrow> box) \<Rightarrow> box \<Rightarrow> 'c list \<Rightarrow> 'c option \<times> int \<Rightarrow> 'c option \<times> int" where
  "covering_scan on cb b [] acc = acc"
| "covering_scan on cb b (c # cs) (best, best_coverage) =
     (if \<not> on c then covering_scan on cb b cs (best, best_coverage)
      else let coverage = ms_box_area (ms_box_intersect (cb c) b)
           in if coverage > best_coverage then covering_scan on cb b cs (Some c, coverage)
              else covering_scan on cb b cs (best, best_coverage))"

text \<open>
  \<open>reg\<close> is \<^verbatim>\<open>dixPrivateKeyRegistered(rrPrivKey)\<close>; \<open>is_ms\<close> is the parameter
  \<^verbatim>\<open>screen_is_ms\<close>.
\<close>

fun ms_covering_xf86_crtc ::
  "(display_mode \<Rightarrow> nat \<Rightarrow> int) \<Rightarrow> (display_mode \<Rightarrow> nat \<Rightarrow> int) \<Rightarrow> bool \<Rightarrow> box \<Rightarrow> bool \<Rightarrow>
     screen \<Rightarrow> crtc option" where
  "ms_covering_xf86_crtc W H reg b is_ms (Screen sid gpu osl cfg rr slaves) =
     (case cfg of
        None \<Rightarrow> None
      | Some crtcs \<Rightarrow>
          (let best_crtc = fst (covering_scan (\<lambda>c. if is_ms then ms_crtc_on c else enabled c)
                                  (ms_crtc_box W H) b crtcs (None, 0))
           in if best_crtc = None \<and> \<not> gpu then
                (case (if reg then ms_first_output (Screen sid gpu osl cfg rr slaves) else None) of
                   None \<Rightarrow> None
                 | Some primary_output \<Rightarrow>
                     (case ro_crtc primary_output of
                        None \<Rightarrow> None
                      | Some rc \<Rightarrow>
                          if \<not> ms_crtc_on (rr_dev rc) then None
                          else if list_ex (\<lambda>slave. is_output_slave slave \<and>
                                     ms_covering_xf86_crtc W H reg b False slave \<noteq> None) slaves
                          then Some (rr_dev rc)
                          else best_crtc))
              else best_crtc))"

fun ms_covering_randr_crtc :: "bool \<Rightarrow> box \<Rightarrow> bool \<Rightarrow> screen \<Rightarrow> rr_crtc option" where
  "ms_covering_randr_crtc reg b is_ms (Screen sid gpu osl cfg rr slaves) =
     (if \<not> reg then None
      else case rr of
        None \<Rightarrow> None
      | Some pScrPriv \<Rightarrow>
          (let best_crtc = fst (covering_scan
                 (\<lambda>c. if is_ms then ms_crtc_on (rr_dev c) else rr_mode c \<noteq> None)
                 ms_randr_crtc_box b (rr_crtcs pScrPriv) (None, 0))
           in if best_crtc = None \<and> \<not> gpu then
                (case ms_first_output (Screen sid gpu osl cfg rr slaves) of
                   None \<Rightarrow> None
                 | Some primary_output \<Rightarrow>
                     (case ro_crtc primary_output of
                        None \<Rightarrow> None
                      | Some rc \<Rightarrow>
                          if \<not> ms_crtc_on (rr_dev rc) then None
                          else if list_ex (\<lambda>slave. is_output_slave slave \<and>
                                     ms_covering_randr_crtc reg b False slave \<noteq> None) slaves
                          then Some rc
                          else best_crtc))
              else best_crtc))"

text \<open>A drawable's position is a pair of shorts, its size a pair of unsigned shorts.\<close>

record drawable_geom =
  d_x :: int
  d_y :: int
  d_width :: nat
  d_height :: nat

definition drawable_box :: "drawable_geom \<Rightarrow> box" where
  "drawable_box d =
     \<lparr>bx1 = d_x d, by1 = d_y d,
      bx2 = to_short (d_x d + int (d_width d)), by2 = to_short (d_y d + int (d_height d))\<rparr>"

definition ms_dri2_crtc_covering_drawable ::
  "(display_mode \<Rightarrow> nat \<Rightarrow> int) \<Rightarrow> (display_mode \<Rightarrow> nat \<Rightarrow> int) \<Rightarrow> bool \<Rightarrow> screen \<Rightarrow>
     drawable_geom \<Rightarrow> crtc option" where
  "ms_dri2_crtc_covering_drawable W H reg s d =
     ms_covering_xf86_crtc W H reg (drawable_box d) True s"

definition ms_randr_crtc_covering_drawable ::
  "bool \<Rightarrow> screen \<Rightarrow> drawable_geom \<Rightarrow> rr_crtc option" where
  "ms_randr_crtc_covering_drawable reg s d = ms_covering_randr_crtc reg (drawable_box d) True s"

section \<open>Boxes as sets of pixels\<close>

text \<open>The abstraction: a box is the set of the pixels in it.\<close>

definition pixels :: "box \<Rightarrow> (int \<times> int) set" where
  "pixels b = {bx1 b..<bx2 b} \<times> {by1 b..<by2 b}"

definition on_screen :: "box \<Rightarrow> bool" where
  "on_screen b \<longleftrightarrow> 0 \<le> bx1 b \<and> bx2 b < 32768 \<and> 0 \<le> by1 b \<and> by2 b < 32768"

lemma pixels_zero_box [simp]: "pixels zero_box = {}"
  by (simp add: pixels_def zero_box_def)

lemma finite_pixels [simp]: "finite (pixels b)"
  by (simp add: pixels_def)

lemma pixels_intersect: "pixels (ms_box_intersect a b) = pixels a \<inter> pixels b"
  by (auto simp: pixels_def ms_box_intersect_def Let_def zero_box_def split: if_splits)

lemma ordered_intersect:
  "bx1 (ms_box_intersect a b) \<le> bx2 (ms_box_intersect a b) \<and>
   by1 (ms_box_intersect a b) \<le> by2 (ms_box_intersect a b)"
  by (simp add: ms_box_intersect_def Let_def zero_box_def)

lemma on_screen_intersect: "on_screen a \<Longrightarrow> on_screen (ms_box_intersect a b)"
  by (auto simp: on_screen_def ms_box_intersect_def Let_def zero_box_def)

lemma area_pixels:
  assumes "on_screen b" and "bx1 b \<le> bx2 b \<and> by1 b \<le> by2 b"
  shows "ms_box_area b = int (card (pixels b))"
proof -
  have w: "0 \<le> bx2 b - bx1 b" "bx2 b - bx1 b \<le> 32767"
    and h: "0 \<le> by2 b - by1 b" "by2 b - by1 b \<le> 32767"
    using assms by (auto simp: on_screen_def)
  have "(bx2 b - bx1 b) * (by2 b - by1 b) \<le> 32767 * 32767"
    using w h by (intro mult_mono) auto
  moreover have "0 \<le> (bx2 b - bx1 b) * (by2 b - by1 b)" using w h by simp
  ultimately have "ms_box_area b = (bx2 b - bx1 b) * (by2 b - by1 b)"
    by (simp add: ms_box_area_def to_int32_id)
  then show ?thesis using w h by (simp add: pixels_def card_cartesian_product)
qed

text \<open>What the loop compares: the number of pixels of the box a CRTC shows.\<close>

definition overlap :: "('c \<Rightarrow> box) \<Rightarrow> box \<Rightarrow> 'c \<Rightarrow> nat" where
  "overlap cb b c = card (pixels (cb c) \<inter> pixels b)"

lemma area_overlap:
  "on_screen (cb c) \<Longrightarrow> ms_box_area (ms_box_intersect (cb c) b) = int (overlap cb b c)"
  by (simp add: area_pixels on_screen_intersect ordered_intersect pixels_intersect overlap_def)

section \<open>The CRTC with the greatest coverage\<close>

text \<open>
  The specification of the search: nothing is found exactly when no CRTC that is on shows a
  pixel of the box; what is found is on, shows at least as much as any other, and is the
  first to show that much.
\<close>

definition best_covering :: "('c \<Rightarrow> bool) \<Rightarrow> ('c \<Rightarrow> box) \<Rightarrow> box \<Rightarrow> 'c list \<Rightarrow> 'c option \<Rightarrow> bool" where
  "best_covering on cb b cs r \<longleftrightarrow>
     (case r of
        None \<Rightarrow> (\<forall>c \<in> set cs. on c \<longrightarrow> overlap cb b c = 0)
      | Some c \<Rightarrow> (\<exists>us vs. cs = us @ c # vs \<and> on c \<and> 0 < overlap cb b c \<and>
                    (\<forall>u \<in> set us. on u \<longrightarrow> overlap cb b u < overlap cb b c) \<and>
                    (\<forall>v \<in> set vs. on v \<longrightarrow> overlap cb b v \<le> overlap cb b c)))"

lemma best_covering_SomeI:
  assumes "cs = us @ c # vs" and "on c" and "0 < overlap cb b c"
    and "\<forall>u \<in> set us. on u \<longrightarrow> overlap cb b u < overlap cb b c"
    and "\<forall>v \<in> set vs. on v \<longrightarrow> overlap cb b v \<le> overlap cb b c"
  shows "best_covering on cb b cs (Some c)"
  unfolding best_covering_def option.case using assms by (intro exI conjI)

lemma best_covering_last:
  assumes "on x" and "0 < overlap cb b x"
    and "\<forall>u \<in> set cs. on u \<longrightarrow> overlap cb b u < overlap cb b x"
  shows "best_covering on cb b (cs @ [x]) (Some x)"
  by (rule best_covering_SomeI [of _ cs x "[]"]) (use assms in simp_all)

lemma best_covering_snoc:
  assumes "best_covering on cb b cs r"
  shows "best_covering on cb b (cs @ [x])
           (if on x \<and> overlap cb b x > (case r of None \<Rightarrow> 0 | Some c \<Rightarrow> overlap cb b c)
            then Some x else r)"
proof (cases r)
  case None
  show ?thesis
  proof (cases "on x \<and> 0 < overlap cb b x")
    case True
    with None assms have "\<forall>u \<in> set cs. on u \<longrightarrow> overlap cb b u < overlap cb b x"
      by (auto simp: best_covering_def)
    with True have "best_covering on cb b (cs @ [x]) (Some x)"
      by (intro best_covering_last) simp_all
    with True None show ?thesis by simp
  next
    case False
    with None assms show ?thesis by (auto simp: best_covering_def)
  qed
next
  case (Some c)
  with assms obtain us vs where d: "cs = us @ c # vs" "on c" "0 < overlap cb b c"
    "\<forall>u \<in> set us. on u \<longrightarrow> overlap cb b u < overlap cb b c"
    "\<forall>v \<in> set vs. on v \<longrightarrow> overlap cb b v \<le> overlap cb b c"
    by (auto simp: best_covering_def)
  show ?thesis
  proof (cases "on x \<and> overlap cb b x > overlap cb b c")
    case True
    with d have "\<forall>u \<in> set cs. on u \<longrightarrow> overlap cb b u < overlap cb b x" by fastforce
    moreover from True d(3) have "0 < overlap cb b x" by simp
    ultimately have "best_covering on cb b (cs @ [x]) (Some x)"
      using True by (intro best_covering_last) simp_all
    with True Some show ?thesis by simp
  next
    case False
    have "best_covering on cb b (cs @ [x]) (Some c)"
      by (rule best_covering_SomeI [of _ us c "vs @ [x]"]) (use d False in auto)
    moreover have "\<not> (on x \<and> overlap cb b x > (case r of None \<Rightarrow> 0 | Some c \<Rightarrow> overlap cb b c))"
      using False Some by simp
    ultimately show ?thesis using Some by (simp only: if_False)
  qed
qed

lemma covering_scan_best:
  assumes "\<forall>c \<in> set cs. on_screen (cb c)"
    and "best_covering on cb b ds best"
    and "cov = (case best of None \<Rightarrow> 0 | Some c \<Rightarrow> int (overlap cb b c))"
  shows "best_covering on cb b (ds @ cs) (fst (covering_scan on cb b cs (best, cov)))"
  using assms
proof (induction cs arbitrary: ds best cov)
  case Nil
  then show ?case by simp
next
  case (Cons c cs)
  let ?new = "on c \<and> overlap cb b c > (case best of None \<Rightarrow> 0 | Some c \<Rightarrow> overlap cb b c)"
  from Cons.prems(1) have area: "ms_box_area (ms_box_intersect (cb c) b) = int (overlap cb b c)"
    by (simp add: area_overlap)
  have cov: "int (overlap cb b c) > cov \<longleftrightarrow>
      overlap cb b c > (case best of None \<Rightarrow> 0 | Some c \<Rightarrow> overlap cb b c)"
    using Cons.prems(3) by (cases best) auto
  from best_covering_snoc [OF Cons.prems(2), of c]
  have step: "best_covering on cb b (ds @ [c]) (if ?new then Some c else best)" .
  have "covering_scan on cb b (c # cs) (best, cov) =
      covering_scan on cb b cs (if ?new then Some c else best, if ?new then int (overlap cb b c) else cov)"
    using area cov by auto
  with Cons.IH [OF _ step, of "if ?new then int (overlap cb b c) else cov"] Cons.prems(1,3)
  show ?case by (cases ?new) simp_all
qed

lemma covering_scan_spec:
  "\<forall>c \<in> set cs. on_screen (cb c) \<Longrightarrow>
     best_covering on cb b cs (fst (covering_scan on cb b cs (None, 0)))"
  using covering_scan_best [of cs cb on b "[]" None 0] by (simp add: best_covering_def)

section \<open>What a covering CRTC is\<close>

text \<open>
  The CRTCs of an output slave screen show part of the box; its own slaves count as well
  when it is not a GPU screen. This is the truth value of the recursive call of the code.
\<close>

abbreviation xf86_on :: "bool \<Rightarrow> crtc \<Rightarrow> bool" where
  "xf86_on is_ms \<equiv> (\<lambda>c. if is_ms then ms_crtc_on c else enabled c)"

definition fallback_crtc :: "bool \<Rightarrow> screen \<Rightarrow> rr_crtc option" where
  "fallback_crtc reg s =
     (if reg \<and> \<not> isGPU s then
        Option.bind (ms_first_output s)
          (\<lambda>out. Option.bind (ro_crtc out)
             (\<lambda>rc. if ms_crtc_on (rr_dev rc) then Some rc else None))
      else None)"

lemma ms_covering_xf86_crtc_spec:
  assumes "xf86_config s = Some cs" and "\<forall>c \<in> set cs. on_screen (ms_crtc_box W H c)"
  shows "\<exists>best. best_covering (xf86_on is_ms) (ms_crtc_box W H) b cs best \<and>
           ms_covering_xf86_crtc W H reg b is_ms s =
             (case best of
                Some c \<Rightarrow> Some c
              | None \<Rightarrow>
                  if list_ex (\<lambda>sl. is_output_slave sl \<and>
                       ms_covering_xf86_crtc W H reg b False sl \<noteq> None) (slave_list s)
                  then map_option rr_dev (fallback_crtc reg s) else None)"
proof -
  obtain sid gpu osl rr sls where s: "s = Screen sid gpu osl (Some cs) rr sls"
    using assms(1) by (cases s) simp
  let ?best = "fst (covering_scan (xf86_on is_ms) (ms_crtc_box W H) b cs (None, 0))"
  have "best_covering (xf86_on is_ms) (ms_crtc_box W H) b cs ?best"
    using assms(2) by (rule covering_scan_spec)
  then show ?thesis
    by (rule_tac exI [of _ ?best])
       (simp add: s fallback_crtc_def Let_def split: option.splits)
qed


text \<open>
  C8. Which CRTC DRI2 synchronises a drawable with. When some CRTC of the screen that is on
  shows a pixel of the drawable, the answer is such a CRTC, none shows more pixels of it and
  none before it shows as many; otherwise the answer is the CRTC of the primary output (the
  first connected one when there is no primary), on condition that this CRTC is on and that
  an output slave of the screen shows the drawable, and there is none in every other case.
\<close>

theorem covering_drawable_correct:
  assumes "xf86_config s = Some cs" and "\<forall>c \<in> set cs. on_screen (ms_crtc_box W H c)"
  shows "if \<exists>c \<in> set cs. ms_crtc_on c \<and> 0 < overlap (ms_crtc_box W H) (drawable_box d) c
         then \<exists>c. ms_dri2_crtc_covering_drawable W H reg s d = Some c \<and>
                  best_covering ms_crtc_on (ms_crtc_box W H) (drawable_box d) cs (Some c)
         else ms_dri2_crtc_covering_drawable W H reg s d =
                (if list_ex (\<lambda>sl. is_output_slave sl \<and>
                      ms_covering_xf86_crtc W H reg (drawable_box d) False sl \<noteq> None) (slave_list s)
                 then map_option rr_dev (fallback_crtc reg s) else None)"
proof -
  from ms_covering_xf86_crtc_spec [OF assms, of True "drawable_box d" reg] obtain best
    where b: "best_covering ms_crtc_on (ms_crtc_box W H) (drawable_box d) cs best"
      and r: "ms_covering_xf86_crtc W H reg (drawable_box d) True s =
        (case best of Some c \<Rightarrow> Some c
         | None \<Rightarrow> if list_ex (\<lambda>sl. is_output_slave sl \<and>
              ms_covering_xf86_crtc W H reg (drawable_box d) False sl \<noteq> None) (slave_list s)
            then map_option rr_dev (fallback_crtc reg s) else None)"
    by auto
  show ?thesis
  proof (cases best)
    case None
    then show ?thesis using b r
      by (auto simp: ms_dri2_crtc_covering_drawable_def best_covering_def)
  next
    case (Some c)
    with b have "\<exists>c \<in> set cs. ms_crtc_on c \<and> 0 < overlap (ms_crtc_box W H) (drawable_box d) c"
      by (auto simp: best_covering_def)
    then show ?thesis using Some b r by (simp add: ms_dri2_crtc_covering_drawable_def)
  qed
qed

text \<open>A full-HD CRTC at the origin, and a drawable hanging over its right edge.\<close>

definition hd_crtc :: crtc where
  "hd_crtc = zero_crtc\<lparr>enabled := True, rotation := RR_Rotate_0,
     crtc_mode := zero_mode\<lparr>m_HDisplay := 1920, m_VDisplay := 1080\<rparr>\<rparr>"

definition edge_drawable :: drawable_geom where
  "edge_drawable = \<lparr>d_x = 1918, d_y = 1000, d_width = 30, d_height = 10\<rparr>"

lemma covering_drawable_witness:
  "\<exists>c. ms_dri2_crtc_covering_drawable (\<lambda>m r. m_HDisplay m) (\<lambda>m r. m_VDisplay m) False
          (Screen 0 True False (Some [hd_crtc]) None []) edge_drawable = Some c \<and>
       best_covering ms_crtc_on (ms_crtc_box (\<lambda>m r. m_HDisplay m) (\<lambda>m r. m_VDisplay m))
          (drawable_box edge_drawable) [hd_crtc] (Some c)"
proof -
  let ?s = "Screen 0 True False (Some [hd_crtc]) None []"
  let ?cb = "ms_crtc_box (\<lambda>m r. m_HDisplay m) (\<lambda>m r. m_VDisplay m)"
  have box: "?cb hd_crtc = \<lparr>bx1 = 0, by1 = 0, bx2 = 1920, by2 = 1080\<rparr>"
    by (simp add: ms_crtc_box_def hd_crtc_def zero_crtc_def zero_mode_def is_short_def)
  have cfg: "xf86_config ?s = Some [hd_crtc]" by simp
  have scr: "\<forall>c \<in> set [hd_crtc]. on_screen (?cb c)" by (simp add: box on_screen_def)
  have "(1918, 1000) \<in> pixels (?cb hd_crtc) \<inter> pixels (drawable_box edge_drawable)"
    by (simp add: box pixels_def drawable_box_def edge_drawable_def is_short_def)
  then have "0 < overlap ?cb (drawable_box edge_drawable) hd_crtc"
    by (auto simp: overlap_def card_gt_0_iff)
  moreover have "ms_crtc_on hd_crtc"
    by (simp add: ms_crtc_on_def hd_crtc_def zero_crtc_def)
  ultimately show ?thesis
    using covering_drawable_correct [OF cfg scr, of edge_drawable False] by auto
qed

section \<open>The RandR variant agrees\<close>

text \<open>
  A screen whose RandR private mirrors its CRTC configuration: the same CRTCs in the same
  order, each with the same box, and with a RandR mode exactly when it is enabled.
\<close>

fun mirrored ::
  "(display_mode \<Rightarrow> nat \<Rightarrow> int) \<Rightarrow> (display_mode \<Rightarrow> nat \<Rightarrow> int) \<Rightarrow> screen \<Rightarrow> bool" where
  "mirrored W H (Screen sid gpu osl cfg rr slaves) \<longleftrightarrow>
     (case rr of
        None \<Rightarrow> cfg = None
      | Some p \<Rightarrow>
          cfg = Some (map rr_dev (rr_crtcs p)) \<and>
          list_all (\<lambda>rc. ms_randr_crtc_box rc = ms_crtc_box W H (rr_dev rc) \<and>
                         (rr_mode rc \<noteq> None) = enabled (rr_dev rc)) (rr_crtcs p)) \<and>
     list_all (mirrored W H) slaves"

lemma covering_scan_map:
  assumes "\<forall>c \<in> set cs. on' (f c) = on c \<and> cb' (f c) = cb c"
  shows "covering_scan on' cb' b (map f cs) (map_option f best, cov) =
           map_prod (map_option f) id (covering_scan on cb b cs (best, cov))"
  using assms
  by (induction cs arbitrary: best cov) (auto simp: Let_def simp flip: option.map(2))

lemma covering_scan_map_None:
  "\<forall>c \<in> set cs. on' (f c) = on c \<and> cb' (f c) = cb c \<Longrightarrow>
     fst (covering_scan on' cb' b (map f cs) (None, 0)) =
       map_option f (fst (covering_scan on cb b cs (None, 0)))"
  using covering_scan_map [of cs on' f on cb' cb b None 0] by (simp add: prod.map_comp)

lemma randr_covering_agrees:
  "mirrored W H s \<Longrightarrow>
     ms_covering_xf86_crtc W H True b is_ms s =
       map_option rr_dev (ms_covering_randr_crtc True b is_ms s)"
proof (induction s arbitrary: is_ms)
  case (Screen sid gpu osl cfg rr sls)
  show ?case
  proof (cases rr)
    case None
    with Screen.prems show ?thesis by simp
  next
    case (Some p)
    have "list_ex (\<lambda>sl. is_output_slave sl \<and> ms_covering_xf86_crtc W H True b False sl \<noteq> None) sls =
          list_ex (\<lambda>sl. is_output_slave sl \<and> ms_covering_randr_crtc True b False sl \<noteq> None) sls"
    proof -
      have "\<forall>sl \<in> set sls. ms_covering_xf86_crtc W H True b False sl =
          map_option rr_dev (ms_covering_randr_crtc True b False sl)"
        using Screen by (auto simp: list_all_iff)
      then show ?thesis by (auto simp: list_ex_iff)
    qed
    moreover from Screen.prems Some have cfg: "cfg = Some (map rr_dev (rr_crtcs p))" by simp
    moreover have "fst (covering_scan (xf86_on is_ms) (ms_crtc_box W H) b
            (map rr_dev (rr_crtcs p)) (None, 0)) =
        map_option rr_dev (fst (covering_scan
          (\<lambda>c. if is_ms then ms_crtc_on (rr_dev c) else rr_mode c \<noteq> None)
          ms_randr_crtc_box b (rr_crtcs p) (None, 0)))"
      using Screen.prems Some by (intro covering_scan_map_None) (auto simp: list_all_iff)
    ultimately show ?thesis
      by (simp add: Some Let_def split: option.splits)
  qed
qed

text \<open>
  C9. On a screen whose RandR state mirrors the CRTC configuration, the RandR search used by
  Present and the CRTC search used by DRI2 pick the same CRTC for a drawable, also through
  the fallback to the primary output and the screens slaved to it.
\<close>

theorem randr_and_xf86_agree:
  assumes "mirrored W H s"
  shows "map_option rr_dev (ms_randr_crtc_covering_drawable True s d) =
           ms_dri2_crtc_covering_drawable W H True s d"
  unfolding ms_randr_crtc_covering_drawable_def ms_dri2_crtc_covering_drawable_def
  using randr_covering_agrees [OF assms] by simp


lemma randr_and_xf86_witness:
  "map_option rr_dev (ms_randr_crtc_covering_drawable True
       (Screen 0 False False (Some [hd_crtc])
          (Some \<lparr>primaryOutput = None,
             rr_crtcs = [\<lparr>rr_id = 5, rr_x = 0, rr_y = 0, rr_mode = Some (1920, 1080),
                          rr_rotation = RR_Rotate_0, rr_dev = hd_crtc\<rparr>],
             rr_outputs = []\<rparr>) [])
       edge_drawable) =
   ms_dri2_crtc_covering_drawable (\<lambda>m r. m_HDisplay m) (\<lambda>m r. m_VDisplay m) True
       (Screen 0 False False (Some [hd_crtc])
          (Some \<lparr>primaryOutput = None,
             rr_crtcs = [\<lparr>rr_id = 5, rr_x = 0, rr_y = 0, rr_mode = Some (1920, 1080),
                          rr_rotation = RR_Rotate_0, rr_dev = hd_crtc\<rparr>],
             rr_outputs = []\<rparr>) [])
       edge_drawable"
  by (rule randr_and_xf86_agree)
     (simp add: ms_randr_crtc_box_def ms_crtc_box_def hd_crtc_def zero_crtc_def zero_mode_def
        is_short_def)

end
