(* ===== verification/Refcount.thy ===== *)
theory Refcount
  imports Prelude
begin

text \<open>
  The contract of a reference-counted object store. The driver has three of them: the
  \<^verbatim>\<open>ms_flipdata\<close> records shared by the CRTC flips of one page flip, the DRI2 buffers
  shared by the server and the pending frame events, and the DRM file descriptor shared by
  the screens of one entity. Each provider interprets this locale on its own operations.
\<close>

section \<open>The interface\<close>

text \<open>
  \<open>cnt h a\<close> is the stored count of object \<open>a\<close>, \<open>None\<close> when the object is not
  allocated. Acquiring and releasing touch one object; releasing the last reference frees it.
\<close>

locale ref_store =
  fixes cnt :: "'h \<Rightarrow> 'a \<Rightarrow> int option"
    and acquire :: "'a \<Rightarrow> 'h \<Rightarrow> 'h"
    and release :: "'a \<Rightarrow> 'h \<Rightarrow> 'h"
  assumes acquire_same: "cnt h a = Some n \<Longrightarrow> 0 < n \<Longrightarrow> cnt (acquire a h) a = Some (n + 1)"
    and acquire_other: "b \<noteq> a \<Longrightarrow> cnt (acquire a h) b = cnt h b"
    and release_more: "cnt h a = Some n \<Longrightarrow> 1 < n \<Longrightarrow> cnt (release a h) a = Some (n - 1)"
    and release_last: "cnt h a = Some 1 \<Longrightarrow> cnt (release a h) a = None"
    and release_other: "b \<noteq> a \<Longrightarrow> cnt (release a h) b = cnt h b"
begin

text \<open>
  The abstraction: a store is described by the multiset of references that exist, each
  allocated object being counted once per reference.
\<close>

definition owned :: "'a multiset \<Rightarrow> 'h \<Rightarrow> bool" where
  "owned M h \<longleftrightarrow> (\<forall>a. cnt h a = (if a \<in># M then Some (int (count M a)) else None))"

lemma owned_count: "owned M h \<Longrightarrow> a \<in># M \<Longrightarrow> cnt h a = Some (int (count M a))"
  by (simp add: owned_def)

lemma owned_none: "owned M h \<Longrightarrow> a \<notin># M \<Longrightarrow> cnt h a = None"
  by (simp add: owned_def)

lemma create_owned:
  assumes "owned M h" and "a \<notin># M" and "cnt h' a = Some 1"
    and "\<And>b. b \<noteq> a \<Longrightarrow> cnt h' b = cnt h b"
  shows "owned (add_mset a M) h'"
  using assms by (auto simp: owned_def not_in_iff)

lemma acquire_owned:
  assumes "owned M h" and "a \<in># M"
  shows "owned (add_mset a M) (acquire a h)"
proof -
  from assms have c: "cnt h a = Some (int (count M a))" by (rule owned_count)
  from assms(2) have pos: "0 < int (count M a)" by simp
  have "cnt (acquire a h) a = Some (int (count M a) + 1)"
    by (rule acquire_same [OF c pos])
  moreover have "\<And>b. b \<noteq> a \<Longrightarrow> cnt (acquire a h) b = cnt h b" by (rule acquire_other)
  ultimately show ?thesis using assms by (auto simp: owned_def)
qed

lemma release_owned:
  assumes "owned (add_mset a M) h"
  shows "owned M (release a h)"
proof -
  have c: "cnt h a = Some (int (Suc (count M a)))"
    using owned_count [OF assms, of a] by simp
  have other: "\<And>b. b \<noteq> a \<Longrightarrow> cnt (release a h) b = (if b \<in># M then Some (int (count M b)) else None)"
    using assms release_other by (auto simp: owned_def)
  show ?thesis
  proof (cases "a \<in># M")
    case True
    then have "1 < int (Suc (count M a))" by simp
    with c have "cnt (release a h) a = Some (int (Suc (count M a)) - 1)" by (rule release_more)
    with True have "cnt (release a h) b = (if b \<in># M then Some (int (count M b)) else None)" for b
      using other by (cases "b = a") simp_all
    then show ?thesis by (simp add: owned_def)
  next
    case False
    then have "cnt h a = Some 1" using c by (simp add: not_in_iff)
    then have "cnt (release a h) a = None" by (rule release_last)
    with False have "cnt (release a h) b = (if b \<in># M then Some (int (count M b)) else None)" for b
      using other by (cases "b = a") simp_all
    then show ?thesis by (simp add: owned_def)
  qed
qed

text \<open>
  Releasing every reference, in any order, leaves nothing allocated: no leak and no release
  of an object that is already gone.
\<close>

lemma release_all_owned: "owned (M + mset xs) h \<Longrightarrow> owned M (fold release xs h)"
proof (induction xs arbitrary: h)
  case Nil
  then show ?case by simp
next
  case (Cons x xs)
  then have "owned (M + mset xs) (release x h)" by (intro release_owned) simp
  then show ?case using Cons.IH by simp
qed

lemma release_all_frees: "owned (mset xs) h \<Longrightarrow> cnt (fold release xs h) a = None"
  using release_all_owned [of "{#}" xs h] by (simp add: owned_def)

text \<open>An object with an outstanding reference is never freed by releasing the others.\<close>

lemma release_keeps_owner:
  assumes "owned (M + mset xs) h" and "a \<in># M"
  shows "cnt (fold release xs h) a = Some (int (count M a))"
  using release_all_owned [OF assms(1)] assms(2) by (rule owned_count)

end

end
