(* ===== verification/Entity_Fd.thy ===== *)
theory Entity_Fd
  imports Refcount
begin

text \<open>
  The state the screens of one device share (\<^verbatim>\<open>src/src/loongson_entity.c\<close>): the
  cached DRM file descriptor and its reference count, the registration of the descriptor
  with the server's main loop, and the mask of CRTCs already given to a screen; how a
  descriptor is found (\<^verbatim>\<open>src/src/loongson_helpers.c\<close>), how it is taken and dropped by
  a screen (\<^verbatim>\<open>ms_get_drm_master_fd\<close> and \<^verbatim>\<open>FreeRec\<close> of
  \<^verbatim>\<open>src/src/driver.c\<close>), and the probes (\<^verbatim>\<open>src/src/loongson_probe.c\<close>), which
  open a descriptor of their own and give it back.
\<close>

section \<open>The entity private\<close>

record entity =
  e_fd :: int
  fd_ref :: int
  fd_wakeup_registered :: nat
  fd_wakeup_ref :: int
  assigned_crtcs :: u32

text \<open>\<^verbatim>\<open>LS_SetupEntity\<close> allocates the private zeroed, once.\<close>

definition zero_entity :: entity where
  "zero_entity = \<lparr>e_fd = 0, fd_ref = 0, fd_wakeup_registered = 0, fd_wakeup_ref = 0,
     assigned_crtcs = 0\<rparr>"

definition LS_SetupEntity :: "entity option \<Rightarrow> entity option" where
  "LS_SetupEntity p = (case p of None \<Rightarrow> Some zero_entity | Some e \<Rightarrow> Some e)"

definition LS_EntityIncreaseFdReference :: "entity \<Rightarrow> int \<times> entity" where
  "LS_EntityIncreaseFdReference e = (let e = e\<lparr>fd_ref := fd_ref e + 1\<rparr> in (fd_ref e, e))"

definition LS_EntityDecreaseFdReference :: "entity \<Rightarrow> int \<times> entity" where
  "LS_EntityDecreaseFdReference e =
     (let e = e\<lparr>fd_ref := fd_ref e - 1\<rparr>;
          e = (if fd_ref e = 0 then e\<lparr>e_fd := 0\<rparr> else e)
      in (fd_ref e, e))"

definition LS_EntityGetCachedFd :: "entity \<Rightarrow> int" where
  "LS_EntityGetCachedFd e = e_fd e"

definition LS_EntityInitFd :: "int \<Rightarrow> entity \<Rightarrow> entity" where
  "LS_EntityInitFd fd e = e\<lparr>e_fd := fd, fd_ref := 1\<rparr>"

definition LS_MarkCrtcInUse :: "nat \<Rightarrow> entity \<Rightarrow> entity" where
  "LS_MarkCrtcInUse num e = e\<lparr>assigned_crtcs := assigned_crtcs e OR push_bit num 1\<rparr>"

definition LS_GetAssignedCrtc :: "entity \<Rightarrow> u32" where
  "LS_GetAssignedCrtc e = assigned_crtcs e"

definition LS_EntityClearAssignedCrtc :: "entity \<Rightarrow> entity" where
  "LS_EntityClearAssignedCrtc e = e\<lparr>assigned_crtcs := 0\<rparr>"

definition LS_EntityGetFd_wakeup :: "entity \<Rightarrow> nat" where
  "LS_EntityGetFd_wakeup e = fd_wakeup_registered e"

definition LS_EntityInitFd_wakeup :: "nat \<Rightarrow> entity \<Rightarrow> entity" where
  "LS_EntityInitFd_wakeup gen e = e\<lparr>fd_wakeup_registered := gen, fd_wakeup_ref := 1\<rparr>"

definition LS_EntityIncRef_weakeup :: "entity \<Rightarrow> int \<times> entity" where
  "LS_EntityIncRef_weakeup e = (let e = e\<lparr>fd_wakeup_ref := fd_wakeup_ref e + 1\<rparr> in (fd_wakeup_ref e, e))"

definition LS_EntityDecRef_weakeup :: "entity \<Rightarrow> int \<times> entity" where
  "LS_EntityDecRef_weakeup e = (let e = e\<lparr>fd_wakeup_ref := fd_wakeup_ref e - 1\<rparr> in (fd_wakeup_ref e, e))"

section \<open>File descriptors\<close>

text \<open>
  What the operating system and the server answer: the descriptor given to the server with
  \<^verbatim>\<open>-masterfd\<close> (negative when there is none), which paths open, the environment
  variable, the descriptor \<^verbatim>\<open>open\<close> and \<^verbatim>\<open>dup\<close> choose given those in use, and the
  answers of the kernel about a descriptor.
\<close>

record fd_env =
  xf86DRMMasterFd :: int
  dup_ok :: bool
  can_open :: "string \<Rightarrow> bool"
  env_KMSDEVICE :: "string option"
  fresh_fd :: "int list \<Rightarrow> int"
  count_connectors :: "int \<Rightarrow> int option"
  cap_prime :: "int \<Rightarrow> int \<times> u64"
  set_version_ok :: "int \<Rightarrow> bool"
  bus_id_of :: "int \<Rightarrow> string option"

definition sys_open :: "fd_env \<Rightarrow> string \<Rightarrow> int list \<Rightarrow> int \<times> int list" where
  "sys_open E dev fds =
     (if can_open E dev then (fresh_fd E fds, fresh_fd E fds # fds) else (-1, fds))"

definition sys_dup :: "fd_env \<Rightarrow> int list \<Rightarrow> int \<times> int list" where
  "sys_dup E fds = (if dup_ok E then (fresh_fd E fds, fresh_fd E fds # fds) else (-1, fds))"

definition sys_close :: "int \<Rightarrow> int list \<Rightarrow> int list" where
  "sys_close fd fds = remove1 fd fds"

definition LS_GetPassedFD :: "fd_env \<Rightarrow> int list \<Rightarrow> int \<times> int list" where
  "LS_GetPassedFD E fds = (if xf86DRMMasterFd E \<ge> 0 then sys_dup E fds else (-1, fds))"

definition LS_OpenHW :: "fd_env \<Rightarrow> string option \<Rightarrow> int list \<Rightarrow> int \<times> int list" where
  "LS_OpenHW E dev fds =
     (case LS_GetPassedFD E fds of (fd, fds) \<Rightarrow>
        if fd \<noteq> -1 then (fd, fds)
        else case dev of
          Some path \<Rightarrow> sys_open E path fds
        | None \<Rightarrow>
            (case env_KMSDEVICE E of
               None \<Rightarrow> sys_open E ''/dev/dri/card0'' fds
             | Some path \<Rightarrow>
                 (case sys_open E path fds of (fd, fds) \<Rightarrow>
                    if fd = -1 then sys_open E ''/dev/dri/card0'' fds else (fd, fds))))"

text \<open>
  \<^verbatim>\<open>LS_CheckOutputs\<close> with \<^verbatim>\<open>GLAMOR_HAS_GBM_LINEAR\<close>; the value is the C
  \<^verbatim>\<open>int\<close> callers test for truth. Bit 1 of the capability is
  \<^verbatim>\<open>DRM_PRIME_CAP_EXPORT\<close>.
\<close>

definition LS_CheckOutputs :: "fd_env \<Rightarrow> int \<Rightarrow> int" where
  "LS_CheckOutputs E fd =
     (case count_connectors E fd of
        None \<Rightarrow> 0
      | Some n \<Rightarrow>
          if n > 0 then 1
          else case cap_prime E fd of (ret, v) \<Rightarrow>
            if ret = 0 \<and> v AND 2 \<noteq> 0 then 1 else ret)"

section \<open>The bus identifier\<close>

definition hex_digit :: "nat \<Rightarrow> char" where
  "hex_digit n = (if n < 10 then char_of (48 + n) else char_of (87 + n))"

fun hex_digits :: "nat \<Rightarrow> string" where
  "hex_digits n = (if n < 16 then [hex_digit n] else hex_digits (n div 16) @ [hex_digit (n mod 16)])"

declare hex_digits.simps [simp del]

fun dec_digits :: "nat \<Rightarrow> string" where
  "dec_digits n = (if n < 10 then [hex_digit n] else dec_digits (n div 10) @ [hex_digit (n mod 10)])"

declare dec_digits.simps [simp del]

definition pad0 :: "nat \<Rightarrow> string \<Rightarrow> string" where
  "pad0 w s = replicate (w - length s) CHR ''0'' @ s"

record pci_device =
  pci_domain :: nat
  pci_bus :: nat
  pci_dev :: nat
  pci_func :: nat

text \<open>The string of \<^verbatim>\<open>asprintf\<close>, \<open>None\<close> when it fails.\<close>

definition LS_DRICreatePCIBusID :: "bool \<Rightarrow> pci_device \<Rightarrow> string option" where
  "LS_DRICreatePCIBusID ok d =
     (if \<not> ok then None
      else Some (''pci:'' @ pad0 4 (hex_digits (pci_domain d)) @ '':'' @
             pad0 2 (hex_digits (pci_bus d)) @ '':'' @ pad0 2 (hex_digits (pci_dev d)) @ ''.'' @
             dec_digits (pci_func d)))"

section \<open>Taking and dropping the descriptor of a screen\<close>

datatype bus_location =
  BUS_PCI "pci_device option"
| BUS_PLATFORM "int option" "string option"
| BUS_OTHER "string option"

text \<open>
  \<open>BUS_PLATFORM (Some fd) p\<close>: the server manages the descriptor
  (\<^verbatim>\<open>XF86_PDEV_SERVER_FD\<close>); otherwise \<open>p\<close> is the device path. \<open>BUS_PCI\<close>
  carries what \<^verbatim>\<open>xf86GetPciInfoForEntity\<close> returns. The state: the entity, the
  descriptors that are open in the process, and the \<^verbatim>\<open>fd\<close> and \<^verbatim>\<open>fd_passed\<close>
  fields of each screen's record, \<open>None\<close> when the screen has none.
\<close>

record fd_world =
  ent :: entity
  fds :: "int list"
  ms_fd :: "nat \<Rightarrow> int option"
  ms_fd_passed :: "nat \<Rightarrow> bool"

definition open_by_location ::
  "fd_env \<Rightarrow> (string \<Rightarrow> bool) \<Rightarrow> bool \<Rightarrow> bus_location \<Rightarrow> int list \<Rightarrow> int \<Rightarrow> int \<times> int list" where
  "open_by_location E drm_open_ok mem loc fs old =
     (case loc of
        BUS_PLATFORM (Some fd) path \<Rightarrow> (fd, fs)
      | BUS_PLATFORM None path \<Rightarrow> LS_OpenHW E path fs
      | BUS_PCI None \<Rightarrow> (old, fs)
      | BUS_PCI (Some info) \<Rightarrow>
          (case LS_DRICreatePCIBusID mem info of
             None \<Rightarrow> (old, fs)
           | Some busid \<Rightarrow>
               if drm_open_ok busid then (fresh_fd E fs, fresh_fd E fs # fs) else (-1, fs))
      | BUS_OTHER devicename \<Rightarrow> LS_OpenHW E devicename fs)"

definition ms_get_drm_master_fd ::
  "fd_env \<Rightarrow> (string \<Rightarrow> bool) \<Rightarrow> bool \<Rightarrow> bus_location \<Rightarrow> nat \<Rightarrow> fd_world \<Rightarrow> bool \<times> fd_world" where
  "ms_get_drm_master_fd E drm_open_ok mem loc scr w =
     (let cached_fd = LS_EntityGetCachedFd (ent w) in
      if cached_fd \<noteq> 0 then
        (True, w\<lparr>ms_fd := (ms_fd w)(scr := Some cached_fd),
                 ent := snd (LS_EntityIncreaseFdReference (ent w))\<rparr>)
      else
        let w = w\<lparr>ms_fd_passed := (ms_fd_passed w)(scr := False)\<rparr>;
            (fd, fs) = LS_GetPassedFD E (fds w)
        in if fd \<ge> 0 then
             (True, w\<lparr>ms_fd := (ms_fd w)(scr := Some fd), fds := fs,
                      ms_fd_passed := (ms_fd_passed w)(scr := True)\<rparr>)
           else
             let (fd, fs) = open_by_location E drm_open_ok mem loc fs fd;
                 w = w\<lparr>ms_fd := (ms_fd w)(scr := Some fd), fds := fs\<rparr>
             in if fd < 0 then (False, w)
                else (True, w\<lparr>ent := LS_EntityInitFd fd (ent w)\<rparr>))"

definition FreeRec :: "bus_location \<Rightarrow> nat \<Rightarrow> fd_world \<Rightarrow> fd_world" where
  "FreeRec loc scr w =
     (case ms_fd w scr of
        None \<Rightarrow> w
      | Some fd \<Rightarrow>
          let w = (if fd > 0 then
                     (case LS_EntityDecreaseFdReference (ent w) of (r, e) \<Rightarrow>
                        let w = w\<lparr>ent := e\<rparr> in
                        if r = 0 then
                          (case loc of
                             BUS_PLATFORM (Some sfd) path \<Rightarrow> w
                           | _ \<Rightarrow> w\<lparr>fds := sys_close fd (fds w)\<rparr>)
                        else w)
                   else w)
          in w\<lparr>ms_fd := (ms_fd w)(scr := None)\<rparr>)"

section \<open>Probing\<close>

definition probe_pci_hw ::
  "fd_env \<Rightarrow> bool \<Rightarrow> string option \<Rightarrow> pci_device \<Rightarrow> int list \<Rightarrow> int \<times> int list" where
  "probe_pci_hw E mem dev pdev fs =
     (case LS_OpenHW E dev fs of (fd, fs) \<Rightarrow>
        if fd = -1 then (0, fs)
        else if \<not> set_version_ok E fd then (0, sys_close fd fs)
        else
          let id = bus_id_of E fd;
              devid = LS_DRICreatePCIBusID mem pdev;
              ret = (if id \<noteq> None \<and> devid \<noteq> None \<and> id = devid then LS_CheckOutputs E fd else 0)
          in (ret, sys_close fd fs))"

definition probe_hw :: "fd_env \<Rightarrow> int option \<Rightarrow> string option \<Rightarrow> int list \<Rightarrow> int \<times> int list" where
  "probe_hw E server_fd path fs =
     (case server_fd of
        Some fd \<Rightarrow> if fd = -1 then (0, fs) else (LS_CheckOutputs E fd, fs)
      | None \<Rightarrow>
          (case LS_OpenHW E path fs of (fd, fs) \<Rightarrow>
             if fd \<noteq> -1 then (LS_CheckOutputs E fd, sys_close fd fs) else (0, fs)))"

text \<open>
  The loop of \<^verbatim>\<open>LS_Probe\<close> over the device sections (each the value of its
  \<^verbatim>\<open>kmsdev\<close> option). \<open>claim i\<close> is the entity number
  \<^verbatim>\<open>xf86ClaimFbSlot\<close> gives for section \<open>i\<close>, \<open>config i scrn\<close> tells whether
  \<^verbatim>\<open>xf86ConfigFbEntity\<close> returns a screen. The list collects, for each section that
  reaches \<^verbatim>\<open>LS_SetupEntity\<close>, the entity number passed, \<open>None\<close> when the C
  variable has not been assigned in that iteration.
\<close>

fun LS_Probe_loop ::
  "fd_env \<Rightarrow> (nat \<Rightarrow> int) \<Rightarrow> (nat \<Rightarrow> bool \<Rightarrow> bool) \<Rightarrow> nat \<Rightarrow> string option list \<Rightarrow>
     bool \<Rightarrow> bool \<Rightarrow> int list \<Rightarrow> bool \<times> int option list \<times> int list" where
  "LS_Probe_loop E claim config i [] scrn found fs = (found, [], fs)"
| "LS_Probe_loop E claim config i (dev # devs) scrn found fs =
     (case LS_OpenHW E dev fs of (fd, fs) \<Rightarrow>
        let (res, fs) = (if fd \<noteq> -1 then (LS_CheckOutputs E fd, sys_close fd fs) else (0, fs));
            entity_num = (if res \<noteq> 0 then Some (claim i) else None);
            scrn = (if res \<noteq> 0 then config i scrn else scrn)
        in case LS_Probe_loop E claim config (i + 1) devs scrn (found \<or> scrn) fs of
             (found, setups, fs) \<Rightarrow>
               (found, (if scrn then entity_num # setups else setups), fs))"

text \<open>\<^verbatim>\<open>PROBE_DETECT\<close> is bit 0 of the flags.\<close>

definition LS_Probe ::
  "fd_env \<Rightarrow> (nat \<Rightarrow> int) \<Rightarrow> (nat \<Rightarrow> bool \<Rightarrow> bool) \<Rightarrow> bool \<Rightarrow> string option list \<Rightarrow> int list \<Rightarrow>
     bool \<times> int option list \<times> int list" where
  "LS_Probe E claim config probe_detect devSections fs =
     (if probe_detect then (False, [], fs)
      else if devSections = [] then (False, [], fs)
      else LS_Probe_loop E claim config 0 devSections False False fs)"

section \<open>Lemmas\<close>

text \<open>
  What the operating system guarantees of the descriptors it hands out: they are not
  negative and not in use.
\<close>

definition os_ok :: "fd_env \<Rightarrow> bool" where
  "os_ok E \<longleftrightarrow> (\<forall>fs. 0 \<le> fresh_fd E fs \<and> fresh_fd E fs \<notin> set fs)"

lemma os_okD [simp]:
  assumes "os_ok E"
  shows "0 \<le> fresh_fd E fs" and "fresh_fd E fs \<notin> set fs" and "fresh_fd E fs \<noteq> -1"
proof -
  show "0 \<le> fresh_fd E fs" and "fresh_fd E fs \<notin> set fs" using assms by (auto simp: os_ok_def)
  then show "fresh_fd E fs \<noteq> -1" by (metis not_one_le_zero neg_0_le_iff_le)
qed

lemma LS_OpenHW_cases:
  assumes "os_ok E"
  obtains (failed) "LS_OpenHW E dev fs = (-1, fs)"
  | (opened) fd where "LS_OpenHW E dev fs = (fd, fd # fs)" and "0 \<le> fd" and "fd \<notin> set fs"
proof -
  have "LS_OpenHW E dev fs = (-1, fs) \<or>
        (\<exists>fd. LS_OpenHW E dev fs = (fd, fd # fs) \<and> 0 \<le> fd \<and> fd \<notin> set fs)"
    using assms
    by (simp add: LS_OpenHW_def LS_GetPassedFD_def sys_dup_def sys_open_def split: option.split)
  then show thesis using failed opened by blast
qed

lemma LS_Probe_loop_fds:
  "os_ok E \<Longrightarrow> snd (snd (LS_Probe_loop E claim config i devs scrn found fs)) = fs"
proof (induction devs arbitrary: i scrn found fs)
  case Nil
  then show ?case by simp
next
  case (Cons dev devs)
  show ?case
    using Cons.prems
    by (rule LS_OpenHW_cases [of E dev fs])
       (simp_all add: sys_close_def Let_def case_prod_beta Cons.IH [OF Cons.prems])
qed

text \<open>
  The probes are clean: whatever the kernel answers, \<^verbatim>\<open>LS_Probe\<close>, the PCI
  probe and the platform probe leave the process with exactly the file descriptors it had.
\<close>

theorem probes_close_what_they_open:
  assumes "os_ok E"
  shows "snd (probe_pci_hw E mem dev pdev fs) = fs \<and>
         snd (probe_hw E server_fd path fs) = fs \<and>
         snd (snd (LS_Probe E claim config detect sections fs)) = fs"
proof (intro conjI)
  show "snd (probe_pci_hw E mem dev pdev fs) = fs"
    using assms
    by (rule LS_OpenHW_cases [of E dev fs]) (simp_all add: probe_pci_hw_def sys_close_def Let_def)
  show "snd (probe_hw E server_fd path fs) = fs"
    using assms
    by (rule LS_OpenHW_cases [of E path fs])
       (simp_all add: probe_hw_def sys_close_def split: option.split)
  show "snd (snd (LS_Probe E claim config detect sections fs)) = fs"
    using assms by (simp add: LS_Probe_def LS_Probe_loop_fds)
qed

text \<open>An operating system that hands out the least descriptor above those in use.\<close>

definition demo_env :: fd_env where
  "demo_env = \<lparr>xf86DRMMasterFd = -1, dup_ok = True, can_open = (\<lambda>p. p = ''/dev/dri/card0''),
     env_KMSDEVICE = None, fresh_fd = (\<lambda>fs. fold max fs 0 + 1), count_connectors = (\<lambda>fd. Some 2),
     cap_prime = (\<lambda>fd. (0, 0)), set_version_ok = (\<lambda>fd. True), bus_id_of = (\<lambda>fd. None)\<rparr>"

lemma le_fold_max: "(\<forall>x \<in> set fs. x \<le> fold max fs m) \<and> m \<le> fold max fs (m :: int)"
  by (induction fs arbitrary: m) (auto, meson max.boundedE, meson max.boundedE)

lemma os_ok_demo: "os_ok demo_env"
  using le_fold_max [of _ 0] by (fastforce simp: os_ok_def demo_env_def)

lemma probes_close_witness:
  "snd (probe_pci_hw demo_env True None \<lparr>pci_domain = 0, pci_bus = 0, pci_dev = 6, pci_func = 1\<rparr> [0, 1, 2])
     = [0, 1, 2] \<and>
   snd (probe_hw demo_env None (Some ''/dev/dri/card0'') [0, 1, 2]) = [0, 1, 2] \<and>
   snd (snd (LS_Probe demo_env int (\<lambda>i scrn. True) False [None, None] [0, 1, 2])) = [0, 1, 2]"
  by (rule probes_close_what_they_open [OF os_ok_demo])

section \<open>One descriptor for all the screens of an entity\<close>

text \<open>The cached descriptor is a reference-counted object, released by its last screen.\<close>

definition cached_fd_count :: "entity \<Rightarrow> unit \<Rightarrow> int option" where
  "cached_fd_count e u = (if LS_EntityGetCachedFd e = 0 then None else Some (fd_ref e))"

interpretation entity_fd: ref_store cached_fd_count
  "\<lambda>u e. snd (LS_EntityIncreaseFdReference e)" "\<lambda>u e. snd (LS_EntityDecreaseFdReference e)"
  by unfold_locales
     (auto simp: cached_fd_count_def LS_EntityGetCachedFd_def LS_EntityIncreaseFdReference_def
        LS_EntityDecreaseFdReference_def Let_def split: if_splits)

definition holding :: "(nat \<Rightarrow> int option) \<Rightarrow> nat set" where
  "holding f = {scr. \<exists>fd. f scr = Some fd \<and> 0 < fd}"

abbreviation holders :: "fd_world \<Rightarrow> nat set" where
  "holders w \<equiv> holding (ms_fd w)"

text \<open>
  The life of an entity whose descriptor the driver opens itself: no descriptor is passed
  on the command line and none is managed by the server. Screens that hold no descriptor
  take one, in any order, and records are freed, in any order.
\<close>

definition own_device :: "fd_env \<Rightarrow> bus_location \<Rightarrow> bool" where
  "own_device E loc \<longleftrightarrow> xf86DRMMasterFd E < 0 \<and> (\<forall>fd path. loc \<noteq> BUS_PLATFORM (Some fd) path)"

inductive fd_session ::
  "fd_env \<Rightarrow> (string \<Rightarrow> bool) \<Rightarrow> bool \<Rightarrow> bus_location \<Rightarrow> int list \<Rightarrow> fd_world \<Rightarrow> bool"
  for E P mem loc F where
  start: "fd_session E P mem loc F
            \<lparr>ent = zero_entity, fds = F, ms_fd = (\<lambda>_. None), ms_fd_passed = (\<lambda>_. False)\<rparr>"
| take_fd: "fd_session E P mem loc F w \<Longrightarrow> scr \<notin> holders w \<Longrightarrow>
            fd_session E P mem loc F (snd (ms_get_drm_master_fd E P mem loc scr w))"
| drop_fd: "fd_session E P mem loc F w \<Longrightarrow> fd_session E P mem loc F (FreeRec loc scr w)"

lemma open_by_location_cases:
  assumes "os_ok E" and "own_device E loc"
  obtains (failed) "open_by_location E P mem loc fs (-1) = (-1, fs)"
  | (opened) fd where "open_by_location E P mem loc fs (-1) = (fd, fd # fs)"
      and "0 \<le> fd" and "fd \<notin> set fs"
proof -
  have "open_by_location E P mem loc fs (-1) = (-1, fs) \<or>
      (\<exists>fd. open_by_location E P mem loc fs (-1) = (fd, fd # fs) \<and> 0 \<le> fd \<and> fd \<notin> set fs)"
  proof (cases loc)
    case (BUS_PCI i)
    then show ?thesis using assms(1) by (simp add: open_by_location_def split: option.split)
  next
    case (BUS_PLATFORM sfd path)
    with assms(2) have "sfd = None" by (cases sfd) (auto simp: own_device_def)
    then show ?thesis using BUS_PLATFORM LS_OpenHW_cases [OF assms(1), of path fs]
      by (auto simp: open_by_location_def)
  next
    case (BUS_OTHER path)
    then show ?thesis using LS_OpenHW_cases [OF assms(1), of path fs]
      by (auto simp: open_by_location_def)
  qed
  then show thesis using failed opened by blast
qed

definition session_inv :: "int list \<Rightarrow> fd_world \<Rightarrow> bool" where
  "session_inv F w \<longleftrightarrow>
     finite (holders w) \<and>
     entity_fd.owned (replicate_mset (card (holders w)) ()) (ent w) \<and>
     (if holders w = {} then fds w = F
      else e_fd (ent w) > 0 \<and> e_fd (ent w) \<notin> set F \<and> fds w = e_fd (ent w) # F \<and>
           (\<forall>scr \<in> holders w. ms_fd w scr = Some (e_fd (ent w))))"

lemma owned_empty_iff: "entity_fd.owned {#} e \<longleftrightarrow> e_fd e = 0"
  by (simp add: entity_fd.owned_def cached_fd_count_def LS_EntityGetCachedFd_def)

lemma owned_Suc_iff:
  "entity_fd.owned (replicate_mset (Suc n) ()) e \<longleftrightarrow> e_fd e \<noteq> 0 \<and> fd_ref e = int (Suc n)"
  by (auto simp: entity_fd.owned_def cached_fd_count_def LS_EntityGetCachedFd_def)

lemma holders_upd:
  "holding (f(scr := r)) =
     (if \<exists>fd. r = Some fd \<and> 0 < fd then insert scr (holding f) else holding f - {scr})"
  by (auto simp: holding_def)

lemma session_inv_idle:
  "session_inv F w \<Longrightarrow> holders w = {} \<longleftrightarrow> e_fd (ent w) = 0"
  by (auto simp: session_inv_def owned_empty_iff split: if_splits)

lemma session_take:
  assumes inv: "session_inv F w" and E: "os_ok E" "own_device E loc" "0 \<in> set F"
    and scr: "scr \<notin> holders w"
  shows "session_inv F (snd (ms_get_drm_master_fd E P mem loc scr w))"
proof (cases "holders w = {}")
  case True
  with inv have fd0: "e_fd (ent w) = 0" and fds: "fds w = F"
    using session_inv_idle [OF inv] by (simp_all add: session_inv_def)
  have none: "LS_GetPassedFD E fs = (-1, fs)" for fs
    using E(2) by (simp add: own_device_def LS_GetPassedFD_def)
  show ?thesis
  proof (rule open_by_location_cases [OF E(1,2), of P mem F])
    assume "open_by_location E P mem loc F (-1) = (-1, F)"
    then show ?thesis using True fd0 fds
      by (auto simp: ms_get_drm_master_fd_def Let_def LS_EntityGetCachedFd_def none
          session_inv_def owned_empty_iff holders_upd)
  next
    fix fd
    assume fd: "open_by_location E P mem loc F (-1) = (fd, fd # F)" "0 \<le> fd" "fd \<notin> set F"
    with E(3) have "0 < fd" by (cases "fd = 0") auto
    with fd show ?thesis using True fd0 fds
      using owned_Suc_iff [of 0 "LS_EntityInitFd fd (ent w)"]
      by (auto simp: ms_get_drm_master_fd_def Let_def LS_EntityGetCachedFd_def none
          session_inv_def holders_upd LS_EntityInitFd_def)
  qed
next
  case False
  with inv have fd: "e_fd (ent w) > 0" by (simp add: session_inv_def)
  let ?e = "snd (LS_EntityIncreaseFdReference (ent w))"
  from False inv have "entity_fd.owned (add_mset () (replicate_mset (card (holders w)) ())) ?e"
    by (intro entity_fd.acquire_owned) (auto simp: session_inv_def card_gt_0_iff)
  moreover have "e_fd ?e = e_fd (ent w)"
    by (simp add: LS_EntityIncreaseFdReference_def Let_def)
  ultimately show ?thesis using False fd inv scr
    by (auto simp: ms_get_drm_master_fd_def LS_EntityGetCachedFd_def session_inv_def holders_upd)
qed

lemma session_drop:
  assumes inv: "session_inv F w" and loc: "own_device E loc"
  shows "session_inv F (FreeRec loc scr w)"
proof (cases "scr \<in> holders w")
  case False
  have "FreeRec loc scr w = w \<or> FreeRec loc scr w = w\<lparr>ms_fd := (ms_fd w)(scr := None)\<rparr>"
    using False by (auto simp: FreeRec_def holding_def split: option.split)
  moreover have "holders w - {scr} = holders w" using False by auto
  ultimately show ?thesis using inv False by (auto simp: session_inv_def holders_upd split: if_splits)
next
  case True
  then obtain fd where fd: "ms_fd w scr = Some fd" "0 < fd" by (auto simp: holding_def)
  let ?e = "snd (LS_EntityDecreaseFdReference (ent w))"
  from True have ne: "holders w \<noteq> {}" by auto
  with inv have fin: "finite (holders w)" and f: "e_fd (ent w) > 0" "fds w = e_fd (ent w) # F"
    and all: "\<forall>s \<in> holders w. ms_fd w s = Some (e_fd (ent w))" by (auto simp: session_inv_def)
  obtain n where n: "card (holders w) = Suc n" "card (holders w - {scr}) = n"
    using fin True by (metis card_Suc_Diff1)
  with inv have own: "entity_fd.owned (add_mset () (replicate_mset n ())) (ent w)"
    by (simp add: session_inv_def)
  then have own': "entity_fd.owned (replicate_mset n ()) ?e" by (rule entity_fd.release_owned)
  have ref: "fd_ref (ent w) = int (Suc n)"
    using own owned_Suc_iff [of n "ent w"] by simp
  show ?thesis
  proof (cases n)
    case 0
    with n fin have "holders w - {scr} = {}" by simp
    moreover have "FreeRec loc scr w =
        w\<lparr>ent := ?e, fds := F, ms_fd := (ms_fd w)(scr := None)\<rparr>"
      using 0 ref fd loc f all True
      by (cases loc)
         (auto simp: FreeRec_def LS_EntityDecreaseFdReference_def Let_def sys_close_def
            own_device_def split: option.split)
    ultimately show ?thesis using own' 0 fin n(1) True
      by (simp add: session_inv_def holders_upd card_Diff_singleton)
  next
    case (Suc m)
    with n fin have "holders w - {scr} \<noteq> {}" by (metis card.empty nat.distinct(1))
    moreover have "FreeRec loc scr w = w\<lparr>ent := ?e, ms_fd := (ms_fd w)(scr := None)\<rparr>"
      using Suc ref fd by (simp add: FreeRec_def LS_EntityDecreaseFdReference_def Let_def)
    moreover have "e_fd ?e = e_fd (ent w)"
      using Suc ref by (simp add: LS_EntityDecreaseFdReference_def Let_def)
    ultimately show ?thesis using own' n fin f all inv ne
      by (simp add: session_inv_def holders_upd)
  qed
qed

text \<open>
  C6. The screens of an entity share one descriptor. At every moment of a session the
  process holds exactly one descriptor more than at its start when some screen has the
  device open, and none otherwise; the reference count is the number of those screens and
  all of them hold the cached descriptor, so it is closed once, by the last of them, and
  never while a screen uses it.
\<close>

theorem entity_fd_shared:
  assumes "fd_session E P mem loc F w" and "os_ok E" and "own_device E loc" and "0 \<in> set F"
  shows "finite (holders w) \<and>
         (if holders w = {} then fds w = F \<and> e_fd (ent w) = 0
          else fds w = e_fd (ent w) # F \<and> e_fd (ent w) \<notin> set F \<and>
               fd_ref (ent w) = int (card (holders w)) \<and>
               (\<forall>scr \<in> holders w. ms_fd w scr = Some (e_fd (ent w))))"
proof -
  from assms have inv: "session_inv F w"
  proof (induction rule: fd_session.induct)
    case start
    show ?case by (simp add: session_inv_def holding_def owned_empty_iff zero_entity_def)
  next
    case (take_fd w scr)
    then show ?case by (intro session_take)
  next
    case (drop_fd w scr)
    then show ?case by (intro session_drop)
  qed
  show ?thesis
  proof (cases "holders w = {}")
    case True
    then show ?thesis using inv session_inv_idle [OF inv] by (simp add: session_inv_def)
  next
    case False
    then obtain n where "card (holders w) = Suc n"
      using inv by (metis session_inv_def card_gt_0_iff gr0_conv_Suc)
    then show ?thesis using inv False owned_Suc_iff [of n "ent w"] by (simp add: session_inv_def)
  qed
qed

definition two_heads :: fd_world where
  "two_heads =
     snd (ms_get_drm_master_fd demo_env (\<lambda>_. False) True (BUS_OTHER None) 1
       (snd (ms_get_drm_master_fd demo_env (\<lambda>_. False) True (BUS_OTHER None) 0
          \<lparr>ent = zero_entity, fds = [0, 1, 2], ms_fd = (\<lambda>_. None), ms_fd_passed = (\<lambda>_. False)\<rparr>)))"

lemma entity_fd_shared_witness:
  "fds (FreeRec (BUS_OTHER None) 0 two_heads) = 3 # [0, 1, 2] \<and>
   fds (FreeRec (BUS_OTHER None) 1 (FreeRec (BUS_OTHER None) 0 two_heads)) = [0, 1, 2]"
proof -
  let ?L = "BUS_OTHER None"
  let ?S = "fd_session demo_env (\<lambda>_. False) True ?L [0, 1, 2]"
  note evals = two_heads_def ms_get_drm_master_fd_def FreeRec_def LS_EntityGetCachedFd_def
    zero_entity_def LS_GetPassedFD_def demo_env_def open_by_location_def LS_OpenHW_def sys_open_def
    LS_EntityInitFd_def LS_EntityIncreaseFdReference_def LS_EntityDecreaseFdReference_def
    Let_def holding_def
  have s: "?S two_heads"
    unfolding two_heads_def by (intro fd_session.intros) (auto simp: evals)
  then have s1: "?S (FreeRec ?L 0 two_heads)" by (rule fd_session.drop_fd)
  then have s2: "?S (FreeRec ?L 1 (FreeRec ?L 0 two_heads))" by (rule fd_session.drop_fd)
  have own: "own_device demo_env ?L" by (simp add: own_device_def demo_env_def)
  have "holders (FreeRec ?L 0 two_heads) = {1}" "e_fd (ent (FreeRec ?L 0 two_heads)) = 3"
    "holders (FreeRec ?L 1 (FreeRec ?L 0 two_heads)) = {}"
    by (auto simp: evals split: if_splits)
  then show ?thesis
    using entity_fd_shared [OF s1 os_ok_demo own] entity_fd_shared [OF s2 os_ok_demo own] by simp
qed

text \<open>
  A descriptor passed to the server is not shared. When a master descriptor is passed on
  the command line, the first screen uses a duplicate of it without recording it in the
  entity: the second screen of the entity duplicates it again, and freeing the record of a
  screen counts the entity's references down below zero and closes nothing.
\<close>

theorem passed_fd_not_shared:
  assumes "os_ok E" and "0 \<le> xf86DRMMasterFd E" and "dup_ok E" and "0 \<in> set (fds w)"
    and "e_fd (ent w) = 0"
  shows "\<exists>fd w'. ms_get_drm_master_fd E P mem loc scr w = (True, w') \<and>
           ms_fd w' scr = Some fd \<and> fds w' = fd # fds w \<and> fd \<notin> set (fds w) \<and> ent w' = ent w \<and>
           (fd_ref (ent w) \<le> 0 \<longrightarrow>
              fd_ref (ent (FreeRec loc scr w')) = fd_ref (ent w) - 1 \<and>
              fd \<in> set (fds (FreeRec loc scr w')))"
proof -
  let ?fd = "fresh_fd E (fds w)"
  have "?fd \<notin> set (fds w)" "0 \<le> ?fd" using assms(1) by simp_all
  with assms(4) have pos: "0 < ?fd" by (cases "?fd = 0") auto
  let ?w = "w\<lparr>ms_fd := (ms_fd w)(scr := Some ?fd), fds := ?fd # fds w,
              ms_fd_passed := (ms_fd_passed w)(scr := True)\<rparr>"
  have "ms_get_drm_master_fd E P mem loc scr w = (True, ?w)"
    using assms pos
    by (simp add: ms_get_drm_master_fd_def LS_EntityGetCachedFd_def LS_GetPassedFD_def sys_dup_def
        Let_def)
  moreover have "fd_ref (ent w) \<le> 0 \<Longrightarrow>
      fd_ref (ent (FreeRec loc scr ?w)) = fd_ref (ent w) - 1 \<and> ?fd \<in> set (fds (FreeRec loc scr ?w))"
    using pos by (simp add: FreeRec_def LS_EntityDecreaseFdReference_def Let_def)
  ultimately show ?thesis using \<open>?fd \<notin> set (fds w)\<close> by (intro exI [of _ ?fd] exI [of _ ?w]) simp
qed

lemma passed_fd_witness:
  "\<exists>fd w'. ms_get_drm_master_fd (demo_env\<lparr>xf86DRMMasterFd := 5\<rparr>) (\<lambda>_. False) True (BUS_OTHER None) 0
       \<lparr>ent = zero_entity, fds = [0, 5], ms_fd = (\<lambda>_. None), ms_fd_passed = (\<lambda>_. False)\<rparr> = (True, w') \<and>
     fd_ref (ent (FreeRec (BUS_OTHER None) 0 w')) = -1 \<and> fd \<notin> {0, 5} \<and>
     fd \<in> set (fds (FreeRec (BUS_OTHER None) 0 w'))"
proof -
  let ?E = "demo_env\<lparr>xf86DRMMasterFd := 5\<rparr>"
  have "os_ok ?E" using os_ok_demo by (simp add: os_ok_def demo_env_def)
  moreover have "0 \<le> xf86DRMMasterFd ?E" "dup_ok ?E" by (simp_all add: demo_env_def)
  ultimately show ?thesis
    using passed_fd_not_shared [of ?E
        "\<lparr>ent = zero_entity, fds = [0, 5], ms_fd = (\<lambda>_. None), ms_fd_passed = (\<lambda>_. False)\<rparr>"
        "\<lambda>_. False" True "BUS_OTHER None" 0]
    by (auto simp: zero_entity_def)
qed

end
