(* ===== verification/Driver_State.thy ===== *)
theory Driver_State
  imports Driver_Types Entity_Fd
begin

text \<open>
  The state the display code works on. Everything outside the repository is a parameter:
  \<open>'k kernel\<close> collects the libdrm calls as functions on an abstract kernel state, and
  memory allocation follows an oracle. Pointers to CRTCs and screens are numbers; the
  \<^verbatim>\<open>modesettingRec\<close> of a screen with its \<^verbatim>\<open>drmmode_rec\<close> is one record.
\<close>

section \<open>The kernel and the server\<close>

text \<open>An event \<^verbatim>\<open>drmHandleEvent\<close> reads from the descriptor.\<close>

datatype drm_event =
  EV_VBLANK (ev_frame: u32) (ev_sec: u32) (ev_usec: u32) (ev_user: u32)
| EV_FLIP_COMPLETE (ev_frame: u32) (ev_sec: u32) (ev_usec: u32) (ev_user: u32)
| EV_CRTC_SEQUENCE (ev_frame64: u64) (ev_ns: u64) (ev_user64: u64)

text \<open>
  Each call returns its C result (and \<^verbatim>\<open>errno\<close> where the driver looks at it) with
  its output arguments and the new kernel state. Atomic requests are lists of
  (object, property, value). \<open>drmModeSetCrtc_off\<close> is \<^verbatim>\<open>drmModeSetCrtc\<close> with no
  framebuffer, connector or mode.
\<close>

type_synonym atomic_req = "(u32 \<times> u32 \<times> u64) list"

record 'k kernel =
  drmCrtcGetSequence :: "u32 \<Rightarrow> 'k \<Rightarrow> (int \<times> int \<times> u64 \<times> u64) \<times> 'k"
  drmCrtcQueueSequence :: "u32 \<Rightarrow> u32 \<Rightarrow> u64 \<Rightarrow> u64 \<Rightarrow> 'k \<Rightarrow> (int \<times> int \<times> u64) \<times> 'k"
  drmWaitVBlank :: "u32 \<Rightarrow> u32 \<Rightarrow> u32 \<Rightarrow> 'k \<Rightarrow> (int \<times> int \<times> u32 \<times> u64 \<times> u64) \<times> 'k"
  poll_fd :: "'k \<Rightarrow> (int \<times> int) \<times> 'k"
  drm_read_events :: "'k \<Rightarrow> drm_event list option \<times> 'k"
  drmModeAddFB :: "u32 \<Rightarrow> u32 \<Rightarrow> u8 \<Rightarrow> u8 \<Rightarrow> u32 \<Rightarrow> u32 \<Rightarrow> 'k \<Rightarrow> (int \<times> u32) \<times> 'k"
  drmModeAddFB2WithModifiers ::
    "u32 \<Rightarrow> u32 \<Rightarrow> u32 \<Rightarrow> u32 list \<Rightarrow> u32 list \<Rightarrow> u32 list \<Rightarrow> u64 list \<Rightarrow> 'k \<Rightarrow> (int \<times> u32) \<times> 'k"
  drmModeRmFB :: "u32 \<Rightarrow> 'k \<Rightarrow> 'k"
  drmModePageFlip :: "u32 \<Rightarrow> u32 \<Rightarrow> u32 \<Rightarrow> u32 \<Rightarrow> 'k \<Rightarrow> (int \<times> int) \<times> 'k"
  drmModeAtomicCommit :: "atomic_req \<Rightarrow> u32 \<Rightarrow> u32 \<Rightarrow> 'k \<Rightarrow> (int \<times> int) \<times> 'k"
  drmModeCreatePropertyBlob :: "kmode \<Rightarrow> 'k \<Rightarrow> (int \<times> u32) \<times> 'k"
  drmModeDestroyPropertyBlob :: "u32 \<Rightarrow> 'k \<Rightarrow> 'k"
  drmModeSetCrtc :: "u32 \<Rightarrow> u32 \<Rightarrow> u32 \<Rightarrow> u32 \<Rightarrow> u32 list \<Rightarrow> kmode \<Rightarrow> 'k \<Rightarrow> int \<times> 'k"
  drmModeSetCrtc_off :: "u32 \<Rightarrow> 'k \<Rightarrow> 'k"
  drmModeConnectorSetProperty :: "u32 \<Rightarrow> u32 \<Rightarrow> int \<Rightarrow> 'k \<Rightarrow> 'k"
  drmModeCrtcSetGamma :: "u32 \<Rightarrow> 'k \<Rightarrow> 'k"
  create_dumb :: "u32 \<Rightarrow> u32 \<Rightarrow> u32 \<Rightarrow> 'k \<Rightarrow> (int \<times> u32 \<times> u64 \<times> u32) \<times> 'k"
  map_dumb :: "u32 \<Rightarrow> 'k \<Rightarrow> (int \<times> u64) \<times> 'k"
  sys_mmap :: "u32 \<Rightarrow> u64 \<Rightarrow> 'k \<Rightarrow> (bool \<times> int) \<times> 'k"
  sys_munmap :: "u32 \<Rightarrow> 'k \<Rightarrow> 'k"
  destroy_dumb :: "u32 \<Rightarrow> 'k \<Rightarrow> (int \<times> int) \<times> 'k"
  drmPrimeFDToHandle :: "int \<Rightarrow> 'k \<Rightarrow> (int \<times> u32) \<times> 'k"
  gbm_bo_create :: "u32 \<Rightarrow> u32 \<Rightarrow> u32 \<Rightarrow> 'k \<Rightarrow> gbm_bo option \<times> 'k"
  gbm_bo_create_with_modifiers :: "u32 \<Rightarrow> u32 \<Rightarrow> u32 \<Rightarrow> u64 list \<Rightarrow> 'k \<Rightarrow> gbm_bo option \<times> 'k"
  gbm_bo_destroy :: "gbm_bo \<Rightarrow> 'k \<Rightarrow> 'k"
  gbm_plane_count :: "u32 \<Rightarrow> u64 \<Rightarrow> nat"
  gbm_bo_from_pixmap :: "nat \<Rightarrow> 'k \<Rightarrow> gbm_bo option \<times> 'k"
  glamor_block_handler :: "nat \<Rightarrow> 'k \<Rightarrow> 'k"
  glamor_finish :: "nat \<Rightarrow> 'k \<Rightarrow> 'k"
  drmModeSetCursor2 :: "u32 \<Rightarrow> u32 \<Rightarrow> u32 \<Rightarrow> u32 \<Rightarrow> u32 \<Rightarrow> u32 \<Rightarrow> 'k \<Rightarrow> int \<times> 'k"
  drmModeSetCursor :: "u32 \<Rightarrow> u32 \<Rightarrow> u32 \<Rightarrow> u32 \<Rightarrow> 'k \<Rightarrow> int \<times> 'k"
  drmModeMoveCursor :: "u32 \<Rightarrow> int \<Rightarrow> int \<Rightarrow> 'k \<Rightarrow> 'k"
  write_cursor :: "u32 \<Rightarrow> u32 list \<Rightarrow> 'k \<Rightarrow> 'k"
  pixmap_width :: "nat \<Rightarrow> 'k \<Rightarrow> u32"
  pixmap_height :: "nat \<Rightarrow> 'k \<Rightarrow> u32"
  pixmap_devKind :: "nat \<Rightarrow> 'k \<Rightarrow> u32"
  screen_pixmap :: "nat \<Rightarrow> nat"
  drmModeListLessees :: "'k \<Rightarrow> u32 list option \<times> 'k"
  drmModeCreateLease :: "u32 list \<Rightarrow> 'k \<Rightarrow> (int \<times> u32) \<times> 'k"
  drmModeRevokeLease :: "u32 \<Rightarrow> 'k \<Rightarrow> int \<times> 'k"
  rr_leases :: "nat \<Rightarrow> 'k \<Rightarrow> nat list"
  xf86CrtcLeaseStarted :: "nat \<Rightarrow> 'k \<Rightarrow> 'k"
  xf86CrtcLeaseTerminated :: "nat \<Rightarrow> 'k \<Rightarrow> 'k"
  drmPrimeHandleToFD :: "u32 \<Rightarrow> 'k \<Rightarrow> (int \<times> int) \<times> 'k"
  close_fd :: "int \<Rightarrow> 'k \<Rightarrow> 'k"
  set_devKind :: "nat \<Rightarrow> u32 \<Rightarrow> 'k \<Rightarrow> 'k"
  drmModeDirtyFB :: "u32 \<Rightarrow> (int \<times> int \<times> int \<times> int) list \<Rightarrow> 'k \<Rightarrow> int \<times> 'k"

section \<open>Screens and the driver state\<close>

text \<open>
  An output with its private; \<open>out_koutput\<close> is the connector of \<^verbatim>\<open>mode_output\<close>,
  \<open>None\<close> when that is null.
\<close>

record xf86_output =
  out_id :: int
  out_crtc :: "nat option"
  out_current_crtc :: "nat option"
  out_props :: "prop_info list"
  out_koutput :: "u32 option"
  out_dpms :: int
  out_dpms_enum_id :: u32

text \<open>
  The shadow framebuffers are given by their sizes in bytes, \<open>None\<close> when they are not
  allocated; \<open>damage_set\<close> tells that \<^verbatim>\<open>ms->damage\<close> is not null, \<open>exaDrvPtr\<close> the
  same of the EXA record, \<open>has_gbm\<close> of the GBM device, and \<open>sprite_hooked\<close> that the
  sprite functions of the screen are the driver's.
\<close>

record modesetting =
  config :: "nat list"
  outputs :: "xf86_output list"
  vtSema :: bool
  atomic_modeset :: bool
  pending_modeset :: bool
  has_queue_sequence :: bool
  tried_queue_sequence :: bool
  kms_has_modifiers :: bool
  ms_glamor :: bool
  pageflip :: bool
  depth :: u8
  kbpp :: u8
  fb_id :: u32
  front_bo :: drmmode_bo
  is_reverse_prime_offload :: bool
  sprites_visible :: int
  dri2_flipping :: bool
  present_flipping :: bool
  flip_bo_import_failed :: bool
  virtualX :: int
  virtualY :: int
  displayWidth :: int
  bitsPerPixel :: int
  compat_output :: nat
  has_gbm :: bool
  shadow_enable :: bool
  shadow_enable2 :: bool
  shadow_fb :: "u32 option"
  shadow_fb2 :: "u32 option"
  sw_cursor :: bool
  cursor_width :: u32
  cursor_height :: u32
  lease_private :: "nat \<Rightarrow> u32 option"
  exa_enabled :: bool
  exaDrvPtr :: bool
  exa_acc_type :: nat
  force_24_32 :: bool
  fd_passed :: bool
  damage_set :: bool
  dirty_enabled :: bool
  dri2_enable :: bool
  present_enable :: bool
  sprite_hooked :: bool
  scrn_capabilities :: u32

text \<open>A record as \<^verbatim>\<open>xnfcalloc\<close> leaves it.\<close>

definition zero_ms :: modesetting where
  "zero_ms = \<lparr>config = [], outputs = [], vtSema = False, atomic_modeset = False,
     pending_modeset = False, has_queue_sequence = False, tried_queue_sequence = False,
     kms_has_modifiers = False, ms_glamor = False, pageflip = False, depth = 0, kbpp = 0,
     fb_id = 0, front_bo = no_bo, is_reverse_prime_offload = False, sprites_visible = 0,
     dri2_flipping = False, present_flipping = False, flip_bo_import_failed = False,
     virtualX = 0, virtualY = 0, displayWidth = 0, bitsPerPixel = 0, compat_output = 0,
     has_gbm = False, shadow_enable = False, shadow_enable2 = False, shadow_fb = None,
     shadow_fb2 = None, sw_cursor = False, cursor_width = 0, cursor_height = 0,
     lease_private = (\<lambda>_. None), exa_enabled = False, exaDrvPtr = False,
     exa_acc_type = 0, force_24_32 = False, fd_passed = False, damage_set = False, dirty_enabled = False,
     dri2_enable = False, present_enable = False, sprite_hooked = False, scrn_capabilities = 0\<rparr>"

text \<open>
  The private of a pixmap (\<^verbatim>\<open>msPixmapPrivRec\<close>), as far as scanning it out and
  flipping shared pixmaps goes.
\<close>

record pixmap_priv =
  pp_fb_id :: u32
  pp_backing_bo :: "dumb_bo option"
  pp_flip_seq :: u32
  pp_wait_for_damage :: bool
  pp_defer_dirty_update :: bool
  pp_notify_on_damage :: bool
  pp_slave_damage :: bool
  pp_slave_src :: "nat option"
  pp_dirty :: "nat option"

definition zero_ppriv :: pixmap_priv where
  "zero_ppriv = \<lparr>pp_fb_id = 0, pp_backing_bo = None, pp_flip_seq = 0, pp_wait_for_damage = False,
     pp_defer_dirty_update = False, pp_notify_on_damage = False, pp_slave_damage = False,
     pp_slave_src = None, pp_dirty = None\<rparr>"

text \<open>
  An entry of the DRM event queue. \<^verbatim>\<open>handler\<close>, \<^verbatim>\<open>abort\<close> and
  \<^verbatim>\<open>data\<close> always come together, so one value of type \<open>'d\<close> stands for the three:
  its constructor tells the functions, its arguments the data.
\<close>

record 'd drm_entry =
  q_crtc :: nat
  q_seq :: u32
  q_data :: 'd
  q_scrn :: nat

record ('d, 'k) drm =
  mem_ok :: "bool list"
  kst :: 'k
  errno :: int
  ms_drm_seq :: u32
  ms_drm_queue :: "'d drm_entry list"
  crtcs :: "nat \<Rightarrow> crtc"
  mss :: "nat \<Rightarrow> modesetting"
  ppriv :: "nat \<Rightarrow> pixmap_priv"
  entity_of :: entity
  notify_fd :: bool

text \<open>
  Memory allocation: the next answer of the oracle, success once it is used up.
\<close>

definition calloc :: "('d, 'k, 'z) drm_scheme \<Rightarrow> bool \<times> ('d, 'k, 'z) drm_scheme" where
  "calloc s = (case mem_ok s of [] \<Rightarrow> (True, s) | b # bs \<Rightarrow> (b, s\<lparr>mem_ok := bs\<rparr>))"

definition upd_crtc :: "nat \<Rightarrow> (crtc \<Rightarrow> crtc) \<Rightarrow> ('d, 'k, 'z) drm_scheme \<Rightarrow> ('d, 'k, 'z) drm_scheme" where
  "upd_crtc p f s = s\<lparr>crtcs := (crtcs s)(p := f (crtcs s p))\<rparr>"

definition upd_ms ::
  "nat \<Rightarrow> (modesetting \<Rightarrow> modesetting) \<Rightarrow> ('d, 'k, 'z) drm_scheme \<Rightarrow> ('d, 'k, 'z) drm_scheme" where
  "upd_ms scr f s = s\<lparr>mss := (mss s)(scr := f (mss s scr))\<rparr>"

definition upd_ppriv ::
  "nat \<Rightarrow> (pixmap_priv \<Rightarrow> pixmap_priv) \<Rightarrow> ('d, 'k, 'z) drm_scheme \<Rightarrow> ('d, 'k, 'z) drm_scheme" where
  "upd_ppriv p f s = s\<lparr>ppriv := (ppriv s)(p := f (ppriv s p))\<rparr>"

text \<open>The \<^verbatim>\<open>ms\<close> of the screen a CRTC belongs to.\<close>

abbreviation ms_of_crtc :: "('d, 'k, 'z) drm_scheme \<Rightarrow> nat \<Rightarrow> modesetting" where
  "ms_of_crtc s p \<equiv> mss s (crtc_scrn (crtcs s p))"

lemma calloc_queue [frame_simps]:
  "ms_drm_queue (snd (calloc s)) = ms_drm_queue s"
  "ms_drm_seq (snd (calloc s)) = ms_drm_seq s"
  "crtcs (snd (calloc s)) = crtcs s"
  "mss (snd (calloc s)) = mss s"
  "kst (snd (calloc s)) = kst s"
  "drm.more (snd (calloc s)) = drm.more s"
  by (simp_all add: calloc_def split: list.split)

lemma upd_crtc_queue [frame_simps]:
  "ms_drm_queue (upd_crtc p f s) = ms_drm_queue s"
  "ms_drm_seq (upd_crtc p f s) = ms_drm_seq s"
  "mss (upd_crtc p f s) = mss s"
  "kst (upd_crtc p f s) = kst s"
  "mem_ok (upd_crtc p f s) = mem_ok s"
  "drm.more (upd_crtc p f s) = drm.more s"
  by (simp_all add: upd_crtc_def)

lemma upd_ms_queue [frame_simps]:
  "ms_drm_queue (upd_ms p g s) = ms_drm_queue s"
  "ms_drm_seq (upd_ms p g s) = ms_drm_seq s"
  "crtcs (upd_ms p g s) = crtcs s"
  "kst (upd_ms p g s) = kst s"
  "mem_ok (upd_ms p g s) = mem_ok s"
  "drm.more (upd_ms p g s) = drm.more s"
  by (simp_all add: upd_ms_def)

text \<open>
  A kernel that refuses every request; the concrete kernels of the examples are updates of it.
\<close>

definition dead_kernel :: "'k kernel" where
  "dead_kernel = \<lparr>
     drmCrtcGetSequence = (\<lambda>c k. ((-1, EINVAL, 0, 0), k)),
     drmCrtcQueueSequence = (\<lambda>c f q u k. ((-1, EINVAL, 0), k)),
     drmWaitVBlank = (\<lambda>t q u k. ((-1, EINVAL, 0, 0, 0), k)),
     poll_fd = (\<lambda>k. ((0, 0), k)),
     drm_read_events = (\<lambda>k. (None, k)),
     drmModeAddFB = (\<lambda>w h d b p hd k. ((- EINVAL, 0), k)),
     drmModeAddFB2WithModifiers = (\<lambda>w h f hs ss offs ms k. ((- EINVAL, 0), k)),
     drmModeRmFB = (\<lambda>fb k. k),
     drmModePageFlip = (\<lambda>c fb f u k. ((- EINVAL, EINVAL), k)),
     drmModeAtomicCommit = (\<lambda>r f u k. ((- EINVAL, EINVAL), k)),
     drmModeCreatePropertyBlob = (\<lambda>m k. ((- EINVAL, 0), k)),
     drmModeDestroyPropertyBlob = (\<lambda>b k. k),
     drmModeSetCrtc = (\<lambda>c fb x y os m k. (- EINVAL, k)),
     drmModeSetCrtc_off = (\<lambda>c k. k),
     drmModeConnectorSetProperty = (\<lambda>c p v k. k),
     drmModeCrtcSetGamma = (\<lambda>c k. k),
     create_dumb = (\<lambda>w h b k. ((-1, 0, 0, 0), k)),
     map_dumb = (\<lambda>h k. ((-1, 0), k)),
     sys_mmap = (\<lambda>n off k. ((False, EINVAL), k)),
     sys_munmap = (\<lambda>n k. k),
     destroy_dumb = (\<lambda>h k. ((-1, EINVAL), k)),
     drmPrimeFDToHandle = (\<lambda>fd k. ((-1, 0), k)),
     gbm_bo_create = (\<lambda>w h f k. (None, k)),
     gbm_bo_create_with_modifiers = (\<lambda>w h f ms k. (None, k)),
     gbm_bo_destroy = (\<lambda>g k. k),
     gbm_plane_count = (\<lambda>f m. 1),
     gbm_bo_from_pixmap = (\<lambda>p k. (None, k)),
     glamor_block_handler = (\<lambda>scr k. k),
     glamor_finish = (\<lambda>scr k. k),
     drmModeSetCursor2 = (\<lambda>c h w ht x y k. (- ENXIO, k)),
     drmModeSetCursor = (\<lambda>c h w ht k. (- ENXIO, k)),
     drmModeMoveCursor = (\<lambda>c x y k. k),
     write_cursor = (\<lambda>h px k. k),
     pixmap_width = (\<lambda>p k. 0), pixmap_height = (\<lambda>p k. 0), pixmap_devKind = (\<lambda>p k. 0),
     screen_pixmap = (\<lambda>scr. 0),
     drmModeListLessees = (\<lambda>k. (None, k)),
     drmModeCreateLease = (\<lambda>os k. ((- EINVAL, 0), k)),
     drmModeRevokeLease = (\<lambda>l k. (- EINVAL, k)),
     rr_leases = (\<lambda>scr k. []), xf86CrtcLeaseStarted = (\<lambda>l k. k), xf86CrtcLeaseTerminated = (\<lambda>l k. k),
     drmPrimeHandleToFD = (\<lambda>h k. ((-1, 0), k)), close_fd = (\<lambda>fd k. k), set_devKind = (\<lambda>p d k. k),
     drmModeDirtyFB = (\<lambda>fb cs k. (- ENOSYS, k))\<rparr>"

text \<open>A driver state with nothing pending.\<close>

definition idle_drm :: "'k \<Rightarrow> ('d, 'k) drm" where
  "idle_drm k = \<lparr>mem_ok = [], kst = k, errno = 0, ms_drm_seq = 0, ms_drm_queue = [],
     crtcs = (\<lambda>_. zero_crtc), mss = (\<lambda>_. zero_ms), ppriv = (\<lambda>_. zero_ppriv), entity_of = zero_entity, notify_fd = False\<rparr>"

end
