(* ===== verification/Event_Queue.thy ===== *)
theory Event_Queue
  imports Driver_State
begin

text \<open>
  The queue of pending DRM events (\<^verbatim>\<open>src/src/vblank.c\<close>): every request to the kernel
  carries the sequence number of an entry, the kernel's answer removes the entry and calls
  its handler, and an entry whose request failed, or whose screen is closed, is aborted.
  \<open>ab\<close> stands for the call \<^verbatim>\<open>q->abort(q->data)\<close>.
\<close>

section \<open>Operations\<close>

definition ms_drm_queue_alloc ::
  "nat \<Rightarrow> 'd \<Rightarrow> ('d, 'k, 'z) drm_scheme \<Rightarrow> u32 \<times> ('d, 'k, 'z) drm_scheme" where
  "ms_drm_queue_alloc p data s =
     (case calloc s of (ok, s) \<Rightarrow>
        if \<not> ok then (0, s)
        else
          let sq = (if ms_drm_seq s = 0 then ms_drm_seq s + 1 else ms_drm_seq s);
              q = \<lparr>q_crtc = p, q_seq = sq, q_data = data, q_scrn = crtc_scrn (crtcs s p)\<rparr>
          in (sq, s\<lparr>ms_drm_seq := sq + 1, ms_drm_queue := q # ms_drm_queue s\<rparr>))"

definition ms_drm_abort_one ::
  "('d \<Rightarrow> ('d, 'k, 'z) drm_scheme \<Rightarrow> ('d, 'k, 'z) drm_scheme) \<Rightarrow> 'd drm_entry \<Rightarrow>
     ('d, 'k, 'z) drm_scheme \<Rightarrow> ('d, 'k, 'z) drm_scheme" where
  "ms_drm_abort_one ab q s = ab (q_data q) (s\<lparr>ms_drm_queue := remove1 q (ms_drm_queue s)\<rparr>)"

definition ms_drm_abort_scrn ::
  "('d \<Rightarrow> ('d, 'k, 'z) drm_scheme \<Rightarrow> ('d, 'k, 'z) drm_scheme) \<Rightarrow> nat \<Rightarrow>
     ('d, 'k, 'z) drm_scheme \<Rightarrow> ('d, 'k, 'z) drm_scheme" where
  "ms_drm_abort_scrn ab scr s =
     fold (\<lambda>q s. if q_scrn q = scr then ms_drm_abort_one ab q s else s) (ms_drm_queue s) s"

definition ms_drm_abort_seq ::
  "('d \<Rightarrow> ('d, 'k, 'z) drm_scheme \<Rightarrow> ('d, 'k, 'z) drm_scheme) \<Rightarrow> u32 \<Rightarrow>
     ('d, 'k, 'z) drm_scheme \<Rightarrow> ('d, 'k, 'z) drm_scheme" where
  "ms_drm_abort_seq ab sq s =
     (case find (\<lambda>q. q_seq q = sq) (ms_drm_queue s) of
        None \<Rightarrow> s
      | Some q \<Rightarrow> ms_drm_abort_one ab q s)"

definition ms_drm_abort ::
  "('d \<Rightarrow> ('d, 'k, 'z) drm_scheme \<Rightarrow> ('d, 'k, 'z) drm_scheme) \<Rightarrow> ('d \<Rightarrow> bool) \<Rightarrow>
     ('d, 'k, 'z) drm_scheme \<Rightarrow> ('d, 'k, 'z) drm_scheme" where
  "ms_drm_abort ab match s =
     (case find (\<lambda>q. match (q_data q)) (ms_drm_queue s) of
        None \<Rightarrow> s
      | Some q \<Rightarrow> ms_drm_abort_one ab q s)"

section \<open>Lemmas on the operations\<close>

lemma queue_alloc_cases:
  obtains (failed) s' where "ms_drm_queue_alloc p data s = (0, s')"
      and "ms_drm_queue s' = ms_drm_queue s" and "ms_drm_seq s' = ms_drm_seq s"
  | (queued) s' sq where "ms_drm_queue_alloc p data s = (sq, s')"
      and "sq = (if ms_drm_seq s = 0 then 1 else ms_drm_seq s)" and "sq \<noteq> 0"
      and "ms_drm_seq s' = sq + 1"
      and "ms_drm_queue s' =
        \<lparr>q_crtc = p, q_seq = sq, q_data = data, q_scrn = crtc_scrn (crtcs s p)\<rparr> # ms_drm_queue s"
proof (cases "fst (calloc s)")
  case False
  then show thesis
    by (intro failed [of "snd (calloc s)"])
       (simp_all add: ms_drm_queue_alloc_def case_prod_beta frame_simps)
next
  case True
  let ?sq = "if ms_drm_seq s = 0 then 1 else ms_drm_seq s"
  let ?q = "\<lparr>q_crtc = p, q_seq = ?sq, q_data = data, q_scrn = crtc_scrn (crtcs s p)\<rparr>"
  show thesis
    by (rule queued [of ?sq "(snd (calloc s))\<lparr>ms_drm_seq := ?sq + 1,
                                  ms_drm_queue := ?q # ms_drm_queue s\<rparr>"])
       (use True in \<open>simp_all add: ms_drm_queue_alloc_def case_prod_beta frame_simps Let_def\<close>)
qed

text \<open>What an abort callback may not do: touch the queue.\<close>

definition quiet :: "('d \<Rightarrow> ('d, 'k, 'z) drm_scheme \<Rightarrow> ('d, 'k, 'z) drm_scheme) \<Rightarrow> bool" where
  "quiet ab \<longleftrightarrow> (\<forall>d s. ms_drm_queue (ab d s) = ms_drm_queue s \<and> ms_drm_seq (ab d s) = ms_drm_seq s)"

lemma quietD [simp]:
  "quiet ab \<Longrightarrow> ms_drm_queue (ab d s) = ms_drm_queue s"
  "quiet ab \<Longrightarrow> ms_drm_seq (ab d s) = ms_drm_seq s"
  by (simp_all add: quiet_def)

lemma abort_one_queue:
  "quiet ab \<Longrightarrow> ms_drm_queue (ms_drm_abort_one ab q s) = remove1 q (ms_drm_queue s)"
  "quiet ab \<Longrightarrow> ms_drm_seq (ms_drm_abort_one ab q s) = ms_drm_seq s"
  by (simp_all add: ms_drm_abort_one_def)

lemma abort_seq_queue:
  "quiet ab \<Longrightarrow> ms_drm_queue (ms_drm_abort_seq ab sq s) =
     (case find (\<lambda>q. q_seq q = sq) (ms_drm_queue s) of
        None \<Rightarrow> ms_drm_queue s | Some q \<Rightarrow> remove1 q (ms_drm_queue s))"
  "quiet ab \<Longrightarrow> ms_drm_seq (ms_drm_abort_seq ab sq s) = ms_drm_seq s"
  by (simp_all add: ms_drm_abort_seq_def abort_one_queue split: option.split)

lemma abort_fold_queue:
  assumes "quiet ab"
  shows "ms_drm_queue (fold (\<lambda>q s. if P q then ms_drm_abort_one ab q s else s) qs s) =
           fold (\<lambda>q es. if P q then remove1 q es else es) qs (ms_drm_queue s) \<and>
         ms_drm_seq (fold (\<lambda>q s. if P q then ms_drm_abort_one ab q s else s) qs s) = ms_drm_seq s"
  by (induction qs arbitrary: s) (simp_all add: abort_one_queue assms)

lemma fold_remove1_filter:
  "\<forall>e \<in> set us. \<not> P e \<Longrightarrow>
     fold (\<lambda>q es. if P q then remove1 q es else es) qs (us @ qs) = us @ filter (\<lambda>q. \<not> P q) qs"
proof (induction qs arbitrary: us)
  case Nil
  then show ?case by simp
next
  case (Cons q qs)
  show ?case
  proof (cases "P q")
    case True
    with Cons.prems have "remove1 q (us @ q # qs) = us @ qs" by (auto simp: remove1_append)
    with True Cons show ?thesis by simp
  next
    case False
    with Cons.IH [of "us @ [q]"] Cons.prems show ?thesis by simp
  qed
qed

lemma abort_scrn_queue:
  assumes "quiet ab"
  shows "ms_drm_queue (ms_drm_abort_scrn ab scr s) = filter (\<lambda>q. q_scrn q \<noteq> scr) (ms_drm_queue s)"
    and "ms_drm_seq (ms_drm_abort_scrn ab scr s) = ms_drm_seq s"
  using abort_fold_queue [OF assms, of "\<lambda>q. q_scrn q = scr" "ms_drm_queue s" s]
    fold_remove1_filter [of "[]" "\<lambda>q. q_scrn q = scr" "ms_drm_queue s"]
  by (simp_all add: ms_drm_abort_scrn_def)

end
