(* ===== verification/Msc_Counter.thy ===== *)
theory Msc_Counter
  imports Event_Queue
begin

text \<open>
  Frame counters (\<^verbatim>\<open>src/src/vblank.c\<close>, second half): the 64-bit counter the driver
  keeps over the kernel's 32-bit one, reading the current count, queueing an event for a
  frame, and the dispatch of the kernel's answers to the entries of the queue.
\<close>

section \<open>From the kernel's counter to the driver's\<close>

text \<open>
  \<^verbatim>\<open>sequence\<close> and \<^verbatim>\<open>msc_prev\<close> are compared as \<^verbatim>\<open>int64_t\<close>.
\<close>

definition kernel_msc_to_crtc_msc :: "u64 \<Rightarrow> bool \<Rightarrow> crtc \<Rightarrow> u64 \<times> crtc" where
  "kernel_msc_to_crtc_msc sequence is64bit c =
     (if \<not> is64bit then
        let prev = sint (ucast (msc_prev c) :: u64);
            high = (if sint sequence < prev - 0x40000000 then msc_high c + 0x100000000 else msc_high c);
            high = (if sint sequence > prev + 0x40000000 then high - 0x100000000 else high)
        in (high + sequence, c\<lparr>msc_prev := ucast sequence, msc_high := high\<rparr>)
      else
        (sequence, c\<lparr>msc_prev := ucast sequence, msc_high := sequence AND 0xffffffff00000000\<rparr>))"

definition ms_kernel_msc_to_crtc_msc ::
  "nat \<Rightarrow> u64 \<Rightarrow> bool \<Rightarrow> ('d, 'k, 'z) drm_scheme \<Rightarrow> u64 \<times> ('d, 'k, 'z) drm_scheme" where
  "ms_kernel_msc_to_crtc_msc p sequence is64bit s =
     (case kernel_msc_to_crtc_msc sequence is64bit (crtcs s p) of
        (msc, c) \<Rightarrow> (msc, upd_crtc p (\<lambda>_. c) s))"

section \<open>Reading the counter\<close>

abbreviation (input) DRM_VBLANK_RELATIVE :: u32 where "DRM_VBLANK_RELATIVE \<equiv> 0x1"
abbreviation (input) DRM_VBLANK_EVENT :: u32 where "DRM_VBLANK_EVENT \<equiv> 0x4000000"
abbreviation (input) DRM_VBLANK_NEXTONMISS :: u32 where "DRM_VBLANK_NEXTONMISS \<equiv> 0x10000000"
abbreviation (input) DRM_CRTC_SEQUENCE_RELATIVE :: u32 where "DRM_CRTC_SEQUENCE_RELATIVE \<equiv> 0x1"
abbreviation (input) DRM_CRTC_SEQUENCE_NEXT_ON_MISS :: u32 where
  "DRM_CRTC_SEQUENCE_NEXT_ON_MISS \<equiv> 0x2"

text \<open>
  The result, and what is written through the pointers \<^verbatim>\<open>msc\<close> and \<^verbatim>\<open>ust\<close>,
  \<open>None\<close> when nothing is. libdrm writes its output arguments when it succeeds.
\<close>

definition ms_get_kernel_ust_msc ::
  "'k kernel \<Rightarrow> nat \<Rightarrow> ('d, 'k, 'z) drm_scheme \<Rightarrow>
     (bool \<times> u64 option \<times> u64 option) \<times> ('d, 'k, 'z) drm_scheme" where
  "ms_get_kernel_ust_msc K p s =
     (let c = crtcs s p;
          scr = crtc_scrn c;
          old_api = (\<lambda>s.
            case drmWaitVBlank K (DRM_VBLANK_RELATIVE OR vblank_pipe c) 0 0 (kst s) of
              ((ret, err, rseq, tsec, tusec), k) \<Rightarrow>
                let s = s\<lparr>kst := k\<rparr> in
                if ret \<noteq> 0 then ((False, Some 0, Some 0), s\<lparr>errno := err\<rparr>)
                else ((True, Some (ucast rseq), Some (tsec * 1000000 + tusec)), s))
      in if has_queue_sequence (mss s scr) \<or> \<not> tried_queue_sequence (mss s scr) then
           case drmCrtcGetSequence K (crtc_id c) (kst s) of
             ((ret, err, msc, ns), k) \<Rightarrow>
               let s = (upd_ms scr (\<lambda>m. m\<lparr>tried_queue_sequence := True\<rparr>) s)\<lparr>kst := k\<rparr>;
                   s = (if ret \<noteq> 0 then s\<lparr>errno := err\<rparr> else s)
               in if ret \<noteq> -1 \<or> (err \<noteq> ENOTTY \<and> err \<noteq> EINVAL) then
                    let s = upd_ms scr (\<lambda>m. m\<lparr>has_queue_sequence := True\<rparr>) s
                    in if ret = 0 then ((True, Some msc, Some (ns div 1000)), s)
                       else ((False, None, None), s)
                  else old_api s
         else old_api s)"

abbreviation (input) Success :: int where "Success \<equiv> 0"
abbreviation (input) BadMatch :: int where "BadMatch \<equiv> 8"
abbreviation (input) BadAlloc :: int where "BadAlloc \<equiv> 11"

text \<open>The status, and what is written to \<^verbatim>\<open>ust\<close> and \<^verbatim>\<open>msc\<close>.\<close>

definition ms_get_crtc_ust_msc ::
  "'k kernel \<Rightarrow> nat \<Rightarrow> ('d, 'k, 'z) drm_scheme \<Rightarrow>
     (int \<times> u64 option \<times> u64 option) \<times> ('d, 'k, 'z) drm_scheme" where
  "ms_get_crtc_ust_msc K p s =
     (case ms_get_kernel_ust_msc K p s of
        ((ok, kernel_msc, ust), s) \<Rightarrow>
          if \<not> ok then ((BadMatch, ust, None), s)
          else
            case ms_kernel_msc_to_crtc_msc p (the kernel_msc)
                   (has_queue_sequence (ms_of_crtc s p)) s of
              (msc, s) \<Rightarrow> ((Success, ust, Some msc), s))"

section \<open>Queueing an event\<close>

abbreviation (input) MS_QUEUE_ABSOLUTE :: u32 where "MS_QUEUE_ABSOLUTE \<equiv> 0"
abbreviation (input) MS_QUEUE_RELATIVE :: u32 where "MS_QUEUE_RELATIVE \<equiv> 1"
abbreviation (input) MS_QUEUE_NEXT_ON_MISS :: u32 where "MS_QUEUE_NEXT_ON_MISS \<equiv> 2"

text \<open>
  One turn of the loop of \<^verbatim>\<open>ms_queue_vblank\<close>: \<open>Some\<close> frame when the kernel took
  the request (the frame as the kernel counts it, and whether that is the 64-bit count),
  \<open>None\<close> when it refused and \<^verbatim>\<open>errno\<close> tells why.
\<close>

definition queue_vblank_once ::
  "'k kernel \<Rightarrow> nat \<Rightarrow> u32 \<Rightarrow> u64 \<Rightarrow> u32 \<Rightarrow> ('d, 'k, 'z) drm_scheme \<Rightarrow>
     (u64 \<times> bool) option \<times> ('d, 'k, 'z) drm_scheme" where
  "queue_vblank_once K p flags msc sq s =
     (let c = crtcs s p;
          scr = crtc_scrn c;
          old_api = (\<lambda>s.
            case drmWaitVBlank K
                   (DRM_VBLANK_EVENT OR vblank_pipe c
                     OR (if flags AND MS_QUEUE_RELATIVE \<noteq> 0 then DRM_VBLANK_RELATIVE else 0)
                     OR (if flags AND MS_QUEUE_NEXT_ON_MISS \<noteq> 0 then DRM_VBLANK_NEXTONMISS else 0))
                   (ucast msc) sq (kst s) of
              ((ret, err, rseq, tsec, tusec), k) \<Rightarrow>
                let s = s\<lparr>kst := k\<rparr> in
                if ret = 0 then (Some (ucast rseq, False), s) else (None, s\<lparr>errno := err\<rparr>))
      in if has_queue_sequence (mss s scr) \<or> \<not> tried_queue_sequence (mss s scr) then
           let drm_flags = (if flags AND MS_QUEUE_RELATIVE \<noteq> 0 then DRM_CRTC_SEQUENCE_RELATIVE else 0)
                 OR (if flags AND MS_QUEUE_NEXT_ON_MISS \<noteq> 0 then DRM_CRTC_SEQUENCE_NEXT_ON_MISS else 0)
           in case drmCrtcQueueSequence K (crtc_id c) drm_flags msc (ucast sq) (kst s) of
                ((ret, err, kernel_queued), k) \<Rightarrow>
                  let s = (upd_ms scr (\<lambda>m. m\<lparr>tried_queue_sequence := True\<rparr>) s)\<lparr>kst := k\<rparr>;
                      s = (if ret \<noteq> 0 then s\<lparr>errno := err\<rparr> else s);
                      has = upd_ms scr (\<lambda>m. m\<lparr>has_queue_sequence := True\<rparr>) s
                  in if ret = 0 then (Some (kernel_queued, True), has)
                     else if ret \<noteq> -1 \<or> (err \<noteq> ENOTTY \<and> err \<noteq> EINVAL) then (None, has)
                     else old_api s
         else old_api s)"

text \<open>
  The loop. \<open>flush\<close> stands for \<^verbatim>\<open>ms_flush_drm_events\<close>, \<open>want\<close> tells whether
  the pointer \<^verbatim>\<open>msc_queued\<close> is set. The value is \<open>None\<close> when \<open>n\<close> turns were
  not enough.
\<close>

fun ms_queue_vblank ::
  "'k kernel \<Rightarrow> (nat \<Rightarrow> ('d, 'k, 'z) drm_scheme \<Rightarrow> (int \<times> ('d, 'k, 'z) drm_scheme) option) \<Rightarrow>
     ('d \<Rightarrow> ('d, 'k, 'z) drm_scheme \<Rightarrow> ('d, 'k, 'z) drm_scheme) \<Rightarrow> nat \<Rightarrow> nat \<Rightarrow> u32 \<Rightarrow> u64 \<Rightarrow>
     bool \<Rightarrow> u32 \<Rightarrow> ('d, 'k, 'z) drm_scheme \<Rightarrow>
     ((bool \<times> u64 option) \<times> ('d, 'k, 'z) drm_scheme) option" where
  "ms_queue_vblank K flush ab 0 p flags msc want sq s = None"
| "ms_queue_vblank K flush ab (Suc n) p flags msc want sq s =
     (case queue_vblank_once K p flags msc sq s of
        (Some (queued, is64), s) \<Rightarrow>
          if want then
            (case ms_kernel_msc_to_crtc_msc p queued is64 s of (m, s) \<Rightarrow> Some ((True, Some m), s))
          else Some ((True, None), s)
      | (None, s) \<Rightarrow>
          if errno s \<noteq> EBUSY then Some ((False, None), ms_drm_abort_seq ab sq s)
          else
            (case flush (crtc_scrn (crtcs s p)) s of
               None \<Rightarrow> None
             | Some (r, s) \<Rightarrow> ms_queue_vblank K flush ab n p flags msc want sq s))"

section \<open>Dispatching the kernel's answers\<close>

text \<open>
  \<open>h\<close> stands for the call \<^verbatim>\<open>q->handler(msc, ust, q->data)\<close>, \<open>None\<close> when it does
  not return within the bounds given to its loops.
\<close>

definition ms_drm_sequence_handler ::
  "('d \<Rightarrow> u64 \<Rightarrow> u64 \<Rightarrow> ('d, 'k, 'z) drm_scheme \<Rightarrow> ('d, 'k, 'z) drm_scheme option) \<Rightarrow>
     u64 \<Rightarrow> u64 \<Rightarrow> bool \<Rightarrow> u64 \<Rightarrow> ('d, 'k, 'z) drm_scheme \<Rightarrow> ('d, 'k, 'z) drm_scheme option" where
  "ms_drm_sequence_handler h frame ns is64bit user_data s =
     (let sq = ucast user_data :: u32 in
      case find (\<lambda>q. q_seq q = sq) (ms_drm_queue s) of
        None \<Rightarrow> Some s
      | Some q \<Rightarrow>
          (case ms_kernel_msc_to_crtc_msc (q_crtc q) frame is64bit s of
             (msc, s) \<Rightarrow>
               h (q_data q) msc (ns div 1000) (s\<lparr>ms_drm_queue := remove1 q (ms_drm_queue s)\<rparr>)))"

definition ms_drm_sequence_handler_64bit ::
  "('d \<Rightarrow> u64 \<Rightarrow> u64 \<Rightarrow> ('d, 'k, 'z) drm_scheme \<Rightarrow> ('d, 'k, 'z) drm_scheme option) \<Rightarrow>
     u64 \<Rightarrow> u64 \<Rightarrow> u64 \<Rightarrow> ('d, 'k, 'z) drm_scheme \<Rightarrow> ('d, 'k, 'z) drm_scheme option" where
  "ms_drm_sequence_handler_64bit h frame ns user_data s =
     ms_drm_sequence_handler h frame ns True user_data s"

definition ms_drm_handler ::
  "('d \<Rightarrow> u64 \<Rightarrow> u64 \<Rightarrow> ('d, 'k, 'z) drm_scheme \<Rightarrow> ('d, 'k, 'z) drm_scheme option) \<Rightarrow>
     u32 \<Rightarrow> u32 \<Rightarrow> u32 \<Rightarrow> u32 \<Rightarrow> ('d, 'k, 'z) drm_scheme \<Rightarrow> ('d, 'k, 'z) drm_scheme option" where
  "ms_drm_handler h frame sec usec user_ptr s =
     ms_drm_sequence_handler h (ucast frame) ((ucast sec * 1000000 + ucast usec) * 1000) False
       (ucast user_ptr) s"

text \<open>
  \<^verbatim>\<open>drmHandleEvent\<close> with the event context of \<^verbatim>\<open>ms_vblank_screen_init\<close>: the
  events read are handed to the three handlers, in order.
\<close>

definition dispatch_event ::
  "('d \<Rightarrow> u64 \<Rightarrow> u64 \<Rightarrow> ('d, 'k, 'z) drm_scheme \<Rightarrow> ('d, 'k, 'z) drm_scheme option) \<Rightarrow>
     drm_event \<Rightarrow> ('d, 'k, 'z) drm_scheme \<Rightarrow> ('d, 'k, 'z) drm_scheme option" where
  "dispatch_event h e s =
     (case e of
        EV_VBLANK frame sec usec user \<Rightarrow> ms_drm_handler h frame sec usec user s
      | EV_FLIP_COMPLETE frame sec usec user \<Rightarrow> ms_drm_handler h frame sec usec user s
      | EV_CRTC_SEQUENCE frame ns user \<Rightarrow> ms_drm_sequence_handler_64bit h frame ns user s)"

fun dispatch_events ::
  "('d \<Rightarrow> u64 \<Rightarrow> u64 \<Rightarrow> ('d, 'k, 'z) drm_scheme \<Rightarrow> ('d, 'k, 'z) drm_scheme option) \<Rightarrow>
     drm_event list \<Rightarrow> ('d, 'k, 'z) drm_scheme \<Rightarrow> ('d, 'k, 'z) drm_scheme option" where
  "dispatch_events h [] s = Some s"
| "dispatch_events h (e # es) s =
     (case dispatch_event h e s of None \<Rightarrow> None | Some s \<Rightarrow> dispatch_events h es s)"

definition drmHandleEvent ::
  "'k kernel \<Rightarrow> ('d \<Rightarrow> u64 \<Rightarrow> u64 \<Rightarrow> ('d, 'k, 'z) drm_scheme \<Rightarrow> ('d, 'k, 'z) drm_scheme option) \<Rightarrow>
     ('d, 'k, 'z) drm_scheme \<Rightarrow> (int \<times> ('d, 'k, 'z) drm_scheme) option" where
  "drmHandleEvent K h s =
     (case drm_read_events K (kst s) of
        (None, k) \<Rightarrow> Some (-1, s\<lparr>kst := k\<rparr>)
      | (Some es, k) \<Rightarrow> map_option (\<lambda>s. (0, s)) (dispatch_events h es (s\<lparr>kst := k\<rparr>)))"

section \<open>Screens\<close>

text \<open>
  \<^verbatim>\<open>ms_vblank_screen_init\<close> empties the list (it is initialised, not drained) and
  registers the descriptor with the main loop once per server generation.
\<close>

definition ms_vblank_screen_init ::
  "nat \<Rightarrow> ('d, 'k, 'z) drm_scheme \<Rightarrow> ('d, 'k, 'z) drm_scheme" where
  "ms_vblank_screen_init serverGeneration s =
     (let s = s\<lparr>ms_drm_queue := []\<rparr> in
      if serverGeneration \<noteq> LS_EntityGetFd_wakeup (entity_of s) then
        s\<lparr>notify_fd := True, entity_of := LS_EntityInitFd_wakeup serverGeneration (entity_of s)\<rparr>
      else s\<lparr>entity_of := snd (LS_EntityIncRef_weakeup (entity_of s))\<rparr>)"

definition ms_vblank_close_screen ::
  "('d \<Rightarrow> ('d, 'k, 'z) drm_scheme \<Rightarrow> ('d, 'k, 'z) drm_scheme) \<Rightarrow> nat \<Rightarrow> nat \<Rightarrow>
     ('d, 'k, 'z) drm_scheme \<Rightarrow> ('d, 'k, 'z) drm_scheme" where
  "ms_vblank_close_screen ab serverGeneration scr s =
     (let s = ms_drm_abort_scrn ab scr s in
      if serverGeneration = LS_EntityGetFd_wakeup (entity_of s) then
        case LS_EntityDecRef_weakeup (entity_of s) of
          (r, e) \<Rightarrow> let s = s\<lparr>entity_of := e\<rparr> in if r = 0 then s\<lparr>notify_fd := False\<rparr> else s
      else s)"

text \<open>\<^verbatim>\<open>ms_drm_socket_handler\<close>: the main loop saw the descriptor readable.\<close>

definition ms_drm_socket_handler ::
  "'k kernel \<Rightarrow> ('d \<Rightarrow> u64 \<Rightarrow> u64 \<Rightarrow> ('d, 'k, 'z) drm_scheme \<Rightarrow> ('d, 'k, 'z) drm_scheme option) \<Rightarrow>
     nat option \<Rightarrow> ('d, 'k, 'z) drm_scheme \<Rightarrow> ('d, 'k, 'z) drm_scheme option" where
  "ms_drm_socket_handler K h data s =
     (case data of None \<Rightarrow> Some s | Some scr \<Rightarrow> map_option snd (drmHandleEvent K h s))"

section \<open>The counter is tracked exactly\<close>

text \<open>
  The abstraction: the counter of the CRTC, a number that never wraps. A CRTC tracks
  \<open>p\<close> when its two fields hold the halves of \<open>p\<close>.
\<close>

definition tracks :: "int \<Rightarrow> crtc \<Rightarrow> bool" where
  "tracks p c \<longleftrightarrow> msc_prev c = word_of_int p \<and> msc_high c = word_of_int (p - p mod 4294967296)"

text \<open>What the kernel reports of count \<open>t\<close>: all of it, or its low half.\<close>

definition reported :: "int \<Rightarrow> bool \<Rightarrow> u64" where
  "reported t is64bit = word_of_int (if is64bit then t else t mod 4294967296)"

lemma high_part:
  "word_of_int t AND (0xffffffff00000000 :: u64) = word_of_int (t - t mod 4294967296)"
proof -
  have m: "(0xffffffff00000000 :: u64) = NOT (mask 32)" by (simp add: mask_eq_exp_minus_1)
  have d: "t - t mod 4294967296 = push_bit 32 (drop_bit 32 t)"
    by (simp add: push_bit_eq_mult drop_bit_eq_div minus_mod_eq_div_mult)
  show ?thesis unfolding m d
    by (rule bit_word_eqI) (auto simp: bit_simps)
qed

lemma sint_low_half [simp]: "sint (word_of_int (t mod 4294967296) :: u64) = t mod 4294967296"
proof -
  have "0 \<le> t mod 4294967296" "t mod 4294967296 < 4294967296" by simp_all
  then show ?thesis by (simp add: int_word_sint mod_pos_pos_trivial)
qed

lemma ucast_word_of_int_32 [simp]: "(ucast (word_of_int t :: u64) :: u32) = word_of_int t"
  by (simp add: ucast_down_wi is_down)

lemma ucast_word_of_int_64 [simp]: "(ucast (word_of_int p :: u32) :: u64) = word_of_int (p mod 4294967296)"
  by (simp add: unsigned_of_int take_bit_eq_mod)

lemma word_of_int_low_32 [simp]: "(word_of_int (t mod 4294967296) :: u32) = word_of_int t"
  by (simp add: word_of_int_eq_iff take_bit_eq_mod)

lemma tracks_64bit:
  "kernel_msc_to_crtc_msc (reported t True) True c = (word_of_int t, c') \<Longrightarrow> tracks t c'"
  by (auto simp: kernel_msc_to_crtc_msc_def reported_def tracks_def high_part)

lemma tracks_32bit:
  assumes "tracks p c" and "\<bar>t - p\<bar> \<le> 1073741824"
    and "kernel_msc_to_crtc_msc (reported t False) False c = (m, c')"
  shows "m = word_of_int t \<and> tracks t c'"
proof -
  define lt lp ht hp where defs: "lt = t mod 4294967296" "lp = p mod 4294967296"
    "ht = t div 4294967296" "hp = p div 4294967296"
  have t: "t = 4294967296 * ht + lt" and p: "p = 4294967296 * hp + lp"
    by (simp_all add: defs)
  have r: "0 \<le> lt" "lt < 4294967296" "0 \<le> lp" "lp < 4294967296" by (simp_all add: defs)
  let ?k = "if lt < lp - 1073741824 then 1 else if lt > lp + 1073741824 then -1 else (0 :: int)"
  have k: "ht = hp + ?k" using assms(2) t p r by (auto split: if_splits)
  have hi: "p - lp + ?k * 4294967296 = t - lt" using k t p by simp
  have "msc_high c' = word_of_int (p - lp + ?k * 4294967296)" and "msc_prev c' = word_of_int t"
    and "m = word_of_int (p - lp + ?k * 4294967296) + word_of_int lt"
    using assms(1,3) r
    by (auto simp: kernel_msc_to_crtc_msc_def reported_def tracks_def defs Let_def
        wi_hom_add [symmetric] wi_hom_sub [symmetric] split: if_splits)
  then show ?thesis
    unfolding hi tracks_def by (simp add: defs wi_hom_add)
qed

text \<open>
  A CRTC reading a series of counts, each through the 32-bit or the 64-bit interface.
  A 32-bit reading is in order when it is less than a quarter of the 32-bit range away from
  the reading before; it may be smaller than that one.
\<close>

fun convert_all :: "(int \<times> bool) list \<Rightarrow> crtc \<Rightarrow> u64 list \<times> crtc" where
  "convert_all [] c = ([], c)"
| "convert_all ((t, is64) # rs) c =
     (case kernel_msc_to_crtc_msc (reported t is64) is64 c of
        (m, c) \<Rightarrow> (case convert_all rs c of (ms, c) \<Rightarrow> (m # ms, c)))"

fun in_order :: "int \<Rightarrow> (int \<times> bool) list \<Rightarrow> bool" where
  "in_order p [] \<longleftrightarrow> True"
| "in_order p ((t, is64) # rs) \<longleftrightarrow> (is64 \<or> \<bar>t - p\<bar> \<le> 1073741824) \<and> in_order t rs"

text \<open>
  C2. The 64-bit frame counter is exact over a whole run. A CRTC that tracks the count
  reports every later count unchanged (modulo \<open>2 ^ 64\<close>), over any number of wraps of
  the kernel's 32-bit counter and any mixture of 32-bit and 64-bit readings, as long as each
  32-bit reading is at most \<open>2 ^ 30\<close> frames after or before the preceding one.
\<close>

theorem msc_exact_over_wraps:
  assumes "tracks p c" and "in_order p rs"
  shows "fst (convert_all rs c) = map (\<lambda>(t, _). word_of_int t) rs"
  using assms
proof (induction rs arbitrary: p c)
  case Nil
  then show ?case by simp
next
  case (Cons r rs)
  obtain t is64 where r: "r = (t, is64)" by (cases r)
  obtain m c' where c': "kernel_msc_to_crtc_msc (reported t is64) is64 c = (m, c')" by fastforce
  have "m = word_of_int t \<and> tracks t c'"
  proof (cases is64)
    case True
    with c' tracks_64bit [of t c c'] show ?thesis
      by (auto simp: kernel_msc_to_crtc_msc_def reported_def)
  next
    case False
    with c' Cons.prems r tracks_32bit [of p c t m c'] show ?thesis by simp
  qed
  with Cons.IH [of t c'] Cons.prems(2) c' r show ?case by (simp add: case_prod_beta)
qed

lemma msc_exact_witness:
  "fst (convert_all [(4294967290, True), (4294967301, False), (4294967295, False), (8589934593, True)]
          zero_crtc) =
     [4294967290, 4294967301, 4294967295, 8589934593]"
proof -
  have "tracks 0 zero_crtc" by (simp add: tracks_def zero_crtc_def)
  then show ?thesis
    using msc_exact_over_wraps [of 0 zero_crtc
      "[(4294967290, True), (4294967301, False), (4294967295, False), (8589934593, True)]"]
    by simp
qed

text \<open>
  The first 32-bit reading of a CRTC can be wrong. A CRTC as allocated takes a first
  32-bit reading above \<open>2 ^ 30\<close> (half a year of uptime at 60 Hz) for one from before a
  wrap, and reports \<open>2 ^ 32\<close> less than the kernel's count, a number near \<open>2 ^ 64\<close>.
\<close>

theorem first_reading_below_zero:
  assumes "1073741824 < t" and "t < 4294967296"
  shows "fst (kernel_msc_to_crtc_msc (reported t False) False zero_crtc) =
           word_of_int (t - 4294967296)"
proof -
  have "t mod 4294967296 = t" using assms by simp
  then have "sint (word_of_int t :: u64) = t" using sint_low_half [of t] by simp
  then show ?thesis using assms
    by (simp add: kernel_msc_to_crtc_msc_def reported_def zero_crtc_def wi_hom_sub [symmetric])
qed

lemma first_reading_witness:
  "fst (kernel_msc_to_crtc_msc (reported 2000000000 False) False zero_crtc) =
     word_of_int (2000000000 - 4294967296)"
  by (rule first_reading_below_zero) simp_all

end
