(* ===== verification/Queue_Life.thy ===== *)
theory Queue_Life
  imports Msc_Counter
begin

text \<open>
  What the DRM event queue promises its clients: sequence numbers identify pending requests,
  and a request once queued is finished once, by its event or by an abort, whatever the
  order in which requests, events, aborts and screen closings interleave.
\<close>

section \<open>The interface\<close>

text \<open>
  A queue of tokens: \<open>put\<close> returns the token of the new request, \<open>0\<close> when there is
  no memory; \<open>drop\<close> removes the request of a token. Clients hold tokens and rely on
  these laws only.
\<close>

locale token_queue =
  fixes tokens :: "'s \<Rightarrow> u32 list"
    and ok :: "'s \<Rightarrow> bool"
    and put :: "'a \<Rightarrow> 's \<Rightarrow> u32 \<times> 's"
    and drop :: "u32 \<Rightarrow> 's \<Rightarrow> 's"
  assumes ok_distinct: "ok s \<Longrightarrow> distinct (tokens s) \<and> 0 \<notin> set (tokens s)"
    and put_failed: "put a s = (0, s') \<Longrightarrow> tokens s' = tokens s"
    and put_fresh: "ok s \<Longrightarrow> put a s = (sq, s') \<Longrightarrow> sq \<noteq> 0 \<Longrightarrow>
                      sq \<notin> set (tokens s) \<and> tokens s' = sq # tokens s"
    and drop_token: "tokens (drop sq s) = remove1 sq (tokens s)"
begin

lemma put_drop:
  assumes "ok s" and "put a s = (sq, s')"
  shows "tokens (drop sq s') = tokens s"
proof (cases "sq = 0")
  case True
  with assms have "tokens s' = tokens s" using put_failed by simp
  moreover from assms(1) have "0 \<notin> set (tokens s)" using ok_distinct by simp
  ultimately show ?thesis using True by (simp add: drop_token remove1_idem)
next
  case False
  with assms put_fresh [OF assms(1,2)] show ?thesis by (simp add: drop_token)
qed

lemma drop_other:
  "ok s \<Longrightarrow> x \<noteq> sq \<Longrightarrow> x \<in> set (tokens (drop sq s)) \<longleftrightarrow> x \<in> set (tokens s)"
  by (simp add: drop_token)

lemma drop_gone: "ok s \<Longrightarrow> sq \<notin> set (tokens (drop sq s))"
  using ok_distinct by (simp add: drop_token)

end

section \<open>Sequence numbers\<close>

text \<open>
  The age of an entry is the number of sequence numbers handed out since it was queued. As
  long as no request stays pending while \<open>2 ^ 32 - 3\<close> others are made, ages tell the
  order of the queue and sequence numbers are distinct, also across the wrap to zero.
\<close>

definition age :: "('d, 'k, 'z) drm_scheme \<Rightarrow> u32 \<Rightarrow> nat" where
  "age s sq = unat (ms_drm_seq s - sq)"

definition seqs :: "('d, 'k, 'z) drm_scheme \<Rightarrow> u32 list" where
  "seqs s = map q_seq (ms_drm_queue s)"

definition queue_inv :: "('d, 'k, 'z) drm_scheme \<Rightarrow> bool" where
  "queue_inv s \<longleftrightarrow>
     sorted_wrt (<) (map (age s) (seqs s)) \<and> 0 \<notin> age s ` set (seqs s) \<and> 0 \<notin> set (seqs s)"

definition young :: "('d, 'k, 'z) drm_scheme \<Rightarrow> bool" where
  "young s \<longleftrightarrow> (\<forall>sq \<in> set (seqs s). age s sq < 4294967294)"

lemma queue_inv_distinct: "queue_inv s \<Longrightarrow> distinct (seqs s)"
  by (auto simp: queue_inv_def dest!: strict_sorted_imp_sorted strict_sorted_iff [THEN iffD1]
      intro: distinct_map [THEN iffD1, THEN conjunct1])

lemma age_bump:
  assumes "unat (n - x :: u32) < 4294967294"
  shows "unat (n + 1 - x) = unat (n - x) + 1" and "unat (n + 2 - x) = unat (n - x) + 2"
proof -
  let ?d = "n - x"
  have "unat (?d + 1) = unat ?d + 1" using assms by (simp add: unat_word_ariths)
  moreover have "unat (?d + 2) = unat ?d + 2" using assms by (simp add: unat_word_ariths)
  moreover have "n + 1 - x = ?d + 1" "n + 2 - x = ?d + 2" by simp_all
  ultimately show "unat (n + 1 - x) = unat ?d + 1" "unat (n + 2 - x) = unat ?d + 2" by presburger+
qed

lemma age_cong: "ms_drm_seq s' = ms_drm_seq s \<Longrightarrow> age s' = age s"
  by (simp add: age_def fun_eq_iff)

lemma queue_alloc_inv:
  assumes inv: "queue_inv s" and y: "young s" and a: "ms_drm_queue_alloc p data s = (sq, s')"
  shows "queue_inv s' \<and>
         (if sq = 0 then ms_drm_queue s' = ms_drm_queue s
          else sq \<notin> set (seqs s) \<and> seqs s' = sq # seqs s)"
proof (cases rule: queue_alloc_cases [of p data s])
  case (failed s'')
  with a inv show ?thesis using age_cong [OF failed(3)] by (simp add: queue_inv_def seqs_def)
next
  case (queued s'' sq')
  with a have s': "sq' = sq" "s'' = s'" by simp_all
  note q = queued [unfolded s']
  define k :: nat where "k = (if ms_drm_seq s = 0 then 2 else 1)"
  have next': "ms_drm_seq s' = ms_drm_seq s + of_nat k" using q(2,4) by (simp add: k_def)
  have old: "age s' x = age s x + k" if "x \<in> set (seqs s)" for x
    using y that age_bump [of "ms_drm_seq s" x]
    by (auto simp: young_def age_def next' k_def)
  have new: "age s' sq = 1" by (simp add: age_def q(4))
  have sqs: "seqs s' = sq # seqs s" using q(5) by (simp add: seqs_def)
  have pos: "0 < age s x" if "x \<in> set (seqs s)" for x
    using inv that by (auto simp: queue_inv_def)
  have kpos: "0 < k" by (simp add: k_def)
  have eq: "map (age s') (seqs s) = map ((+) k) (map (age s) (seqs s))"
    using old by simp
  have "sorted_wrt (<) (map ((+) k) (map (age s) (seqs s)))"
    using inv by (simp add: queue_inv_def sorted_wrt_map)
  then have "sorted_wrt (<) (map (age s') (seqs s))" by (simp only: eq)
  moreover have "\<forall>x \<in> set (seqs s). age s' sq < age s' x"
    using old new pos kpos by auto (metis One_nat_def Suc_lessI add_is_1 less_not_refl2 pos zero_less_Suc gr0I add_gr_0)
  ultimately have "sorted_wrt (<) (map (age s') (seqs s'))" by (simp add: sqs)
  moreover have "0 \<notin> age s' ` set (seqs s')" using old new kpos by (auto simp: sqs)
  moreover have "0 \<notin> set (seqs s')" using inv q(3) by (auto simp: sqs queue_inv_def)
  moreover have "sq \<notin> set (seqs s)" using \<open>\<forall>x \<in> set (seqs s). age s' sq < age s' x\<close> by auto
  ultimately show ?thesis using q(3) sqs by (simp add: queue_inv_def)
qed

text \<open>Removing entries keeps the order of the others.\<close>

lemma queue_inv_sub:
  assumes "queue_inv s" and "ms_drm_seq s' = ms_drm_seq s"
    and "ms_drm_queue s' = filter P (ms_drm_queue s)"
  shows "queue_inv s'"
  using assms(1,3) age_cong [OF assms(2)]
  by (auto simp: queue_inv_def seqs_def sorted_wrt_map intro: sorted_wrt_filter)

lemma remove1_filter:
  "distinct (map f xs) \<Longrightarrow> q \<in> set xs \<Longrightarrow> remove1 q xs = filter (\<lambda>e. f e \<noteq> f q) xs"
proof (induction xs)
  case Nil
  then show ?case by simp
next
  case (Cons x xs)
  show ?case
  proof (cases "x = q")
    case True
    with Cons.prems have "\<forall>e \<in> set xs. f e \<noteq> f q" by (auto simp: image_iff)
    with True show ?thesis by (simp add: filter_True)
  next
    case False
    with Cons show ?thesis by auto
  qed
qed

lemma map_remove1_key:
  "find (\<lambda>e. f e = x) xs = Some q \<Longrightarrow> map f (remove1 q xs) = remove1 x (map f xs)"
  by (induction xs) (auto split: if_splits dest: find_Some_mem)

lemma find_None_key: "find (\<lambda>e. f e = x) xs = None \<Longrightarrow> x \<notin> set (map f xs)"
  by (auto simp: find_None_iff)

lemma seqs_abort_seq: "quiet ab \<Longrightarrow> seqs (ms_drm_abort_seq ab sq s) = remove1 sq (seqs s)"
  by (auto simp: seqs_def abort_seq_queue map_remove1_key remove1_idem
      dest: find_None_key split: option.split)

text \<open>The driver's queue is a token queue.\<close>

definition queue_ok :: "('d, 'k, 'z) drm_scheme \<Rightarrow> bool" where
  "queue_ok s \<longleftrightarrow> queue_inv s \<and> young s"

lemma queue_ok_distinct: "queue_ok s \<Longrightarrow> distinct (seqs s) \<and> 0 \<notin> set (seqs s)"
  using queue_inv_distinct [of s] by (simp add: queue_ok_def queue_inv_def)

lemma queue_alloc_failed:
  "ms_drm_queue_alloc p data s = (0, s') \<Longrightarrow> ms_drm_queue s' = ms_drm_queue s"
  by (rule queue_alloc_cases [of p data s]) auto

lemma queue_alloc_fresh:
  "queue_ok s \<Longrightarrow> ms_drm_queue_alloc p data s = (sq, s') \<Longrightarrow> sq \<noteq> 0 \<Longrightarrow>
     sq \<notin> set (seqs s) \<and> seqs s' = sq # seqs s"
  using queue_alloc_inv [of s p data sq s'] by (simp add: queue_ok_def)

section \<open>The life of a request\<close>

text \<open>
  Histories of the queue: requests are made, events arrive (the state is the one in which
  the handler of the entry is called), entries are aborted one by one or with their screen,
  and everything else the driver does leaves the queue alone. \<open>I\<close> collects the sequence
  numbers handed out, \<open>F\<close> those whose handler or abort function has been called.
\<close>

definition finished_by :: "('d drm_entry \<Rightarrow> bool) \<Rightarrow> ('d, 'k, 'z) drm_scheme \<Rightarrow> u32 multiset" where
  "finished_by P s =
     (case find P (ms_drm_queue s) of None \<Rightarrow> {#} | Some q \<Rightarrow> {#q_seq q#})"

inductive queue_life ::
  "('d \<Rightarrow> ('d, 'k, 'z) drm_scheme \<Rightarrow> ('d, 'k, 'z) drm_scheme) \<Rightarrow>
     ('d, 'k, 'z) drm_scheme \<Rightarrow> u32 multiset \<Rightarrow> u32 multiset \<Rightarrow> bool"
  for ab where
  start: "ms_drm_queue s = [] \<Longrightarrow> queue_life ab s {#} {#}"
| request: "queue_life ab s I F \<Longrightarrow> young s \<Longrightarrow> ms_drm_queue_alloc p data s = (sq, s') \<Longrightarrow>
     queue_life ab s' (if sq = 0 then I else add_mset sq I) F"
| event: "queue_life ab s I F \<Longrightarrow>
     ms_drm_sequence_handler (\<lambda>d m u s. Some s) frame ns is64 user s = Some s' \<Longrightarrow>
     queue_life ab s' I (finished_by (\<lambda>q. q_seq q = ucast user) s + F)"
| abort_seq: "queue_life ab s I F \<Longrightarrow>
     queue_life ab (ms_drm_abort_seq ab sq s) I (finished_by (\<lambda>q. q_seq q = sq) s + F)"
| abort_match: "queue_life ab s I F \<Longrightarrow>
     queue_life ab (ms_drm_abort ab m s) I (finished_by (\<lambda>q. m (q_data q)) s + F)"
| close_screen: "queue_life ab s I F \<Longrightarrow>
     queue_life ab (ms_drm_abort_scrn ab scr s) I
       (image_mset q_seq {#q \<in># mset (ms_drm_queue s). q_scrn q = scr#} + F)"
| elsewhere: "queue_life ab s I F \<Longrightarrow> ms_drm_queue s' = ms_drm_queue s \<Longrightarrow>
     ms_drm_seq s' = ms_drm_seq s \<Longrightarrow> queue_life ab s' I F"

lemma remove_found:
  assumes "queue_inv s" and "find P (ms_drm_queue s) = Some q"
    and "ms_drm_queue s' = remove1 q (ms_drm_queue s)" and "ms_drm_seq s' = ms_drm_seq s"
  shows "queue_inv s' \<and> mset (seqs s) = add_mset (q_seq q) (mset (seqs s'))"
proof -
  from assms(2) have q: "q \<in> set (ms_drm_queue s)" by (simp add: find_Some_mem)
  with assms(1,3) have "ms_drm_queue s' = filter (\<lambda>e. q_seq e \<noteq> q_seq q) (ms_drm_queue s)"
    using queue_inv_distinct [OF assms(1)] by (simp add: remove1_filter seqs_def)
  with assms(1,4) have "queue_inv s'" by (rule queue_inv_sub)
  moreover have "mset (ms_drm_queue s) = add_mset q (mset (ms_drm_queue s'))"
    using q by (simp add: assms(3))
  ultimately show ?thesis by (simp add: seqs_def)
qed

lemma remove_found_or_none:
  assumes "queue_inv s" and "ms_drm_seq s' = ms_drm_seq s"
    and "ms_drm_queue s' = (case find P (ms_drm_queue s) of
           None \<Rightarrow> ms_drm_queue s | Some q \<Rightarrow> remove1 q (ms_drm_queue s))"
  shows "queue_inv s' \<and> mset (seqs s) = finished_by P s + mset (seqs s')"
proof (cases "find P (ms_drm_queue s)")
  case None
  with assms(3) have "ms_drm_queue s' = filter (\<lambda>_. True) (ms_drm_queue s)" by simp
  with assms(1,2) have "queue_inv s'" by (rule queue_inv_sub)
  with None assms(3) show ?thesis by (simp add: finished_by_def seqs_def)
next
  case (Some q)
  with assms remove_found [of s P q s'] show ?thesis by (simp add: finished_by_def)
qed

lemma sequence_handler_queue:
  assumes "ms_drm_sequence_handler (\<lambda>d m u s. Some s) frame ns is64 user s = Some s'"
  shows "ms_drm_seq s' = ms_drm_seq s \<and>
         ms_drm_queue s' = (case find (\<lambda>q. q_seq q = ucast user) (ms_drm_queue s) of
           None \<Rightarrow> ms_drm_queue s | Some q \<Rightarrow> remove1 q (ms_drm_queue s))"
  using assms
  by (auto simp: ms_drm_sequence_handler_def Let_def ms_kernel_msc_to_crtc_msc_def case_prod_beta
      frame_simps split: option.splits)

lemma queue_life_inv:
  assumes "queue_life ab s I F" and "quiet ab"
  shows "queue_inv s \<and> I = F + mset (seqs s)"
  using assms
proof (induction rule: queue_life.induct)
  case (start s)
  then show ?case by (simp add: queue_inv_def seqs_def)
next
  case (request s I F p data sq s')
  then have inv: "queue_inv s' \<and> (if sq = 0 then ms_drm_queue s' = ms_drm_queue s
      else sq \<notin> set (seqs s) \<and> seqs s' = sq # seqs s)"
    using queue_alloc_inv [of s p data sq s'] by simp
  show ?case
  proof (cases "sq = 0")
    case True
    with inv have "seqs s' = seqs s" by (simp add: seqs_def)
    with True inv request show ?thesis by simp
  next
    case False
    with inv request show ?thesis by simp
  qed
next
  case (event s I F frame ns is64 user s')
  then show ?case
    using remove_found_or_none [of s s' "\<lambda>q. q_seq q = ucast user"]
      sequence_handler_queue [of frame ns is64 user s s'] by simp
next
  case (abort_seq s I F sq)
  then show ?case
    using remove_found_or_none [of s "ms_drm_abort_seq ab sq s" "\<lambda>q. q_seq q = sq"]
    by (simp add: abort_seq_queue)
next
  case (abort_match s I F m)
  have "ms_drm_seq (ms_drm_abort ab m s) = ms_drm_seq s"
    "ms_drm_queue (ms_drm_abort ab m s) = (case find (\<lambda>q. m (q_data q)) (ms_drm_queue s) of
       None \<Rightarrow> ms_drm_queue s | Some q \<Rightarrow> remove1 q (ms_drm_queue s))"
    using \<open>quiet ab\<close> by (simp_all add: ms_drm_abort_def abort_one_queue split: option.split)
  with abort_match show ?case
    using remove_found_or_none [of s "ms_drm_abort ab m s" "\<lambda>q. m (q_data q)"] by simp
next
  case (close_screen s I F scr)
  have q: "ms_drm_queue (ms_drm_abort_scrn ab scr s) = filter (\<lambda>q. q_scrn q \<noteq> scr) (ms_drm_queue s)"
    "ms_drm_seq (ms_drm_abort_scrn ab scr s) = ms_drm_seq s"
    using \<open>quiet ab\<close> by (simp_all add: abort_scrn_queue)
  then have "queue_inv (ms_drm_abort_scrn ab scr s)"
    using close_screen queue_inv_sub [of s] by blast
  moreover have "image_mset q_seq (mset (ms_drm_queue s)) =
      image_mset q_seq {#q \<in># mset (ms_drm_queue s). q_scrn q = scr#} +
      image_mset q_seq {#q \<in># mset (ms_drm_queue s). q_scrn q \<noteq> scr#}"
    using multiset_partition [of "mset (ms_drm_queue s)" "\<lambda>q. q_scrn q = scr"]
    by (simp flip: image_mset_union)
  then have "mset (seqs s) = image_mset q_seq {#q \<in># mset (ms_drm_queue s). q_scrn q = scr#} +
      mset (seqs (ms_drm_abort_scrn ab scr s))"
    by (simp add: seqs_def q)
  ultimately show ?case using close_screen by simp
next
  case (elsewhere s I F s')
  then show ?case using age_cong [of s' s] by (simp add: queue_inv_def seqs_def)
qed



end
