(* ===== verification/Kms_Props.thy ===== *)
theory Kms_Props
  imports Driver_State
begin

text \<open>
  Modes, formats and KMS properties (\<^verbatim>\<open>src/src/drmmode_display.c\<close>): which buffer
  formats and modifiers the CRTCs can scan out, the tables of property identifiers filled
  from the kernel's objects, the choice of the primary plane of a CRTC, and the conversion
  between the server's and the kernel's mode records.
\<close>

section \<open>Formats and modifiers\<close>

abbreviation (input) DRM_FORMAT_ARGB8888 :: u32 where "DRM_FORMAT_ARGB8888 \<equiv> 0x34325241"
abbreviation (input) DRM_FORMAT_XRGB8888 :: u32 where "DRM_FORMAT_XRGB8888 \<equiv> 0x34325258"
abbreviation (input) DRM_FORMAT_ARGB2101010 :: u32 where "DRM_FORMAT_ARGB2101010 \<equiv> 0x30335241"
abbreviation (input) DRM_FORMAT_XRGB2101010 :: u32 where "DRM_FORMAT_XRGB2101010 \<equiv> 0x30335258"
abbreviation (input) DRM_FORMAT_MOD_INVALID :: u64 where
  "DRM_FORMAT_MOD_INVALID \<equiv> 0x00ffffffffffffff"

definition get_opaque_format :: "u32 \<Rightarrow> u32" where
  "get_opaque_format fmt =
     (if fmt = DRM_FORMAT_ARGB8888 then DRM_FORMAT_XRGB8888
      else if fmt = DRM_FORMAT_ARGB2101010 then DRM_FORMAT_XRGB2101010
      else fmt)"

text \<open>Whether one CRTC can scan the format out: the search stops at the format's first entry.\<close>

definition crtc_supports :: "crtc \<Rightarrow> u32 \<Rightarrow> u64 \<Rightarrow> bool" where
  "crtc_supports c fmt modifier =
     (case find (\<lambda>it. fmt_format it = fmt) (formats c) of
        None \<Rightarrow> False
      | Some it \<Rightarrow>
          if modifier = DRM_FORMAT_MOD_INVALID \<or> fmt_modifiers it = [] then True
          else modifier \<in> set (fmt_modifiers it))"

fun drmmode_is_format_supported :: "crtc list \<Rightarrow> u32 \<Rightarrow> u64 \<Rightarrow> bool" where
  "drmmode_is_format_supported [] fmt modifier = True"
| "drmmode_is_format_supported (c # cs) fmt modifier =
     (if \<not> enabled c \<or> formats c = [] then drmmode_is_format_supported cs fmt modifier
      else if \<not> crtc_supports c (get_opaque_format fmt) modifier then False
      else drmmode_is_format_supported cs fmt modifier)"

text \<open>
  Collecting the modifiers of a format. \<open>realloc_ok n\<close> tells whether growing the array
  to \<open>n\<close> entries succeeds; when it does not, the whole set is given up (\<open>None\<close>).
  \<open>planes\<close> is GBM's plane count of a format and modifier.
\<close>

fun add_modifiers ::
  "(nat \<Rightarrow> bool) \<Rightarrow> (u32 \<Rightarrow> u64 \<Rightarrow> nat) \<Rightarrow> u32 \<Rightarrow> bool \<Rightarrow> u64 list \<Rightarrow> u64 list \<Rightarrow> u64 list option" where
  "add_modifiers realloc_ok planes fmt excl [] ret = Some ret"
| "add_modifiers realloc_ok planes fmt excl (m # ms) ret =
     (if excl \<and> planes fmt m > 1 then add_modifiers realloc_ok planes fmt excl ms ret
      else if m \<in> set ret then add_modifiers realloc_ok planes fmt excl ms ret
      else if \<not> realloc_ok (length ret + 1) then None
      else add_modifiers realloc_ok planes fmt excl ms (ret @ [m]))"

fun add_formats ::
  "(nat \<Rightarrow> bool) \<Rightarrow> (u32 \<Rightarrow> u64 \<Rightarrow> nat) \<Rightarrow> u32 \<Rightarrow> bool \<Rightarrow> plane_format list \<Rightarrow> u64 list \<Rightarrow> u64 list option" where
  "add_formats realloc_ok planes fmt excl [] ret = Some ret"
| "add_formats realloc_ok planes fmt excl (it # its) ret =
     (if fmt_format it \<noteq> fmt then add_formats realloc_ok planes fmt excl its ret
      else case add_modifiers realloc_ok planes fmt excl (fmt_modifiers it) ret of
             None \<Rightarrow> None
           | Some ret \<Rightarrow> add_formats realloc_ok planes fmt excl its ret)"

fun add_crtcs ::
  "(nat \<Rightarrow> bool) \<Rightarrow> (u32 \<Rightarrow> u64 \<Rightarrow> nat) \<Rightarrow> u32 \<Rightarrow> bool \<Rightarrow> bool \<Rightarrow> crtc list \<Rightarrow> u64 list \<Rightarrow> u64 list option" where
  "add_crtcs realloc_ok planes fmt enabled_only excl [] ret = Some ret"
| "add_crtcs realloc_ok planes fmt enabled_only excl (c # cs) ret =
     (if enabled_only \<and> \<not> enabled c then add_crtcs realloc_ok planes fmt enabled_only excl cs ret
      else case add_formats realloc_ok planes fmt excl (formats c) ret of
             None \<Rightarrow> None
           | Some ret \<Rightarrow> add_crtcs realloc_ok planes fmt enabled_only excl cs ret)"

text \<open>The set; the C function returns its size, \<open>0\<close> when memory runs out.\<close>

definition get_modifiers_set ::
  "(nat \<Rightarrow> bool) \<Rightarrow> (u32 \<Rightarrow> u64 \<Rightarrow> nat) \<Rightarrow> crtc list \<Rightarrow> u32 \<Rightarrow> bool \<Rightarrow> bool \<Rightarrow> u64 list" where
  "get_modifiers_set realloc_ok planes cs fmt enabled_crtc_only exclude_multiplane =
     (case add_crtcs realloc_ok planes (get_opaque_format fmt) enabled_crtc_only
             exclude_multiplane cs [] of
        None \<Rightarrow> []
      | Some ret \<Rightarrow> ret)"

definition get_drawable_modifiers ::
  "(nat \<Rightarrow> bool) \<Rightarrow> (u32 \<Rightarrow> u64 \<Rightarrow> nat) \<Rightarrow> bool \<Rightarrow> modesetting \<Rightarrow> crtc list \<Rightarrow> u32 \<Rightarrow> u64 list" where
  "get_drawable_modifiers realloc_ok planes can_flip ms cs fmt =
     (if \<not> can_flip \<or> \<not> pageflip ms \<or> dri2_flipping ms \<or> \<not> vtSema ms then []
      else get_modifiers_set realloc_ok planes cs fmt True False)"

section \<open>Zaphod heads\<close>

text \<open>\<^verbatim>\<open>xstrtokenize\<close> of the server: the maximal runs of other characters.\<close>

fun xstrtokenize :: "char list \<Rightarrow> string \<Rightarrow> string \<Rightarrow> string list" where
  "xstrtokenize seps [] cur = (if cur = [] then [] else [cur])"
| "xstrtokenize seps (c # cs) cur =
     (if c \<in> set seps then (if cur = [] then xstrtokenize seps cs [] else cur # xstrtokenize seps cs [])
      else xstrtokenize seps cs (cur @ [c]))"

definition drmmode_zaphod_string_matches :: "string \<Rightarrow> string \<Rightarrow> bool" where
  "drmmode_zaphod_string_matches s output_name =
     list_ex (\<lambda>token. token = output_name)
       (xstrtokenize [CHR '','', CHR '' '', CHR 0x09, CHR 0x0A, CHR 0x0D] s [])"

section \<open>Property tables\<close>

text \<open>A property as the kernel describes it; an object's properties are pairs of identifier and value.\<close>

record drm_property =
  dp_name :: string
  dp_is_enum :: bool
  dp_enums :: "(string \<times> u64) list"

fun enum_index :: "prop_enum_info list \<Rightarrow> u64 \<Rightarrow> nat \<Rightarrow> nat option" where
  "enum_index [] v j = None"
| "enum_index (e # es) v j = (if pe_valid e \<and> pe_value e = v then Some j else enum_index es v (j + 1))"

fun prop_value_scan :: "prop_info \<Rightarrow> (u32 \<times> u64) list \<Rightarrow> u64 \<Rightarrow> u64" where
  "prop_value_scan info [] def = def"
| "prop_value_scan info ((p, v) # ps) def =
     (if p \<noteq> pi_prop_id info then prop_value_scan info ps def
      else if pi_enum_values info = [] then v
      else case enum_index (pi_enum_values info) v 0 of
             Some j \<Rightarrow> of_nat j
           | None \<Rightarrow> prop_value_scan info ps def)"

definition drmmode_prop_get_value :: "prop_info \<Rightarrow> (u32 \<times> u64) list \<Rightarrow> u64 \<Rightarrow> u64" where
  "drmmode_prop_get_value info ps def =
     (if pi_prop_id info = 0 then def else prop_value_scan info ps def)"

definition update_enum :: "(string \<times> u64) list \<Rightarrow> prop_enum_info \<Rightarrow> prop_enum_info" where
  "update_enum enums e =
     (if pe_valid e then e
      else case map_of enums (pe_name e) of
             None \<Rightarrow> e
           | Some v \<Rightarrow> e\<lparr>pe_valid := True, pe_value := v\<rparr>)"

text \<open>The position of the first entry of a table with a property.\<close>

fun index_of :: "('a \<Rightarrow> bool) \<Rightarrow> 'a list \<Rightarrow> nat option" where
  "index_of P [] = None"
| "index_of P (x # xs) = (if P x then Some 0 else map_option Suc (index_of P xs))"

text \<open>One property of the object: \<open>None\<close> when the loop is left.\<close>

definition prop_info_update_one ::
  "(u32 \<Rightarrow> drm_property option) \<Rightarrow> u32 \<Rightarrow> u32 \<times> prop_info list \<Rightarrow> (u32 \<times> prop_info list) option" where
  "prop_info_update_one getprop p acc =
     (case acc of (valid_mask, info) \<Rightarrow>
        if list_ex (\<lambda>i. pi_prop_id i = p) info then Some acc
        else if \<not> list_ex (\<lambda>i. pi_prop_id i = 0) info then None
        else case getprop p of
          None \<Rightarrow> Some acc
        | Some prop \<Rightarrow>
            (case index_of (\<lambda>i. pi_name i = dp_name prop) info of
               None \<Rightarrow> Some acc
             | Some j \<Rightarrow>
                 let it = (info ! j)\<lparr>pi_prop_id := p\<rparr>;
                     valid_mask = valid_mask OR push_bit j 1
                 in if pi_enum_values it = [] then Some (valid_mask, info[j := it])
                    else if \<not> dp_is_enum prop then Some (valid_mask, info[j := it])
                    else Some (valid_mask,
                           info[j := it\<lparr>pi_enum_values := map (update_enum (dp_enums prop)) (pi_enum_values it)\<rparr>])))"

fun prop_info_update_loop ::
  "(u32 \<Rightarrow> drm_property option) \<Rightarrow> u32 list \<Rightarrow> u32 \<times> prop_info list \<Rightarrow> u32 \<times> prop_info list" where
  "prop_info_update_loop getprop [] acc = acc"
| "prop_info_update_loop getprop (p # ps) acc =
     (case prop_info_update_one getprop p acc of
        None \<Rightarrow> acc
      | Some acc \<Rightarrow> prop_info_update_loop getprop ps acc)"

definition drmmode_prop_info_update ::
  "(u32 \<Rightarrow> drm_property option) \<Rightarrow> prop_info list \<Rightarrow> (u32 \<times> u64) list \<Rightarrow> u32 \<times> prop_info list" where
  "drmmode_prop_info_update getprop info ps = prop_info_update_loop getprop (map fst ps) (0, info)"

text \<open>Copying a table when memory suffices: the enum values of the copy are not valid yet.\<close>

definition drmmode_prop_info_copy :: "prop_info list \<Rightarrow> bool \<Rightarrow> prop_info list" where
  "drmmode_prop_info_copy src copy_prop_id =
     map (\<lambda>i. i\<lparr>pi_prop_id := (if copy_prop_id then pi_prop_id i else 0),
               pi_enum_values := map (\<lambda>e. e\<lparr>pe_valid := False\<rparr>) (pi_enum_values i)\<rparr>) src"

section \<open>The IN_FORMATS blob\<close>

record format_modifier =
  fm_formats :: u64
  fm_offset :: u32
  fm_modifier :: u64

record format_blob =
  fb_formats :: "u32 list"
  fb_modifiers :: "format_modifier list"

text \<open>
  The C expression \<^verbatim>\<open>mod->formats & (1 << n)\<close> shifts an \<^verbatim>\<open>int\<close>: the
  machine takes the shift amount modulo 32 and the value is sign-extended to the 64-bit mask.
\<close>

definition int_bit :: "nat \<Rightarrow> u64" where
  "int_bit n = scast (push_bit (n mod 32) 1 :: u32)"

definition modifier_applies :: "nat \<Rightarrow> format_modifier \<Rightarrow> bool" where
  "modifier_applies i m \<longleftrightarrow>
     \<not> ((of_nat i :: u32) < fm_offset m \<or> of_nat i > fm_offset m + 63) \<and>
     fm_formats m AND int_bit (unat (of_nat i - fm_offset m)) \<noteq> 0"

text \<open>
  \<open>get_blob\<close> is \<^verbatim>\<open>drmModeGetPropertyBlob\<close>. \<open>fail_at\<close> is the format at
  which \<^verbatim>\<open>realloc\<close> fails, if it does; the entries before it stay filled in.
  \<open>fms\<close> is the array the caller allocated, as long as the blob's list of formats.
\<close>

definition populate_format_modifiers ::
  "(u32 \<Rightarrow> format_blob option) \<Rightarrow> nat option \<Rightarrow> u32 \<Rightarrow> plane_format list \<Rightarrow> bool \<times> plane_format list" where
  "populate_format_modifiers get_blob fail_at blob_id fms =
     (if blob_id = 0 then (False, fms)
      else case get_blob blob_id of
        None \<Rightarrow> (False, fms)
      | Some blob \<Rightarrow>
          let n = length (fb_formats blob);
              filled = (\<lambda>i. \<lparr>fmt_format = fb_formats blob ! i,
                fmt_modifiers = map fm_modifier (filter (modifier_applies i) (fb_modifiers blob))\<rparr>)
          in case fail_at of
               None \<Rightarrow> (True, map filled [0..<n])
             | Some k \<Rightarrow>
                 if k < n then (False, map filled [0..<k] @ drop k fms)
                 else (True, map filled [0..<n]))"

section \<open>The primary plane of a CRTC\<close>

abbreviation (input) DRMMODE_PLANE_TYPE_PRIMARY :: u64 where "DRMMODE_PLANE_TYPE_PRIMARY \<equiv> 0"
abbreviation (input) DRMMODE_PLANE_TYPE_COUNT :: u64 where "DRMMODE_PLANE_TYPE_COUNT \<equiv> 3"

definition plain_prop :: "string \<Rightarrow> prop_info" where
  "plain_prop n = \<lparr>pi_name = n, pi_prop_id = 0, pi_enum_values = []\<rparr>"

text \<open>The static tables: indexed by \<open>plane_property\<close>, \<open>crtc_property\<close> and \<open>connector_property\<close>.\<close>

definition plane_props :: "prop_info list" where
  "plane_props =
     [(plain_prop ''type'')\<lparr>pi_enum_values :=
         map (\<lambda>n. \<lparr>pe_name = n, pe_valid = False, pe_value = 0\<rparr>) [''Primary'', ''Cursor'', ''Overlay'']\<rparr>,
      plain_prop ''FB_ID'', plain_prop ''IN_FORMATS'', plain_prop ''CRTC_ID'',
      plain_prop ''SRC_X'', plain_prop ''SRC_Y'', plain_prop ''SRC_W'', plain_prop ''SRC_H'',
      plain_prop ''CRTC_X'', plain_prop ''CRTC_Y'', plain_prop ''CRTC_W'', plain_prop ''CRTC_H'']"

definition crtc_props :: "prop_info list" where
  "crtc_props = [plain_prop ''ACTIVE'', plain_prop ''MODE_ID'']"

record drm_plane =
  pl_id :: u32
  pl_possible_crtcs :: u32
  pl_formats :: "u32 list"

definition is_plane_assigned :: "crtc list \<Rightarrow> u32 \<Rightarrow> bool" where
  "is_plane_assigned cs pid \<longleftrightarrow> list_ex (\<lambda>c. plane_id c = pid) cs"

text \<open>
  The loop over the kernel's planes. \<open>get_plane\<close> and \<open>get_props\<close> are the libdrm
  queries; the accumulator holds the scratch table \<^verbatim>\<open>tmp_props\<close>, and the best plane so
  far with its \<^verbatim>\<open>IN_FORMATS\<close> blob and its property table.
\<close>

fun create_planes_loop ::
  "(u32 \<Rightarrow> drm_plane option) \<Rightarrow> (u32 \<Rightarrow> (u32 \<times> u64) list option) \<Rightarrow> (u32 \<Rightarrow> drm_property option) \<Rightarrow>
     crtc list \<Rightarrow> u32 \<Rightarrow> nat \<Rightarrow> u32 list \<Rightarrow> prop_info list \<Rightarrow> (drm_plane \<times> u32 \<times> prop_info list) option \<Rightarrow>
     (drm_plane \<times> u32 \<times> prop_info list) option" where
  "create_planes_loop get_plane get_props getprop cs cid num [] tmp best = best"
| "create_planes_loop get_plane get_props getprop cs cid num (p # ps) tmp best =
     (case get_plane p of
        None \<Rightarrow> create_planes_loop get_plane get_props getprop cs cid num ps tmp best
      | Some kplane \<Rightarrow>
          if \<not> bit (pl_possible_crtcs kplane) num \<or> is_plane_assigned cs (pl_id kplane) then
            create_planes_loop get_plane get_props getprop cs cid num ps tmp best
          else case get_props (pl_id kplane) of
            None \<Rightarrow> create_planes_loop get_plane get_props getprop cs cid num ps tmp best
          | Some prs \<Rightarrow>
              let tmp = snd (drmmode_prop_info_update getprop tmp prs);
                  found = Some (kplane,
                    ucast (drmmode_prop_get_value (tmp ! plane_property_index PLANE_IN_FORMATS) prs 0),
                    drmmode_prop_info_copy tmp True)
              in if drmmode_prop_get_value (tmp ! plane_property_index PLANE_TYPE) prs
                      DRMMODE_PLANE_TYPE_COUNT \<noteq> DRMMODE_PLANE_TYPE_PRIMARY then
                   create_planes_loop get_plane get_props getprop cs cid num ps tmp best
                 else if ucast (drmmode_prop_get_value (tmp ! plane_property_index PLANE_CRTC_ID) prs 0) = cid
                 then found
                 else create_planes_loop get_plane get_props getprop cs cid num ps tmp
                        (if best = None then found else best))"

text \<open>
  \<^verbatim>\<open>drmmode_crtc_create_planes\<close> on the CRTC with index \<open>num\<close>, \<open>planes\<close> being
  the kernel's list of planes when it gives one.
\<close>

definition drmmode_crtc_create_planes ::
  "(u32 \<Rightarrow> drm_plane option) \<Rightarrow> (u32 \<Rightarrow> (u32 \<times> u64) list option) \<Rightarrow> (u32 \<Rightarrow> drm_property option) \<Rightarrow>
     (u32 \<Rightarrow> format_blob option) \<Rightarrow> nat option \<Rightarrow> u32 list option \<Rightarrow> crtc list \<Rightarrow> nat \<Rightarrow> crtc \<Rightarrow> crtc" where
  "drmmode_crtc_create_planes get_plane get_props getprop get_blob fail_at planes cs num c =
     (case planes of
        None \<Rightarrow> c
      | Some ps \<Rightarrow>
          (case create_planes_loop get_plane get_props getprop cs (crtc_id c) num ps
                  (drmmode_prop_info_copy plane_props False) None of
             None \<Rightarrow> c\<lparr>plane_id := 0\<rparr>
           | Some (kplane, blob_id, prs) \<Rightarrow>
               c\<lparr>plane_id := pl_id kplane, props_plane := prs,
                 formats :=
                   (case populate_format_modifiers get_blob fail_at blob_id
                           (replicate (length (pl_formats kplane)) \<lparr>fmt_format = 0, fmt_modifiers = []\<rparr>) of
                      (True, fms) \<Rightarrow> fms
                    | (False, fms) \<Rightarrow>
                        map (\<lambda>(it, f). it\<lparr>fmt_format := f\<rparr>) (zip fms (pl_formats kplane)))\<rparr>))"

definition drmmode_crtc_vblank_pipe :: "nat \<Rightarrow> u32" where
  "drmmode_crtc_vblank_pipe n =
     (if n > 1 then push_bit 1 (of_nat n) else if n > 0 then 0x20000000 else 0)"

section \<open>Mode records\<close>

definition to_kname :: "string option \<Rightarrow> char list" where
  "to_kname n =
     (case n of
        None \<Rightarrow> replicate 32 (CHR 0x00)
      | Some s \<Rightarrow> (take 32 (s @ replicate 32 (CHR 0x00)))[31 := CHR 0x00])"

definition from_kname :: "char list \<Rightarrow> string" where
  "from_kname k = takeWhile (\<lambda>c. c \<noteq> CHR 0x00) k"

abbreviation (input) M_T_PREFERRED :: int where "M_T_PREFERRED \<equiv> 0x08"
abbreviation (input) M_T_DRIVER :: int where "M_T_DRIVER \<equiv> 0x40"

text \<open>\<^verbatim>\<open>xf86SetModeCrtc\<close> fills fields derived from these, which are not modelled.\<close>

definition drmmode_ConvertFromKMode :: "kmode \<Rightarrow> display_mode" where
  "drmmode_ConvertFromKMode k =
     \<lparr>m_Clock = sint (k_clock k),
      m_HDisplay = uint (k_hdisplay k), m_HSyncStart = uint (k_hsync_start k),
      m_HSyncEnd = uint (k_hsync_end k), m_HTotal = uint (k_htotal k), m_HSkew = uint (k_hskew k),
      m_VDisplay = uint (k_vdisplay k), m_VSyncStart = uint (k_vsync_start k),
      m_VSyncEnd = uint (k_vsync_end k), m_VTotal = uint (k_vtotal k), m_VScan = uint (k_vscan k),
      m_Flags = sint (k_flags k),
      m_type = (let t = (if bit (k_type k) 6 then M_T_DRIVER else 0)
                in if bit (k_type k) 3 then t OR M_T_PREFERRED else t),
      m_name = Some (from_kname (k_name k))\<rparr>"

definition drmmode_ConvertToKMode :: "display_mode \<Rightarrow> kmode" where
  "drmmode_ConvertToKMode m =
     \<lparr>k_clock = word_of_int (m_Clock m),
      k_hdisplay = word_of_int (m_HDisplay m), k_hsync_start = word_of_int (m_HSyncStart m),
      k_hsync_end = word_of_int (m_HSyncEnd m), k_htotal = word_of_int (m_HTotal m),
      k_hskew = word_of_int (m_HSkew m),
      k_vdisplay = word_of_int (m_VDisplay m), k_vsync_start = word_of_int (m_VSyncStart m),
      k_vsync_end = word_of_int (m_VSyncEnd m), k_vtotal = word_of_int (m_VTotal m),
      k_vscan = word_of_int (m_VScan m), k_vrefresh = 0,
      k_flags = word_of_int (m_Flags m), k_type = 0, k_name = to_kname (m_name m)\<rparr>"

definition drmmode_CompareKModes :: "kmode \<Rightarrow> kmode \<Rightarrow> bool" where
  "drmmode_CompareKModes a b \<longleftrightarrow> a = b"

section \<open>Lemmas on formats\<close>

lemma add_modifiers_spec:
  "add_modifiers rok planes fmt excl ms ret = Some r \<Longrightarrow> distinct ret \<Longrightarrow>
     distinct r \<and> set r = set ret \<union> {m \<in> set ms. \<not> (excl \<and> planes fmt m > 1)}"
  by (induction ms arbitrary: ret) (auto simp: split: if_splits)

lemma add_formats_spec:
  "add_formats rok planes fmt excl its ret = Some r \<Longrightarrow> distinct ret \<Longrightarrow>
     distinct r \<and>
     set r = set ret \<union> {m. \<not> (excl \<and> planes fmt m > 1) \<and>
                            (\<exists>it \<in> set its. fmt_format it = fmt \<and> m \<in> set (fmt_modifiers it))}"
proof (induction its arbitrary: ret)
  case Nil
  then show ?case by simp
next
  case (Cons it its)
  show ?case
  proof (cases "fmt_format it = fmt")
    case False
    with Cons show ?thesis by auto
  next
    case True
    with Cons.prems obtain r1 where r1: "add_modifiers rok planes fmt excl (fmt_modifiers it) ret = Some r1"
      "add_formats rok planes fmt excl its r1 = Some r" by (auto split: option.splits)
    with add_modifiers_spec [OF r1(1) Cons.prems(2)] Cons.IH [OF r1(2)] True show ?thesis by auto
  qed
qed

lemma add_crtcs_spec:
  "add_crtcs rok planes fmt only excl cs ret = Some r \<Longrightarrow> distinct ret \<Longrightarrow>
     distinct r \<and>
     set r = set ret \<union> {m. \<not> (excl \<and> planes fmt m > 1) \<and>
       (\<exists>c \<in> set cs. (only \<longrightarrow> enabled c) \<and>
          (\<exists>it \<in> set (formats c). fmt_format it = fmt \<and> m \<in> set (fmt_modifiers it)))}"
proof (induction cs arbitrary: ret)
  case Nil
  then show ?case by simp
next
  case (Cons c cs)
  show ?case
  proof (cases "only \<and> \<not> enabled c")
    case True
    with Cons show ?thesis by auto
  next
    case False
    with Cons.prems obtain r1 where r1: "add_formats rok planes fmt excl (formats c) ret = Some r1"
      "add_crtcs rok planes fmt only excl cs r1 = Some r" by (auto split: option.splits)
    with add_formats_spec [OF r1(1) Cons.prems(2)] Cons.IH [OF r1(2)] False show ?thesis by auto
  qed
qed

lemma add_modifiers_total: "\<exists>r. add_modifiers (\<lambda>_. True) planes fmt excl ms ret = Some r"
  by (induction ms arbitrary: ret) auto

lemma add_formats_total: "\<exists>r. add_formats (\<lambda>_. True) planes fmt excl its ret = Some r"
proof (induction its arbitrary: ret)
  case (Cons it its)
  then show ?case
    using add_modifiers_total [of planes fmt excl "fmt_modifiers it" ret] by auto
qed simp

lemma add_crtcs_total: "\<exists>r. add_crtcs (\<lambda>_. True) planes fmt only excl cs ret = Some r"
proof (induction cs arbitrary: ret)
  case (Cons c cs)
  then show ?case
    using add_formats_total [of planes fmt excl "formats c" ret] by auto
qed simp

lemma format_supported_iff:
  "drmmode_is_format_supported cs fmt m \<longleftrightarrow>
     (\<forall>c \<in> set cs. enabled c \<and> formats c \<noteq> [] \<longrightarrow> crtc_supports c (get_opaque_format fmt) m)"
  by (induction cs) auto

text \<open>
  C11. Modifier sets. The set collected for a format has no duplicates and, unless memory ran
  out, is exactly the modifiers some CRTC (some enabled CRTC, on request) lists for the opaque
  variant of the format, without the multi-plane ones on request; and a buffer the driver
  would accept for a page flip, with an explicit modifier, has a modifier of that set as soon
  as one enabled CRTC lists modifiers for the format.
\<close>

theorem modifiers_set_correct:
  assumes "get_modifiers_set rok planes cs fmt only excl = ms"
  shows "distinct ms \<and>
    (add_crtcs rok planes (get_opaque_format fmt) only excl cs [] \<noteq> None \<longrightarrow>
       set ms = {m. \<not> (excl \<and> planes (get_opaque_format fmt) m > 1) \<and>
         (\<exists>c \<in> set cs. (only \<longrightarrow> enabled c) \<and>
            (\<exists>it \<in> set (formats c). fmt_format it = get_opaque_format fmt \<and>
               m \<in> set (fmt_modifiers it)))}) \<and>
    (drmmode_is_format_supported cs fmt m \<longrightarrow> m \<noteq> DRM_FORMAT_MOD_INVALID \<longrightarrow>
       c \<in> set cs \<longrightarrow> enabled c \<longrightarrow>
       find (\<lambda>it. fmt_format it = get_opaque_format fmt) (formats c) = Some it \<longrightarrow>
       fmt_modifiers it \<noteq> [] \<longrightarrow>
       m \<in> set (get_modifiers_set (\<lambda>_. True) planes cs fmt True False))"
proof (intro conjI impI)
  show "distinct ms"
    using assms add_crtcs_spec [of rok planes "get_opaque_format fmt" only excl cs "[]"]
    by (auto simp: get_modifiers_set_def split: option.splits)
next
  assume "add_crtcs rok planes (get_opaque_format fmt) only excl cs [] \<noteq> None"
  then show "set ms = {m. \<not> (excl \<and> planes (get_opaque_format fmt) m > 1) \<and>
         (\<exists>c \<in> set cs. (only \<longrightarrow> enabled c) \<and>
            (\<exists>it \<in> set (formats c). fmt_format it = get_opaque_format fmt \<and>
               m \<in> set (fmt_modifiers it)))}"
    using assms add_crtcs_spec [of rok planes "get_opaque_format fmt" only excl cs "[]" ms]
    by (cases "add_crtcs rok planes (get_opaque_format fmt) only excl cs []")
       (simp_all add: get_modifiers_set_def)
next
  assume sup: "drmmode_is_format_supported cs fmt m" "m \<noteq> DRM_FORMAT_MOD_INVALID"
    and c: "c \<in> set cs" "enabled c"
    and it: "find (\<lambda>it. fmt_format it = get_opaque_format fmt) (formats c) = Some it"
      "fmt_modifiers it \<noteq> []"
  from it(1) have mem: "it \<in> set (formats c)" "fmt_format it = get_opaque_format fmt"
    by (auto dest: find_Some_iff [THEN iffD1] simp: in_set_conv_nth)
  with sup c have "crtc_supports c (get_opaque_format fmt) m"
    by (auto simp: format_supported_iff)
  with it sup(2) have "m \<in> set (fmt_modifiers it)"
    by (simp add: crtc_supports_def split: if_splits)
  with mem c have ex: "\<exists>c \<in> set cs. enabled c \<and> (\<exists>it \<in> set (formats c).
      fmt_format it = get_opaque_format fmt \<and> m \<in> set (fmt_modifiers it))" by blast
  obtain r where r: "add_crtcs (\<lambda>_. True) planes (get_opaque_format fmt) True False cs [] = Some r"
    using add_crtcs_total by blast
  with ex add_crtcs_spec [OF r] have "m \<in> set r" by simp
  with r show "m \<in> set (get_modifiers_set (\<lambda>_. True) planes cs fmt True False)"
    by (simp add: get_modifiers_set_def)
qed

definition two_format_crtc :: crtc where
  "two_format_crtc = zero_crtc\<lparr>enabled := True,
     formats := [\<lparr>fmt_format = DRM_FORMAT_XRGB2101010, fmt_modifiers = [7]\<rparr>,
                 \<lparr>fmt_format = DRM_FORMAT_XRGB8888, fmt_modifiers = [0, 1, 0]\<rparr>]\<rparr>"

lemma modifiers_set_witness:
  "set (get_modifiers_set (\<lambda>_. True) (\<lambda>f m. if m = 1 then 2 else 1) [two_format_crtc]
          DRM_FORMAT_ARGB8888 False True) = {0} \<and>
   1 \<in> set (get_modifiers_set (\<lambda>_. True) (\<lambda>f m. 1) [two_format_crtc] DRM_FORMAT_ARGB8888 True False)"
proof
  show "set (get_modifiers_set (\<lambda>_. True) (\<lambda>f m. if m = 1 then 2 else 1) [two_format_crtc]
          DRM_FORMAT_ARGB8888 False True) = {0}"
    using modifiers_set_correct [of "\<lambda>_. True" "\<lambda>f m. if m = 1 then 2 else 1" "[two_format_crtc]"
        DRM_FORMAT_ARGB8888 False True "[0]"]
    by (simp add: get_modifiers_set_def two_format_crtc_def get_opaque_format_def)
  have "drmmode_is_format_supported [two_format_crtc] DRM_FORMAT_ARGB8888 1"
    by (simp add: crtc_supports_def two_format_crtc_def get_opaque_format_def)
  then show "1 \<in> set (get_modifiers_set (\<lambda>_. True) (\<lambda>f m. 1) [two_format_crtc] DRM_FORMAT_ARGB8888 True False)"
    using modifiers_set_correct [OF refl, where planes = "\<lambda>f m. 1" and cs = "[two_format_crtc]" and
        fmt = DRM_FORMAT_ARGB8888 and m = 1 and c = two_format_crtc and
        it = "\<lparr>fmt_format = DRM_FORMAT_XRGB8888, fmt_modifiers = [0, 1, 0]\<rparr>"]
    by (simp add: two_format_crtc_def zero_crtc_def get_opaque_format_def)
qed

section \<open>Lemmas on the blob\<close>

lemma int_bit_low:
  assumes "n mod 32 < 31"
  shows "int_bit n = push_bit (n mod 32) 1"
proof (rule bit_word_eqI)
  fix k
  assume "k < LENGTH(64)"
  with assms show "bit (int_bit n) k = bit (push_bit (n mod 32) 1 :: u64) k"
    by (auto simp: int_bit_def bit_simps min_def)
qed

lemma modifier_applies_shift:
  assumes "i < 4294967296" and "unat (fm_offset m) + 63 < 4294967296"
  shows "modifier_applies i m \<longleftrightarrow>
     unat (fm_offset m) \<le> i \<and> i \<le> unat (fm_offset m) + 63 \<and>
     fm_formats m AND int_bit (i - unat (fm_offset m)) \<noteq> 0"
proof -
  have ui: "unat (of_nat i :: u32) = i" using assms(1) by (simp add: unat_of_nat)
  have end_pos: "unat (fm_offset m + 63) = unat (fm_offset m) + 63"
    using assms(2) by (simp add: unat_word_ariths)
  have sub: "unat (fm_offset m) \<le> i \<Longrightarrow> unat (of_nat i - fm_offset m) = i - unat (fm_offset m)"
    using ui by (simp add: unat_sub word_le_nat_alt)
  show ?thesis
    by (auto simp: modifier_applies_def word_less_nat_alt ui end_pos sub not_less)
qed

text \<open>
  Reading a plane's \<^verbatim>\<open>IN_FORMATS\<close> blob. With at most 31 formats, every format
  gets exactly the modifiers whose mask has the bit of the format, in the blob's order.
\<close>

theorem populate_formats_correct:
  assumes "blob_id \<noteq> 0" and "get_blob blob_id = Some blob" and "length (fb_formats blob) \<le> 31"
    and "\<forall>m \<in> set (fb_modifiers blob). unat (fm_offset m) + 63 < 4294967296"
  shows "populate_format_modifiers get_blob None blob_id fms =
    (True, map (\<lambda>i. \<lparr>fmt_format = fb_formats blob ! i,
                     fmt_modifiers = map fm_modifier (filter
                       (\<lambda>m. unat (fm_offset m) \<le> i \<and> bit (fm_formats m) (i - unat (fm_offset m)))
                       (fb_modifiers blob))\<rparr>) [0..<length (fb_formats blob)])"
proof -
  have "modifier_applies i m \<longleftrightarrow>
      unat (fm_offset m) \<le> i \<and> bit (fm_formats m) (i - unat (fm_offset m))"
    if "i < length (fb_formats blob)" and "m \<in> set (fb_modifiers blob)" for i m
  proof -
    have "(i - unat (fm_offset m)) mod 32 = i - unat (fm_offset m)"
      and "(i - unat (fm_offset m)) mod 32 < 31" using that(1) assms(3) by simp_all
    then have "fm_formats m AND int_bit (i - unat (fm_offset m)) \<noteq> 0 \<longleftrightarrow>
        bit (fm_formats m) (i - unat (fm_offset m))"
      using int_bit_low [of "i - unat (fm_offset m)"] by (simp add: and_exp_eq_0_iff_not_bit)
    with that assms show ?thesis by (auto simp: modifier_applies_shift)
  qed
  with assms(1,2) show ?thesis
    by (simp add: populate_format_modifiers_def Let_def cong: filter_cong)
qed

lemma populate_formats_witness:
  "populate_format_modifiers
     (\<lambda>_. Some \<lparr>fb_formats = [10, 20],
                fb_modifiers = [\<lparr>fm_formats = 2, fm_offset = 0, fm_modifier = 5\<rparr>,
                                \<lparr>fm_formats = 3, fm_offset = 0, fm_modifier = 6\<rparr>]\<rparr>) None 77 [] =
   (True, [\<lparr>fmt_format = 10, fmt_modifiers = [6]\<rparr>, \<lparr>fmt_format = 20, fmt_modifiers = [5, 6]\<rparr>])"
  using populate_formats_correct [of 77 "\<lambda>_. Some \<lparr>fb_formats = [10, 20],
                fb_modifiers = [\<lparr>fm_formats = 2, fm_offset = 0, fm_modifier = 5\<rparr>,
                                \<lparr>fm_formats = 3, fm_offset = 0, fm_modifier = 6\<rparr>]\<rparr>"
      "\<lparr>fb_formats = [10, 20],
                fb_modifiers = [\<lparr>fm_formats = 2, fm_offset = 0, fm_modifier = 5\<rparr>,
                                \<lparr>fm_formats = 3, fm_offset = 0, fm_modifier = 6\<rparr>]\<rparr>" "[]"]
  by (simp add: upt_rec)

text \<open>
  Formats past the 32nd are misread. The mask of a modifier has 64 bits but is tested
  with an \<^verbatim>\<open>int\<close> shift: for the formats 32 to 62 places after the mask's offset the
  driver looks at the bit 32 places lower, the bit of another format.
\<close>

theorem high_formats_misread:
  assumes "i < 4294967296" and "unat (fm_offset m) + 63 < 4294967296"
    and "unat (fm_offset m) + 32 \<le> i" and "i \<le> unat (fm_offset m) + 62"
  shows "modifier_applies i m \<longleftrightarrow> bit (fm_formats m) (i - unat (fm_offset m) - 32)"
proof -
  have "(i - unat (fm_offset m)) mod 32 = i - unat (fm_offset m) - 32"
    using assms(3,4) by (simp add: mod_if)
  moreover have "\<dots> < 31" using assms(4) by simp
  ultimately show ?thesis
    using assms int_bit_low [of "i - unat (fm_offset m)"]
    by (simp add: modifier_applies_shift and_exp_eq_0_iff_not_bit)
qed

lemma high_formats_witness:
  "modifier_applies 32 \<lparr>fm_formats = 1, fm_offset = 0, fm_modifier = 9\<rparr> \<longleftrightarrow> bit (1 :: u64) 0"
  using high_formats_misread [of 32 "\<lparr>fm_formats = 1, fm_offset = 0, fm_modifier = 9\<rparr>"] by simp

section \<open>Lemmas on property tables\<close>

text \<open>
  The specification of a table filled from an object: the entry of a name holds the
  identifier of the object's property of that name, and its enum values carry the kernel's
  numbers.
\<close>

definition table_entry ::
  "(u32 \<Rightarrow> drm_property option) \<Rightarrow> u32 list \<Rightarrow> prop_info \<Rightarrow> prop_info" where
  "table_entry getprop ids i =
     (case find (\<lambda>p. dp_name (the (getprop p)) = pi_name i) ids of
        None \<Rightarrow> i
      | Some p \<Rightarrow>
          i\<lparr>pi_prop_id := p,
            pi_enum_values :=
              (if dp_is_enum (the (getprop p))
               then map (update_enum (dp_enums (the (getprop p)))) (pi_enum_values i)
               else pi_enum_values i)\<rparr>)"

text \<open>The kernel's answers: every property can be read, has an identifier and a name of its own.\<close>

definition object_ok :: "(u32 \<Rightarrow> drm_property option) \<Rightarrow> u32 list \<Rightarrow> bool" where
  "object_ok getprop ids \<longleftrightarrow>
     distinct ids \<and> 0 \<notin> set ids \<and> (\<forall>p \<in> set ids. getprop p \<noteq> None) \<and>
     inj_on (\<lambda>p. dp_name (the (getprop p))) (set ids)"

lemma table_entry_name [simp]: "pi_name (table_entry getprop ids i) = pi_name i"
  by (simp add: table_entry_def split: option.split)

lemma table_entry_id:
  "pi_prop_id i = 0 \<Longrightarrow> pi_prop_id (table_entry getprop ids i) =
     (case find (\<lambda>p. dp_name (the (getprop p)) = pi_name i) ids of None \<Rightarrow> 0 | Some p \<Rightarrow> p)"
  by (simp add: table_entry_def split: option.split)

lemma index_of_Some:
  "index_of P xs = Some j \<Longrightarrow> j < length xs \<and> P (xs ! j)"
  by (induction xs arbitrary: j) (auto split: if_splits)

lemma index_of_None: "index_of P xs = None \<longleftrightarrow> (\<forall>x \<in> set xs. \<not> P x)"
  by (induction xs) auto

lemma table_entry_snoc_other:
  "dp_name (the (getprop p)) \<noteq> pi_name i \<Longrightarrow>
     table_entry getprop (us @ [p]) i = table_entry getprop us i"
  by (simp add: table_entry_def find_append split: option.split)

lemma table_entry_found:
  assumes "pi_prop_id i = 0" and "pi_prop_id (table_entry getprop us i) \<noteq> 0"
  shows "table_entry getprop (us @ vs) i = table_entry getprop us i"
  using assms by (auto simp: table_entry_def find_append split: option.splits)

lemma prop_info_no_enums:
  "pi_enum_values i = [] \<Longrightarrow> i\<lparr>pi_prop_id := p, pi_enum_values := []\<rparr> = i\<lparr>pi_prop_id := p\<rparr>"
  by (cases i) simp

lemma prop_update_loop_spec:
  assumes "object_ok getprop (us @ ps)" and "distinct (map pi_name info)"
    and "\<forall>i \<in> set info. pi_prop_id i = 0" and "length info \<le> 32"
    and "\<And>j. bit m j \<longleftrightarrow> j < length info \<and> pi_prop_id (table_entry getprop us (info ! j)) \<noteq> 0"
  shows "snd (prop_info_update_loop getprop ps (m, map (table_entry getprop us) info)) =
           map (table_entry getprop (us @ ps)) info \<and>
         (\<forall>j. bit (fst (prop_info_update_loop getprop ps (m, map (table_entry getprop us) info))) j \<longleftrightarrow>
            j < length info \<and> pi_prop_id (table_entry getprop (us @ ps) (info ! j)) \<noteq> 0)"
  using assms
proof (induction ps arbitrary: us m)
  case Nil
  then show ?case by simp
next
  case (Cons p ps)
  let ?T = "map (table_entry getprop us) info"
  from Cons.prems(1) have p: "p \<noteq> 0" "p \<notin> set us" "getprop p \<noteq> None"
    by (auto simp: object_ok_def)
  from Cons.prems(1) have none: "find (\<lambda>q. dp_name (the (getprop q)) = dp_name (the (getprop p))) us = None"
    using p(2) by (auto simp: find_None_iff object_ok_def inj_on_def)
  have ids: "\<forall>i \<in> set info. pi_prop_id (table_entry getprop us i) = 0 \<or>
                 pi_prop_id (table_entry getprop us i) \<in> set us"
    using Cons.prems(3) by (auto simp: table_entry_id split: option.split dest: find_Some_mem)
  then have notp: "\<not> list_ex (\<lambda>i. pi_prop_id i = p) ?T"
    using p by (auto simp: list_ex_iff)
  show ?case
  proof (cases "list_ex (\<lambda>i. pi_prop_id i = 0) ?T")
    case False
    then have "\<forall>i \<in> set info. table_entry getprop (us @ p # ps) i = table_entry getprop us i"
      using Cons.prems(3) by (auto simp: list_ex_iff intro!: table_entry_found)
    moreover from this have "\<And>j. j < length info \<Longrightarrow>
        table_entry getprop (us @ p # ps) (info ! j) = table_entry getprop us (info ! j)" by simp
    moreover have "prop_info_update_loop getprop (p # ps) (m, ?T) = (m, ?T)"
      using False notp by (simp add: prop_info_update_one_def)
    ultimately show ?thesis using Cons.prems(5) by (auto simp: map_eq_conv)
  next
    case True
    obtain pr where pr: "getprop p = Some pr" using p(3) by auto
    have "\<exists>m'. prop_info_update_one getprop p (m, ?T) =
              Some (m', map (table_entry getprop (us @ [p])) info) \<and>
            (\<forall>j. bit m' j \<longleftrightarrow> j < length info \<and>
               pi_prop_id (table_entry getprop (us @ [p]) (info ! j)) \<noteq> 0)"
    proof (cases "index_of (\<lambda>i. pi_name i = dp_name pr) ?T")
      case None
      then have "\<forall>i \<in> set info. table_entry getprop (us @ [p]) i = table_entry getprop us i"
        using pr by (auto simp: index_of_None intro!: table_entry_snoc_other)
      moreover from this have "\<And>j. j < length info \<Longrightarrow>
          table_entry getprop (us @ [p]) (info ! j) = table_entry getprop us (info ! j)" by simp
      ultimately show ?thesis using None True notp pr Cons.prems(5)
        by (intro exI [of _ m]) (auto simp: prop_info_update_one_def map_eq_conv)
    next
      case (Some j)
      then have j: "j < length info" "pi_name (info ! j) = dp_name pr"
        by (auto dest!: index_of_Some)
      have other: "table_entry getprop (us @ [p]) (info ! k) = table_entry getprop us (info ! k)"
        if "k < length info" and "k \<noteq> j" for k
        using that j pr Cons.prems(2) by (intro table_entry_snoc_other) (auto simp: distinct_conv_nth)
      have old: "table_entry getprop us (info ! j) = info ! j"
        using none pr j(2) by (simp add: table_entry_def)
      have new: "table_entry getprop (us @ [p]) (info ! j) =
          (info ! j)\<lparr>pi_prop_id := p, pi_enum_values :=
             (if dp_is_enum pr then map (update_enum (dp_enums pr)) (pi_enum_values (info ! j))
              else pi_enum_values (info ! j))\<rparr>"
        using none pr j(2) by (simp add: table_entry_def find_append)
      have T: "map (table_entry getprop (us @ [p])) info = ?T[j := table_entry getprop (us @ [p]) (info ! j)]"
        using other j(1) by (intro nth_equalityI) (auto simp: nth_list_update)
      have "prop_info_update_one getprop p (m, ?T) =
          Some (m OR push_bit j 1, ?T[j := table_entry getprop (us @ [p]) (info ! j)])"
        using Some True notp pr j(1) old
        by (auto simp: prop_info_update_one_def new Let_def prop_info_no_enums)
      moreover have "bit (m OR push_bit j 1) k \<longleftrightarrow> k < length info \<and>
          pi_prop_id (table_entry getprop (us @ [p]) (info ! k)) \<noteq> 0" for k
      proof (cases "k = j")
        case True
        then have "bit (push_bit j 1 :: u32) k" using j(1) Cons.prems(4) by (simp add: bit_simps)
        then show ?thesis using True j(1) p(1) by (simp add: bit_or_iff new)
      next
        case False
        then have "\<not> bit (push_bit j 1 :: u32) k" by (auto simp: bit_simps)
        then show ?thesis using Cons.prems(5) [of k] other [OF _ False] by (auto simp: bit_or_iff)
      qed
      ultimately show ?thesis using T by auto
    qed
    then obtain m' where one: "prop_info_update_one getprop p (m, ?T) =
        Some (m', map (table_entry getprop (us @ [p])) info)"
      and m': "\<And>j. bit m' j \<longleftrightarrow> j < length info \<and>
               pi_prop_id (table_entry getprop (us @ [p]) (info ! j)) \<noteq> 0" by blast
    show ?thesis
      using Cons.IH [of "us @ [p]" m'] Cons.prems(1-4) m' one by simp
  qed
qed

text \<open>
  Discovering properties. When the object's properties have identifiers and names of
  their own, one pass fills a fresh table exactly: the entry of each name holds the
  identifier of the property with that name and zero when there is none, the enum values
  carry the kernel's numbers, and the result has the bits of the entries found.
\<close>

theorem prop_info_update_correct:
  assumes "object_ok getprop (map fst ps)" and "distinct (map pi_name info)"
    and "\<forall>i \<in> set info. pi_prop_id i = 0" and "length info \<le> 32"
  shows "snd (drmmode_prop_info_update getprop info ps) = map (table_entry getprop (map fst ps)) info \<and>
         (\<forall>j. bit (fst (drmmode_prop_info_update getprop info ps)) j \<longleftrightarrow>
            j < length info \<and> pi_prop_id (snd (drmmode_prop_info_update getprop info ps) ! j) \<noteq> 0)"
proof -
  have empty: "map (table_entry getprop []) info = info"
    by (simp add: table_entry_def map_idI)
  have "\<And>j. bit (0 :: u32) j \<longleftrightarrow> j < length info \<and> pi_prop_id (table_entry getprop [] (info ! j)) \<noteq> 0"
    using assms(3) by (auto simp: table_entry_def)
  with prop_update_loop_spec [of getprop "[]" "map fst ps" info 0] assms
  show ?thesis by (auto simp: drmmode_prop_info_update_def empty)
qed

definition demo_getprop :: "u32 \<Rightarrow> drm_property option" where
  "demo_getprop p =
     (if p = 30 then Some \<lparr>dp_name = ''MODE_ID'', dp_is_enum = False, dp_enums = []\<rparr>
      else if p = 31 then Some \<lparr>dp_name = ''VRR_ENABLED'', dp_is_enum = False, dp_enums = []\<rparr>
      else if p = 32 then Some \<lparr>dp_name = ''ACTIVE'', dp_is_enum = False, dp_enums = []\<rparr>
      else None)"

lemma prop_info_update_witness:
  "map pi_prop_id (snd (drmmode_prop_info_update demo_getprop crtc_props [(30, 0), (31, 0), (32, 1)])) = [32, 30]"
proof -
  have "object_ok demo_getprop (map fst [(30 :: u32, 0 :: u64), (31, 0), (32, 1)])"
    by (simp add: object_ok_def demo_getprop_def)
  then show ?thesis
    using prop_info_update_correct [of demo_getprop "[(30, 0), (31, 0), (32, 1)]" crtc_props]
    by (simp add: crtc_props_def plain_prop_def table_entry_def demo_getprop_def)
qed

section \<open>Lemmas on planes\<close>

lemma create_planes_loop_chosen:
  assumes "create_planes_loop get_plane get_props getprop cs cid num ps tmp best = Some (kp, blob, prs)"
    and "\<forall>kp' blob' prs'. best = Some (kp', blob', prs') \<longrightarrow>
           bit (pl_possible_crtcs kp') num \<and> \<not> is_plane_assigned cs (pl_id kp')"
  shows "bit (pl_possible_crtcs kp) num \<and> \<not> is_plane_assigned cs (pl_id kp)"
  using assms
  by (induction ps arbitrary: tmp best)
     (auto simp: Let_def split: option.splits if_splits)

text \<open>
  No two CRTCs share a primary plane. The plane a CRTC takes can drive it and belongs to
  no CRTC of the screen that has taken one before, whatever the kernel reports.
\<close>

theorem planes_not_shared:
  assumes "c' = drmmode_crtc_create_planes get_plane get_props getprop get_blob fail_at (Some ps) cs num c"
    and "plane_id c' \<noteq> 0"
  shows "(\<forall>d \<in> set cs. plane_id d \<noteq> plane_id c') \<and>
         (\<exists>kp :: drm_plane. pl_id kp = plane_id c' \<and> bit (pl_possible_crtcs kp) num)"
proof -
  obtain kp blob prs where loop: "create_planes_loop get_plane get_props getprop cs (crtc_id c) num ps
      (drmmode_prop_info_copy plane_props False) None = Some (kp, blob, prs)"
    using assms by (auto simp: drmmode_crtc_create_planes_def split: option.splits)
  then have "plane_id c' = pl_id kp"
    using assms(1) by (simp add: drmmode_crtc_create_planes_def)
  moreover have "bit (pl_possible_crtcs kp) num \<and> (\<forall>d \<in> set cs. plane_id d \<noteq> pl_id kp)"
    using create_planes_loop_chosen [OF loop] by (simp add: is_plane_assigned_def list_ex_iff)
  ultimately show ?thesis by (intro conjI exI [of _ kp]) simp_all
qed

text \<open>Two primary planes without properties but the type; the first is taken by another CRTC.\<close>

lemma planes_not_shared_witness:
  "plane_id (drmmode_crtc_create_planes (\<lambda>p. Some \<lparr>pl_id = p, pl_possible_crtcs = 3, pl_formats = []\<rparr>)
      (\<lambda>p. Some [(9, 1)])
      (\<lambda>p. Some \<lparr>dp_name = ''type'', dp_is_enum = True, dp_enums = [(''Overlay'', 0), (''Primary'', 1)]\<rparr>)
      (\<lambda>b. None) None (Some [40, 41]) [zero_crtc\<lparr>plane_id := 40\<rparr>] 1 zero_crtc) = 41 \<and>
   (41 :: u32) \<noteq> 40"
proof -
  let ?c = "drmmode_crtc_create_planes (\<lambda>p. Some \<lparr>pl_id = p, pl_possible_crtcs = 3, pl_formats = []\<rparr>)
      (\<lambda>p. Some [(9, 1)])
      (\<lambda>p. Some \<lparr>dp_name = ''type'', dp_is_enum = True, dp_enums = [(''Overlay'', 0), (''Primary'', 1)]\<rparr>)
      (\<lambda>b. None) None (Some [40, 41]) [zero_crtc\<lparr>plane_id := 40\<rparr>] 1 zero_crtc"
  have 41: "plane_id ?c = 41"
    by (simp add: drmmode_crtc_create_planes_def is_plane_assigned_def drmmode_prop_info_copy_def
        plane_props_def plain_prop_def drmmode_prop_info_update_def prop_info_update_one_def
        update_enum_def drmmode_prop_get_value_def zero_crtc_def bit_simps Let_def
        populate_format_modifiers_def)
  then have "\<forall>d \<in> set [zero_crtc\<lparr>plane_id := 40\<rparr>]. plane_id d \<noteq> plane_id ?c"
    using planes_not_shared [OF refl] by fastforce
  with 41 show ?thesis by simp
qed

section \<open>Lemmas on modes\<close>

text \<open>A name as the kernel hands it out: terminated and padded with zero bytes.\<close>

definition kname_ok :: "char list \<Rightarrow> bool" where
  "kname_ok k \<longleftrightarrow> (\<exists>n. k = n @ replicate (32 - length n) (CHR 0x00) \<and> length n < 32 \<and> CHR 0x00 \<notin> set n)"

lemma kname_roundtrip: "kname_ok k \<Longrightarrow> to_kname (Some (from_kname k)) = k"
proof -
  assume "kname_ok k"
  then obtain n where k: "k = n @ replicate (32 - length n) (CHR 0x00)" "length n < 32"
    "CHR 0x00 \<notin> set n" by (auto simp: kname_ok_def)
  have "from_kname k = n"
  proof -
    have "takeWhile (\<lambda>c. c \<noteq> CHR 0x00) (n @ ys) = n @ takeWhile (\<lambda>c. c \<noteq> CHR 0x00) ys" for ys
      using k(3) by (intro takeWhile_append2) auto
    then show ?thesis using k(2) by (simp add: from_kname_def k(1))
  qed
  moreover have "take 32 (n @ replicate 32 (CHR 0x00)) = k" using k(2) by (simp add: k(1))
  moreover have "k[31 := CHR 0x00] = k"
    using k(2) by (intro list_update_same_conv [THEN iffD2]) (simp_all add: k(1) nth_append)
  ultimately show ?thesis by (simp add: to_kname_def)
qed

text \<open>
  C13. Mode records survive the round trip. A mode of the kernel converted for the server and
  back programs the same timings, flags and name; only the refresh rate and the type, which
  the driver does not send, are cleared. So a mode set by the server compares equal to the
  one already programmed exactly when they agree on the rest.
\<close>

theorem kmode_roundtrip:
  assumes "kname_ok (k_name k)"
  shows "drmmode_ConvertToKMode (drmmode_ConvertFromKMode k) = k\<lparr>k_vrefresh := 0, k_type := 0\<rparr>"
  using kname_roundtrip [OF assms]
  by (simp add: drmmode_ConvertToKMode_def drmmode_ConvertFromKMode_def)

definition hd_kmode :: kmode where
  "hd_kmode = \<lparr>k_clock = 148500, k_hdisplay = 1920, k_hsync_start = 2008, k_hsync_end = 2052,
     k_htotal = 2200, k_hskew = 0, k_vdisplay = 1080, k_vsync_start = 1084, k_vsync_end = 1089,
     k_vtotal = 1125, k_vscan = 0, k_vrefresh = 60, k_flags = 5, k_type = 72,
     k_name = ''1920x1080'' @ replicate 23 (CHR 0x00)\<rparr>"

lemma kmode_roundtrip_witness:
  "drmmode_ConvertToKMode (drmmode_ConvertFromKMode hd_kmode) = hd_kmode\<lparr>k_vrefresh := 0, k_type := 0\<rparr>"
  by (rule kmode_roundtrip)
     (auto simp: kname_ok_def hd_kmode_def intro!: exI [of _ "''1920x1080''"])

end
