(* ===== verification/Buffers.thy ===== *)
theory Buffers
  imports Kms_Props
begin

text \<open>
  Scanout buffers: dumb buffers (\<^verbatim>\<open>src/src/dumb_bo.c\<close>) and the
  \<^verbatim>\<open>drmmode_bo\<close> that holds a dumb or a GBM buffer
  (\<^verbatim>\<open>src/src/drmmode_display.c\<close>). A null \<^verbatim>\<open>bo->dumb\<close> is \<open>None\<close>; what the
  code reads through it is then unspecified.
\<close>

section \<open>Dumb buffers\<close>

definition dumb_bo_create ::
  "'k kernel \<Rightarrow> u32 \<Rightarrow> u32 \<Rightarrow> u32 \<Rightarrow> ('d, 'k, 'z) drm_scheme \<Rightarrow>
     dumb_bo option \<times> ('d, 'k, 'z) drm_scheme" where
  "dumb_bo_create K width height bpp s =
     (case calloc s of (ok, s) \<Rightarrow>
        if \<not> ok then (None, s)
        else case create_dumb K width height bpp (kst s) of
          ((ret, handle, sz, pitch), k) \<Rightarrow>
            if ret \<noteq> 0 then (None, s\<lparr>kst := k\<rparr>)
            else (Some \<lparr>db_handle = handle, db_size = ucast sz, db_ptr = False, db_pitch = pitch\<rparr>,
                  s\<lparr>kst := k\<rparr>))"

definition dumb_bo_map ::
  "'k kernel \<Rightarrow> dumb_bo \<Rightarrow> ('d, 'k, 'z) drm_scheme \<Rightarrow>
     (int \<times> dumb_bo) \<times> ('d, 'k, 'z) drm_scheme" where
  "dumb_bo_map K bo s =
     (if db_ptr bo then ((0, bo), s)
      else case map_dumb K (db_handle bo) (kst s) of
        ((ret, offset), k) \<Rightarrow>
          if ret \<noteq> 0 then ((ret, bo), s\<lparr>kst := k\<rparr>)
          else case sys_mmap K (db_size bo) offset k of
            ((ok, err), k) \<Rightarrow>
              if \<not> ok then ((- err, bo), s\<lparr>kst := k, errno := err\<rparr>)
              else ((0, bo\<lparr>db_ptr := True\<rparr>), s\<lparr>kst := k\<rparr>))"

text \<open>The buffer is \<open>None\<close> once freed.\<close>

definition dumb_bo_destroy ::
  "'k kernel \<Rightarrow> dumb_bo \<Rightarrow> ('d, 'k, 'z) drm_scheme \<Rightarrow>
     (int \<times> dumb_bo option) \<times> ('d, 'k, 'z) drm_scheme" where
  "dumb_bo_destroy K bo s =
     (let s = (if db_ptr bo then s\<lparr>kst := sys_munmap K (db_size bo) (kst s)\<rparr> else s);
          bo = bo\<lparr>db_ptr := False\<rparr>
      in case destroy_dumb K (db_handle bo) (kst s) of
           ((ret, err), k) \<Rightarrow>
             if ret \<noteq> 0 then ((- err, Some bo), s\<lparr>kst := k, errno := err\<rparr>)
             else ((0, None), s\<lparr>kst := k\<rparr>))"

definition dumb_get_bo_from_fd ::
  "'k kernel \<Rightarrow> int \<Rightarrow> u32 \<Rightarrow> u32 \<Rightarrow> ('d, 'k, 'z) drm_scheme \<Rightarrow>
     dumb_bo option \<times> ('d, 'k, 'z) drm_scheme" where
  "dumb_get_bo_from_fd K handle pitch sz s =
     (case calloc s of (ok, s) \<Rightarrow>
        if \<not> ok then (None, s)
        else case drmPrimeFDToHandle K handle (kst s) of
          ((ret, h), k) \<Rightarrow>
            if ret \<noteq> 0 then (None, s\<lparr>kst := k\<rparr>)
            else (Some \<lparr>db_handle = h, db_size = sz, db_ptr = False, db_pitch = pitch\<rparr>,
                  s\<lparr>kst := k\<rparr>))"

section \<open>Buffers of the display\<close>

definition drmmode_bo_destroy ::
  "'k kernel \<Rightarrow> drmmode_bo \<Rightarrow> ('d, 'k, 'z) drm_scheme \<Rightarrow> drmmode_bo \<times> ('d, 'k, 'z) drm_scheme" where
  "drmmode_bo_destroy K bo s =
     (let (bo, s) =
        (case bo_gbm bo of
           None \<Rightarrow> (bo, s)
         | Some g \<Rightarrow> (bo\<lparr>bo_gbm := None\<rparr>, s\<lparr>kst := gbm_bo_destroy K g (kst s)\<rparr>))
      in case bo_dumb bo of
           None \<Rightarrow> (bo, s)
         | Some d \<Rightarrow>
             (case dumb_bo_destroy K d s of
                ((ret, d'), s) \<Rightarrow> if ret = 0 then (bo\<lparr>bo_dumb := None\<rparr>, s) else (bo\<lparr>bo_dumb := d'\<rparr>, s)))"

definition drmmode_bo_get_pitch :: "drmmode_bo \<Rightarrow> u32" where
  "drmmode_bo_get_pitch bo =
     (case bo_gbm bo of Some g \<Rightarrow> gb_stride g | None \<Rightarrow> db_pitch (the (bo_dumb bo)))"

definition drmmode_bo_has_bo :: "drmmode_bo \<Rightarrow> bool" where
  "drmmode_bo_has_bo bo = (if bo_gbm bo \<noteq> None then True else bo_dumb bo \<noteq> None)"

definition drmmode_bo_get_handle :: "drmmode_bo \<Rightarrow> u32" where
  "drmmode_bo_get_handle bo =
     (case bo_gbm bo of Some g \<Rightarrow> gb_handle g | None \<Rightarrow> db_handle (the (bo_dumb bo)))"

text \<open>Whether there is a mapping to use, and the buffer with its mapping.\<close>

definition drmmode_bo_map ::
  "'k kernel \<Rightarrow> drmmode_bo \<Rightarrow> ('d, 'k, 'z) drm_scheme \<Rightarrow>
     (bool \<times> drmmode_bo) \<times> ('d, 'k, 'z) drm_scheme" where
  "drmmode_bo_map K bo s =
     (if bo_gbm bo \<noteq> None then ((False, bo), s)
      else if db_ptr (the (bo_dumb bo)) then ((True, bo), s)
      else case dumb_bo_map K (the (bo_dumb bo)) s of
        ((ret, d), s) \<Rightarrow>
          if ret \<noteq> 0 then ((False, bo\<lparr>bo_dumb := Some d\<rparr>), s)
          else ((True, bo\<lparr>bo_dumb := Some d\<rparr>), s))"

text \<open>
  Registering a buffer as a framebuffer. The result comes with the identifier, which the
  caller's variable takes when the result is zero.
\<close>

definition drmmode_bo_import ::
  "'k kernel \<Rightarrow> nat \<Rightarrow> drmmode_bo \<Rightarrow> ('d, 'k, 'z) drm_scheme \<Rightarrow>
     (int \<times> u32) \<times> ('d, 'k, 'z) drm_scheme" where
  "drmmode_bo_import K scr bo s =
     (let ms = mss s scr;
          plain = (case drmModeAddFB K (bo_width bo) (bo_height bo) (depth ms) (kbpp ms)
                          (drmmode_bo_get_pitch bo) (drmmode_bo_get_handle bo) (kst s) of
                     (r, k) \<Rightarrow> (r, s\<lparr>kst := k\<rparr>))
      in case bo_gbm bo of
           None \<Rightarrow> plain
         | Some g \<Rightarrow>
             if kms_has_modifiers ms \<and> gb_modifier g \<noteq> DRM_FORMAT_MOD_INVALID \<and> gb_planes g \<noteq> [] then
               (let pad = replicate (4 - length (gb_planes g)) 0 in
                case drmModeAddFB2WithModifiers K (bo_width bo) (bo_height bo)
                       (get_opaque_format (gb_format g))
                       (map fst (gb_planes g) @ pad) (map (fst \<circ> snd) (gb_planes g) @ pad)
                       (map (snd \<circ> snd) (gb_planes g) @ pad)
                       (replicate (length (gb_planes g)) (gb_modifier g) @
                          replicate (4 - length (gb_planes g)) 0) (kst s) of
                  (r, k) \<Rightarrow> (r, s\<lparr>kst := k\<rparr>))
             else plain)"

abbreviation (input) GBM_FORMAT_ARGB1555 :: u32 where "GBM_FORMAT_ARGB1555 \<equiv> 0x35315241"
abbreviation (input) GBM_FORMAT_RGB565 :: u32 where "GBM_FORMAT_RGB565 \<equiv> 0x36314752"

text \<open>
  The fallback of \<^verbatim>\<open>drmmode_create_bo\<close>: a GBM buffer without explicit modifiers.
\<close>

definition create_linear_bo ::
  "'k kernel \<Rightarrow> drmmode_bo \<Rightarrow> u32 \<Rightarrow> ('d, 'k, 'z) drm_scheme \<Rightarrow>
     (bool \<times> drmmode_bo) \<times> ('d, 'k, 'z) drm_scheme" where
  "create_linear_bo K bo format s =
     (case gbm_bo_create K (bo_width bo) (bo_height bo) format (kst s) of
        (g, k) \<Rightarrow> ((g \<noteq> None, bo\<lparr>bo_gbm := g, bo_used_modifiers := False\<rparr>), s\<lparr>kst := k\<rparr>))"

text \<open>\<open>realloc_ok\<close> is the memory oracle of \<open>get_modifiers_set\<close>.\<close>

definition drmmode_create_bo ::
  "'k kernel \<Rightarrow> (nat \<Rightarrow> bool) \<Rightarrow> nat \<Rightarrow> drmmode_bo \<Rightarrow> u32 \<Rightarrow> u32 \<Rightarrow> u32 \<Rightarrow> ('d, 'k, 'z) drm_scheme \<Rightarrow>
     (bool \<times> drmmode_bo) \<times> ('d, 'k, 'z) drm_scheme" where
  "drmmode_create_bo K realloc_ok scr bo width height bpp s =
     (let bo = bo\<lparr>bo_width := width, bo_height := height\<rparr>; ms = mss s scr in
      if ms_glamor ms then
        let format = (if depth ms = 15 then GBM_FORMAT_ARGB1555
                      else if depth ms = 16 then GBM_FORMAT_RGB565
                      else if depth ms = 30 then DRM_FORMAT_ARGB2101010
                      else DRM_FORMAT_ARGB8888);
            modifiers = get_modifiers_set realloc_ok (gbm_plane_count K) (map (crtcs s) (config ms))
                          format False True
        in if length modifiers > 0 \<and> \<not> (length modifiers = 1 \<and> hd modifiers = DRM_FORMAT_MOD_INVALID) then
             (case gbm_bo_create_with_modifiers K width height format modifiers (kst s) of
                (Some g, k) \<Rightarrow> ((True, bo\<lparr>bo_gbm := Some g, bo_used_modifiers := True\<rparr>), s\<lparr>kst := k\<rparr>)
              | (None, k) \<Rightarrow> create_linear_bo K (bo\<lparr>bo_gbm := None\<rparr>) format (s\<lparr>kst := k\<rparr>))
           else create_linear_bo K bo format s
      else
        case dumb_bo_create K width height bpp s of
          (d, s) \<Rightarrow> ((d \<noteq> None, bo\<lparr>bo_dumb := d\<rparr>), s))"

section \<open>The life of a buffer\<close>

text \<open>
  What the kernel and GBM do with buffer handles: \<open>live\<close> counts the handles the driver
  owns. Creating adds one handle when it succeeds, destroying removes it, mapping is neutral.
\<close>

definition buffers_ok :: "'k kernel \<Rightarrow> ('k \<Rightarrow> u32 multiset) \<Rightarrow> bool" where
  "buffers_ok K live \<longleftrightarrow>
     (\<forall>w h b k ret hn sz p k'. create_dumb K w h b k = ((ret, hn, sz, p), k') \<longrightarrow>
        live k' = (if ret = 0 then add_mset hn (live k) else live k)) \<and>
     (\<forall>h k ret err k'. destroy_dumb K h k = ((ret, err), k') \<longrightarrow>
        live k' = (if ret = 0 then live k - {#h#} else live k) \<and> (ret \<noteq> 0 \<longrightarrow> err \<noteq> 0)) \<and>
     (\<forall>n k. live (sys_munmap K n k) = live k) \<and>
     (\<forall>w h f k g k'. gbm_bo_create K w h f k = (g, k') \<longrightarrow>
        live k' = (case g of None \<Rightarrow> live k | Some g \<Rightarrow> add_mset (gb_handle g) (live k))) \<and>
     (\<forall>w h f ms k g k'. gbm_bo_create_with_modifiers K w h f ms k = (g, k') \<longrightarrow>
        live k' = (case g of None \<Rightarrow> live k | Some g \<Rightarrow> add_mset (gb_handle g) (live k))) \<and>
     (\<forall>g k. live (gbm_bo_destroy K g k) = live k - {#gb_handle g#})"

lemma buffers_okD:
  assumes "buffers_ok K live"
  shows "create_dumb K w h b k = ((ret, hn, sz, p), k') \<Longrightarrow>
           live k' = (if ret = 0 then add_mset hn (live k) else live k)"
    and "destroy_dumb K hn k = ((ret, err), k') \<Longrightarrow>
           live k' = (if ret = 0 then live k - {#hn#} else live k) \<and> (ret \<noteq> 0 \<longrightarrow> err \<noteq> 0)"
    and "live (sys_munmap K n k) = live k"
    and "gbm_bo_create K w h f k = (g, k') \<Longrightarrow>
           live k' = (case g of None \<Rightarrow> live k | Some g \<Rightarrow> add_mset (gb_handle g) (live k))"
    and "gbm_bo_create_with_modifiers K w h f ms k = (g, k') \<Longrightarrow>
           live k' = (case g of None \<Rightarrow> live k | Some g \<Rightarrow> add_mset (gb_handle g) (live k))"
    and "live (gbm_bo_destroy K g' k) = live k - {#gb_handle g'#}"
  using assms unfolding buffers_ok_def by - (elim conjE, metis)+

lemma dumb_create_live:
  assumes "buffers_ok K live" and "dumb_bo_create K w h b s = (r, s')"
  shows "live (kst s') = (case r of None \<Rightarrow> live (kst s) | Some d \<Rightarrow> add_mset (db_handle d) (live (kst s)))"
proof (cases "fst (calloc s)")
  case False
  then show ?thesis using assms(2)
    by (auto simp: dumb_bo_create_def case_prod_beta frame_simps)
next
  case True
  obtain ret hn sz p k' where c: "create_dumb K w h b (kst s) = ((ret, hn, sz, p), k')"
    by (cases "create_dumb K w h b (kst s)") auto
  note live = buffers_okD(1) [OF assms(1) c]
  with c live True show ?thesis using assms(2)
    by (auto simp: dumb_bo_create_def case_prod_beta frame_simps split: if_splits)
qed

lemma dumb_destroy_live:
  assumes "buffers_ok K live" and "dumb_bo_destroy K d s = ((ret, d'), s')"
  shows "(ret = 0 \<longrightarrow> live (kst s') = live (kst s) - {#db_handle d#}) \<and>
         (d' = None \<longrightarrow> ret = 0)"
proof -
  let ?k = "if db_ptr d then sys_munmap K (db_size d) (kst s) else kst s"
  obtain r e k' where c: "destroy_dumb K (db_handle d) ?k = ((r, e), k')"
    by (metis surj_pair)
  have "live ?k = live (kst s)" using buffers_okD(3) [OF assms(1)] by simp
  moreover note buffers_okD(2) [OF assms(1) c]
  ultimately show ?thesis using assms(2) c
    by (auto simp: dumb_bo_destroy_def Let_def split: if_splits)
qed

lemma has_bo_iff: "drmmode_bo_has_bo bo \<longleftrightarrow> bo_gbm bo \<noteq> None \<or> bo_dumb bo \<noteq> None"
  by (auto simp: drmmode_bo_has_bo_def)

definition one_buffer :: "drmmode_bo \<Rightarrow> bool" where
  "one_buffer bo \<longleftrightarrow> drmmode_bo_has_bo bo \<and> (bo_gbm bo = None \<or> bo_dumb bo = None)"

lemma create_linear_live:
  assumes "buffers_ok K live" and "\<not> drmmode_bo_has_bo bo"
    and "create_linear_bo K bo f s = ((ok, bo'), s')"
  shows "ok = drmmode_bo_has_bo bo' \<and> (ok \<longrightarrow> one_buffer bo') \<and>
         live (kst s') = (if ok then add_mset (drmmode_bo_get_handle bo') (live (kst s)) else live (kst s))"
proof -
  obtain g k where g: "gbm_bo_create K (bo_width bo) (bo_height bo) f (kst s) = (g, k)" by fastforce
  note live = buffers_okD(4) [OF assms(1) g]
  with g assms(2,3) show ?thesis
    by (auto simp: create_linear_bo_def drmmode_bo_has_bo_def drmmode_bo_get_handle_def
        one_buffer_def split: if_splits option.splits)
qed

lemma create_bo_live:
  assumes K: "buffers_ok K live" and no: "\<not> drmmode_bo_has_bo bo"
    and c: "drmmode_create_bo K rok scr bo w h bpp s = ((ok, bo'), s')"
  shows "ok = drmmode_bo_has_bo bo' \<and> (ok \<longrightarrow> one_buffer bo') \<and>
         live (kst s') = (if ok then add_mset (drmmode_bo_get_handle bo') (live (kst s)) else live (kst s))"
proof (cases "ms_glamor (mss s scr)")
  case False
  obtain d t where d: "dumb_bo_create K w h bpp s = (d, t)" by fastforce
  moreover from no have "bo_gbm bo = None" "bo_dumb bo = None"
    by (simp_all add: has_bo_iff)
  ultimately show ?thesis using dumb_create_live [OF K d] False c
    by (auto simp: drmmode_create_bo_def drmmode_bo_has_bo_def drmmode_bo_get_handle_def
        one_buffer_def Let_def split: option.splits)
next
  case True
  let ?bo = "bo\<lparr>bo_width := w, bo_height := h\<rparr>"
  let ?none = "?bo\<lparr>bo_gbm := None\<rparr>"
  have nb: "\<not> drmmode_bo_has_bo ?bo" "\<not> drmmode_bo_has_bo ?none"
    using no by (simp_all add: has_bo_iff)
  define f where "f = (if depth (mss s scr) = 15 then GBM_FORMAT_ARGB1555
      else if depth (mss s scr) = 16 then GBM_FORMAT_RGB565
      else if depth (mss s scr) = 30 then DRM_FORMAT_ARGB2101010 else DRM_FORMAT_ARGB8888)"
  define ms where "ms = get_modifiers_set rok (gbm_plane_count K) (map (crtcs s) (config (mss s scr))) f False True"
  obtain g k where g: "gbm_bo_create_with_modifiers K w h f ms (kst s) = (g, k)" by fastforce
  note live = buffers_okD(5) [OF K g]
  have step: "drmmode_create_bo K rok scr bo w h bpp s =
      (if length ms > 0 \<and> \<not> (length ms = 1 \<and> hd ms = DRM_FORMAT_MOD_INVALID) then
         (case gbm_bo_create_with_modifiers K w h f ms (kst s) of
            (Some g, k) \<Rightarrow> ((True, ?bo\<lparr>bo_gbm := Some g, bo_used_modifiers := True\<rparr>), s\<lparr>kst := k\<rparr>)
          | (None, k) \<Rightarrow> create_linear_bo K ?none f (s\<lparr>kst := k\<rparr>))
       else create_linear_bo K ?bo f s)"
    unfolding drmmode_create_bo_def Let_def ms_def f_def by (simp only: True if_True)
  consider (linear) "create_linear_bo K ?bo f s = ((ok, bo'), s')"
    | (fallback) "g = None" "create_linear_bo K ?none f (s\<lparr>kst := k\<rparr>) = ((ok, bo'), s')"
    | (direct) h where "g = Some h" "ok" "bo' = ?bo\<lparr>bo_gbm := Some h, bo_used_modifiers := True\<rparr>"
        "s' = s\<lparr>kst := k\<rparr>"
    using c g unfolding step by (cases g) (auto split: if_splits)
  then show ?thesis
  proof cases
    case linear
    then show ?thesis by (rule create_linear_live [OF K nb(1)])
  next
    case fallback
    with create_linear_live [OF K nb(2) fallback(2)] live show ?thesis by simp
  next
    case (direct h)
    with live no show ?thesis
      by (simp add: has_bo_iff drmmode_bo_get_handle_def one_buffer_def)
  qed
qed

lemma destroy_bo_live:
  assumes K: "buffers_ok K live" and one: "one_buffer bo"
    and d: "drmmode_bo_destroy K bo s = (bo', s')" and gone: "\<not> drmmode_bo_has_bo bo'"
  shows "live (kst s') = live (kst s) - {#drmmode_bo_get_handle bo#}"
proof (cases "bo_gbm bo")
  case (Some g)
  with one have "bo_dumb bo = None" by (simp add: one_buffer_def)
  with Some d buffers_okD(6) [OF K] show ?thesis
    by (auto simp: drmmode_bo_destroy_def drmmode_bo_get_handle_def)
next
  case None
  with one obtain db where db: "bo_dumb bo = Some db"
    by (auto simp: one_buffer_def drmmode_bo_has_bo_def)
  obtain ret d' t where t: "dumb_bo_destroy K db s = ((ret, d'), t)" by (metis surj_pair)
  with None db d gone have "ret = 0" "s' = t"
    using dumb_destroy_live [OF K t]
    by (auto simp: drmmode_bo_destroy_def drmmode_bo_has_bo_def split: if_splits)
  with dumb_destroy_live [OF K t] None db show ?thesis by (simp add: drmmode_bo_get_handle_def)
qed

text \<open>
  C10. A scanout buffer owns one kernel handle. Creating into an empty \<^verbatim>\<open>drmmode_bo\<close>
  adds exactly the handle of the new buffer when it succeeds and none when it fails, on the
  dumb path, the GBM path and the fallback from explicit modifiers; destroying what was
  created gives the handle back, and destroying an empty one does nothing.
\<close>

theorem bo_create_destroy:
  assumes "buffers_ok K live" and "\<not> drmmode_bo_has_bo bo"
    and "drmmode_create_bo K rok scr bo w h bpp s = ((ok, bo'), s')"
    and "drmmode_bo_destroy K bo' t = (bo'', t')"
  shows "ok = drmmode_bo_has_bo bo' \<and>
         live (kst s') =
           (if ok then add_mset (drmmode_bo_get_handle bo') (live (kst s)) else live (kst s)) \<and>
         (ok \<and> live (kst t) = live (kst s') \<and> \<not> drmmode_bo_has_bo bo'' \<longrightarrow>
            live (kst t') = live (kst s)) \<and>
         (\<not> ok \<longrightarrow> t' = t)"
proof -
  note c = create_bo_live [OF assms(1-3)]
  have "t' = t" if "\<not> drmmode_bo_has_bo bo'"
    using that assms(4) by (auto simp: drmmode_bo_destroy_def drmmode_bo_has_bo_def split: if_splits)
  moreover have "live (kst t') = live (kst t) - {#drmmode_bo_get_handle bo'#}"
    if "ok" and "\<not> drmmode_bo_has_bo bo''"
    using destroy_bo_live [OF assms(1) _ assms(4)] that c by simp
  ultimately show ?thesis using c by auto
qed

text \<open>A kernel whose only state is its list of dumb handles.\<close>

definition dumb_kernel :: "u32 list kernel" where
  "dumb_kernel = dead_kernel\<lparr>
     create_dumb := (\<lambda>w h b k. ((0, of_nat (length k) + 1, 0, w * 4), (of_nat (length k) + 1) # k)),
     destroy_dumb := (\<lambda>h k. ((0, 0), remove1 h k)),
     gbm_bo_destroy := (\<lambda>g k. remove1 (gb_handle g) k)\<rparr>"

lemma buffers_ok_dumb_kernel: "buffers_ok dumb_kernel mset"
  by (simp add: buffers_ok_def dumb_kernel_def dead_kernel_def)

lemma bo_create_destroy_witness:
  "kst (snd (drmmode_create_bo dumb_kernel (\<lambda>_. True) 0 no_bo 640 480 32
         (idle_drm [] :: (unit, u32 list) drm))) = [1] \<and>
   mset (kst (snd (drmmode_bo_destroy dumb_kernel
     (snd (fst (drmmode_create_bo dumb_kernel (\<lambda>_. True) 0 no_bo 640 480 32 (idle_drm [] :: (unit, u32 list) drm))))
     (snd (drmmode_create_bo dumb_kernel (\<lambda>_. True) 0 no_bo 640 480 32 (idle_drm [] :: (unit, u32 list) drm)))))) = {#}"
proof -
  let ?s = "idle_drm [] :: (unit, u32 list) drm"
  let ?c = "drmmode_create_bo dumb_kernel (\<lambda>_. True) 0 no_bo 640 480 32 ?s"
  let ?d = "drmmode_bo_destroy dumb_kernel (snd (fst ?c)) (snd ?c)"
  note evals = drmmode_create_bo_def no_bo_def idle_drm_def zero_ms_def dumb_bo_create_def calloc_def
    dumb_kernel_def dead_kernel_def drmmode_bo_has_bo_def Let_def
  have c: "drmmode_create_bo dumb_kernel (\<lambda>_. True) 0 no_bo 640 480 32 ?s =
      ((fst (fst ?c), snd (fst ?c)), snd ?c)"
    and d: "drmmode_bo_destroy dumb_kernel (snd (fst ?c)) (snd ?c) = (fst ?d, snd ?d)" by simp_all
  have no: "\<not> drmmode_bo_has_bo no_bo" by (simp add: evals)
  have "fst (fst ?c)" and one: "kst (snd ?c) = [1]" by (simp_all add: evals)
  moreover have "\<not> drmmode_bo_has_bo (fst ?d)"
    by (simp add: evals drmmode_bo_destroy_def dumb_bo_destroy_def)
  moreover have "mset (kst ?s) = {#}" by (simp add: idle_drm_def)
  moreover from bo_create_destroy [OF buffers_ok_dumb_kernel no c d]
  have "fst (fst ?c) \<and> mset (kst (snd ?c)) = mset (kst (snd ?c)) \<and> \<not> drmmode_bo_has_bo (fst ?d) \<longrightarrow>
      mset (kst (snd ?d)) = mset (kst ?s)" by (elim conjE)
  ultimately have "mset (kst (snd ?d)) = {#}" by simp
  with one show ?thesis by (rule conjI)
qed

end
