(* ===== verification/Kms_Atomic.thy ===== *)
theory Kms_Atomic
  imports Buffers
begin

text \<open>
  Programming the display (\<^verbatim>\<open>src/src/drmmode_display.c\<close>): the atomic requests of a
  CRTC, its plane and its connectors, the mode blobs, the framebuffer a CRTC shows, power
  management, mode setting and page flips through the atomic and the legacy interface.
\<close>

section \<open>Requests\<close>

text \<open>
  \<^verbatim>\<open>drmModeAtomicAddProperty\<close> appends to the request when libdrm has memory for it;
  an identifier of a property table is zero when the property was not found.
\<close>

definition atomic_add ::
  "u32 \<Rightarrow> u32 \<Rightarrow> u64 \<Rightarrow> atomic_req \<times> ('d, 'k, 'z) drm_scheme \<Rightarrow>
     int \<times> atomic_req \<times> ('d, 'k, 'z) drm_scheme" where
  "atomic_add obj prp val rs =
     (case calloc (snd rs) of (ok, s) \<Rightarrow>
        if ok then (0, fst rs @ [(obj, prp, val)], s) else (-1, fst rs, s))"

definition prop_id_of :: "prop_info list \<Rightarrow> nat \<Rightarrow> u32" where
  "prop_id_of ps i = (if i < length ps then pi_prop_id (ps ! i) else 0)"

definition plane_add_prop ::
  "crtc \<Rightarrow> plane_property \<Rightarrow> u64 \<Rightarrow> atomic_req \<times> ('d, 'k, 'z) drm_scheme \<Rightarrow>
     int \<times> atomic_req \<times> ('d, 'k, 'z) drm_scheme" where
  "plane_add_prop c prp val rs =
     atomic_add (plane_id c) (prop_id_of (props_plane c) (plane_property_index prp)) val rs"

definition crtc_add_prop ::
  "crtc \<Rightarrow> crtc_property \<Rightarrow> u64 \<Rightarrow> atomic_req \<times> ('d, 'k, 'z) drm_scheme \<Rightarrow>
     int \<times> atomic_req \<times> ('d, 'k, 'z) drm_scheme" where
  "crtc_add_prop c prp val rs =
     atomic_add (crtc_id c) (prop_id_of (props c) (crtc_property_index prp)) val rs"

definition connector_add_prop ::
  "xf86_output \<Rightarrow> connector_property \<Rightarrow> u64 \<Rightarrow> atomic_req \<times> ('d, 'k, 'z) drm_scheme \<Rightarrow>
     int \<times> atomic_req \<times> ('d, 'k, 'z) drm_scheme" where
  "connector_add_prop out prp val rs =
     atomic_add (word_of_int (out_id out)) (prop_id_of (out_props out) (connector_property_index prp)) val rs"

text \<open>The statement \<^verbatim>\<open>ret |= f(...)\<close>.\<close>

definition or_ret ::
  "int \<Rightarrow> int \<times> atomic_req \<times> ('d, 'k, 'z) drm_scheme \<Rightarrow> int \<times> atomic_req \<times> ('d, 'k, 'z) drm_scheme" where
  "or_ret ret r = (ret OR fst r, snd r)"

text \<open>The value of an \<^verbatim>\<open>int\<close> shifted by 16 and passed as \<^verbatim>\<open>uint64_t\<close>.\<close>

definition shl16 :: "int \<Rightarrow> u64" where
  "shl16 x = word_of_int (to_int32 (x * 65536))"

definition plane_add_props ::
  "crtc \<Rightarrow> u32 \<Rightarrow> int \<Rightarrow> int \<Rightarrow> atomic_req \<times> ('d, 'k, 'z) drm_scheme \<Rightarrow>
     int \<times> atomic_req \<times> ('d, 'k, 'z) drm_scheme" where
  "plane_add_props c fb x y rs =
     fold (\<lambda>(prp, val) (ret, rs). or_ret ret (plane_add_prop c prp val rs))
       [(PLANE_FB_ID, ucast fb),
        (PLANE_CRTC_ID, if fb \<noteq> 0 then ucast (crtc_id c) else 0),
        (PLANE_SRC_X, shl16 x), (PLANE_SRC_Y, shl16 y),
        (PLANE_SRC_W, shl16 (m_HDisplay (crtc_mode c))), (PLANE_SRC_H, shl16 (m_VDisplay (crtc_mode c))),
        (PLANE_CRTC_X, 0), (PLANE_CRTC_Y, 0),
        (PLANE_CRTC_W, word_of_int (m_HDisplay (crtc_mode c))),
        (PLANE_CRTC_H, word_of_int (m_VDisplay (crtc_mode c)))]
       (0, rs)"

section \<open>Mode blobs\<close>

definition drm_mode_ensure_blob ::
  "'k kernel \<Rightarrow> nat \<Rightarrow> kmode \<Rightarrow> ('d, 'k, 'z) drm_scheme \<Rightarrow> int \<times> ('d, 'k, 'z) drm_scheme" where
  "drm_mode_ensure_blob K p mode_info s =
     (if (case current_mode (crtcs s p) of None \<Rightarrow> False
          | Some cur \<Rightarrow> drmmode_CompareKModes (fst cur) mode_info)
      then (0, s)
      else case calloc s of (ok, s) \<Rightarrow>
        if \<not> ok then (-1, s)
        else case drmModeCreatePropertyBlob K mode_info (kst s) of
          ((ret, bid), k) \<Rightarrow>
            let blob = (mode_info, if ret = 0 then bid else 0)
            in (ret, upd_crtc p (\<lambda>c. c\<lparr>current_mode := Some blob, mode_list := blob # mode_list c\<rparr>)
                       (s\<lparr>kst := k\<rparr>)))"

definition drm_mode_destroy ::
  "'k kernel \<Rightarrow> nat \<Rightarrow> kmode \<times> u32 \<Rightarrow> ('d, 'k, 'z) drm_scheme \<Rightarrow> ('d, 'k, 'z) drm_scheme" where
  "drm_mode_destroy K p mode s =
     upd_crtc p (\<lambda>c. c\<lparr>mode_list := remove1 mode (mode_list c)\<rparr>)
       (if snd mode \<noteq> 0 then s\<lparr>kst := drmModeDestroyPropertyBlob K (snd mode) (kst s)\<rparr> else s)"

text \<open>The blobs of a CRTC are freed with it (\<^verbatim>\<open>drmmode_crtc_destroy\<close>, its last loop).\<close>

definition destroy_mode_list ::
  "'k kernel \<Rightarrow> nat \<Rightarrow> ('d, 'k, 'z) drm_scheme \<Rightarrow> ('d, 'k, 'z) drm_scheme" where
  "destroy_mode_list K p s = fold (drm_mode_destroy K p) (mode_list (crtcs s p)) s"

section \<open>Properties of a CRTC and its connectors\<close>

fun dpms_outputs ::
  "crtc \<Rightarrow> nat \<Rightarrow> int \<Rightarrow> xf86_output list \<Rightarrow> bool \<Rightarrow> int \<Rightarrow> atomic_req \<times> ('d, 'k, 'z) drm_scheme \<Rightarrow>
     bool \<times> int \<times> atomic_req \<times> ('d, 'k, 'z) drm_scheme" where
  "dpms_outputs c p new_dpms [] crtc_active ret rs = (crtc_active, ret, rs)"
| "dpms_outputs c p new_dpms (out # outs) crtc_active ret rs =
     (if out_crtc out \<noteq> Some p then
        if out_current_crtc out = Some p then
          case or_ret ret (connector_add_prop out CONNECTOR_CRTC_ID 0 rs) of
            (ret, rs) \<Rightarrow> dpms_outputs c p new_dpms outs crtc_active ret rs
        else dpms_outputs c p new_dpms outs crtc_active ret rs
      else if out_id out = -1 then dpms_outputs c p new_dpms outs crtc_active ret rs
      else
        let crtc_active = (crtc_active \<or> new_dpms = DPMSModeOn) in
        case or_ret ret (connector_add_prop out CONNECTOR_CRTC_ID
               (if crtc_active then ucast (crtc_id c) else 0) rs) of
          (ret, rs) \<Rightarrow> dpms_outputs c p new_dpms outs crtc_active ret rs)"

definition crtc_add_dpms_props ::
  "'k kernel \<Rightarrow> nat \<Rightarrow> int \<Rightarrow> atomic_req \<times> ('d, 'k, 'z) drm_scheme \<Rightarrow>
     bool \<times> int \<times> atomic_req \<times> ('d, 'k, 'z) drm_scheme" where
  "crtc_add_dpms_props K p new_dpms rs =
     (let c = crtcs (snd rs) p in
      case dpms_outputs c p new_dpms (outputs (ms_of_crtc (snd rs) p)) False 0 rs of
        (crtc_active, ret, rs) \<Rightarrow>
          if crtc_active then
            case drm_mode_ensure_blob K p (drmmode_ConvertToKMode (crtc_mode c)) (snd rs) of
              (r, s) \<Rightarrow>
                (case or_ret (ret OR r) (crtc_add_prop c CRTC_ACTIVE 1 (fst rs, s)) of
                   (ret, rs) \<Rightarrow>
                     (True, or_ret ret (crtc_add_prop c CRTC_MODE_ID
                        (ucast (snd (the (current_mode (crtcs (snd rs) p))))) rs)))
          else
            (case or_ret ret (crtc_add_prop c CRTC_ACTIVE 0 rs) of
               (ret, rs) \<Rightarrow> (False, or_ret ret (crtc_add_prop c CRTC_MODE_ID 0 rs))))"

definition drmmode_crtc_can_test_mode :: "nat \<Rightarrow> ('d, 'k, 'z) drm_scheme \<Rightarrow> bool" where
  "drmmode_crtc_can_test_mode p s = atomic_modeset (ms_of_crtc s p)"

text \<open>The framebuffer a CRTC shows and its position there; \<open>None\<close> when it cannot be made.\<close>

definition drmmode_crtc_get_fb_id ::
  "'k kernel \<Rightarrow> nat \<Rightarrow> ('d, 'k, 'z) drm_scheme \<Rightarrow>
     (u32 \<times> int \<times> int) option \<times> ('d, 'k, 'z) drm_scheme" where
  "drmmode_crtc_get_fb_id K p s =
     (let c = crtcs s p; scr = crtc_scrn c; ms = mss s scr;
          (fb, x, y) =
            (case prime_pixmap c of
               Some px \<Rightarrow>
                 if \<not> is_reverse_prime_offload ms then (pp_fb_id (ppriv s px), 0, 0)
                 else (0, prime_pixmap_x c, 0)
             | None \<Rightarrow>
                 if rotate_fb_id c \<noteq> 0 then (rotate_fb_id c, 0, 0) else (fb_id ms, crtc_x c, crtc_y c))
      in if fb = 0 then
           case drmmode_bo_import K scr (front_bo ms) s of
             ((ret, fbid), s) \<Rightarrow>
               if ret < 0 then (None, s)
               else
                 let s = (if ret = 0 then upd_ms scr (\<lambda>m. m\<lparr>fb_id := fbid\<rparr>) s else s)
                 in (Some (fb_id (mss s scr), x, y), s)
         else (Some (fb, x, y), s))"

section \<open>Power management\<close>

abbreviation (input) DRM_MODE_PAGE_FLIP_EVENT :: u32 where "DRM_MODE_PAGE_FLIP_EVENT \<equiv> 0x1"
abbreviation (input) DRM_MODE_PAGE_FLIP_ASYNC :: u32 where "DRM_MODE_PAGE_FLIP_ASYNC \<equiv> 0x2"
abbreviation (input) DRM_MODE_ATOMIC_TEST_ONLY :: u32 where "DRM_MODE_ATOMIC_TEST_ONLY \<equiv> 0x100"
abbreviation (input) DRM_MODE_ATOMIC_NONBLOCK :: u32 where "DRM_MODE_ATOMIC_NONBLOCK \<equiv> 0x200"
abbreviation (input) DRM_MODE_ATOMIC_ALLOW_MODESET :: u32 where
  "DRM_MODE_ATOMIC_ALLOW_MODESET \<equiv> 0x400"

definition atomic_commit ::
  "'k kernel \<Rightarrow> atomic_req \<Rightarrow> u32 \<Rightarrow> u32 \<Rightarrow> ('d, 'k, 'z) drm_scheme \<Rightarrow> int \<times> ('d, 'k, 'z) drm_scheme" where
  "atomic_commit K req flags user s =
     (case drmModeAtomicCommit K req flags user (kst s) of
        ((ret, err), k) \<Rightarrow>
          (ret, if ret \<noteq> 0 then s\<lparr>kst := k, errno := err\<rparr> else s\<lparr>kst := k\<rparr>))"

text \<open>The first loop of \<^verbatim>\<open>drmmode_set_dpms\<close>: it assigns \<^verbatim>\<open>ret\<close>, it does not accumulate it.\<close>

fun dpms_unused_outputs ::
  "xf86_output list \<Rightarrow> int \<Rightarrow> atomic_req \<times> ('d, 'k, 'z) drm_scheme \<Rightarrow>
     int \<times> atomic_req \<times> ('d, 'k, 'z) drm_scheme" where
  "dpms_unused_outputs [] ret rs = (ret, rs)"
| "dpms_unused_outputs (out # outs) ret rs =
     (if out_crtc out \<noteq> None then dpms_unused_outputs outs ret rs
      else case connector_add_prop out CONNECTOR_CRTC_ID 0 rs of
        (ret, rs) \<Rightarrow> dpms_unused_outputs outs ret rs)"

fun dpms_crtcs ::
  "'k kernel \<Rightarrow> int \<Rightarrow> nat list \<Rightarrow> int \<Rightarrow> atomic_req \<times> ('d, 'k, 'z) drm_scheme \<Rightarrow>
     int \<times> atomic_req \<times> ('d, 'k, 'z) drm_scheme" where
  "dpms_crtcs K dpms [] ret rs = (ret, rs)"
| "dpms_crtcs K dpms (p # ps) ret rs =
     (case crtc_add_dpms_props K p dpms rs of
        (act, r, rs) \<Rightarrow>
          let ret = ret OR r in
          if dpms = DPMSModeOn \<and> act \<and> need_modeset (crtcs (snd rs) p) then
            case drmmode_crtc_get_fb_id K p (snd rs) of
              (None, s) \<Rightarrow> dpms_crtcs K dpms ps ret (fst rs, s)
            | (Some (fb, x, y), s) \<Rightarrow>
                (case or_ret ret (plane_add_props (crtcs s p) fb x y (fst rs, s)) of
                   (ret, rs) \<Rightarrow>
                     dpms_crtcs K dpms ps ret
                       (fst rs, upd_crtc p (\<lambda>c. c\<lparr>need_modeset := False\<rparr>) (snd rs)))
          else dpms_crtcs K dpms ps ret rs)"

text \<open>
  \<open>xf86DPMSSet\<close> is the server's function, which calls the driver back while
  \<^verbatim>\<open>pending_modeset\<close> is set.
\<close>

definition drmmode_set_dpms ::
  "'k kernel \<Rightarrow> (nat \<Rightarrow> int \<Rightarrow> ('d, 'k, 'z) drm_scheme \<Rightarrow> ('d, 'k, 'z) drm_scheme) \<Rightarrow> nat \<Rightarrow> int \<Rightarrow>
     ('d, 'k, 'z) drm_scheme \<Rightarrow> ('d, 'k, 'z) drm_scheme" where
  "drmmode_set_dpms K xf86DPMSSet scr dpms s =
     (case calloc s of (ok, s) \<Rightarrow>
        if \<not> ok then s
        else case dpms_unused_outputs (outputs (mss s scr)) 0 ([], s) of
          (ret, rs) \<Rightarrow>
            (case dpms_crtcs K dpms (config (mss (snd rs) scr)) ret rs of
               (ret, req, s) \<Rightarrow>
                 let s = (if ret = 0 then snd (atomic_commit K req DRM_MODE_ATOMIC_ALLOW_MODESET 0 s) else s);
                     s = upd_ms scr (\<lambda>m. m\<lparr>pending_modeset := True\<rparr>) s;
                     s = xf86DPMSSet scr dpms s
                 in upd_ms scr (\<lambda>m. m\<lparr>pending_modeset := False\<rparr>) s))"

definition drmmode_output_disable ::
  "'k kernel \<Rightarrow> nat \<Rightarrow> nat \<Rightarrow> ('d, 'k, 'z) drm_scheme \<Rightarrow> int \<times> ('d, 'k, 'z) drm_scheme" where
  "drmmode_output_disable K scr oi s =
     (case calloc s of (ok, s) \<Rightarrow>
        if \<not> ok then (1, s)
        else
          let out = outputs (mss s scr) ! oi in
          case connector_add_prop out CONNECTOR_CRTC_ID 0 ([], s) of
            (ret, rs) \<Rightarrow>
              (case (case out_current_crtc out of
                       None \<Rightarrow> (ret, rs)
                     | Some p \<Rightarrow>
                         (case crtc_add_dpms_props K p DPMSModeOff rs of (act, r, rs) \<Rightarrow> (ret OR r, rs))) of
                 (ret, req, s) \<Rightarrow>
                   (case (if ret = 0 then atomic_commit K req DRM_MODE_ATOMIC_ALLOW_MODESET 0 s else (ret, s)) of
                      (ret, s) \<Rightarrow>
                        (ret, if ret = 0 then
                                upd_ms scr (\<lambda>m. m\<lparr>outputs := (outputs m)[oi := (outputs m ! oi)\<lparr>out_current_crtc := None\<rparr>]\<rparr>) s
                              else s))))"

definition drmmode_crtc_disable ::
  "'k kernel \<Rightarrow> nat \<Rightarrow> ('d, 'k, 'z) drm_scheme \<Rightarrow> int \<times> ('d, 'k, 'z) drm_scheme" where
  "drmmode_crtc_disable K p s =
     (case calloc s of (ok, s) \<Rightarrow>
        if \<not> ok then (1, s)
        else case crtc_add_prop (crtcs s p) CRTC_ACTIVE 0 ([], s) of
          (ret, rs) \<Rightarrow>
            (case or_ret ret (crtc_add_prop (crtcs s p) CRTC_MODE_ID 0 rs) of
               (ret, req, s) \<Rightarrow>
                 if ret = 0 then atomic_commit K req DRM_MODE_ATOMIC_ALLOW_MODESET 0 s else (ret, s)))"

section \<open>Setting a mode\<close>

text \<open>A CRTC that loses its last output to \<open>p\<close> has to be disabled in the same request.\<close>

definition lost_outputs :: "nat \<Rightarrow> nat \<Rightarrow> xf86_output list \<Rightarrow> nat" where
  "lost_outputs p other outs =
     length (filter (\<lambda>out. out_current_crtc out = Some other \<and> out_crtc out = Some p) outs)"

definition remaining_outputs :: "nat \<Rightarrow> nat \<Rightarrow> xf86_output list \<Rightarrow> nat" where
  "remaining_outputs p other outs =
     length (filter (\<lambda>out. out_current_crtc out = Some other \<and> out_crtc out \<noteq> Some p) outs)"

fun disable_orphans ::
  "nat \<Rightarrow> xf86_output list \<Rightarrow> nat list \<Rightarrow> int \<Rightarrow> atomic_req \<times> ('d, 'k, 'z) drm_scheme \<Rightarrow>
     int \<times> atomic_req \<times> ('d, 'k, 'z) drm_scheme" where
  "disable_orphans p outs [] ret rs = (ret, rs)"
| "disable_orphans p outs (other # ps) ret rs =
     (if other = p then disable_orphans p outs ps ret rs
      else if lost_outputs p other outs > 0 \<and> remaining_outputs p other outs = 0 then
        case or_ret ret (crtc_add_prop (crtcs (snd rs) other) CRTC_ACTIVE 0 rs) of
          (ret, rs) \<Rightarrow>
            (case or_ret ret (crtc_add_prop (crtcs (snd rs) other) CRTC_MODE_ID 0 rs) of
               (ret, rs) \<Rightarrow> disable_orphans p outs ps ret rs)
      else disable_orphans p outs ps ret rs)"

definition track_output :: "nat \<Rightarrow> xf86_output \<Rightarrow> xf86_output" where
  "track_output p out =
     (if out_crtc out = Some p then out\<lparr>out_current_crtc := Some p\<rparr>
      else if out_current_crtc out = Some p then out\<lparr>out_current_crtc := None\<rparr>
      else out)"

definition set_mode_atomic ::
  "'k kernel \<Rightarrow> nat \<Rightarrow> bool \<Rightarrow> u32 \<Rightarrow> int \<Rightarrow> int \<Rightarrow> ('d, 'k, 'z) drm_scheme \<Rightarrow>
     int \<times> ('d, 'k, 'z) drm_scheme" where
  "set_mode_atomic K p test_only fb x y s =
     (let scr = crtc_scrn (crtcs s p) in
      case calloc s of (ok, s) \<Rightarrow>
        if \<not> ok then (1, s)
        else case crtc_add_dpms_props K p DPMSModeOn ([], s) of
          (act, ret, rs) \<Rightarrow>
            (case or_ret ret (plane_add_props (crtcs (snd rs) p) (if act then fb else 0) x y rs) of
               (ret, rs) \<Rightarrow>
                 (case disable_orphans p (outputs (mss (snd rs) scr)) (config (mss (snd rs) scr)) ret rs of
                    (ret, req, s) \<Rightarrow>
                      let flags = DRM_MODE_ATOMIC_ALLOW_MODESET
                            OR (if test_only then DRM_MODE_ATOMIC_TEST_ONLY else 0)
                      in case (if ret = 0 then atomic_commit K req flags 0 s else (ret, s)) of
                           (ret, s) \<Rightarrow>
                             (ret, if ret = 0 \<and> \<not> test_only then
                                     upd_ms scr (\<lambda>m. m\<lparr>outputs := map (track_output p) (outputs m)\<rparr>) s
                                   else s))))"

definition drmmode_crtc_set_mode ::
  "'k kernel \<Rightarrow> nat \<Rightarrow> bool \<Rightarrow> ('d, 'k, 'z) drm_scheme \<Rightarrow> int \<times> ('d, 'k, 'z) drm_scheme" where
  "drmmode_crtc_set_mode K p test_only s =
     (let scr = crtc_scrn (crtcs s p) in
      case drmmode_crtc_get_fb_id K p s of
        (None, s) \<Rightarrow> (1, s)
      | (Some (fb, x, y), s) \<Rightarrow>
          let s = (if ms_glamor (mss s scr) then s\<lparr>kst := glamor_finish K scr (kst s)\<rparr> else s) in
          if atomic_modeset (mss s scr) then set_mode_atomic K p test_only fb x y s
          else case calloc s of (ok, s) \<Rightarrow>
            if \<not> ok then (-1, s)
            else
              let output_ids = map (\<lambda>out. word_of_int (out_id out))
                    (filter (\<lambda>out. out_crtc out = Some p \<and> out_id out \<noteq> -1) (outputs (mss s scr)))
              in case drmModeSetCrtc K (crtc_id (crtcs s p)) fb (word_of_int x) (word_of_int y)
                        output_ids (drmmode_ConvertToKMode (crtc_mode (crtcs s p))) (kst s) of
                   (ret, k) \<Rightarrow> (ret, s\<lparr>kst := k\<rparr>))"

section \<open>Page flips\<close>

definition drmmode_crtc_flip ::
  "'k kernel \<Rightarrow> nat \<Rightarrow> u32 \<Rightarrow> u32 \<Rightarrow> u32 \<Rightarrow> ('d, 'k, 'z) drm_scheme \<Rightarrow>
     int \<times> ('d, 'k, 'z) drm_scheme" where
  "drmmode_crtc_flip K p fb flags data s =
     (let c = crtcs s p in
      if atomic_modeset (ms_of_crtc s p) then
        case calloc s of (ok, s) \<Rightarrow>
          if \<not> ok then (1, s)
          else case plane_add_props c fb (crtc_x c) (crtc_y c) ([], s) of
            (ret, req, s) \<Rightarrow>
              if ret = 0 then atomic_commit K req (flags OR DRM_MODE_ATOMIC_NONBLOCK) data s
              else (ret, s)
      else case drmModePageFlip K (crtc_id c) fb flags data (kst s) of
        ((ret, err), k) \<Rightarrow>
          (ret, if ret \<noteq> 0 then s\<lparr>kst := k, errno := err\<rparr> else s\<lparr>kst := k\<rparr>))"

section \<open>What programming the display leaves alone\<close>

text \<open>
  Building and committing requests changes memory, the kernel, \<^verbatim>\<open>errno\<close>, mode blobs,
  \<^verbatim>\<open>need_modeset\<close> and \<^verbatim>\<open>fb_id\<close>; it does not touch the routing of outputs,
  the identity of CRTCs, the DRM event queue or the clients' records.
\<close>

definition same_routing :: "('d, 'k, 'z) drm_scheme \<Rightarrow> ('d, 'k, 'z) drm_scheme \<Rightarrow> bool" where
  "same_routing s t \<longleftrightarrow>
     ms_drm_queue t = ms_drm_queue s \<and> ms_drm_seq t = ms_drm_seq s \<and> drm.more t = drm.more s \<and>
     (\<forall>scr. outputs (mss t scr) = outputs (mss s scr) \<and> config (mss t scr) = config (mss s scr) \<and>
            atomic_modeset (mss t scr) = atomic_modeset (mss s scr) \<and>
            front_bo (mss t scr) = front_bo (mss s scr) \<and>
            virtualX (mss t scr) = virtualX (mss s scr) \<and> virtualY (mss t scr) = virtualY (mss s scr) \<and>
            displayWidth (mss t scr) = displayWidth (mss s scr) \<and>
            shadow_fb (mss t scr) = shadow_fb (mss s scr)) \<and>
     (\<forall>p. crtc_scrn (crtcs t p) = crtc_scrn (crtcs s p) \<and> enabled (crtcs t p) = enabled (crtcs s p) \<and>
          dpms_mode (crtcs t p) = dpms_mode (crtcs s p) \<and>
          vblank_pipe (crtcs t p) = vblank_pipe (crtcs s p) \<and> active (crtcs t p) = active (crtcs s p) \<and>
          crtc_mode (crtcs t p) = crtc_mode (crtcs s p) \<and> rotation (crtcs t p) = rotation (crtcs s p) \<and>
          crtc_x (crtcs t p) = crtc_x (crtcs s p) \<and> crtc_y (crtcs t p) = crtc_y (crtcs s p) \<and>
          prime_pixmap (crtcs t p) = prime_pixmap (crtcs s p) \<and>
          prime_pixmap_back (crtcs t p) = prime_pixmap_back (crtcs s p) \<and>
          enable_flipping (crtcs t p) = enable_flipping (crtcs s p))"

named_theorems routing_frames \<open>operations that leave the routing alone\<close>

lemma same_routing_refl [simp, intro]: "same_routing s s"
  by (simp add: same_routing_def)

lemma same_routing_trans [trans]: "same_routing s t \<Longrightarrow> same_routing t u \<Longrightarrow> same_routing s u"
  by (simp add: same_routing_def)

lemma same_routing_calloc [routing_frames]: "same_routing s (snd (calloc s))"
  by (simp add: same_routing_def frame_simps)

lemma same_routing_kst [routing_frames]:
  "same_routing s (s\<lparr>kst := k\<rparr>)" "same_routing s (s\<lparr>kst := k, errno := e\<rparr>)" "same_routing s (s\<lparr>errno := e\<rparr>)"
  by (simp_all add: same_routing_def)

lemma same_routing_upd_crtc [routing_frames]:
  "same_routing s (upd_crtc p (\<lambda>c. c\<lparr>current_mode := m, mode_list := l c\<rparr>) s)"
  "same_routing s (upd_crtc p (\<lambda>c. c\<lparr>mode_list := l c\<rparr>) s)"
  "same_routing s (upd_crtc p (\<lambda>c. c\<lparr>need_modeset := b\<rparr>) s)"
  by (simp_all add: same_routing_def upd_crtc_def)

lemma same_routing_upd_ms [routing_frames]:
  "same_routing s (upd_ms scr (\<lambda>m. m\<lparr>fb_id := i\<rparr>) s)"
  "same_routing s (upd_ms scr (\<lambda>m. m\<lparr>pending_modeset := b\<rparr>) s)"
  by (simp_all add: same_routing_def upd_ms_def)

lemma same_routing_atomic_add:
  "same_routing (snd rs) (snd (snd (atomic_add obj prp val rs)))"
  using same_routing_calloc [of "snd rs"]
  by (simp add: atomic_add_def case_prod_beta split: if_split)

lemma same_routing_add_props [routing_frames]:
  "same_routing (snd rs) (snd (snd (plane_add_prop c prp val rs)))"
  "same_routing (snd rs) (snd (snd (crtc_add_prop c cp val rs)))"
  "same_routing (snd rs) (snd (snd (connector_add_prop out np val rs)))"
  by (simp_all add: plane_add_prop_def crtc_add_prop_def connector_add_prop_def same_routing_atomic_add)

lemma snd_or_ret [simp]: "snd (or_ret ret r) = snd r" "fst (or_ret ret r) = ret OR fst r"
  by (simp_all add: or_ret_def)

lemma same_routing_plane_fold:
  "same_routing s (snd (snd x)) \<Longrightarrow>
     same_routing s (snd (snd (fold (\<lambda>(prp, val) (ret, rs). or_ret ret (plane_add_prop c prp val rs)) ps x)))"
proof (induction ps arbitrary: x)
  case Nil
  then show ?case by simp
next
  case (Cons pv ps)
  obtain prp val ret rs where pv: "pv = (prp, val)" "x = (ret, rs)" by (cases pv; cases x)
  with Cons.prems have "same_routing s (snd rs)" by simp
  then have "same_routing s (snd (snd (plane_add_prop c prp val rs)))"
    by (rule same_routing_trans [OF _ same_routing_add_props(1)])
  then have "same_routing s (snd (snd (or_ret ret (plane_add_prop c prp val rs))))" by simp
  from Cons.IH [OF this] pv show ?case by simp
qed

lemma same_routing_plane_add_props [routing_frames]:
  "same_routing (snd rs) (snd (snd (plane_add_props c fb x y rs)))"
  unfolding plane_add_props_def by (rule same_routing_plane_fold) simp

lemma same_routing_ensure_blob [routing_frames]:
  "same_routing s (snd (drm_mode_ensure_blob K p m s))"
proof -
  have "same_routing s (snd (calloc s))" by (rule same_routing_calloc)
  also have "same_routing \<dots> (upd_crtc p (\<lambda>c. c\<lparr>current_mode := b, mode_list := l c\<rparr>) ((snd (calloc s))\<lparr>kst := k\<rparr>))"
    for b l k by (rule same_routing_trans) (rule routing_frames)+
  finally show ?thesis
    by (auto simp: drm_mode_ensure_blob_def case_prod_beta Let_def same_routing_calloc)
qed

lemma same_routing_dpms_outputs [routing_frames]:
  "same_routing (snd rs) (snd (snd (snd (dpms_outputs c p d outs act ret rs))))"
proof (induction outs arbitrary: act ret rs)
  case Nil
  then show ?case by simp
next
  case (Cons out outs)
  have "same_routing (snd rs) (snd (snd (snd (dpms_outputs c p d outs a r
      (snd (connector_add_prop out np val rs))))))" for np val a r
    by (rule same_routing_trans [OF same_routing_add_props(3) Cons.IH])
  with Cons.IH show ?case by (simp add: case_prod_beta Let_def)
qed

lemma same_routing_crtc_add_dpms [routing_frames]:
  "same_routing (snd rs) (snd (snd (snd (crtc_add_dpms_props K p d rs))))"
proof -
  let ?c = "crtcs (snd rs) p"
  obtain act ret rs1 where d: "dpms_outputs ?c p d (outputs (ms_of_crtc (snd rs) p)) False 0 rs = (act, ret, rs1)"
    by (metis surj_pair)
  then have 1: "same_routing (snd rs) (snd rs1)"
    using same_routing_dpms_outputs [of rs ?c p d "outputs (ms_of_crtc (snd rs) p)" False 0] by simp
  let ?b = "snd (drm_mode_ensure_blob K p (drmmode_ConvertToKMode (crtc_mode ?c)) (snd rs1))"
  have 2: "same_routing (snd rs) ?b" by (rule same_routing_trans [OF 1 same_routing_ensure_blob])
  have "same_routing (snd rs) (snd (snd (crtc_add_prop ?c q w (snd (crtc_add_prop ?c q' w' (fst rs1, ?b))))))"
    for q w q' w'
    using same_routing_trans [OF 2] same_routing_trans [OF same_routing_add_props(2) same_routing_add_props(2)]
    by (metis snd_conv)
  moreover have "same_routing (snd rs) (snd (snd (crtc_add_prop ?c q w (snd (crtc_add_prop ?c q' w' rs1)))))"
    for q w q' w'
    using same_routing_trans [OF 1] same_routing_trans [OF same_routing_add_props(2) same_routing_add_props(2)]
    by metis
  ultimately show ?thesis
    by (cases act) (simp_all add: crtc_add_dpms_props_def d Let_def case_prod_beta)
qed

lemma same_routing_commit [routing_frames]: "same_routing s (snd (atomic_commit K req f u s))"
  by (auto simp: atomic_commit_def case_prod_beta routing_frames)

lemma same_routing_bo_import [routing_frames]: "same_routing s (snd (drmmode_bo_import K scr bo s))"
  by (auto simp: drmmode_bo_import_def case_prod_beta Let_def routing_frames split: option.split)

lemma same_routing_get_fb_id [routing_frames]: "same_routing s (snd (drmmode_crtc_get_fb_id K p s))"
proof -
  have "same_routing s (upd_ms scr (\<lambda>m. m\<lparr>fb_id := i\<rparr>) (snd (drmmode_bo_import K scr' bo s)))" for scr scr' bo i
    by (rule same_routing_trans [OF same_routing_bo_import same_routing_upd_ms(1)])
  then show ?thesis
    by (auto simp: drmmode_crtc_get_fb_id_def case_prod_beta Let_def routing_frames split: option.split)
qed

lemma same_routing_flip [routing_frames]: "same_routing s (snd (drmmode_crtc_flip K p fb f d s))"
proof -
  have a: "same_routing s (snd (snd (plane_add_props c fb x y (r, snd (calloc s)))))" for c fb x y r
    by (rule same_routing_trans [OF same_routing_calloc])
       (use same_routing_plane_add_props [of "(r, snd (calloc s))"] in simp)
  then have "same_routing s (snd (atomic_commit K req f u (snd (snd (plane_add_props c fb x y (r, snd (calloc s)))))))"
    for c fb x y r req f u by (rule same_routing_trans [OF _ same_routing_commit])
  with a show ?thesis
    by (auto simp: drmmode_crtc_flip_def case_prod_beta Let_def routing_frames)
qed

lemma same_routing_disable_orphans [routing_frames]:
  "same_routing (snd rs) (snd (snd (disable_orphans p outs ps ret rs)))"
proof (induction ps arbitrary: ret rs)
  case Nil
  then show ?case by simp
next
  case (Cons q ps)
  have "same_routing (snd rs) (snd (snd (disable_orphans p outs ps r
      (snd (crtc_add_prop c cp v (snd (crtc_add_prop c' cp' v' rs)))))))" for r c cp v c' cp' v'
    by (rule same_routing_trans [OF same_routing_trans [OF same_routing_add_props(2) same_routing_add_props(2)]
          Cons.IH])
  with Cons.IH show ?case by (simp add: case_prod_beta Let_def)
qed

text \<open>The part of an atomic mode set before the outputs are updated.\<close>

lemma set_mode_atomic_cases:
  obtains t where "same_routing s t" and
    "set_mode_atomic K p test_only fb x y s =
       (fst (set_mode_atomic K p test_only fb x y s),
        if fst (set_mode_atomic K p test_only fb x y s) = 0 \<and> \<not> test_only
        then upd_ms (crtc_scrn (crtcs s p)) (\<lambda>m. m\<lparr>outputs := map (track_output p) (outputs m)\<rparr>) t
        else t)"
proof (cases "fst (calloc s)")
  case False
  have "same_routing s (snd (calloc s))" by (rule same_routing_calloc)
  moreover obtain s0 where "calloc s = (False, s0)" using False by (metis prod.collapse)
  ultimately show thesis
    by (intro that [of s0]) (simp_all add: set_mode_atomic_def)
next
  case True
  then obtain s0 where 0: "calloc s = (True, s0)" by (metis prod.collapse)
  let ?scr = "crtc_scrn (crtcs s p)"
  let ?flags = "DRM_MODE_ATOMIC_ALLOW_MODESET OR (if test_only then DRM_MODE_ATOMIC_TEST_ONLY else 0)"
  obtain act ret rs where 1: "crtc_add_dpms_props K p DPMSModeOn ([], s0) = (act, ret, rs)"
    by (metis surj_pair)
  obtain ret2 rs2 where 2: "or_ret ret (plane_add_props (crtcs (snd rs) p) (if act then fb else 0) x y rs) = (ret2, rs2)"
    by (metis surj_pair)
  obtain ret3 req s3 where 3: "disable_orphans p (outputs (mss (snd rs2) ?scr)) (config (mss (snd rs2) ?scr)) ret2 rs2
      = (ret3, req, s3)" by (metis surj_pair)
  obtain ret4 t where 4: "(if ret3 = 0 then atomic_commit K req ?flags 0 s3 else (ret3, s3)) = (ret4, t)"
    by (metis surj_pair)
  have "same_routing s s0" using same_routing_calloc [of s] 0 by simp
  also have "same_routing s0 (snd rs)"
    using same_routing_crtc_add_dpms [of "([], s0)" K p DPMSModeOn] 1 by simp
  also have "same_routing (snd rs) (snd rs2)"
    using same_routing_plane_add_props [of rs "crtcs (snd rs) p" "if act then fb else 0" x y] 2
    by (metis snd_conv snd_or_ret(1))
  also have "same_routing (snd rs2) s3"
    using same_routing_disable_orphans [of rs2 p "outputs (mss (snd rs2) ?scr)" "config (mss (snd rs2) ?scr)" ret2] 3
    by simp
  also have "same_routing s3 t"
    using 4 same_routing_commit [of s3 K req ?flags 0] by (metis same_routing_refl snd_conv)
  finally have "same_routing s t" .
  moreover have "set_mode_atomic K p test_only fb x y s =
      (ret4, if ret4 = 0 \<and> \<not> test_only
             then upd_ms ?scr (\<lambda>m. m\<lparr>outputs := map (track_output p) (outputs m)\<rparr>) t else t)"
    unfolding set_mode_atomic_def Let_def 0 prod.case 1 2 3 4 by simp
  ultimately show thesis by (intro that [of t]) simp_all
qed

text \<open>
  C7. Setting a mode keeps track of the outputs. After an atomic mode set that succeeds, the
  outputs recorded as driven by the CRTC are exactly those routed to it, and the record of
  every other output is what it was; a test, and a mode set the kernel refuses, change no
  record of any output.
\<close>

theorem set_mode_tracks_outputs:
  assumes "atomic_modeset (ms_of_crtc s p)" and "drmmode_crtc_set_mode K p test_only s = (ret, s')"
  shows "outputs (mss s' scr) =
           (if ret = 0 \<and> \<not> test_only \<and> scr = crtc_scrn (crtcs s p)
            then map (track_output p) (outputs (mss s scr)) else outputs (mss s scr)) \<and>
         (\<forall>out. (out_current_crtc (track_output p out) = Some p) = (out_crtc out = Some p)) \<and>
         (\<forall>out q. q \<noteq> p \<longrightarrow> out_crtc out \<noteq> Some p \<longrightarrow>
            (out_current_crtc (track_output p out) = Some q) = (out_current_crtc out = Some q))"
proof -
  obtain r s1 where fb: "drmmode_crtc_get_fb_id K p s = (r, s1)" by fastforce
  then have r1: "same_routing s s1" using same_routing_get_fb_id [of s K p] by simp
  define s2 where "s2 = (if ms_glamor (mss s1 (crtc_scrn (crtcs s p)))
             then s1\<lparr>kst := glamor_finish K (crtc_scrn (crtcs s p)) (kst s1)\<rparr> else s1)"
  have r2: "same_routing s s2"
    using same_routing_trans [OF r1 same_routing_kst(1)] r1 by (simp add: s2_def)
  have "outputs (mss s' scr) = (if ret = 0 \<and> \<not> test_only \<and> scr = crtc_scrn (crtcs s p)
            then map (track_output p) (outputs (mss s scr)) else outputs (mss s scr))"
  proof (cases r)
    case None
    then show ?thesis using assms(2) fb r1
      by (auto simp: drmmode_crtc_set_mode_def same_routing_def)
  next
    case (Some v)
    obtain fbid x y where v: "v = (fbid, x, y)" by (cases v)
    have at: "atomic_modeset (mss s2 (crtc_scrn (crtcs s p)))"
      using r2 assms(1) by (simp add: same_routing_def)
    have c: "set_mode_atomic K p test_only fbid x y s2 = (ret, s')"
      using assms(2) fb Some v at by (simp add: drmmode_crtc_set_mode_def Let_def s2_def)
    show ?thesis
    proof (rule set_mode_atomic_cases [of s2 K p test_only fbid x y], goal_cases)
      case (1 t)
      then have "same_routing s t" using same_routing_trans [OF r2] by blast
      moreover from 1(2) have "s' = (if ret = 0 \<and> \<not> test_only
         then upd_ms (crtc_scrn (crtcs s2 p)) (\<lambda>m. m\<lparr>outputs := map (track_output p) (outputs m)\<rparr>) t
         else t)" by (simp add: c)
      ultimately show ?case using r2 by (auto simp: same_routing_def upd_ms_def)
    qed
  qed
  then show ?thesis by (simp add: track_output_def)
qed

section \<open>What a request asks for\<close>

text \<open>With memory to spare, adding a property appends it.\<close>

lemma atomic_add_mem: "mem_ok s = [] \<Longrightarrow> atomic_add obj prp val (req, s) = (0, req @ [(obj, prp, val)], s)"
  by (simp add: atomic_add_def calloc_def)

definition connector_entry :: "crtc \<Rightarrow> nat \<Rightarrow> int \<Rightarrow> xf86_output \<Rightarrow> atomic_req" where
  "connector_entry c p dpms out =
     (if out_crtc out \<noteq> Some p then
        if out_current_crtc out = Some p
        then [(word_of_int (out_id out), prop_id_of (out_props out) 0, 0)] else []
      else if out_id out = -1 then []
      else [(word_of_int (out_id out), prop_id_of (out_props out) 0,
             if dpms = DPMSModeOn then ucast (crtc_id c) else 0)])"

definition drives_output :: "nat \<Rightarrow> xf86_output list \<Rightarrow> bool" where
  "drives_output p outs \<longleftrightarrow> (\<exists>out \<in> set outs. out_crtc out = Some p \<and> out_id out \<noteq> -1)"

lemma dpms_outputs_mem:
  assumes "mem_ok s = []" and "act \<longrightarrow> d = DPMSModeOn"
  shows "dpms_outputs c p d outs act ret (req, s) =
           (act \<or> d = DPMSModeOn \<and> drives_output p outs, ret,
            req @ concat (map (connector_entry c p d) outs), s)"
  using assms(2)
proof (induction outs arbitrary: act req)
  case Nil
  then show ?case by (simp add: drives_output_def)
next
  case (Cons out outs)
  then show ?case
    using assms(1)
    by (auto simp: connector_add_prop_def atomic_add_mem connector_entry_def drives_output_def
        or_ret_def Let_def)
qed

lemma calloc_mem: "mem_ok s = [] \<Longrightarrow> calloc s = (True, s)"
  by (simp add: calloc_def)

lemma ensure_blob_mem: "mem_ok s = [] \<Longrightarrow> mem_ok (snd (drm_mode_ensure_blob K p m s)) = []"
  by (simp add: drm_mode_ensure_blob_def calloc_mem case_prod_beta Let_def frame_simps)

text \<open>
  What a request asks of a CRTC and its connectors. With memory to spare, the request
  gets, in this order: for every connector the CRTC drove and no longer does, the clearing of
  its CRTC; for every connector routed to it that is not leased, the CRTC, or none when power
  is off; and for the CRTC, active with the blob of its mode when it is on and drives a
  connector, and otherwise inactive without a mode.
\<close>

theorem dpms_request:
  assumes "mem_ok s = []"
  shows "crtc_add_dpms_props K p d (req, s) =
    (let c = crtcs s p; outs = outputs (ms_of_crtc s p);
         conn = req @ concat (map (connector_entry c p d) outs);
         entry = (\<lambda>prp v. (crtc_id c, prop_id_of (props c) (crtc_property_index prp), v))
     in if d = DPMSModeOn \<and> drives_output p outs then
          (case drm_mode_ensure_blob K p (drmmode_ConvertToKMode (crtc_mode c)) s of
             (r, t) \<Rightarrow> (True, r, conn @ [entry CRTC_ACTIVE 1,
                entry CRTC_MODE_ID (ucast (snd (the (current_mode (crtcs t p)))))], t))
        else (False, 0, conn @ [entry CRTC_ACTIVE 0, entry CRTC_MODE_ID 0], s))"
  using assms ensure_blob_mem [OF assms, of K p "drmmode_ConvertToKMode (crtc_mode (crtcs s p))"]
  by (simp add: crtc_add_dpms_props_def dpms_outputs_mem crtc_add_prop_def atomic_add_mem or_ret_def
      Let_def case_prod_beta)

text \<open>
  A page flip through the atomic interface. With memory to spare it commits, without
  blocking, one request that sets the ten properties of the CRTC's plane: the framebuffer, the
  CRTC, the source rectangle at the CRTC's position in 16.16 fixed point and the whole mode as
  destination.
\<close>

theorem atomic_flip_request:
  assumes "mem_ok s = []" and "atomic_modeset (ms_of_crtc s p)"
  shows "drmmode_crtc_flip K p fb flags data s =
    (let c = crtcs s p; w = m_HDisplay (crtc_mode c); h = m_VDisplay (crtc_mode c);
         entry = (\<lambda>prp v. (plane_id c, prop_id_of (props_plane c) (plane_property_index prp), v))
     in atomic_commit K
          [entry PLANE_FB_ID (ucast fb), entry PLANE_CRTC_ID (if fb = 0 then 0 else ucast (crtc_id c)),
           entry PLANE_SRC_X (shl16 (crtc_x c)), entry PLANE_SRC_Y (shl16 (crtc_y c)),
           entry PLANE_SRC_W (shl16 w), entry PLANE_SRC_H (shl16 h),
           entry PLANE_CRTC_X 0, entry PLANE_CRTC_Y 0,
           entry PLANE_CRTC_W (word_of_int w), entry PLANE_CRTC_H (word_of_int h)]
          (flags OR DRM_MODE_ATOMIC_NONBLOCK) data s)"
  using assms
  by (simp add: drmmode_crtc_flip_def calloc_mem plane_add_props_def plane_add_prop_def atomic_add_mem
      or_ret_def Let_def)

section \<open>Mode blobs\<close>

text \<open>
  A blob per mode, and the failures forgotten. After asking for the blob of a mode that
  mode is the current one and asking again calls nothing and succeeds; that holds also when
  the kernel refused to create the blob: the error is reported once, the blob number zero is
  kept, and from then on the mode is taken to have a blob.
\<close>

theorem ensure_blob_once:
  assumes "mem_ok s = []" and "drm_mode_ensure_blob K p m s = (ret, t)"
  shows "(\<exists>b. current_mode (crtcs t p) = Some (m, b) \<and> (ret \<noteq> 0 \<longrightarrow> b = 0)) \<and>
         drm_mode_ensure_blob K p m t = (0, t)"
proof (cases "\<exists>b. current_mode (crtcs s p) = Some (m, b)")
  case True
  with assms(2) have "ret = 0 \<and> t = s"
    by (auto simp: drm_mode_ensure_blob_def drmmode_CompareKModes_def)
  with True assms show ?thesis by auto
next
  case False
  then have no: "(case current_mode (crtcs s p) of None \<Rightarrow> False
      | Some cur \<Rightarrow> drmmode_CompareKModes (fst cur) m) = False"
    by (auto simp: drmmode_CompareKModes_def split: option.split)
  obtain r bid k where c: "drmModeCreatePropertyBlob K m (kst s) = ((r, bid), k)"
    by (metis surj_pair)
  have "drm_mode_ensure_blob K p m s = (r, upd_crtc p (\<lambda>c. c\<lparr>current_mode := Some (m, if r = 0 then bid else 0),
      mode_list := (m, if r = 0 then bid else 0) # mode_list c\<rparr>) (s\<lparr>kst := k\<rparr>))"
    unfolding drm_mode_ensure_blob_def no calloc_mem [OF assms(1)] by (simp add: c Let_def)
  with assms(2) have t: "ret = r" "current_mode (crtcs t p) = Some (m, if r = 0 then bid else 0)"
    by (auto simp: upd_crtc_def)
  then show ?thesis by (simp add: drm_mode_ensure_blob_def drmmode_CompareKModes_def)
qed

lemma fold_mode_destroy:
  "mode_list (crtcs (fold (drm_mode_destroy K p) ms s) p) = fold remove1 ms (mode_list (crtcs s p)) \<and>
   kst (fold (drm_mode_destroy K p) ms s) =
     fold (drmModeDestroyPropertyBlob K) (filter (\<lambda>b. b \<noteq> 0) (map snd ms)) (kst s)"
  by (induction ms arbitrary: s) (simp_all add: drm_mode_destroy_def upd_crtc_def)

lemma fold_remove1_self: "fold remove1 xs xs = []"
  by (induction xs) simp_all

text \<open>
  No blob is leaked. Destroying a CRTC gives every mode blob the kernel created for it
  back, each once, the newest first.
\<close>

theorem mode_blobs_freed:
  "kst (destroy_mode_list K p s) =
     fold (drmModeDestroyPropertyBlob K)
       (filter (\<lambda>b. b \<noteq> 0) (map snd (mode_list (crtcs s p)))) (kst s) \<and>
   mode_list (crtcs (destroy_mode_list K p s) p) = []"
  using fold_mode_destroy [of K p "mode_list (crtcs s p)" s]
  by (simp add: destroy_mode_list_def fold_remove1_self)

section \<open>Examples\<close>

text \<open>
  Two CRTCs and two outputs of one screen: the first output moves from CRTC 0 to CRTC 3, the
  second, leased, stays on CRTC 0. The kernel accepts every commit and counts them.
\<close>

definition two_outputs :: "xf86_output list" where
  "two_outputs =
     [\<lparr>out_id = 50, out_crtc = Some 3, out_current_crtc = Some 0, out_props = [],
       out_koutput = None, out_dpms = 0, out_dpms_enum_id = 0\<rparr>,
      \<lparr>out_id = -1, out_crtc = Some 0, out_current_crtc = Some 0, out_props = [],
       out_koutput = None, out_dpms = 0, out_dpms_enum_id = 0\<rparr>]"

definition atomic_state :: "(unit, nat) drm" where
  "atomic_state = (idle_drm 0)\<lparr>
     mss := (\<lambda>_. zero_ms\<lparr>config := [0, 3], outputs := two_outputs, atomic_modeset := True, fb_id := 9\<rparr>),
     crtcs := (\<lambda>p. zero_crtc\<lparr>crtc_id := 30 + of_nat p, plane_id := 40 + of_nat p\<rparr>)\<rparr>"

definition commit_kernel :: "nat kernel" where
  "commit_kernel = dead_kernel\<lparr>drmModeAtomicCommit := (\<lambda>r f u k. ((0, 0), k + 1)),
     drmModeCreatePropertyBlob := (\<lambda>m k. ((0, 7), k))\<rparr>"

lemmas atomic_example_defs = two_outputs_def atomic_state_def commit_kernel_def dead_kernel_def
  idle_drm_def zero_ms_def zero_crtc_def

lemma set_mode_tracks_outputs_witness:
  "map out_current_crtc (outputs (mss (snd (drmmode_crtc_set_mode commit_kernel 3 False atomic_state)) 0))
     = [Some 3, Some 0]"
proof -
  have outs: "outputs (mss atomic_state 0) = two_outputs" and scrn: "crtc_scrn (crtcs atomic_state 3) = 0"
    by (simp_all add: atomic_example_defs)
  have at: "atomic_modeset (ms_of_crtc atomic_state 3)" by (simp add: atomic_example_defs)
  obtain r t where c: "drmmode_crtc_set_mode commit_kernel 3 False atomic_state = (r, t)" by fastforce
  have "fst (drmmode_crtc_set_mode commit_kernel 3 False atomic_state) = 0"
    by (simp add: atomic_example_defs drmmode_crtc_set_mode_def drmmode_crtc_get_fb_id_def
        set_mode_atomic_def calloc_def crtc_add_dpms_props_def drm_mode_ensure_blob_def
        connector_add_prop_def crtc_add_prop_def plane_add_props_def plane_add_prop_def
        atomic_add_def or_ret_def atomic_commit_def lost_outputs_def remaining_outputs_def
        upd_crtc_def upd_ms_def Let_def)
  then have "r = 0" using c by simp
  with set_mode_tracks_outputs [OF at c, of 0] show ?thesis
    by (simp add: c outs scrn two_outputs_def)
qed

lemma dpms_request_witness:
  "fst (snd (snd (crtc_add_dpms_props commit_kernel 0 DPMSModeOn ([], atomic_state)))) =
     [(50, 0, 0), (30, 0, 0), (30, 0, 0)]"
proof -
  have "mem_ok atomic_state = []" by (simp add: atomic_example_defs)
  from dpms_request [OF this, of commit_kernel 0 DPMSModeOn "[]"] show ?thesis
    by (simp add: atomic_example_defs connector_entry_def drives_output_def prop_id_of_def)
qed

lemma atomic_flip_request_witness:
  "drmmode_crtc_flip commit_kernel 3 5 DRM_MODE_PAGE_FLIP_EVENT 77 atomic_state =
     (0, atomic_state\<lparr>kst := 1\<rparr>)"
proof -
  have "mem_ok atomic_state = []" "atomic_modeset (ms_of_crtc atomic_state 3)"
    by (simp_all add: atomic_example_defs)
  from atomic_flip_request [OF this, of commit_kernel 5 DRM_MODE_PAGE_FLIP_EVENT 77] show ?thesis
    by (simp add: atomic_commit_def Let_def) (simp add: atomic_example_defs)
qed

lemma ensure_blob_once_witness:
  "fst (drm_mode_ensure_blob dead_kernel 0 hd_kmode atomic_state) = - EINVAL \<and>
   current_mode (crtcs (snd (drm_mode_ensure_blob dead_kernel 0 hd_kmode atomic_state)) 0) = Some (hd_kmode, 0)"
proof -
  have "mem_ok atomic_state = []" by (simp add: atomic_example_defs)
  from ensure_blob_once [OF this, of dead_kernel 0 hd_kmode "fst (drm_mode_ensure_blob dead_kernel 0 hd_kmode atomic_state)"
      "snd (drm_mode_ensure_blob dead_kernel 0 hd_kmode atomic_state)"]
  show ?thesis
    by (auto simp: drm_mode_ensure_blob_def atomic_example_defs calloc_def Let_def)
qed

end
