(* ===== verification/Flip_Events.thy ===== *)
theory Flip_Events
  imports Queue_Life Kms_Atomic
begin

text \<open>
  The memory behind pending DRM events: the records of Present
  (\<^verbatim>\<open>src/src/present.c\<close>), DRI2 (\<^verbatim>\<open>src/src/dri2.c\<close>) and of a page flip
  (\<^verbatim>\<open>src/src/pageflip.c\<close>), and the functions that finish with them. Records live in
  heaps indexed by address; freeing one removes it. Reaching a record that is not there is
  recorded: it is what the C program has no defined behaviour for. \<open>faults\<close> counts the
  accesses to flip and Present records, \<open>misc_faults\<close> all others.
\<close>

section \<open>Records\<close>

record present_event =
  pe_event_id :: u64
  pe_unflip :: bool

record dri2_vblank_event =
  dv_drawable_id :: nat
  dv_client :: "nat option"
  dv_event_complete :: nat
  dv_event_data :: nat

datatype dri2_event_type = MS_DRI2_QUEUE_SWAP | MS_DRI2_QUEUE_FLIP | MS_DRI2_WAIT_MSC

record dri2_frame_event =
  fe_screen :: nat
  fe_drawable :: "nat option"
  fe_client :: "nat option"
  fe_type :: dri2_event_type
  fe_frame :: u32
  fe_crtc :: nat
  fe_event_complete :: nat
  fe_event_data :: nat
  fe_front :: "nat option"
  fe_back :: "nat option"

text \<open>A DRI2 buffer with its \<^verbatim>\<open>ms_dri2_buffer_private_rec\<close>; a null private is \<open>None\<close>.\<close>

record dri2_buffer =
  db2_attachment :: nat
  db2_name :: u32
  db2_pitch2 :: u32
  db2_cpp :: u32
  db2_format :: u32
  db2_private :: "(int \<times> nat) option"

text \<open>
  The data of a page flip: what to call when it is done, how many events of CRTCs refer to
  it, the count and time the reference CRTC reported, and the framebuffer it replaces.
\<close>

datatype flip_client = FLIP_PRESENT nat | FLIP_DRI2 nat

record ms_flipdata =
  fl_screen :: nat
  fl_client :: flip_client
  flip_count :: int
  fl_fe_msc :: u64
  fl_fe_usec :: u64
  old_fb_id :: u32

text \<open>
  What the queue's entries carry: the arguments are the fields of the carrier record
  (\<^verbatim>\<open>ms_crtc_pageflip\<close>, \<^verbatim>\<open>vblank_event_args\<close>) or the address of the event.
\<close>

datatype callback =
  CB_present nat
| CB_flip bool nat
| CB_dri2 nat
| CB_shared nat "nat option" nat bool

datatype swap_kind = DRI2_BLIT_COMPLETE | DRI2_FLIP_COMPLETE

text \<open>
  Calls into the server that others see. \<open>Copy_area\<close> is the copy of DRI2 from one drawable
  or pixmap to another: the boxes of the clip, the size and the offset in the destination. The
  software rendering of EXA (\<^verbatim>\<open>fbFill\<close>, \<^verbatim>\<open>fbCopyArea\<close>, \<^verbatim>\<open>fbComposite\<close>) comes
  with the memory of the pixmaps it touches; a composite with the pictures, the memory of source,
  mask (if there is one) and destination, and the three positions and the size.
\<close>

datatype copy_end = COPY_DRAWABLE nat | COPY_PIXMAP nat

datatype server_call =
  Present_notify u64 u64 u64
| Swap_complete "nat option" nat u64 u32 u32 swap_kind "nat option" nat
| Wait_complete "nat option" nat u64 u32 u32
| Destroy_pixmap nat
| Block_client "nat option" nat
| Copy_area copy_end copy_end "(int \<times> int \<times> int \<times> int) list" nat nat int int
| Reference_pixmap nat
| Damage_pixmap nat
| Fb_fill nat "pixel_store option" int u32 u32 "int \<times> int" "int \<times> int"
| Fb_copy nat "pixel_store option" nat "pixel_store option" int u32 "int \<times> int" "int \<times> int" "int \<times> int"
| Fb_composite int "nat option" "nat option" "nat option" "pixel_store option" "pixel_store option option" "pixel_store option"
    "int \<times> int" "int \<times> int" "int \<times> int" "int \<times> int"

record 'k drv = "(callback, 'k) drm" +
  presents :: "nat \<Rightarrow> present_event option"
  dri2_flips :: "nat \<Rightarrow> dri2_vblank_event option"
  frame_events :: "nat \<Rightarrow> dri2_frame_event option"
  dri2_bufs :: "nat \<Rightarrow> dri2_buffer option"
  flipdatas :: "nat \<Rightarrow> ms_flipdata option"
  next_addr :: nat
  server_log :: "server_call list"
  faults :: nat
  misc_faults :: nat
  exa_privs :: "nat \<Rightarrow> exa_priv option"
  pix_ptr :: "nat \<Rightarrow> pixel_store option"
  buf_mem :: "nat \<Rightarrow> u32 option"
  exa_prepare_args :: exa_args

definition emit :: "server_call \<Rightarrow> 'k drv \<Rightarrow> 'k drv" where
  "emit n s = s\<lparr>server_log := n # server_log s\<rparr>"

definition fault :: "'k drv \<Rightarrow> 'k drv" where
  "fault s = s\<lparr>faults := faults s + 1\<rparr>"

definition misc_fault :: "'k drv \<Rightarrow> 'k drv" where
  "misc_fault s = s\<lparr>misc_faults := misc_faults s + 1\<rparr>"

section \<open>Present events\<close>

definition free_present :: "nat \<Rightarrow> 'k drv \<Rightarrow> 'k drv" where
  "free_present a s = (if presents s a = None then fault s else s\<lparr>presents := (presents s)(a := None)\<rparr>)"

definition ms_present_vblank_handler :: "u64 \<Rightarrow> u64 \<Rightarrow> nat \<Rightarrow> 'k drv \<Rightarrow> 'k drv" where
  "ms_present_vblank_handler msc usec a s =
     (case presents s a of
        None \<Rightarrow> fault s
      | Some e \<Rightarrow> free_present a (emit (Present_notify (pe_event_id e) usec msc) s))"

definition ms_present_vblank_abort :: "nat \<Rightarrow> 'k drv \<Rightarrow> 'k drv" where
  "ms_present_vblank_abort a s = free_present a s"

definition ms_present_flip_handler :: "nat \<Rightarrow> u64 \<Rightarrow> u64 \<Rightarrow> nat \<Rightarrow> 'k drv \<Rightarrow> 'k drv" where
  "ms_present_flip_handler scr msc ust a s =
     (case presents s a of
        None \<Rightarrow> fault s
      | Some e \<Rightarrow>
          ms_present_vblank_handler msc ust a
            (if pe_unflip e then upd_ms scr (\<lambda>m. m\<lparr>present_flipping := False\<rparr>) s else s))"

definition ms_present_flip_abort :: "nat \<Rightarrow> nat \<Rightarrow> 'k drv \<Rightarrow> 'k drv" where
  "ms_present_flip_abort scr a s = free_present a s"

section \<open>DRI2 flips\<close>

text \<open>\<open>lookup\<close> is \<^verbatim>\<open>dixLookupDrawable\<close>: the drawable of an identifier, if it still exists.\<close>

definition ms_dri2_flip_abort :: "nat \<Rightarrow> nat \<Rightarrow> 'k drv \<Rightarrow> 'k drv" where
  "ms_dri2_flip_abort scr a s =
     (let s = upd_ms scr (\<lambda>m. m\<lparr>dri2_flipping := False\<rparr>) s in
      if dri2_flips s a = None then misc_fault s else s\<lparr>dri2_flips := (dri2_flips s)(a := None)\<rparr>)"

definition ms_dri2_flip_handler ::
  "(nat \<Rightarrow> nat option) \<Rightarrow> nat \<Rightarrow> u64 \<Rightarrow> u64 \<Rightarrow> nat \<Rightarrow> 'k drv \<Rightarrow> 'k drv" where
  "ms_dri2_flip_handler lookup scr msc ust a s =
     (case dri2_flips s a of
        None \<Rightarrow> misc_fault s
      | Some e \<Rightarrow>
          let s = (case lookup (dv_drawable_id e) of
                     None \<Rightarrow> s
                   | Some d \<Rightarrow> emit (Swap_complete (dv_client e) d (ucast (ucast msc :: u32))
                       (ucast (ust div 1000000)) (ucast (ust mod 1000000)) DRI2_FLIP_COMPLETE
                       (Some (dv_event_complete e)) (dv_event_data e)) s);
              s = upd_ms scr (\<lambda>m. m\<lparr>dri2_flipping := False\<rparr>) s
          in s\<lparr>dri2_flips := (dri2_flips s)(a := None)\<rparr>)"

section \<open>DRI2 buffers and frame events\<close>

definition ms_dri2_reference_buffer :: "nat option \<Rightarrow> 'k drv \<Rightarrow> 'k drv" where
  "ms_dri2_reference_buffer b s =
     (case b of
        None \<Rightarrow> s
      | Some a \<Rightarrow>
          (case dri2_bufs s a of
             None \<Rightarrow> misc_fault s
           | Some buf \<Rightarrow>
               (case db2_private buf of
                  None \<Rightarrow> misc_fault s
                | Some (n, px) \<Rightarrow>
                    s\<lparr>dri2_bufs := (dri2_bufs s)(a \<mapsto> buf\<lparr>db2_private := Some (n + 1, px)\<rparr>)\<rparr>)))"

definition ms_dri2_destroy_buffer2 :: "nat option \<Rightarrow> 'k drv \<Rightarrow> 'k drv" where
  "ms_dri2_destroy_buffer2 b s =
     (case b of
        None \<Rightarrow> s
      | Some a \<Rightarrow>
          (case dri2_bufs s a of
             None \<Rightarrow> misc_fault s
           | Some buf \<Rightarrow>
               (case db2_private buf of
                  None \<Rightarrow> s\<lparr>dri2_bufs := (dri2_bufs s)(a := None)\<rparr>
                | Some (n, px) \<Rightarrow>
                    if n - 1 = 0 then
                      emit (Destroy_pixmap px) (s\<lparr>dri2_bufs := (dri2_bufs s)(a := None)\<rparr>)
                    else s\<lparr>dri2_bufs := (dri2_bufs s)(a \<mapsto> buf\<lparr>db2_private := Some (n - 1, px)\<rparr>)\<rparr>)))"

definition ms_dri2_destroy_buffer :: "nat option \<Rightarrow> 'k drv \<Rightarrow> 'k drv" where
  "ms_dri2_destroy_buffer b s = ms_dri2_destroy_buffer2 b s"

definition ms_dri2_del_frame_event :: "nat \<Rightarrow> 'k drv \<Rightarrow> 'k drv" where
  "ms_dri2_del_frame_event a s =
     (case frame_events s a of
        None \<Rightarrow> misc_fault s
      | Some info \<Rightarrow>
          let s = (if fe_front info \<noteq> None then ms_dri2_destroy_buffer (fe_front info) s else s);
              s = (if fe_back info \<noteq> None then ms_dri2_destroy_buffer (fe_back info) s else s)
          in s\<lparr>frame_events := (frame_events s)(a := None)\<rparr>)"

definition ms_dri2_frame_event_abort :: "nat \<Rightarrow> 'k drv \<Rightarrow> 'k drv" where
  "ms_dri2_frame_event_abort a s = ms_dri2_del_frame_event a s"

section \<open>Page flip data\<close>

definition ms_pageflip_free :: "nat \<Rightarrow> 'k drv \<Rightarrow> 'k drv" where
  "ms_pageflip_free a s =
     (case flipdatas s a of
        None \<Rightarrow> fault s
      | Some fd \<Rightarrow>
          if flip_count fd - 1 > 0 then
            s\<lparr>flipdatas := (flipdatas s)(a \<mapsto> fd\<lparr>flip_count := flip_count fd - 1\<rparr>)\<rparr>
          else s\<lparr>flipdatas := (flipdatas s)(a := None)\<rparr>)"

text \<open>The statement \<^verbatim>\<open>flipdata->flip_count++\<close>.\<close>

definition flipdata_ref :: "nat \<Rightarrow> 'k drv \<Rightarrow> 'k drv" where
  "flipdata_ref a s =
     (case flipdatas s a of
        None \<Rightarrow> fault s
      | Some fd \<Rightarrow> s\<lparr>flipdatas := (flipdatas s)(a \<mapsto> fd\<lparr>flip_count := flip_count fd + 1\<rparr>)\<rparr>)"

definition flip_event_handler ::
  "(nat \<Rightarrow> nat option) \<Rightarrow> flip_client \<Rightarrow> nat \<Rightarrow> u64 \<Rightarrow> u64 \<Rightarrow> 'k drv \<Rightarrow> 'k drv" where
  "flip_event_handler lookup c scr msc ust s =
     (case c of
        FLIP_PRESENT e \<Rightarrow> ms_present_flip_handler scr msc ust e s
      | FLIP_DRI2 e \<Rightarrow> ms_dri2_flip_handler lookup scr msc ust e s)"

definition flip_abort_handler :: "flip_client \<Rightarrow> nat \<Rightarrow> 'k drv \<Rightarrow> 'k drv" where
  "flip_abort_handler c scr s =
     (case c of
        FLIP_PRESENT e \<Rightarrow> ms_present_flip_abort scr e s
      | FLIP_DRI2 e \<Rightarrow> ms_dri2_flip_abort scr e s)"

definition ms_pageflip_handler ::
  "'k kernel \<Rightarrow> (nat \<Rightarrow> nat option) \<Rightarrow> u64 \<Rightarrow> u64 \<Rightarrow> bool \<Rightarrow> nat \<Rightarrow> 'k drv \<Rightarrow> 'k drv" where
  "ms_pageflip_handler K lookup msc ust on_reference_crtc a s =
     (case flipdatas s a of
        None \<Rightarrow> fault s
      | Some fd \<Rightarrow>
          let fd = (if on_reference_crtc then fd\<lparr>fl_fe_msc := msc, fl_fe_usec := ust\<rparr> else fd);
              s = s\<lparr>flipdatas := (flipdatas s)(a \<mapsto> fd)\<rparr>;
              s = (if flip_count fd = 1 then
                     let s = flip_event_handler lookup (fl_client fd) (fl_screen fd) (fl_fe_msc fd) (fl_fe_usec fd) s
                     in s\<lparr>kst := drmModeRmFB K (old_fb_id fd) (kst s)\<rparr>
                   else s)
          in ms_pageflip_free a s)"

definition ms_pageflip_abort :: "nat \<Rightarrow> 'k drv \<Rightarrow> 'k drv" where
  "ms_pageflip_abort a s =
     (case flipdatas s a of
        None \<Rightarrow> fault s
      | Some fd \<Rightarrow>
          ms_pageflip_free a
            (if flip_count fd = 1 then flip_abort_handler (fl_client fd) (fl_screen fd) s else s))"

text \<open>
  The abort function of shared pixmap flips (\<^verbatim>\<open>drmmode_SharedPixmapVBlankEventAbort\<close>).
\<close>

definition drmmode_SharedPixmapVBlankEventAbort :: "nat \<Rightarrow> 'k drv \<Rightarrow> 'k drv" where
  "drmmode_SharedPixmapVBlankEventAbort frontTarget s = upd_ppriv frontTarget (\<lambda>p. p\<lparr>pp_flip_seq := 0\<rparr>) s"

text \<open>The call \<^verbatim>\<open>q->abort(q->data)\<close>.\<close>

fun drv_abort :: "callback \<Rightarrow> 'k drv \<Rightarrow> 'k drv" where
  "drv_abort (CB_present a) s = ms_present_vblank_abort a s"
| "drv_abort (CB_flip ref a) s = ms_pageflip_abort a s"
| "drv_abort (CB_dri2 a) s = ms_dri2_frame_event_abort a s"
| "drv_abort (CB_shared front back p flip) s = drmmode_SharedPixmapVBlankEventAbort front s"

section \<open>Reference counts\<close>

definition flip_refs :: "'k drv \<Rightarrow> nat \<Rightarrow> int option" where
  "flip_refs s a = map_option flip_count (flipdatas s a)"

interpretation flipdata: ref_store flip_refs flipdata_ref ms_pageflip_free
  by unfold_locales
     (auto simp: flip_refs_def flipdata_ref_def ms_pageflip_free_def fault_def misc_fault_def split: option.splits)

definition buffer_refs :: "'k drv \<Rightarrow> nat \<Rightarrow> int option" where
  "buffer_refs s a = Option.bind (dri2_bufs s a) (\<lambda>b. map_option fst (db2_private b))"

interpretation dri2_buffer: ref_store buffer_refs
  "\<lambda>a. ms_dri2_reference_buffer (Some a)" "\<lambda>a. ms_dri2_destroy_buffer2 (Some a)"
  by unfold_locales
     (auto simp: buffer_refs_def ms_dri2_reference_buffer_def ms_dri2_destroy_buffer2_def fault_def misc_fault_def
        emit_def bind_eq_Some_conv split: option.splits)

section \<open>Aborting leaves the queue alone\<close>

lemma queue_frames [frame_simps]:
  "ms_drm_queue (fault s) = ms_drm_queue s" "ms_drm_seq (fault s) = ms_drm_seq s"
  "ms_drm_queue (misc_fault s) = ms_drm_queue s" "ms_drm_seq (misc_fault s) = ms_drm_seq s"
  "ms_drm_queue (emit n s) = ms_drm_queue s" "ms_drm_seq (emit n s) = ms_drm_seq s"
  "ms_drm_queue (free_present a s) = ms_drm_queue s" "ms_drm_seq (free_present a s) = ms_drm_seq s"
  "ms_drm_queue (ms_dri2_destroy_buffer2 b s) = ms_drm_queue s"
  "ms_drm_seq (ms_dri2_destroy_buffer2 b s) = ms_drm_seq s"
  "ms_drm_queue (ms_pageflip_free a s) = ms_drm_queue s" "ms_drm_seq (ms_pageflip_free a s) = ms_drm_seq s"
  "ms_drm_queue (flipdata_ref a s) = ms_drm_queue s" "ms_drm_seq (flipdata_ref a s) = ms_drm_seq s"
  by (simp_all add: fault_def misc_fault_def emit_def free_present_def ms_dri2_destroy_buffer2_def
      ms_pageflip_free_def flipdata_ref_def split: option.split prod.split)

lemma queue_frames_events [frame_simps]:
  "ms_drm_queue (ms_dri2_del_frame_event a s) = ms_drm_queue s"
  "ms_drm_seq (ms_dri2_del_frame_event a s) = ms_drm_seq s"
  "ms_drm_queue (flip_abort_handler c scr s) = ms_drm_queue s"
  "ms_drm_seq (flip_abort_handler c scr s) = ms_drm_seq s"
  "ms_drm_queue (ms_pageflip_abort a s) = ms_drm_queue s"
  "ms_drm_seq (ms_pageflip_abort a s) = ms_drm_seq s"
  by (simp_all add: ms_dri2_del_frame_event_def ms_dri2_destroy_buffer_def flip_abort_handler_def
      ms_pageflip_abort_def ms_present_flip_abort_def ms_dri2_flip_abort_def Let_def frame_simps
      split: option.split flip_client.split)

lemma quiet_drv_abort [simp]: "quiet drv_abort"
  unfolding quiet_def
proof (intro allI)
  fix d :: callback and s :: "'k drv"
  show "ms_drm_queue (drv_abort d s) = ms_drm_queue s \<and> ms_drm_seq (drv_abort d s) = ms_drm_seq s"
    by (cases d)
       (simp_all add: frame_simps ms_present_vblank_abort_def ms_dri2_frame_event_abort_def
          drmmode_SharedPixmapVBlankEventAbort_def upd_ppriv_def)
qed

lemma queue_alloc_failed_seqs:
  "ms_drm_queue_alloc p data s = (0, s') \<Longrightarrow> seqs s' = seqs s"
  by (simp add: seqs_def queue_alloc_failed)

text \<open>The driver's queue, with the driver's abort functions, is a token queue.\<close>

interpretation drm_queue: token_queue seqs queue_ok
  "\<lambda>(p, d). ms_drm_queue_alloc p d" "ms_drm_abort_seq drv_abort"
  by unfold_locales
     (auto simp: seqs_abort_seq dest: queue_ok_distinct queue_alloc_failed_seqs queue_alloc_fresh)

section \<open>The end of a page flip\<close>

text \<open>
  How the events of a flip's CRTCs end: reported by the kernel, with the count and time and
  whether the CRTC is the reference, or aborted.
\<close>

datatype flip_end = Reported bool u64 u64 | Aborted

fun end_flip :: "'k kernel \<Rightarrow> (nat \<Rightarrow> nat option) \<Rightarrow> nat \<Rightarrow> flip_end \<Rightarrow> 'k drv \<Rightarrow> 'k drv" where
  "end_flip K lookup a (Reported on_ref msc ust) s = ms_pageflip_handler K lookup msc ust on_ref a s"
| "end_flip K lookup a Aborted s = ms_pageflip_abort a s"

text \<open>The count and time the client is told: the reference CRTC's last report.\<close>

fun reference_time :: "flip_end list \<Rightarrow> u64 \<times> u64 \<Rightarrow> u64 \<times> u64" where
  "reference_time [] t = t"
| "reference_time (Reported on_ref msc ust # es) t = reference_time es (if on_ref then (msc, ust) else t)"
| "reference_time (Aborted # es) t = reference_time es t"

lemma flip_handlers_commute:
  "flip_event_handler lookup c scr msc ust (s\<lparr>flipdatas := f\<rparr>) =
     (flip_event_handler lookup c scr msc ust s)\<lparr>flipdatas := f\<rparr>"
  "flip_abort_handler c scr (s\<lparr>flipdatas := f\<rparr>) = (flip_abort_handler c scr s)\<lparr>flipdatas := f\<rparr>"
  by (simp_all add: flip_event_handler_def flip_abort_handler_def ms_present_flip_handler_def
      ms_present_vblank_handler_def free_present_def ms_present_flip_abort_def ms_dri2_flip_abort_def
      ms_dri2_flip_handler_def upd_ms_def emit_def fault_def misc_fault_def Let_def
      split: flip_client.split option.split)

lemma flip_handlers_keep_kst:
  "kst (flip_event_handler lookup c scr msc ust s) = kst s"
  "kst (flip_abort_handler c scr s) = kst s"
  by (simp_all add: flip_event_handler_def flip_abort_handler_def ms_present_flip_handler_def
      ms_present_vblank_handler_def free_present_def ms_present_flip_abort_def ms_dri2_flip_abort_def
      ms_dri2_flip_handler_def upd_ms_def emit_def fault_def misc_fault_def Let_def
      split: flip_client.split option.split)

lemma flip_handlers_keep_flips:
  "flipdatas (flip_event_handler lookup c scr msc ust s) = flipdatas s"
  "flipdatas (flip_abort_handler c scr s) = flipdatas s"
  by (simp_all add: flip_event_handler_def flip_abort_handler_def ms_present_flip_handler_def
      ms_present_vblank_handler_def free_present_def ms_present_flip_abort_def ms_dri2_flip_abort_def
      ms_dri2_flip_handler_def upd_ms_def emit_def fault_def misc_fault_def Let_def
      split: flip_client.split option.split)

text \<open>One end while others are still to come only counts down.\<close>

lemma end_flip_more:
  assumes "flipdatas s a = Some fd" and "1 < flip_count fd"
  shows "\<exists>fd'. end_flip K lookup a e s = s\<lparr>flipdatas := (flipdatas s)(a \<mapsto> fd')\<rparr> \<and>
           fl_client fd' = fl_client fd \<and> fl_screen fd' = fl_screen fd \<and>
           old_fb_id fd' = old_fb_id fd \<and> flip_count fd' = flip_count fd - 1 \<and>
           (fl_fe_msc fd', fl_fe_usec fd') = reference_time [e] (fl_fe_msc fd, fl_fe_usec fd)"
proof (cases e)
  case (Reported on_ref msc ust)
  with assms show ?thesis
    by (intro exI [of _ "(if on_ref then fd\<lparr>fl_fe_msc := msc, fl_fe_usec := ust\<rparr> else fd)
          \<lparr>flip_count := flip_count fd - 1\<rparr>"])
       (simp add: ms_pageflip_handler_def ms_pageflip_free_def Let_def)
next
  case Aborted
  with assms show ?thesis
    by (intro exI [of _ "fd\<lparr>flip_count := flip_count fd - 1\<rparr>"])
       (simp add: ms_pageflip_abort_def ms_pageflip_free_def)
qed

lemma end_flip_last:
  assumes "flipdatas s a = Some fd" and "flip_count fd = 1"
    and "reference_time [e] (fl_fe_msc fd, fl_fe_usec fd) = (msc, ust)"
  shows "end_flip K lookup a e s =
    (case e of
       Aborted \<Rightarrow> (flip_abort_handler (fl_client fd) (fl_screen fd) s)\<lparr>flipdatas := (flipdatas s)(a := None)\<rparr>
     | Reported on_ref m u \<Rightarrow>
         (flip_event_handler lookup (fl_client fd) (fl_screen fd) msc ust s)
           \<lparr>flipdatas := (flipdatas s)(a := None), kst := drmModeRmFB K (old_fb_id fd) (kst s)\<rparr>)"
  using assms
  by (cases e)
     (auto simp: ms_pageflip_handler_def ms_pageflip_abort_def ms_pageflip_free_def Let_def
        flip_handlers_commute flip_handlers_keep_kst flip_handlers_keep_flips)

lemma reference_time_append:
  "reference_time (es @ fs) t = reference_time fs (reference_time es t)"
  by (induction es t rule: reference_time.induct) simp_all

text \<open>
  C3. A page flip ends once. Whatever the order in which the CRTCs of a flip report or are
  aborted, the client hears of the flip once, with the last of them: when that one is a
  report, the client's handler is called with the count and time of the reference CRTC and
  the old framebuffer is removed; when it is an abort, the client's abort function is called.
  Nothing else of the driver's state changes, and the flip's data is freed.
\<close>

theorem flip_ends_once:
  assumes "flipdatas s a = Some fd" and "flip_count fd = int (length es) + 1"
    and "reference_time (es @ [e]) (fl_fe_msc fd, fl_fe_usec fd) = (msc, ust)"
  shows "fold (end_flip K lookup a) (es @ [e]) s =
    (case e of
       Aborted \<Rightarrow> (flip_abort_handler (fl_client fd) (fl_screen fd) s)\<lparr>flipdatas := (flipdatas s)(a := None)\<rparr>
     | Reported on_ref m u \<Rightarrow>
         (flip_event_handler lookup (fl_client fd) (fl_screen fd) msc ust s)
           \<lparr>flipdatas := (flipdatas s)(a := None), kst := drmModeRmFB K (old_fb_id fd) (kst s)\<rparr>)"
  using assms
proof (induction es arbitrary: s fd)
  case Nil
  then show ?case using end_flip_last [of s a fd e msc ust K lookup] by simp
next
  case (Cons f es)
  from Cons.prems(1,2) obtain fd' where
    step: "end_flip K lookup a f s = s\<lparr>flipdatas := (flipdatas s)(a \<mapsto> fd')\<rparr>"
    and fd': "fl_client fd' = fl_client fd" "fl_screen fd' = fl_screen fd" "old_fb_id fd' = old_fb_id fd"
      "flip_count fd' = flip_count fd - 1"
      "(fl_fe_msc fd', fl_fe_usec fd') = reference_time [f] (fl_fe_msc fd, fl_fe_usec fd)"
    using end_flip_more [of s a fd K lookup f] by auto
  let ?s = "s\<lparr>flipdatas := (flipdatas s)(a \<mapsto> fd')\<rparr>"
  have time: "reference_time (es @ [e]) (fl_fe_msc fd', fl_fe_usec fd') = (msc, ust)"
    using Cons.prems(3) reference_time_append [of "[f]" "es @ [e]"] by (simp add: fd'(5))
  have "fold (end_flip K lookup a) (es @ [e]) ?s =
    (case e of
       Aborted \<Rightarrow> (flip_abort_handler (fl_client fd) (fl_screen fd) ?s)\<lparr>flipdatas := (flipdatas ?s)(a := None)\<rparr>
     | Reported on_ref m u \<Rightarrow>
         (flip_event_handler lookup (fl_client fd) (fl_screen fd) msc ust ?s)
           \<lparr>flipdatas := (flipdatas ?s)(a := None), kst := drmModeRmFB K (old_fb_id fd) (kst ?s)\<rparr>)"
    unfolding fd'(1-3) [symmetric] by (rule Cons.IH) (use Cons.prems(2) fd'(4) time in simp_all)
  then show ?case
    by (cases e) (simp_all add: step flip_handlers_commute flip_handlers_keep_flips)
qed

text \<open>A driver with nothing pending and no records, and a flip on two CRTCs for a Present event.\<close>

definition idle_drv :: "'k \<Rightarrow> 'k drv" where
  "idle_drv k = drm.extend (idle_drm k) \<lparr>presents = (\<lambda>_. None), dri2_flips = (\<lambda>_. None),
     frame_events = (\<lambda>_. None), dri2_bufs = (\<lambda>_. None), flipdatas = (\<lambda>_. None), next_addr = 0,
     server_log = [], faults = 0, misc_faults = 0, exa_privs = (\<lambda>_. None), pix_ptr = (\<lambda>_. None),
     buf_mem = (\<lambda>_. None), exa_prepare_args = zero_args\<rparr>"

definition flip_pending :: "unit drv" where
  "flip_pending = (idle_drv ())\<lparr>
     presents := (\<lambda>_. None)(3 \<mapsto> \<lparr>pe_event_id = 77, pe_unflip = False\<rparr>),
     flipdatas := (\<lambda>_. None)(4 \<mapsto> \<lparr>fl_screen = 0, fl_client = FLIP_PRESENT 3, flip_count = 2,
       fl_fe_msc = 0, fl_fe_usec = 0, old_fb_id = 41\<rparr>)\<rparr>"

lemma flip_ends_once_witness:
  "server_log (fold (end_flip dead_kernel (\<lambda>_. None) 4) ([Reported True 1000 60] @ [Reported False 990 50])
     flip_pending) = [Present_notify 77 60 1000]"
  by (subst flip_ends_once [where fd = "\<lparr>fl_screen = 0, fl_client = FLIP_PRESENT 3, flip_count = 2,
        fl_fe_msc = 0, fl_fe_usec = 0, old_fb_id = 41\<rparr>" and msc = 1000 and ust = 60])
     (simp_all add: flip_pending_def idle_drv_def drm.extend_def flip_event_handler_def
        ms_present_flip_handler_def ms_present_vblank_handler_def free_present_def emit_def)

end
