(* ===== verification/Page_Flip.thy ===== *)
theory Page_Flip
  imports Flip_Events
begin

text \<open>
  Queueing page flips (\<^verbatim>\<open>src/src/pageflip.c\<close>): flushing the kernel's event queue, one
  flip per CRTC with its retry loop, and the flip of a whole screen with its undo path.
  Flushing runs the handlers of whatever is pending, which may queue flips of their own; so
  the flush is an argument of the loops, and what they need of it is a locale.
\<close>

section \<open>Flushing events\<close>

type_synonym 'k flush = "nat \<Rightarrow> 'k drv \<Rightarrow> (int \<times> 'k drv) option"

text \<open>
  The loop around \<^verbatim>\<open>poll\<close>. It has no bound in the code: it is \<open>None\<close> when the
  call is interrupted for ever.
\<close>

partial_function (option) poll_loop :: "'k kernel \<Rightarrow> 'k drv \<Rightarrow> (int \<times> 'k drv) option" where
  "poll_loop K s =
     (case poll_fd K (kst s) of ((r, err), k) \<Rightarrow>
        let s = (if r = -1 then s\<lparr>kst := k, errno := err\<rparr> else s\<lparr>kst := k\<rparr>) in
        if r = -1 \<and> (err = EINTR \<or> err = EAGAIN) then poll_loop K s else Some (r, s))"

text \<open>\<open>h\<close> calls the handler of a queue entry.\<close>

definition ms_flush_drm_events ::
  "'k kernel \<Rightarrow> (callback \<Rightarrow> u64 \<Rightarrow> u64 \<Rightarrow> 'k drv \<Rightarrow> 'k drv option) \<Rightarrow> 'k flush" where
  "ms_flush_drm_events K h scr s =
     (case poll_loop K s of
        None \<Rightarrow> None
      | Some (r, s) \<Rightarrow>
          if r \<le> 0 then Some (r, s)
          else case drmHandleEvent K h s of
            None \<Rightarrow> None
          | Some (r, s) \<Rightarrow> Some (if r < 0 then r else 1, s))"

section \<open>Queueing flips\<close>

definition do_queue_flip_on_crtc ::
  "'k kernel \<Rightarrow> nat \<Rightarrow> nat \<Rightarrow> u32 \<Rightarrow> u32 \<Rightarrow> 'k drv \<Rightarrow> int \<times> 'k drv" where
  "do_queue_flip_on_crtc K scr p flags sq s = drmmode_crtc_flip K p (fb_id (mss s scr)) flags sq s"

text \<open>The loop of \<^verbatim>\<open>queue_flip_on_crtc\<close>; \<open>None\<close> when \<open>n\<close> turns were not enough.\<close>

fun flip_retry ::
  "'k kernel \<Rightarrow> 'k flush \<Rightarrow> nat \<Rightarrow> nat \<Rightarrow> nat \<Rightarrow> u32 \<Rightarrow> u32 \<Rightarrow> 'k drv \<Rightarrow> (bool \<times> 'k drv) option" where
  "flip_retry K flush 0 scr p flags sq s = None"
| "flip_retry K flush (Suc n) scr p flags sq s =
     (case do_queue_flip_on_crtc K scr p flags sq s of (err, s) \<Rightarrow>
        if err = 0 then Some (True, s)
        else case flush scr s of
          None \<Rightarrow> None
        | Some (r, s) \<Rightarrow>
            if r \<le> 0 then Some (False, ms_drm_abort_seq drv_abort sq s)
            else flip_retry K flush n scr p flags sq s)"

definition queue_flip_on_crtc ::
  "'k kernel \<Rightarrow> 'k flush \<Rightarrow> nat \<Rightarrow> nat \<Rightarrow> nat \<Rightarrow> nat \<Rightarrow> u32 \<Rightarrow> u32 \<Rightarrow> 'k drv \<Rightarrow> (bool \<times> 'k drv) option" where
  "queue_flip_on_crtc K flush n scr p flipdata ref_crtc_vblank_pipe flags s =
     (case calloc s of (ok, s) \<Rightarrow>
        if \<not> ok then Some (False, s)
        else
          let flip = CB_flip (vblank_pipe (crtcs s p) = ref_crtc_vblank_pipe) flipdata in
          case ms_drm_queue_alloc p flip s of (sq, s) \<Rightarrow>
            if sq = 0 then Some (False, s)
            else flip_retry K flush n scr p flags sq (flipdata_ref flipdata s))"

text \<open>The loop over the CRTCs of \<^verbatim>\<open>ms_do_pageflip\<close>: whether none failed.\<close>

fun queue_flips ::
  "'k kernel \<Rightarrow> 'k flush \<Rightarrow> nat \<Rightarrow> nat \<Rightarrow> nat list \<Rightarrow> nat \<Rightarrow> u32 \<Rightarrow> u32 \<Rightarrow> 'k drv \<Rightarrow>
     (bool \<times> 'k drv) option" where
  "queue_flips K flush n scr [] flipdata ref flags s = Some (True, s)"
| "queue_flips K flush n scr (p # ps) flipdata ref flags s =
     (if \<not> ms_crtc_on (crtcs s p) then queue_flips K flush n scr ps flipdata ref flags s
      else case queue_flip_on_crtc K flush n scr p flipdata ref flags s of
        None \<Rightarrow> None
      | Some (False, s) \<Rightarrow> Some (False, s)
      | Some (True, s) \<Rightarrow> queue_flips K flush n scr ps flipdata ref flags s)"

text \<open>
  The labels \<^verbatim>\<open>error_undo\<close> and \<^verbatim>\<open>error_out\<close>. The last statement frees the record or
  drops the local reference, which is what \<open>ms_pageflip_free\<close> does.
\<close>

definition pageflip_error_out ::
  "'k kernel \<Rightarrow> drmmode_bo \<Rightarrow> nat \<Rightarrow> 'k drv \<Rightarrow> bool \<times> 'k drv" where
  "pageflip_error_out K bo a s =
     (let s = snd (drmmode_bo_destroy K bo s) in
      case flipdatas s a of
        None \<Rightarrow> (False, fault s)
      | Some fd \<Rightarrow>
          if flip_count fd = 1 then (False, s\<lparr>flipdatas := (flipdatas s)(a := None)\<rparr>)
          else (False, s\<lparr>flipdatas := (flipdatas s)(a \<mapsto> fd\<lparr>flip_count := flip_count fd - 1\<rparr>)\<rparr>))"

definition pageflip_error_undo ::
  "'k kernel \<Rightarrow> nat \<Rightarrow> drmmode_bo \<Rightarrow> nat \<Rightarrow> 'k drv \<Rightarrow> bool \<times> 'k drv" where
  "pageflip_error_undo K scr bo a s =
     (case flipdatas s a of
        None \<Rightarrow> (False, fault s)
      | Some fd \<Rightarrow>
          pageflip_error_out K bo a
            (if flip_count fd = 1 then
               upd_ms scr (\<lambda>m. m\<lparr>fb_id := old_fb_id fd\<rparr>) (s\<lparr>kst := drmModeRmFB K (fb_id (mss s scr)) (kst s)\<rparr>)
             else s))"

text \<open>What follows the loop: \<open>b\<close> tells whether every CRTC took its flip.\<close>

definition pageflip_finish ::
  "'k kernel \<Rightarrow> nat \<Rightarrow> drmmode_bo \<Rightarrow> nat \<Rightarrow> bool \<Rightarrow> 'k drv \<Rightarrow> bool \<times> 'k drv" where
  "pageflip_finish K scr bo a b s =
     (if \<not> b then pageflip_error_undo K scr bo a s
      else case drmmode_bo_destroy K bo s of (bo, s) \<Rightarrow>
        (case flipdatas s a of
           None \<Rightarrow> (False, fault s)
         | Some fd \<Rightarrow>
             if flip_count fd > 1 then
               (True, s\<lparr>flipdatas := (flipdatas s)(a \<mapsto> fd\<lparr>flip_count := flip_count fd - 1\<rparr>)\<rparr>)
             else pageflip_error_undo K scr bo a s))"

text \<open>From \<^verbatim>\<open>drmmode_bo_import\<close> on, with the record at \<open>a\<close>.\<close>

definition pageflip_import ::
  "'k kernel \<Rightarrow> 'k flush \<Rightarrow> nat \<Rightarrow> nat \<Rightarrow> nat \<Rightarrow> u32 \<Rightarrow> bool \<Rightarrow> drmmode_bo \<Rightarrow> nat \<Rightarrow> 'k drv \<Rightarrow>
     (bool \<times> 'k drv) option" where
  "pageflip_import K flush n scr new_front ref_crtc_vblank_pipe async bo a s =
     (case drmmode_bo_import K scr bo s of ((err, fbid), s) \<Rightarrow>
        if err \<noteq> 0 then
          Some (pageflip_error_out K bo a (upd_ms scr (\<lambda>m. m\<lparr>flip_bo_import_failed := True\<rparr>) s))
        else
          let s = upd_ms scr (\<lambda>m. m\<lparr>fb_id := fbid\<rparr>) s;
              s = (if flip_bo_import_failed (mss s scr) \<and> new_front \<noteq> screen_pixmap K scr
                   then upd_ms scr (\<lambda>m. m\<lparr>flip_bo_import_failed := False\<rparr>) s else s);
              flags = DRM_MODE_PAGE_FLIP_EVENT OR (if async then DRM_MODE_PAGE_FLIP_ASYNC else 0)
          in map_option (\<lambda>(b, s). pageflip_finish K scr bo a b s)
               (queue_flips K flush n scr (config (mss s scr)) a ref_crtc_vblank_pipe flags s))"

definition ms_do_pageflip ::
  "'k kernel \<Rightarrow> 'k flush \<Rightarrow> nat \<Rightarrow> nat \<Rightarrow> nat \<Rightarrow> flip_client \<Rightarrow> u32 \<Rightarrow> bool \<Rightarrow> 'k drv \<Rightarrow>
     (bool \<times> 'k drv) option" where
  "ms_do_pageflip K flush n scr new_front client ref_crtc_vblank_pipe async s =
     (let s = s\<lparr>kst := glamor_block_handler K scr (kst s)\<rparr> in
      case gbm_bo_from_pixmap K new_front (kst s) of (gbm, k) \<Rightarrow>
        let s = s\<lparr>kst := k\<rparr>;
            bo = no_bo\<lparr>bo_gbm := gbm\<rparr>
        in if gbm = None then Some (False, s)
           else case calloc s of (ok, s) \<Rightarrow>
             if \<not> ok then Some (False, snd (drmmode_bo_destroy K bo s))
             else
               let a = next_addr s;
                   fd = \<lparr>fl_screen = scr, fl_client = client, flip_count = 1, fl_fe_msc = 0,
                         fl_fe_usec = 0, old_fb_id = fb_id (mss s scr)\<rparr>;
                   s = s\<lparr>flipdatas := (flipdatas s)(a \<mapsto> fd), next_addr := a + 1\<rparr>;
                   bo = bo\<lparr>bo_width := pixmap_width K new_front (kst s),
                         bo_height := pixmap_height K new_front (kst s)\<rparr>
               in pageflip_import K flush n scr new_front ref_crtc_vblank_pipe async bo a s)"

section \<open>Who owns what\<close>

text \<open>
  A flip record has one reference per queue entry that carries it and one per function that
  works on it (\<open>L\<close>). A Present event has one owner: a queue entry, a flip record, or a
  function that works on it (\<open>P\<close>).
\<close>

fun flips_of :: "callback \<Rightarrow> nat multiset" where
  "flips_of (CB_flip r a) = {#a#}"
| "flips_of _ = {#}"

fun presents_of :: "callback \<Rightarrow> nat multiset" where
  "presents_of (CB_present e) = {#e#}"
| "presents_of _ = {#}"

definition pending_flips :: "'k drv \<Rightarrow> nat multiset" where
  "pending_flips s = sum_list (map (\<lambda>q. flips_of (q_data q)) (ms_drm_queue s))"

definition pending_presents :: "'k drv \<Rightarrow> nat multiset" where
  "pending_presents s = sum_list (map (\<lambda>q. presents_of (q_data q)) (ms_drm_queue s))"

definition flip_records_ok :: "nat multiset \<Rightarrow> 'k drv \<Rightarrow> bool" where
  "flip_records_ok L s \<longleftrightarrow>
     flipdata.owned (L + pending_flips s) s \<and> (\<forall>a. flipdatas s a \<noteq> None \<longrightarrow> a < next_addr s)"

definition flip_clients :: "'k drv \<Rightarrow> nat \<Rightarrow> flip_client option" where
  "flip_clients s a = map_option fl_client (flipdatas s a)"

definition presents_ok :: "nat multiset \<Rightarrow> 'k drv \<Rightarrow> bool" where
  "presents_ok P s \<longleftrightarrow>
     (\<forall>e. count (P + pending_presents s) e \<le> 1) \<and>
     (\<forall>e \<in># P + pending_presents s. presents s e \<noteq> None) \<and>
     (\<forall>a e. flip_clients s a = Some (FLIP_PRESENT e) \<longrightarrow>
        presents s e \<noteq> None \<and> e \<notin># P + pending_presents s) \<and>
     (\<forall>a b e. flip_clients s a = Some (FLIP_PRESENT e) \<longrightarrow>
        flip_clients s b = Some (FLIP_PRESENT e) \<longrightarrow> a = b) \<and>
     (\<forall>e. presents s e \<noteq> None \<longrightarrow> e < next_addr s)"

definition owners_ok :: "nat multiset \<Rightarrow> nat multiset \<Rightarrow> 'k drv \<Rightarrow> bool" where
  "owners_ok L P s \<longleftrightarrow> flip_records_ok L s \<and> presents_ok P s \<and> faults s = 0"

text \<open>Operations that touch neither the records nor the queue keep the owners.\<close>

definition same_owned :: "'k drv \<Rightarrow> 'k drv \<Rightarrow> bool" where
  "same_owned s t \<longleftrightarrow>
     flipdatas t = flipdatas s \<and> presents t = presents s \<and> next_addr t = next_addr s \<and>
     faults t = faults s \<and> ms_drm_queue t = ms_drm_queue s"

named_theorems owned_frames \<open>operations that touch neither the records nor the queue\<close>

lemma same_owned_refl [simp, intro]: "same_owned s s"
  by (simp add: same_owned_def)

lemma same_owned_trans [trans]: "same_owned s t \<Longrightarrow> same_owned t u \<Longrightarrow> same_owned s u"
  by (simp add: same_owned_def)

lemma presents_ok_cong:
  "presents t = presents s \<Longrightarrow> flip_clients t = flip_clients s \<Longrightarrow> next_addr t = next_addr s \<Longrightarrow>
     Q + pending_presents t = P + pending_presents s \<Longrightarrow> presents_ok Q t = presents_ok P s"
  by (simp add: presents_ok_def)

lemma flip_clients_cong: "flipdatas t = flipdatas s \<Longrightarrow> flip_clients t = flip_clients s"
  by (simp add: flip_clients_def fun_eq_iff)

lemma flip_clients_update:
  "flipdatas s a = Some fd \<Longrightarrow> fl_client fd' = fl_client fd \<Longrightarrow>
     flip_clients (s\<lparr>flipdatas := (flipdatas s)(a \<mapsto> fd')\<rparr>) = flip_clients s"
  by (simp add: flip_clients_def fun_eq_iff)

lemma owned_cong: "flipdatas t = flipdatas s \<Longrightarrow> flipdata.owned M t = flipdata.owned M s"
  by (simp add: flipdata.owned_def flip_refs_def)

lemma owners_ok_cong:
  assumes "flipdatas t = flipdatas s" and "presents t = presents s" and "next_addr t = next_addr s"
    and "faults t = faults s" and "L' + pending_flips t = L + pending_flips s"
    and "P' + pending_presents t = P + pending_presents s"
  shows "owners_ok L' P' t = owners_ok L P s"
  using assms owned_cong [of t s] presents_ok_cong [of t s P' P] flip_clients_cong [of t s]
  by (simp add: owners_ok_def flip_records_ok_def)

lemma owners_ok_same: "same_owned s t \<Longrightarrow> owners_ok L P t \<longleftrightarrow> owners_ok L P s"
  by (rule owners_ok_cong) (simp_all add: same_owned_def pending_flips_def pending_presents_def)

lemma same_owned_more:
  fixes s t :: "'k drv"
  assumes "drm.more t = drm.more s" and "ms_drm_queue t = ms_drm_queue s"
  shows "same_owned s t"
  using assms by (cases s; cases t) (simp add: same_owned_def)

lemma same_owned_routing: "same_routing s t \<Longrightarrow> same_owned s t"
  by (rule same_owned_more) (simp_all add: same_routing_def)

lemma same_owned_updates [owned_frames]:
  fixes s :: "'k drv"
  shows "same_owned s (s\<lparr>kst := k\<rparr>)" and "same_owned s (s\<lparr>errno := e\<rparr>)"
    and "same_owned s (s\<lparr>kst := k, errno := e\<rparr>)" and "same_owned s (snd (calloc s))"
    and "same_owned s (upd_crtc p f s)" and "same_owned s (upd_ms scr g s)"
    and "same_owned s (upd_ppriv px h s)" and "same_owned s (emit c s)" and "same_owned s (misc_fault s)"
  by (simp_all add: same_owned_def emit_def misc_fault_def upd_crtc_def upd_ms_def upd_ppriv_def
      calloc_def split: list.split)

lemma same_owned_crtc_flip [owned_frames]:
  fixes s :: "'k drv"
  shows "same_owned s (snd (drmmode_crtc_flip K p fb flags data s))"
  by (rule same_owned_routing) (rule routing_frames)

lemma same_owned_bo [owned_frames]:
  fixes s :: "'k drv"
  shows "same_owned s (snd (drmmode_bo_destroy K bo s))"
    and "same_owned s (snd (drmmode_bo_import K scr bo s))"
  by (auto simp: drmmode_bo_destroy_def dumb_bo_destroy_def drmmode_bo_import_def same_owned_def Let_def
      case_prod_beta split: option.split)

section \<open>The owners through the queue\<close>

lemma queue_alloc_more:
  "ms_drm_queue_alloc p d s = (sq, s') \<Longrightarrow> drm.more s' = drm.more s \<and>
     ms_drm_queue s' =
       (if sq = 0 then ms_drm_queue s
        else \<lparr>q_crtc = p, q_seq = sq, q_data = d, q_scrn = crtc_scrn (crtcs s p)\<rparr> # ms_drm_queue s)"
proof -
  assume a: "ms_drm_queue_alloc p d s = (sq, s')"
  have "drm.more s' = drm.more s"
    using a by (auto simp: ms_drm_queue_alloc_def case_prod_beta Let_def frame_simps split: if_splits)
  with a show ?thesis by (cases rule: queue_alloc_cases [of p d s]) auto
qed

lemma drv_more_fields:
  fixes s t :: "'k drv"
  assumes "drm.more t = drm.more s"
  shows "flipdatas t = flipdatas s" "presents t = presents s" "next_addr t = next_addr s"
    "faults t = faults s"
  using assms by (cases s; cases t; simp)+

lemma alloc_failed_owners:
  fixes s :: "'k drv"
  shows "ms_drm_queue_alloc p d s = (0, s') \<Longrightarrow> same_owned s s'"
  by (rule same_owned_more) (auto dest: queue_alloc_more)

lemma flip_ref_owners:
  fixes s :: "'k drv"
  assumes "owners_ok L P s" and "a \<in># L" and "ms_drm_queue_alloc p (CB_flip r a) s = (sq, s')"
    and "sq \<noteq> 0"
  shows "owners_ok L P (flipdata_ref a s')"
proof -
  note q = queue_alloc_more [OF assms(3)] and f = drv_more_fields [of s' s]
  from assms(1) have own: "flipdata.owned (L + pending_flips s) s'"
    using q f(1) by (simp add: owners_ok_def flip_records_ok_def owned_cong [of s' s])
  then have "flipdata.owned (add_mset a (L + pending_flips s)) (flipdata_ref a s')"
    by (rule flipdata.acquire_owned) (use assms(2) in simp)
  moreover have pend: "pending_flips (flipdata_ref a s') = add_mset a (pending_flips s)"
    "pending_presents (flipdata_ref a s') = pending_presents s"
    using q assms(4) by (simp_all add: pending_flips_def pending_presents_def frame_simps)
  moreover obtain fd where "flipdatas s a = Some fd"
    using own assms(2) flipdata.owned_count [OF own, of a] q f(1) by (auto simp: flip_refs_def)
  then have "flipdata_ref a s' = s'\<lparr>flipdatas := (flipdatas s)(a \<mapsto> fd\<lparr>flip_count := flip_count fd + 1\<rparr>)\<rparr>"
    and a: "flipdatas s a = Some fd"
    using q f(1) by (simp_all add: flipdata_ref_def)
  moreover have "flip_clients (flipdata_ref a s') = flip_clients s"
    using calculation(4) a f(1) by (simp add: flip_clients_def fun_eq_iff)
  ultimately show ?thesis
    using assms(1) q f presents_ok_cong [of "flipdata_ref a s'" s P P]
    by (auto simp: owners_ok_def flip_records_ok_def)
qed

lemma present_queued_owners:
  fixes s :: "'k drv"
  assumes "owners_ok L (add_mset e P) s" and "ms_drm_queue_alloc p (CB_present e) s = (sq, s')" and "sq \<noteq> 0"
  shows "owners_ok L P s'"
proof -
  note q = queue_alloc_more [OF assms(2)] and f = drv_more_fields [of s' s]
  have "pending_flips s' = pending_flips s" "pending_presents s' = add_mset e (pending_presents s)"
    using q assms(3) by (simp_all add: pending_flips_def pending_presents_def)
  then have "owners_ok L P s' = owners_ok L (add_mset e P) s"
    by (intro owners_ok_cong f [OF conjunct1 [OF q]]) simp_all
  with assms(1) show ?thesis by simp
qed

text \<open>A queue entry carrying neither a flip nor a Present event.\<close>

lemma other_queued_owners:
  fixes s :: "'k drv"
  assumes "owners_ok L P s" and "ms_drm_queue_alloc p d s = (sq, s')"
    and "flips_of d = {#}" and "presents_of d = {#}"
  shows "owners_ok L P s'"
proof -
  note q = queue_alloc_more [OF assms(2)] and f = drv_more_fields [of s' s]
  have "pending_flips s' = pending_flips s" "pending_presents s' = pending_presents s"
    using q assms(3,4) by (simp_all add: pending_flips_def pending_presents_def)
  then have "owners_ok L P s' = owners_ok L P s"
    by (intro owners_ok_cong f [OF conjunct1 [OF q]]) simp_all
  with assms(1) show ?thesis by simp
qed

lemma unqueue_owners:
  assumes "owners_ok L P s" and "q \<in> set (ms_drm_queue s)"
    and "same_owned (s\<lparr>ms_drm_queue := remove1 q (ms_drm_queue s)\<rparr>) t"
  shows "owners_ok (L + flips_of (q_data q)) (P + presents_of (q_data q)) t"
proof -
  have t: "flipdatas t = flipdatas s" "presents t = presents s" "next_addr t = next_addr s"
    "faults t = faults s" "ms_drm_queue t = remove1 q (ms_drm_queue s)"
    using assms(3) by (simp_all add: same_owned_def)
  have "pending_flips s = flips_of (q_data q) + pending_flips t"
    "pending_presents s = presents_of (q_data q) + pending_presents t"
    using assms(2) by (simp_all add: pending_flips_def pending_presents_def t sum_list_map_remove1)
  with t have "owners_ok (L + flips_of (q_data q)) (P + presents_of (q_data q)) t = owners_ok L P s"
    by (intro owners_ok_cong) simp_all
  with assms(1) show ?thesis by simp
qed

section \<open>The owners through a completion\<close>

lemma free_present_owners:
  assumes "owners_ok L (add_mset e P) s"
  shows "owners_ok L P (free_present e s)"
proof -
  let ?t = "s\<lparr>presents := (presents s)(e := None)\<rparr>"
  have ok: "presents_ok (add_mset e P) s" using assms by (simp add: owners_ok_def)
  then have once: "count (add_mset e (P + pending_presents s)) x \<le> 1" for x
    unfolding presents_ok_def by (metis union_mset_add_mset_left)
  from ok have e: "presents s e \<noteq> None" and no_client: "\<And>a. flip_clients s a \<noteq> Some (FLIP_PRESENT e)"
    by (auto simp: presents_ok_def)
  have not: "e \<notin># P + pending_presents s" using once [of e] by (simp add: not_in_iff)
  have pend: "pending_flips ?t = pending_flips s" "pending_presents ?t = pending_presents s"
    "flip_clients ?t = flip_clients s"
    by (simp_all add: pending_flips_def pending_presents_def flip_clients_def fun_eq_iff)
  have "count (P + pending_presents s) x \<le> 1" for x
    using once [of x] by (simp split: if_splits)
  then have "presents_ok P ?t"
    using ok not no_client by (auto simp: presents_ok_def pend)
  with assms e show ?thesis
    by (auto simp: owners_ok_def flip_records_ok_def free_present_def pend owned_cong [of ?t s])
qed

lemma emit_present_owners: "owners_ok L P (emit c s) \<longleftrightarrow> owners_ok L P s"
  by (rule owners_ok_same) (rule owned_frames)

lemma upd_ms_owners: "owners_ok L P (upd_ms scr g s) \<longleftrightarrow> owners_ok L P s"
  by (rule owners_ok_same) (rule owned_frames)

lemma kst_owners: "owners_ok L P (s\<lparr>kst := k\<rparr>) \<longleftrightarrow> owners_ok L P s"
  by (rule owners_ok_same) (rule owned_frames)

lemma present_handler_owners:
  assumes "owners_ok L (add_mset e P) s"
  shows "owners_ok L P (ms_present_vblank_handler msc usec e s)"
    and "owners_ok L P (ms_present_vblank_abort e s)"
    and "owners_ok L P (ms_present_flip_handler scr msc usec e s)"
    and "owners_ok L P (ms_present_flip_abort scr e s)"
proof -
  from assms obtain ev where ev: "presents s e = Some ev"
    by (auto simp: owners_ok_def presents_ok_def)
  have ev': "presents (upd_ms scr g s) e = Some ev" for g
    using ev by (simp add: upd_ms_def)
  have 1: "owners_ok L (add_mset e P) (emit c s)" "owners_ok L (add_mset e P) (emit c (upd_ms scr g s))" for c g
    using assms by (simp_all add: emit_present_owners upd_ms_owners)
  show "owners_ok L P (ms_present_vblank_handler msc usec e s)"
    "owners_ok L P (ms_present_vblank_abort e s)"
    "owners_ok L P (ms_present_flip_handler scr msc usec e s)"
    "owners_ok L P (ms_present_flip_abort scr e s)"
    using 1 assms
    by (auto simp: ms_present_vblank_handler_def ms_present_vblank_abort_def ms_present_flip_handler_def
        ms_present_flip_abort_def ev ev' intro!: free_present_owners)
qed

lemma dri2_flip_owners:
  "owners_ok L P (ms_dri2_flip_handler lookup scr msc ust e s) \<longleftrightarrow> owners_ok L P s"
  "owners_ok L P (ms_dri2_flip_abort scr e s) \<longleftrightarrow> owners_ok L P s"
  by (rule owners_ok_same; simp add: ms_dri2_flip_handler_def ms_dri2_flip_abort_def same_owned_def
      misc_fault_def emit_def upd_ms_def Let_def split: option.split)+

text \<open>Taking a flip record away hands its Present event to whoever works on it.\<close>

definition client_presents :: "flip_client \<Rightarrow> nat multiset" where
  "client_presents c = (case c of FLIP_PRESENT e \<Rightarrow> {#e#} | FLIP_DRI2 e \<Rightarrow> {#})"

lemma drop_record_owners:
  assumes "owners_ok (add_mset a L) P s" and "flipdatas s a = Some fd" and "flip_count fd = 1"
  shows "owners_ok L (P + client_presents (fl_client fd)) (s\<lparr>flipdatas := (flipdatas s)(a := None)\<rparr>)"
    (is "owners_ok _ _ ?t")
proof -
  have "flipdata.owned (L + pending_flips s) (ms_pageflip_free a s)"
    by (rule flipdata.release_owned) (use assms(1) in \<open>simp add: owners_ok_def flip_records_ok_def\<close>)
  moreover have "ms_pageflip_free a s = ?t" using assms(2,3) by (simp add: ms_pageflip_free_def)
  moreover have pend: "pending_flips ?t = pending_flips s" "pending_presents ?t = pending_presents s"
    by (simp_all add: pending_flips_def pending_presents_def)
  ultimately have "flip_records_ok L ?t"
    using assms(1) by (auto simp: owners_ok_def flip_records_ok_def)
  moreover have clients: "flip_clients ?t b = (if b = a then None else flip_clients s b)" for b
    by (simp add: flip_clients_def)
  moreover have "presents_ok (P + client_presents (fl_client fd)) ?t"
  proof (cases "fl_client fd")
    case (FLIP_PRESENT e)
    with assms(2) have a: "flip_clients s a = Some (FLIP_PRESENT e)" by (simp add: flip_clients_def)
    have ok: "presents_ok P s" using assms(1) by (simp add: owners_ok_def)
    then have "presents s e \<noteq> None" and "e \<notin># P + pending_presents s"
      and "\<And>b. flip_clients s b = Some (FLIP_PRESENT e) \<Longrightarrow> b = a"
      using a unfolding presents_ok_def by blast+
    with ok show ?thesis
      by (auto simp: presents_ok_def pend clients client_presents_def FLIP_PRESENT not_in_iff)
  next
    case (FLIP_DRI2 e)
    with assms(1) show ?thesis
      by (auto simp: owners_ok_def presents_ok_def pend clients client_presents_def split: if_splits)
  qed
  ultimately show ?thesis using assms(1) by (simp add: owners_ok_def)
qed

lemma count_down_owners:
  assumes "owners_ok (add_mset a L) P s" and "flipdatas s a = Some fd" and "1 < flip_count fd"
    and "fl_client fd' = fl_client fd" and "flip_count fd' = flip_count fd - 1"
  shows "owners_ok L P (s\<lparr>flipdatas := (flipdatas s)(a \<mapsto> fd')\<rparr>)" (is "owners_ok _ _ ?t")
proof -
  have "flipdata.owned (L + pending_flips s) (ms_pageflip_free a s)"
    by (rule flipdata.release_owned) (use assms(1) in \<open>simp add: owners_ok_def flip_records_ok_def\<close>)
  moreover have "flip_refs (ms_pageflip_free a s) = flip_refs ?t"
    using assms(2,3,5) by (simp add: ms_pageflip_free_def flip_refs_def fun_eq_iff)
  ultimately have "flipdata.owned (L + pending_flips s) ?t" by (simp add: flipdata.owned_def)
  moreover have "pending_flips ?t = pending_flips s" "pending_presents ?t = pending_presents s"
    by (simp_all add: pending_flips_def pending_presents_def)
  ultimately show ?thesis
    using assms(1,2,4) flip_clients_update [of s a fd fd'] presents_ok_cong [of ?t s P P]
    by (auto simp: owners_ok_def flip_records_ok_def)
qed

lemma flip_handler_owners:
  assumes "owners_ok L (P + client_presents c) s"
  shows "owners_ok L P (flip_event_handler lookup c scr msc ust s)"
    and "owners_ok L P (flip_abort_handler c scr s)"
  using assms present_handler_owners(3,4)
  by (auto simp: flip_event_handler_def flip_abort_handler_def client_presents_def dri2_flip_owners
      split: flip_client.splits)

lemma end_flip_owners:
  assumes "owners_ok (add_mset a L) P s"
  shows "owners_ok L P (end_flip K lookup a e s)"
proof -
  have own: "flipdata.owned (add_mset a (L + pending_flips s)) s"
    using assms by (simp add: owners_ok_def flip_records_ok_def)
  obtain fd where fd: "flipdatas s a = Some fd" "0 < flip_count fd"
    using flipdata.owned_count [OF own, of a] by (auto simp: flip_refs_def)
  show ?thesis
  proof (cases "flip_count fd = 1")
    case True
    let ?t = "s\<lparr>flipdatas := (flipdatas s)(a := None)\<rparr>"
    have t: "owners_ok L (P + client_presents (fl_client fd)) ?t"
      by (rule drop_record_owners [OF assms fd(1) True])
    obtain msc ust where "reference_time [e] (fl_fe_msc fd, fl_fe_usec fd) = (msc, ust)"
      by (metis surj_pair)
    from end_flip_last [OF fd(1) True this, of K lookup] show ?thesis
      using flip_handler_owners(1) [OF t, of lookup "fl_screen fd"]
        flip_handler_owners(2) [OF t, of "fl_screen fd"]
      by (cases e)
         (simp_all add: kst_owners flip: flip_handlers_commute)
  next
    case False
    with fd have "1 < flip_count fd" by simp
    with end_flip_more [OF fd(1) this, of K lookup e] count_down_owners [OF assms fd(1) this]
    show ?thesis by auto
  qed
qed

section \<open>Aborts and events\<close>

lemma pageflip_handler_end_flip:
  "ms_pageflip_handler K lookup msc ust r a s = end_flip K lookup a (Reported r msc ust) s"
  "ms_pageflip_abort a s = end_flip K lookup a Aborted s"
  by simp_all

lemma dri2_event_owners:
  "owners_ok L P (ms_dri2_del_frame_event a s) \<longleftrightarrow> owners_ok L P s"
  by (rule owners_ok_same)
     (simp add: ms_dri2_del_frame_event_def ms_dri2_destroy_buffer_def ms_dri2_destroy_buffer2_def
       same_owned_def misc_fault_def emit_def Let_def split: option.split)

lemma drv_abort_owners:
  assumes "owners_ok (L + flips_of d) (P + presents_of d) s"
  shows "owners_ok L P (drv_abort d s)"
proof (cases d)
  case (CB_present e)
  with assms show ?thesis by (simp add: present_handler_owners(2))
next
  case (CB_flip r a)
  with assms have "owners_ok (add_mset a L) P s" by simp
  then show ?thesis using end_flip_owners [of a L P s _ _ Aborted] CB_flip by simp
next
  case (CB_dri2 a)
  with assms show ?thesis by (simp add: ms_dri2_frame_event_abort_def dri2_event_owners)
next
  case (CB_shared ft bt p fl)
  with assms show ?thesis
    by (simp add: drmmode_SharedPixmapVBlankEventAbort_def owners_ok_same [OF same_owned_updates(7)])
qed

lemma abort_one_owners:
  assumes "owners_ok L P s" and "q \<in> set (ms_drm_queue s)"
  shows "owners_ok L P (ms_drm_abort_one drv_abort q s)"
  unfolding ms_drm_abort_one_def
  by (rule drv_abort_owners, rule unqueue_owners [OF assms]) simp

lemma abort_seq_owners: "owners_ok L P s \<Longrightarrow> owners_ok L P (ms_drm_abort_seq drv_abort sq s)"
  using abort_one_owners [of L P s] find_Some_mem [of "\<lambda>q. q_seq q = sq" "ms_drm_queue s"]
  by (cases "find (\<lambda>q. q_seq q = sq) (ms_drm_queue s)") (simp_all add: ms_drm_abort_seq_def)

lemma abort_owners: "owners_ok L P s \<Longrightarrow> owners_ok L P (ms_drm_abort drv_abort m s)"
  using abort_one_owners [of L P s] find_Some_mem [of "\<lambda>q. m (q_data q)" "ms_drm_queue s"]
  by (cases "find (\<lambda>q. m (q_data q)) (ms_drm_queue s)") (simp_all add: ms_drm_abort_def)

lemma abort_scrn_owners:
  fixes s :: "'k drv"
  assumes "owners_ok L P s" and "distinct (ms_drm_queue s)"
  shows "owners_ok L P (ms_drm_abort_scrn drv_abort scr s)"
proof -
  have "owners_ok L P (fold (\<lambda>q s. if q_scrn q = scr then ms_drm_abort_one drv_abort q s else s) qs s)"
    if "owners_ok L P s" and "set qs \<subseteq> set (ms_drm_queue s)" and "distinct qs"
      and "distinct (ms_drm_queue s)" for qs and s :: "'k drv"
    using that
  proof (induction qs arbitrary: s)
    case Nil
    then show ?case by simp
  next
    case (Cons q qs)
    let ?t = "ms_drm_abort_one drv_abort q s"
    have "owners_ok L P ?t" using Cons.prems by (intro abort_one_owners) auto
    moreover have "ms_drm_queue ?t = remove1 q (ms_drm_queue s)" by (simp add: abort_one_queue)
    ultimately show ?case
      using Cons.IH [of ?t] Cons.IH [of s] Cons.prems by (auto simp: subset_iff)
  qed
  from this [OF assms(1) subset_refl assms(2) assms(2)] show ?thesis by (simp add: ms_drm_abort_scrn_def)
qed

text \<open>What a handler of queue entries has to keep.\<close>

definition handler_keeps ::
  "(callback \<Rightarrow> u64 \<Rightarrow> u64 \<Rightarrow> 'k drv \<Rightarrow> 'k drv option) \<Rightarrow> bool" where
  "handler_keeps h \<longleftrightarrow> (\<forall>d msc usec s s' L P.
     owners_ok (L + flips_of d) (P + presents_of d) s \<longrightarrow> h d msc usec s = Some s' \<longrightarrow> owners_ok L P s')"

lemma handler_keepsD:
  "handler_keeps h \<Longrightarrow> owners_ok (L + flips_of d) (P + presents_of d) s \<Longrightarrow>
     h d msc usec s = Some s' \<Longrightarrow> owners_ok L P s'"
  by (auto simp: handler_keeps_def)

lemma sequence_handler_owners:
  assumes "handler_keeps h" and "owners_ok L P s"
    and "ms_drm_sequence_handler h frame ns is64 user s = Some s'"
  shows "owners_ok L P s'"
proof (cases "find (\<lambda>q. q_seq q = (ucast user :: u32)) (ms_drm_queue s)")
  case None
  with assms(2,3) show ?thesis by (simp add: ms_drm_sequence_handler_def Let_def)
next
  case (Some q)
  then have q: "q \<in> set (ms_drm_queue s)" by (simp add: find_Some_mem)
  obtain c msc where k: "ms_kernel_msc_to_crtc_msc (q_crtc q) frame is64 s = (msc, upd_crtc (q_crtc q) c s)"
    by (metis (no_types, lifting) case_prod_beta ms_kernel_msc_to_crtc_msc_def)
  let ?t = "(upd_crtc (q_crtc q) c s)\<lparr>ms_drm_queue := remove1 q (ms_drm_queue (upd_crtc (q_crtc q) c s))\<rparr>"
  have "same_owned (s\<lparr>ms_drm_queue := remove1 q (ms_drm_queue s)\<rparr>) ?t"
    by (simp add: same_owned_def upd_crtc_def)
  then have "owners_ok (L + flips_of (q_data q)) (P + presents_of (q_data q)) ?t"
    by (rule unqueue_owners [OF assms(2) q])
  moreover have "h (q_data q) msc (ns div 1000) ?t = Some s'"
    using assms(3) Some k by (simp add: ms_drm_sequence_handler_def Let_def)
  ultimately show ?thesis using handler_keepsD [OF assms(1)] by blast
qed

lemma dispatch_owners:
  "handler_keeps h \<Longrightarrow> owners_ok L P s \<Longrightarrow> dispatch_events h es s = Some s' \<Longrightarrow> owners_ok L P s'"
proof (induction es arbitrary: s)
  case Nil
  then show ?case by simp
next
  case (Cons e es)
  then obtain t where "dispatch_event h e s = Some t" and t: "dispatch_events h es t = Some s'"
    by (auto split: option.splits)
  then have "owners_ok L P t"
    using sequence_handler_owners [OF Cons.prems(1,2)]
    by (auto simp: dispatch_event_def ms_drm_handler_def ms_drm_sequence_handler_64bit_def
        split: drm_event.splits)
  with Cons t show ?case by blast
qed

lemma handle_event_owners:
  assumes "handler_keeps h" and "owners_ok L P s" and "drmHandleEvent K h s = Some (r, s')"
  shows "owners_ok L P s'"
proof (cases "drm_read_events K (kst s)")
  case (Pair es k)
  have "owners_ok L P (s\<lparr>kst := k\<rparr>)" using assms(2) by (simp add: kst_owners)
  then show ?thesis
    using assms(3) Pair dispatch_owners [OF assms(1), of L P "s\<lparr>kst := k\<rparr>"]
    by (cases es) (auto simp: drmHandleEvent_def)
qed

lemma poll_loop_same_owned:
  assumes "poll_loop K s = Some x"
  shows "same_owned s (snd x)"
proof (rule poll_loop.raw_induct [where P = "\<lambda>K s x. same_owned s (snd x)", OF _ assms])
  fix loop K s x
  assume IH: "\<And>K s x. loop K s = Some x \<Longrightarrow> same_owned s (snd x)"
    and turn: "(case poll_fd K (kst s) of ((r, err), k) \<Rightarrow>
        let s = (if r = -1 then s\<lparr>kst := k, errno := err\<rparr> else s\<lparr>kst := k\<rparr>) in
        if r = -1 \<and> (err = EINTR \<or> err = EAGAIN) then loop K s else Some (r, s)) = Some x"
  obtain p err k where p: "poll_fd K (kst s) = ((p, err), k)" by (metis surj_pair)
  have "same_owned s (s\<lparr>kst := k\<rparr>)" "same_owned s (s\<lparr>kst := k, errno := err\<rparr>)"
    by (rule owned_frames)+
  with turn show "same_owned s (snd x)"
    using same_owned_trans [OF _ IH] by (auto simp: p Let_def split: if_splits)
qed

lemma flush_owners:
  assumes "handler_keeps h" and "owners_ok L P s" and "ms_flush_drm_events K h scr s = Some (r, s')"
  shows "owners_ok L P s'"
proof -
  from assms(3) obtain p t where p: "poll_loop K s = Some (p, t)"
    by (auto simp: ms_flush_drm_events_def split: option.splits)
  with assms(2) have "owners_ok L P t"
    using owners_ok_same [OF poll_loop_same_owned [OF p]] by simp
  then show ?thesis
    using assms(3) p handle_event_owners [OF assms(1), of L P t K]
    by (auto simp: ms_flush_drm_events_def split: option.splits if_splits)
qed

section \<open>Queueing flips keeps the owners\<close>

text \<open>A Present event may lose its owner; it is then leaked, not freed twice.\<close>

lemma owners_ok_leak: "owners_ok L (P + Q) s \<Longrightarrow> owners_ok L P s"
proof -
  assume ok: "owners_ok L (P + Q) s"
  have "count (P + pending_presents s) x \<le> count (P + Q + pending_presents s) x" for x by simp
  then have "count (P + pending_presents s) x \<le> 1" for x
    using ok by (meson owners_ok_def presents_ok_def order_trans)
  with ok show ?thesis by (auto simp: owners_ok_def presents_ok_def)
qed

lemma new_record_owners:
  assumes "owners_ok L (P + client_presents c) s"
    and "fl_client fd = c" and "flip_count fd = 1"
    and "t = s\<lparr>flipdatas := (flipdatas s)(next_addr s \<mapsto> fd), next_addr := next_addr s + 1\<rparr>"
  shows "owners_ok (add_mset (next_addr s) L) P t"
proof -
  have own: "flipdata.owned (L + pending_flips s) s" and ok: "presents_ok (P + client_presents c) s"
    and bound: "\<forall>a. flipdatas s a \<noteq> None \<longrightarrow> a < next_addr s"
    using assms(1) by (simp_all add: owners_ok_def flip_records_ok_def)
  from bound have none: "flipdatas s (next_addr s) = None" by auto
  then have "next_addr s \<notin># L + pending_flips s"
    using flipdata.owned_count [OF own, of "next_addr s"] by (auto simp: flip_refs_def)
  with own have "flipdata.owned (add_mset (next_addr s) (L + pending_flips s)) t"
    by (rule flipdata.create_owned) (simp_all add: assms(3,4) flip_refs_def)
  moreover have pend: "pending_flips t = pending_flips s" "pending_presents t = pending_presents s"
    "presents t = presents s" "next_addr t = Suc (next_addr s)"
    by (simp_all add: assms(4) pending_flips_def pending_presents_def)
  moreover have clients: "flip_clients t b = (if b = next_addr s then Some c else flip_clients s b)" for b
    using assms(2,4) by (simp add: flip_clients_def)
  have "presents_ok P t"
  proof (cases c)
    case (FLIP_PRESENT e)
    have once: "count (add_mset e (P + pending_presents s)) x \<le> 1" for x
      using ok FLIP_PRESENT unfolding presents_ok_def client_presents_def
      by (metis add_mset_add_single flip_client.case(1) union_mset_add_mset_left)
    have "count (P + pending_presents s) x \<le> 1" for x
      using once [of x] by (simp split: if_splits)
    moreover have "e \<notin># P + pending_presents s" using once [of e] by (simp add: not_in_iff)
    ultimately show ?thesis
      using ok FLIP_PRESENT
      by (auto simp: presents_ok_def pend clients client_presents_def less_Suc_eq split: if_splits)
  next
    case (FLIP_DRI2 e)
    with ok show ?thesis
      by (auto simp: presents_ok_def pend clients client_presents_def less_Suc_eq split: if_splits)
  qed
  moreover have "\<forall>a. flipdatas t a \<noteq> None \<longrightarrow> a < next_addr t"
    using bound by (auto simp: assms(4) less_Suc_eq)
  ultimately show ?thesis
    using assms(1,4) by (simp add: owners_ok_def flip_records_ok_def)
qed

text \<open>The contract of a flush.\<close>

locale flushing =
  fixes flush :: "'k flush"
  assumes flush_keeps: "owners_ok L P s \<Longrightarrow> flush scr s = Some (r, s') \<Longrightarrow> owners_ok L P s'"
begin

lemma flip_retry_keeps:
  "owners_ok L P s \<Longrightarrow> flip_retry K flush n scr p flags sq s = Some (ok, s') \<Longrightarrow> owners_ok L P s'"
proof (induction n arbitrary: s)
  case 0
  then show ?case by simp
next
  case (Suc n)
  obtain err t where t: "do_queue_flip_on_crtc K scr p flags sq s = (err, t)" by (metis surj_pair)
  then have "t = snd (drmmode_crtc_flip K p (fb_id (mss s scr)) flags sq s)"
    by (simp add: do_queue_flip_on_crtc_def)
  with Suc.prems(1) have ok: "owners_ok L P t"
    by (simp add: owners_ok_same [OF same_owned_crtc_flip])
  show ?case
  proof (cases "err = 0")
    case True
    with Suc.prems t ok show ?thesis by simp
  next
    case False
    with Suc.prems(2) t obtain r u where u: "flush scr t = Some (r, u)" by (auto split: option.splits)
    with ok have "owners_ok L P u" by (rule flush_keeps)
    with Suc False t u show ?thesis by (auto intro: abort_seq_owners split: if_splits)
  qed
qed

lemma queue_flip_keeps:
  assumes "owners_ok L P s" and "a \<in># L"
    and "queue_flip_on_crtc K flush n scr p a ref flags s = Some (ok, s')"
  shows "owners_ok L P s'"
proof -
  let ?d = "CB_flip (vblank_pipe (crtcs (snd (calloc s)) p) = ref) a"
  have c: "owners_ok L P (snd (calloc s))"
    using assms(1) by (simp add: owners_ok_same [OF same_owned_updates(4)])
  obtain sq t where t: "ms_drm_queue_alloc p ?d (snd (calloc s)) = (sq, t)" by (metis surj_pair)
  show ?thesis
  proof (cases "fst (calloc s) \<and> sq \<noteq> 0")
    case True
    then have "owners_ok L P (flipdata_ref a t)"
      using flip_ref_owners [OF c assms(2) t] by simp
    with True t assms(3) show ?thesis
      by (auto simp: queue_flip_on_crtc_def case_prod_beta intro: flip_retry_keeps)
  next
    case False
    with t assms(3) c show ?thesis
      using owners_ok_same [OF alloc_failed_owners, of p ?d "snd (calloc s)" t L P]
      by (auto simp: queue_flip_on_crtc_def case_prod_beta split: if_splits)
  qed
qed

lemma queue_flips_keep:
  "owners_ok L P s \<Longrightarrow> a \<in># L \<Longrightarrow> queue_flips K flush n scr ps a ref flags s = Some (ok, s') \<Longrightarrow>
     owners_ok L P s'"
proof (induction ps arbitrary: s)
  case Nil
  then show ?case by simp
next
  case (Cons p ps)
  show ?case
  proof (cases "ms_crtc_on (crtcs s p)")
    case True
    with Cons.prems(3) obtain b t where t: "queue_flip_on_crtc K flush n scr p a ref flags s = Some (b, t)"
      by (auto split: option.splits)
    with Cons.prems have "owners_ok L P t" by (blast intro: queue_flip_keeps)
    with Cons True t show ?thesis by (cases b) auto
  next
    case False
    with Cons show ?thesis by simp
  qed
qed

end

lemma error_out_owners:
  assumes "owners_ok (add_mset a L) P s" and "pageflip_error_out K bo a s = (ok, s')"
  shows "owners_ok L P s' \<and> \<not> ok"
proof -
  let ?s = "snd (drmmode_bo_destroy K bo s)"
  have s: "owners_ok (add_mset a L) P ?s"
    using assms(1) by (simp add: owners_ok_same [OF same_owned_bo(1)])
  then have own: "flipdata.owned (add_mset a (L + pending_flips ?s)) ?s"
    by (simp add: owners_ok_def flip_records_ok_def)
  obtain fd where fd: "flipdatas ?s a = Some fd" "0 < flip_count fd"
    using flipdata.owned_count [OF own, of a] by (auto simp: flip_refs_def)
  show ?thesis
  proof (cases "flip_count fd = 1")
    case True
    with assms(2) fd show ?thesis
      using owners_ok_leak [OF drop_record_owners [OF s fd(1) True]]
      by (auto simp: pageflip_error_out_def Let_def)
  next
    case False
    with fd have "1 < flip_count fd" by simp
    with assms(2) fd False show ?thesis
      using count_down_owners [OF s fd(1), of "fd\<lparr>flip_count := flip_count fd - 1\<rparr>"]
      by (auto simp: pageflip_error_out_def Let_def)
  qed
qed

lemma error_undo_owners:
  assumes "owners_ok (add_mset a L) P s" and "pageflip_error_undo K scr bo a s = (ok, s')"
  shows "owners_ok L P s' \<and> \<not> ok"
proof -
  have own: "flipdata.owned (add_mset a (L + pending_flips s)) s"
    using assms(1) by (simp add: owners_ok_def flip_records_ok_def)
  obtain fd where fd: "flipdatas s a = Some fd" "0 < flip_count fd"
    using flipdata.owned_count [OF own, of a] by (auto simp: flip_refs_def)
  then have "pageflip_error_out K bo a (if flip_count fd = 1 then
      upd_ms scr (\<lambda>m. m\<lparr>fb_id := old_fb_id fd\<rparr>) (s\<lparr>kst := drmModeRmFB K (fb_id (mss s scr)) (kst s)\<rparr>)
      else s) = (ok, s')"
    using assms(2) by (simp add: pageflip_error_undo_def)
  then show ?thesis
    by (rule error_out_owners [rotated]) (use assms(1) in \<open>simp add: upd_ms_owners kst_owners\<close>)
qed

lemma finish_owners:
  assumes "owners_ok (add_mset a L) P s" and "pageflip_finish K scr bo a b s = (ok, s')"
  shows "owners_ok L P s'"
proof (cases b)
  case False
  with assms show ?thesis using error_undo_owners [of a L P s] by (simp add: pageflip_finish_def)
next
  case True
  obtain bo' u where u: "drmmode_bo_destroy K bo s = (bo', u)" by (metis surj_pair)
  have u': "owners_ok (add_mset a L) P u"
    using assms(1) owners_ok_same [OF same_owned_bo(1) [of s K bo]] by (simp add: u)
  then have own: "flipdata.owned (add_mset a (L + pending_flips u)) u"
    by (simp add: owners_ok_def flip_records_ok_def)
  obtain gd where gd: "flipdatas u a = Some gd" "0 < flip_count gd"
    using flipdata.owned_count [OF own, of a] by (auto simp: flip_refs_def)
  with assms(2) True u show ?thesis
    using count_down_owners [OF u' gd(1), of "gd\<lparr>flip_count := flip_count gd - 1\<rparr>"]
      error_undo_owners [OF u', of K scr bo'] by (auto simp: pageflip_finish_def split: if_splits)
qed

context flushing begin

lemma pageflip_import_keeps:
  assumes "owners_ok (add_mset a L) P s"
    and "pageflip_import K flush n scr new_front ref async bo a s = Some (ok, s')"
  shows "owners_ok L P s'"
proof -
  obtain err fbid t where t: "drmmode_bo_import K scr bo s = ((err, fbid), t)" by (metis surj_pair)
  have t': "owners_ok (add_mset a L) P t"
    using assms(1) owners_ok_same [OF same_owned_bo(2) [of s K scr bo]] by (simp add: t)
  show ?thesis
  proof (cases "err = 0")
    case False
    with assms(2) t have
      "pageflip_error_out K bo a (upd_ms scr (\<lambda>m. m\<lparr>flip_bo_import_failed := True\<rparr>) t) = (ok, s')"
      by (simp add: pageflip_import_def)
    then show ?thesis using error_out_owners [of a L P] t' by (metis upd_ms_owners)
  next
    case True
    define u where "u = (let s = upd_ms scr (\<lambda>m. m\<lparr>fb_id := fbid\<rparr>) t in
       if flip_bo_import_failed (mss s scr) \<and> new_front \<noteq> screen_pixmap K scr
       then upd_ms scr (\<lambda>m. m\<lparr>flip_bo_import_failed := False\<rparr>) s else s)"
    have u: "owners_ok (add_mset a L) P u"
      using t' by (simp add: u_def Let_def upd_ms_owners)
    let ?flags = "DRM_MODE_PAGE_FLIP_EVENT OR (if async then DRM_MODE_PAGE_FLIP_ASYNC else 0)"
    have "pageflip_import K flush n scr new_front ref async bo a s =
        map_option (\<lambda>(b, s). pageflip_finish K scr bo a b s)
          (queue_flips K flush n scr (config (mss u scr)) a ref ?flags u)"
      by (simp only: pageflip_import_def t True u_def Let_def prod.case simp_thms if_False)
    with assms(2) obtain b v where
      q: "queue_flips K flush n scr (config (mss u scr)) a ref ?flags u = Some (b, v)"
      and v: "pageflip_finish K scr bo a b v = (ok, s')"
      by auto
    have "owners_ok (add_mset a L) P v" by (rule queue_flips_keep [OF u _ q]) simp
    then show ?thesis using finish_owners v by blast
  qed
qed

lemma do_pageflip_keeps:
  assumes "owners_ok L (P + client_presents c) s"
    and "ms_do_pageflip K flush n scr new_front c ref async s = Some (ok, s')"
  shows "owners_ok L P s'"
proof -
  note frames = owners_ok_same [OF same_owned_updates(1)] owners_ok_same [OF same_owned_updates(4)]
    owners_ok_same [OF same_owned_bo(1)]
  obtain gbm k where gbm: "gbm_bo_from_pixmap K new_front (glamor_block_handler K scr (kst s)) = (gbm, k)"
    by (metis surj_pair)
  define t where "t = snd (calloc (s\<lparr>kst := k\<rparr>))"
  have t: "owners_ok L (P + client_presents c) t" using assms(1) by (simp add: t_def frames)
  show ?thesis
  proof (cases "gbm = None \<or> \<not> fst (calloc (s\<lparr>kst := k\<rparr>))")
    case True
    with assms(2) gbm t owners_ok_leak [OF assms(1)] owners_ok_leak [OF t] show ?thesis
      by (auto simp: ms_do_pageflip_def Let_def case_prod_beta t_def frames split: if_splits)
  next
    case False
    then obtain g where g: "gbm = Some g" and c: "fst (calloc (s\<lparr>kst := k\<rparr>))" by auto
    define fd where "fd = \<lparr>fl_screen = scr, fl_client = c, flip_count = 1, fl_fe_msc = 0,
                         fl_fe_usec = 0, old_fb_id = fb_id (mss t scr)\<rparr>"
    define u where "u = t\<lparr>flipdatas := (flipdatas t)(next_addr t \<mapsto> fd), next_addr := next_addr t + 1\<rparr>"
    have "owners_ok (add_mset (next_addr t) L) P u"
      by (rule new_record_owners [OF t]) (simp_all add: fd_def u_def)
    moreover have "pageflip_import K flush n scr new_front ref async (no_bo\<lparr>bo_gbm := gbm,
          bo_width := pixmap_width K new_front (kst u), bo_height := pixmap_height K new_front (kst u)\<rparr>)
          (next_addr t) u = Some (ok, s')"
      using assms(2) gbm g c
      by (simp add: ms_do_pageflip_def Let_def case_prod_beta t_def u_def fd_def)
    ultimately show ?thesis by (rule pageflip_import_keeps)
  qed
qed

end

section \<open>Queueing vblanks keeps the owners\<close>

lemma queue_vblank_once_same_owned:
  fixes s :: "'k drv"
  shows "same_owned s (snd (queue_vblank_once K p flags msc sq s))"
  by (simp add: queue_vblank_once_def Let_def case_prod_beta same_owned_def upd_ms_def)

lemma kernel_msc_same_owned:
  fixes s :: "'k drv"
  shows "same_owned s (snd (ms_kernel_msc_to_crtc_msc p m b s))"
  by (simp add: ms_kernel_msc_to_crtc_msc_def case_prod_beta same_owned_updates(5))

lemma get_ust_msc_same_owned:
  fixes s :: "'k drv"
  shows "same_owned s (snd (ms_get_crtc_ust_msc K p s))"
proof -
  have "same_owned s (snd (ms_get_kernel_ust_msc K p s))"
    by (simp add: ms_get_kernel_ust_msc_def Let_def case_prod_beta same_owned_def upd_ms_def)
  then show ?thesis
    by (simp add: ms_get_crtc_ust_msc_def case_prod_beta same_owned_trans [OF _ kernel_msc_same_owned])
qed

context flushing begin

lemma queue_vblank_keeps:
  "owners_ok L P s \<Longrightarrow> ms_queue_vblank K flush drv_abort n p flags msc want sq s = Some (r, s') \<Longrightarrow>
     owners_ok L P s'"
proof (induction n arbitrary: s)
  case 0
  then show ?case by simp
next
  case (Suc n)
  obtain x t where x: "queue_vblank_once K p flags msc sq s = (x, t)" by (metis surj_pair)
  with Suc.prems(1) have t: "owners_ok L P t"
    using owners_ok_same [OF queue_vblank_once_same_owned [of s K p flags msc sq]] by simp
  show ?case
  proof (cases x)
    case (Some q)
    then show ?thesis
      using Suc.prems(2) x t owners_ok_same [OF kernel_msc_same_owned [of t p "fst q" "snd q"]]
      by (auto simp: case_prod_beta split: if_splits)
  next
    case None
    show ?thesis
    proof (cases "errno t = EBUSY")
      case False
      then show ?thesis using Suc.prems(2) x None t by (auto intro: abort_seq_owners)
    next
      case True
      with Suc.prems(2) x None obtain r' u where u: "flush (crtc_scrn (crtcs t p)) t = Some (r', u)"
        by (auto split: option.splits)
      with Suc.prems(2) x None True have "ms_queue_vblank K flush drv_abort n p flags msc want sq u = Some (r, s')"
        by simp
      with Suc.IH flush_keeps [OF t u] show ?thesis by blast
    qed
  qed
qed

end

section \<open>A flip on every CRTC\<close>

definition accepts_flips :: "'k kernel \<Rightarrow> bool" where
  "accepts_flips K \<longleftrightarrow>
     (\<forall>c fb f d k. fst (fst (drmModePageFlip K c fb f d k)) = 0) \<and>
     (\<forall>r f d k. fst (fst (drmModeAtomicCommit K r f d k)) = 0)"

definition refuses_flips :: "'k kernel \<Rightarrow> bool" where
  "refuses_flips K \<longleftrightarrow>
     (\<forall>c fb f d k. fst (fst (drmModePageFlip K c fb f d k)) \<noteq> 0) \<and>
     (\<forall>r f d k. fst (fst (drmModeAtomicCommit K r f d k)) \<noteq> 0)"

definition accepts_fbs :: "'k kernel \<Rightarrow> bool" where
  "accepts_fbs K \<longleftrightarrow>
     (\<forall>w h d b p hd k. fst (fst (drmModeAddFB K w h d b p hd k)) = 0) \<and>
     (\<forall>w h f hs ss os ms k. fst (fst (drmModeAddFB2WithModifiers K w h f hs ss os ms k)) = 0)"

lemma kst_keeps_errno: "s\<lparr>kst := k\<rparr> = s\<lparr>kst := k, errno := errno s\<rparr>"
  by simp

lemma commit_mem:
  "\<exists>err k e. atomic_commit K req flags data s = (err, s\<lparr>kst := k, errno := e\<rparr>) \<and>
    (accepts_flips K \<longrightarrow> err = 0) \<and> (refuses_flips K \<longrightarrow> err \<noteq> 0)"
proof -
  obtain ret err k where c: "drmModeAtomicCommit K req flags data (kst s) = ((ret, err), k)"
    by (metis surj_pair)
  then have "(accepts_flips K \<longrightarrow> ret = 0) \<and> (refuses_flips K \<longrightarrow> ret \<noteq> 0)"
    by (auto simp: accepts_flips_def refuses_flips_def) (metis fst_conv)+
  with c show ?thesis
    by (cases "ret = 0") (auto simp: atomic_commit_def, metis kst_keeps_errno)
qed

lemma crtc_flip_mem:
  assumes "mem_ok s = []"
  shows "\<exists>err k e. drmmode_crtc_flip K p fb flags data s = (err, s\<lparr>kst := k, errno := e\<rparr>) \<and>
    (accepts_flips K \<longrightarrow> err = 0) \<and> (refuses_flips K \<longrightarrow> err \<noteq> 0)"
proof (cases "atomic_modeset (ms_of_crtc s p)")
  case True
  with assms have "\<exists>req. drmmode_crtc_flip K p fb flags data s =
      atomic_commit K req (flags OR DRM_MODE_ATOMIC_NONBLOCK) data s"
    by (simp add: drmmode_crtc_flip_def calloc_mem plane_add_props_def plane_add_prop_def atomic_add_mem
        or_ret_def Let_def) blast
  then show ?thesis using commit_mem [of K] by metis
next
  case False
  obtain ret err k where c: "drmModePageFlip K (crtc_id (crtcs s p)) fb flags data (kst s) = ((ret, err), k)"
    by (metis surj_pair)
  then have "(accepts_flips K \<longrightarrow> ret = 0) \<and> (refuses_flips K \<longrightarrow> ret \<noteq> 0)"
    by (auto simp: accepts_flips_def refuses_flips_def) (metis fst_conv)+
  with c False show ?thesis
    by (cases "ret = 0") (auto simp: drmmode_crtc_flip_def, metis kst_keeps_errno)
qed

lemma queue_alloc_mem:
  assumes "mem_ok s = []"
  shows "\<exists>sq. ms_drm_queue_alloc p d s = (sq, s\<lparr>ms_drm_seq := sq + 1, ms_drm_queue :=
      \<lparr>q_crtc = p, q_seq = sq, q_data = d, q_scrn = crtc_scrn (crtcs s p)\<rparr> # ms_drm_queue s\<rparr>) \<and> sq \<noteq> 0"
  using assms by (simp add: ms_drm_queue_alloc_def calloc_mem Let_def)

lemma queue_flip_accepted:
  assumes "mem_ok s = []" and "accepts_flips K" and "flipdatas s a = Some fd" and "0 < n"
  shows "\<exists>sq k e. queue_flip_on_crtc K flush n scr p a ref flags s = Some (True,
    s\<lparr>ms_drm_seq := sq + 1, ms_drm_queue := \<lparr>q_crtc = p, q_seq = sq,
        q_data = CB_flip (vblank_pipe (crtcs s p) = ref) a, q_scrn = crtc_scrn (crtcs s p)\<rparr> # ms_drm_queue s,
      flipdatas := (flipdatas s)(a \<mapsto> fd\<lparr>flip_count := flip_count fd + 1\<rparr>), kst := k, errno := e\<rparr>)"
proof -
  let ?d = "CB_flip (vblank_pipe (crtcs s p) = ref) a"
  obtain sq where sq: "ms_drm_queue_alloc p ?d s = (sq, s\<lparr>ms_drm_seq := sq + 1, ms_drm_queue :=
      \<lparr>q_crtc = p, q_seq = sq, q_data = ?d, q_scrn = crtc_scrn (crtcs s p)\<rparr> # ms_drm_queue s\<rparr>)" "sq \<noteq> 0"
    using queue_alloc_mem [OF assms(1)] by blast
  let ?t = "flipdata_ref a (snd (ms_drm_queue_alloc p ?d s))"
  have "mem_ok ?t = []" using assms(1,3) by (simp add: sq flipdata_ref_def)
  then obtain k e where "drmmode_crtc_flip K p (fb_id (mss ?t scr)) flags sq ?t = (0, ?t\<lparr>kst := k, errno := e\<rparr>)"
    using crtc_flip_mem assms(2) by metis
  then show ?thesis
    using assms sq
    by (cases n)
       (simp_all add: queue_flip_on_crtc_def calloc_mem do_queue_flip_on_crtc_def flipdata_ref_def, blast?)
qed

definition on_crtcs :: "'k drv \<Rightarrow> nat list \<Rightarrow> nat list" where
  "on_crtcs s ps = filter (\<lambda>p. ms_crtc_on (crtcs s p)) ps"

text \<open>The entries of a flip, newest first.\<close>

definition flip_entries :: "'k drv \<Rightarrow> u32 \<Rightarrow> nat \<Rightarrow> nat list \<Rightarrow> (nat \<times> callback) list" where
  "flip_entries s ref a ps =
     rev (map (\<lambda>p. (p, CB_flip (vblank_pipe (crtcs s p) = ref) a)) (on_crtcs s ps))"

definition entries :: "'k drv \<Rightarrow> (nat \<times> callback) list" where
  "entries s = map (\<lambda>q. (q_crtc q, q_data q)) (ms_drm_queue s)"

lemma queue_flips_accepted:
  assumes "mem_ok s = []" and "accepts_flips K" and "flipdatas s a = Some fd" and "0 < n"
  shows "\<exists>s'. queue_flips K flush n scr ps a ref flags s = Some (True, s') \<and>
    entries s' = flip_entries s ref a ps @ entries s \<and>
    flipdatas s' = (flipdatas s)(a \<mapsto> fd\<lparr>flip_count := flip_count fd + int (length (on_crtcs s ps))\<rparr>) \<and>
    mss s' = mss s \<and> crtcs s' = crtcs s \<and> presents s' = presents s \<and> mem_ok s' = []"
  using assms(1,3)
proof (induction ps arbitrary: s fd)
  case Nil
  then show ?case by (auto simp: flip_entries_def on_crtcs_def)
next
  case (Cons p ps)
  show ?case
  proof (cases "ms_crtc_on (crtcs s p)")
    case False
    then have "on_crtcs s (p # ps) = on_crtcs s ps" by (simp add: on_crtcs_def)
    with Cons.IH [OF Cons.prems] False show ?thesis by (simp add: flip_entries_def)
  next
    case True
    obtain t where t: "queue_flip_on_crtc K flush n scr p a ref flags s = Some (True, t)"
      "entries t = (p, CB_flip (vblank_pipe (crtcs s p) = ref) a) # entries s"
      "flipdatas t = (flipdatas s)(a \<mapsto> fd\<lparr>flip_count := flip_count fd + 1\<rparr>)"
      "mss t = mss s" "crtcs t = crtcs s" "presents t = presents s" "mem_ok t = []"
      using queue_flip_accepted [OF Cons.prems(1) assms(2) Cons.prems(2) assms(4), of flush scr p ref flags]
        Cons.prems(1)
      by (auto simp: entries_def)
    then have "on_crtcs t ps = on_crtcs s ps" "flip_entries t ref a ps = flip_entries s ref a ps"
      by (simp_all add: on_crtcs_def flip_entries_def)
    moreover have "on_crtcs s (p # ps) = p # on_crtcs s ps" using True by (simp add: on_crtcs_def)
    ultimately show ?thesis
      using Cons.IH [OF t(7), of "fd\<lparr>flip_count := flip_count fd + 1\<rparr>"] t True
      by (auto simp: flip_entries_def algebra_simps fun_eq_iff)
  qed
qed

lemma import_accepted:
  assumes "accepts_fbs K"
  shows "\<exists>fbid k. drmmode_bo_import K scr bo s = ((0, fbid), s\<lparr>kst := k\<rparr>)"
proof -
  have "drmModeAddFB K w h d b p hd k = ((0, snd (fst (drmModeAddFB K w h d b p hd k))),
      snd (drmModeAddFB K w h d b p hd k))" for w h d b p hd k
    using assms by (simp add: accepts_fbs_def prod_eq_iff)
  moreover have "drmModeAddFB2WithModifiers K w h f hs ss os ms k =
      ((0, snd (fst (drmModeAddFB2WithModifiers K w h f hs ss os ms k))),
       snd (drmModeAddFB2WithModifiers K w h f hs ss os ms k))" for w h f hs ss os ms k
    using assms by (simp add: accepts_fbs_def prod_eq_iff)
  ultimately show ?thesis
    unfolding drmmode_bo_import_def Let_def
    by (auto simp: case_prod_beta split: option.split) (metis prod.collapse fst_conv)+
qed

text \<open>
  C4. A flip of a screen goes to every CRTC. When the kernel takes framebuffers and flips, a
  flip to a pixmap queues one event per CRTC that is on, in the order of the configuration,
  marks those on the reference pipe, counts one reference for each and none of its own,
  remembers the framebuffer it replaces, and succeeds.
\<close>

theorem pageflip_queues_every_crtc:
  assumes "mem_ok s = []" and "accepts_flips K" and "accepts_fbs K" and "0 < n"
    and "fst (gbm_bo_from_pixmap K pix (glamor_block_handler K scr (kst s))) \<noteq> None"
    and "on_crtcs s (config (mss s scr)) \<noteq> []"
  shows "\<exists>s'. ms_do_pageflip K flush n scr pix c ref async s = Some (True, s') \<and>
    entries s' = flip_entries s ref (next_addr s) (config (mss s scr)) @ entries s \<and>
    flipdatas s' = (flipdatas s)(next_addr s \<mapsto>
      \<lparr>fl_screen = scr, fl_client = c, flip_count = int (length (on_crtcs s (config (mss s scr)))),
       fl_fe_msc = 0, fl_fe_usec = 0, old_fb_id = fb_id (mss s scr)\<rparr>) \<and>
    crtcs s' = crtcs s \<and> presents s' = presents s"
proof -
  obtain g k where g: "gbm_bo_from_pixmap K pix (glamor_block_handler K scr (kst s)) = (Some g, k)"
    using assms(5) by (metis not_None_eq prod.collapse)
  let ?a = "next_addr s"
  define fd where "fd = \<lparr>fl_screen = scr, fl_client = c, flip_count = 1, fl_fe_msc = 0,
                         fl_fe_usec = 0, old_fb_id = fb_id (mss s scr)\<rparr>"
  define bo where "bo = no_bo\<lparr>bo_gbm := Some g, bo_width := pixmap_width K pix k,
                            bo_height := pixmap_height K pix k\<rparr>"
  define s1 where "s1 = s\<lparr>kst := k, flipdatas := (flipdatas s)(?a \<mapsto> fd), next_addr := ?a + 1\<rparr>"
  obtain fbid k' where imp: "drmmode_bo_import K scr bo s1 = ((0, fbid), s1\<lparr>kst := k'\<rparr>)"
    using import_accepted [OF assms(3)] by blast
  define s2 where "s2 = (let s = upd_ms scr (\<lambda>m. m\<lparr>fb_id := fbid\<rparr>) (s1\<lparr>kst := k'\<rparr>) in
       if flip_bo_import_failed (mss s scr) \<and> pix \<noteq> screen_pixmap K scr
       then upd_ms scr (\<lambda>m. m\<lparr>flip_bo_import_failed := False\<rparr>) s else s)"
  have s2: "mem_ok s2 = []" "flipdatas s2 = (flipdatas s)(?a \<mapsto> fd)" "entries s2 = entries s"
    "crtcs s2 = crtcs s" "presents s2 = presents s" "config (mss s2 scr) = config (mss s scr)"
    using assms(1) by (simp_all add: s2_def s1_def Let_def upd_ms_def entries_def)
  then have a: "flipdatas s2 ?a = Some fd" by simp
  let ?flags = "DRM_MODE_PAGE_FLIP_EVENT OR (if async then DRM_MODE_PAGE_FLIP_ASYNC else 0)"
  obtain t where t: "queue_flips K flush n scr (config (mss s scr)) ?a ref ?flags s2 = Some (True, t)"
    "entries t = flip_entries s2 ref ?a (config (mss s scr)) @ entries s2"
    "flipdatas t = (flipdatas s2)(?a \<mapsto>
        fd\<lparr>flip_count := flip_count fd + int (length (on_crtcs s2 (config (mss s scr))))\<rparr>)"
    "crtcs t = crtcs s2" "presents t = presents s2"
    using queue_flips_accepted [OF s2(1) assms(2) a assms(4)] by blast
  have same: "on_crtcs s2 ps = on_crtcs s ps" "flip_entries s2 ref ?a ps = flip_entries s ref ?a ps" for ps
    by (simp_all add: on_crtcs_def flip_entries_def s2(4))
  have "ms_do_pageflip K flush n scr pix c ref async s = pageflip_import K flush n scr pix ref async bo ?a s1"
    using assms(1) by (simp add: ms_do_pageflip_def Let_def g calloc_mem s1_def fd_def bo_def)
  also have "\<dots> = map_option (\<lambda>(b, s). pageflip_finish K scr bo ?a b s)
      (queue_flips K flush n scr (config (mss s2 scr)) ?a ref ?flags s2)"
    by (simp only: pageflip_import_def imp s2_def Let_def prod.case simp_thms if_False)
  also have "\<dots> = Some (pageflip_finish K scr bo ?a True t)" by (simp add: s2(6) t(1))
  also have "\<dots> = Some (True, t\<lparr>kst := gbm_bo_destroy K g (kst t), flipdatas := (flipdatas t)(?a \<mapsto>
      fd\<lparr>flip_count := int (length (on_crtcs s (config (mss s scr))))\<rparr>)\<rparr>)"
    using assms(6)
    by (simp add: pageflip_finish_def drmmode_bo_destroy_def bo_def no_bo_def t(3) same fd_def)
  finally show ?thesis
    using t s2 by (auto simp: same fd_def entries_def)
qed

text \<open>Two CRTCs, the second off, on a kernel that takes everything.\<close>

definition flip_kernel :: "unit kernel" where
  "flip_kernel = dead_kernel\<lparr>
     drmModePageFlip := \<lambda>c fb f u k. ((0, 0), k),
     drmModeAtomicCommit := \<lambda>r f u k. ((0, 0), k),
     drmModeAddFB := \<lambda>w h d b p hd k. ((0, 42), k),
     drmModeAddFB2WithModifiers := \<lambda>w h f hs ss os ms k. ((0, 42), k),
     gbm_bo_from_pixmap := \<lambda>p k. (Some \<lparr>gb_handle = 9, gb_stride = 4096, gb_format = 0,
       gb_modifier = 0, gb_planes = []\<rparr>, k)\<rparr>"

definition two_crtcs :: "unit drv" where
  "two_crtcs = (idle_drv ())\<lparr>
     crtcs := (\<lambda>p. zero_crtc\<lparr>enabled := p = 0, vblank_pipe := of_nat p\<rparr>),
     mss := (\<lambda>_. zero_ms\<lparr>config := [0, 5], fb_id := 41\<rparr>)\<rparr>"

lemma pageflip_queues_witness:
  "\<exists>s'. ms_do_pageflip flip_kernel (\<lambda>_ _. None) 2 0 7 (FLIP_PRESENT 3) 0 False two_crtcs = Some (True, s') \<and>
     entries s' = [(0, CB_flip True 0)] \<and>
     map_option old_fb_id (flipdatas s' 0) = Some 41 \<and> map_option flip_count (flipdatas s' 0) = Some 1"
proof -
  have on: "on_crtcs two_crtcs [0, 5] = [0]"
    by (simp add: on_crtcs_def two_crtcs_def ms_crtc_on_def zero_crtc_def)
  have ent: "flip_entries two_crtcs 0 0 [0, 5] = [(0, CB_flip True 0)]" "entries two_crtcs = []"
    unfolding flip_entries_def on
    by (simp_all add: two_crtcs_def zero_crtc_def entries_def idle_drv_def idle_drm_def drm.extend_def)
  have s: "mem_ok two_crtcs = []" "next_addr two_crtcs = 0" "config (mss two_crtcs 0) = [0, 5]"
    "fb_id (mss two_crtcs 0) = 41"
    by (simp_all add: two_crtcs_def idle_drv_def idle_drm_def drm.extend_def)
  have K: "accepts_flips flip_kernel" "accepts_fbs flip_kernel"
    "fst (gbm_bo_from_pixmap flip_kernel 7 k) \<noteq> None" for k
    by (simp_all add: accepts_flips_def accepts_fbs_def flip_kernel_def)
  show ?thesis
    using pageflip_queues_every_crtc [of two_crtcs flip_kernel 2 7 0 "\<lambda>_ _. None" "FLIP_PRESENT 3" 0 False,
        unfolded s on ent, OF refl K(1,2) _ K(3)]
    by fastforce
qed

section \<open>A refused flip\<close>

definition flushes_nothing :: "'k flush \<Rightarrow> bool" where
  "flushes_nothing flush \<longleftrightarrow> (\<forall>scr s. \<exists>r k. flush scr s = Some (r, s\<lparr>kst := k\<rparr>) \<and> r \<le> 0)"

lemma queue_flip_refused:
  assumes "mem_ok s = []" and "refuses_flips K" and "flipdatas s a = Some fd" and "flip_count fd = 1"
    and "0 < n" and "flushes_nothing flush"
  shows "\<exists>sq k e. queue_flip_on_crtc K flush n scr p a ref flags s =
    Some (False, s\<lparr>ms_drm_seq := sq, kst := k, errno := e\<rparr>)"
proof -
  let ?d = "CB_flip (vblank_pipe (crtcs s p) = ref) a"
  obtain sq where sq: "ms_drm_queue_alloc p ?d s = (sq, s\<lparr>ms_drm_seq := sq + 1, ms_drm_queue :=
      \<lparr>q_crtc = p, q_seq = sq, q_data = ?d, q_scrn = crtc_scrn (crtcs s p)\<rparr> # ms_drm_queue s\<rparr>)" "sq \<noteq> 0"
    using queue_alloc_mem [OF assms(1)] by blast
  define t where "t = flipdata_ref a (s\<lparr>ms_drm_seq := sq + 1, ms_drm_queue :=
      \<lparr>q_crtc = p, q_seq = sq, q_data = ?d, q_scrn = crtc_scrn (crtcs s p)\<rparr> # ms_drm_queue s\<rparr>)"
  have "mem_ok t = []" using assms(1,3) by (simp add: t_def flipdata_ref_def)
  then obtain err k e where "drmmode_crtc_flip K p (fb_id (mss t scr)) flags sq t = (err, t\<lparr>kst := k, errno := e\<rparr>)"
    and err: "err \<noteq> 0"
    using crtc_flip_mem assms(2) by metis
  moreover define u where "u = t\<lparr>kst := k, errno := e\<rparr>"
  ultimately have refused: "drmmode_crtc_flip K p (fb_id (mss t scr)) flags sq t = (err, u)" by simp
  obtain r k' where flush: "flush scr u = Some (r, u\<lparr>kst := k'\<rparr>)" "r \<le> 0"
    using assms(6) unfolding flushes_nothing_def by blast
  have same: "fd\<lparr>flip_count := 1\<rparr> = fd" using assms(4) by (cases fd) simp
  obtain m where "n = Suc m" using assms(5) by (cases n) simp_all
  then have "queue_flip_on_crtc K flush n scr p a ref flags s =
      Some (False, ms_drm_abort_seq drv_abort sq (u\<lparr>kst := k'\<rparr>))"
    using assms(1) sq(2) flush err refused
    by (simp add: queue_flip_on_crtc_def calloc_mem sq(1) do_queue_flip_on_crtc_def flip: t_def)
  moreover have "ms_drm_abort_seq drv_abort sq (u\<lparr>kst := k'\<rparr>) =
      s\<lparr>ms_drm_seq := sq + 1, kst := k', errno := e\<rparr>"
    using assms(3,4) same
    by (simp add: u_def t_def flipdata_ref_def ms_drm_abort_seq_def ms_drm_abort_one_def ms_pageflip_abort_def
        ms_pageflip_free_def fun_upd_idem)
  ultimately show ?thesis by (intro exI [of _ "sq + 1"] exI [of _ k'] exI [of _ e]) simp
qed

lemma queue_flips_refused:
  assumes "mem_ok s = []" and "refuses_flips K" and "flipdatas s a = Some fd" and "flip_count fd = 1"
    and "0 < n" and "flushes_nothing flush"
  shows "\<exists>b sq k e. queue_flips K flush n scr ps a ref flags s =
    Some (b, s\<lparr>ms_drm_seq := sq, kst := k, errno := e\<rparr>)"
proof (induction ps)
  case Nil
  have "s = s\<lparr>ms_drm_seq := ms_drm_seq s, kst := kst s, errno := errno s\<rparr>" by simp
  then show ?case by (metis queue_flips.simps(1))
next
  case (Cons p ps)
  then obtain b sq k e where 1: "queue_flips K flush n scr ps a ref flags s =
      Some (b, s\<lparr>ms_drm_seq := sq, kst := k, errno := e\<rparr>)" by blast
  obtain sq' k' e' where 2: "queue_flip_on_crtc K flush n scr p a ref flags s =
      Some (False, s\<lparr>ms_drm_seq := sq', kst := k', errno := e'\<rparr>)"
    using queue_flip_refused [OF assms] by blast
  show ?case
  proof (cases "ms_crtc_on (crtcs s p)")
    case True
    then have "queue_flips K flush n scr (p # ps) a ref flags s =
        Some (False, s\<lparr>ms_drm_seq := sq', kst := k', errno := e'\<rparr>)" by (simp add: 2)
    then show ?thesis by blast
  next
    case False
    then have "queue_flips K flush n scr (p # ps) a ref flags s =
        Some (b, s\<lparr>ms_drm_seq := sq, kst := k, errno := e\<rparr>)" by (simp add: 1)
    then show ?thesis by blast
  qed
qed

text \<open>
  C5. A refused flip leaves no trace. When the kernel refuses flips and no event is there to
  be flushed, a flip fails, the framebuffer made for it is removed and the screen keeps the
  one it had, and neither the queue nor the records of flips and of Present are changed.
\<close>

theorem refused_pageflip_undone:
  assumes "mem_ok s = []" and "refuses_flips K" and "accepts_fbs K" and "0 < n"
    and "flushes_nothing flush" and "flipdatas s (next_addr s) = None"
  shows "\<exists>s'. ms_do_pageflip K flush n scr pix c ref async s = Some (False, s') \<and>
    ms_drm_queue s' = ms_drm_queue s \<and> flipdatas s' = flipdatas s \<and> presents s' = presents s \<and>
    (\<forall>x. fb_id (mss s' x) = fb_id (mss s x))"
proof (cases "gbm_bo_from_pixmap K pix (glamor_block_handler K scr (kst s))")
  case gbm: (Pair gbm k)
  show ?thesis
  proof (cases gbm)
    case None
    with gbm show ?thesis by (simp add: ms_do_pageflip_def)
  next
    case (Some g)
    let ?a = "next_addr s"
    define fd where "fd = \<lparr>fl_screen = scr, fl_client = c, flip_count = 1, fl_fe_msc = 0,
                           fl_fe_usec = 0, old_fb_id = fb_id (mss s scr)\<rparr>"
    define bo where "bo = no_bo\<lparr>bo_gbm := Some g, bo_width := pixmap_width K pix k,
                              bo_height := pixmap_height K pix k\<rparr>"
    define s1 where "s1 = s\<lparr>kst := k, flipdatas := (flipdatas s)(?a \<mapsto> fd), next_addr := ?a + 1\<rparr>"
    obtain fbid k' where imp: "drmmode_bo_import K scr bo s1 = ((0, fbid), s1\<lparr>kst := k'\<rparr>)"
      using import_accepted [OF assms(3)] by blast
    define s2 where "s2 = (let s = upd_ms scr (\<lambda>m. m\<lparr>fb_id := fbid\<rparr>) (s1\<lparr>kst := k'\<rparr>) in
         if flip_bo_import_failed (mss s scr) \<and> pix \<noteq> screen_pixmap K scr
         then upd_ms scr (\<lambda>m. m\<lparr>flip_bo_import_failed := False\<rparr>) s else s)"
    have s2: "mem_ok s2 = []" "flipdatas s2 = (flipdatas s)(?a \<mapsto> fd)" "ms_drm_queue s2 = ms_drm_queue s"
      "presents s2 = presents s" "\<And>x. x \<noteq> scr \<Longrightarrow> mss s2 x = mss s x"
      using assms(1) by (simp_all add: s2_def s1_def Let_def upd_ms_def)
    have a: "flipdatas s2 ?a = Some fd" "flip_count fd = 1" using s2(2) by (simp_all add: fd_def)
    let ?flags = "DRM_MODE_PAGE_FLIP_EVENT OR (if async then DRM_MODE_PAGE_FLIP_ASYNC else 0)"
    obtain b sq k2 e where t: "queue_flips K flush n scr (config (mss s2 scr)) ?a ref ?flags s2 =
        Some (b, s2\<lparr>ms_drm_seq := sq, kst := k2, errno := e\<rparr>)"
      using queue_flips_refused [OF s2(1) assms(2) a assms(4,5)] by blast
    have "ms_do_pageflip K flush n scr pix c ref async s = pageflip_import K flush n scr pix ref async bo ?a s1"
      using assms(1) Some by (simp add: ms_do_pageflip_def Let_def gbm calloc_mem s1_def fd_def bo_def)
    also have "\<dots> = map_option (\<lambda>(b, s). pageflip_finish K scr bo ?a b s)
        (queue_flips K flush n scr (config (mss s2 scr)) ?a ref ?flags s2)"
      by (simp only: pageflip_import_def imp s2_def Let_def prod.case simp_thms if_False)
    also have "\<dots> = Some (pageflip_finish K scr bo ?a b (s2\<lparr>ms_drm_seq := sq, kst := k2, errno := e\<rparr>))"
      by (simp add: t)
    finally have run: "ms_do_pageflip K flush n scr pix c ref async s = \<dots>" .
    have none: "(flipdatas s)(?a := None) = flipdatas s" using assms(6) by (simp add: fun_upd_idem)
    show ?thesis
      using s2 none
      by (cases b) (auto simp: run pageflip_finish_def pageflip_error_undo_def pageflip_error_out_def
          drmmode_bo_destroy_def bo_def no_bo_def a fd_def upd_ms_def Let_def)
  qed
qed

lemma refused_pageflip_witness:
  "\<exists>s'. ms_do_pageflip (flip_kernel\<lparr>drmModePageFlip := \<lambda>c fb f u k. ((-1, EINVAL), k),
        drmModeAtomicCommit := \<lambda>r f u k. ((-1, EINVAL), k)\<rparr>) (\<lambda>_ s. Some (0, s)) 2 0 7 (FLIP_PRESENT 3) 0 False
        two_crtcs = Some (False, s') \<and> fb_id (mss s' 0) = 41 \<and> ms_drm_queue s' = []"
proof -
  let ?K = "flip_kernel\<lparr>drmModePageFlip := \<lambda>c fb f u k. ((-1, EINVAL), k),
        drmModeAtomicCommit := \<lambda>r f u k. ((-1, EINVAL), k)\<rparr>"
  have s: "mem_ok two_crtcs = []" "flipdatas two_crtcs (next_addr two_crtcs) = None"
    "ms_drm_queue two_crtcs = []" "fb_id (mss two_crtcs 0) = 41"
    by (simp_all add: two_crtcs_def idle_drv_def idle_drm_def drm.extend_def)
  have "refuses_flips ?K" "accepts_fbs ?K"
    by (simp_all add: refuses_flips_def accepts_fbs_def flip_kernel_def)
  moreover have "flushes_nothing (\<lambda>_ (s :: unit drv). Some (0, s))"
    unfolding flushes_nothing_def by (metis (full_types) old.unit.exhaust drm.update_convs(2) drm.surjective
        dual_order.refl)
  ultimately obtain s' where "ms_do_pageflip ?K (\<lambda>_ s. Some (0, s)) 2 0 7 (FLIP_PRESENT 3) 0 False two_crtcs =
      Some (False, s')" "ms_drm_queue s' = ms_drm_queue two_crtcs" "fb_id (mss s' 0) = fb_id (mss two_crtcs 0)"
    using refused_pageflip_undone [of two_crtcs ?K 2 "\<lambda>_ s. Some (0, s)" 0 7 "FLIP_PRESENT 3" 0 False] s(1,2)
    by (metis zero_less_numeral)
  then show ?thesis by (simp add: s)
qed

end
