(* ===== verification/Prime_Flip.thy ===== *)
theory Prime_Flip
  imports Page_Flip
begin

text \<open>
  Flipping between two pixmaps shared with a rendering GPU (\<^verbatim>\<open>drmmode_SharedPixmap*\<close>
  in \<^verbatim>\<open>src/src/drmmode_display.c\<close>, with the screen functions of
  \<^verbatim>\<open>src/src/driver.c\<close> that feed it). The sink asks the master to render the next frame
  into the pixmap that is not shown, flips to it, and goes on when the flip is reported; when
  the master has nothing new it waits for damage or for the next vblank.
\<close>

section \<open>The master screen\<close>

text \<open>
  What the sink calls on the rendering screen: presenting into a pixmap, which tells whether
  there was anything to present, and, when it is there, the request to be told of damage.
\<close>

record 'k master =
  PresentSharedPixmap :: "nat \<Rightarrow> 'k \<Rightarrow> bool \<times> 'k"
  RequestSharedPixmapNotifyDamage :: "(nat \<Rightarrow> 'k \<Rightarrow> bool \<times> 'k) option"

section \<open>Operations\<close>

definition drmmode_SharedPixmapFlip :: "'k kernel \<Rightarrow> nat \<Rightarrow> nat \<Rightarrow> 'k drv \<Rightarrow> bool \<times> 'k drv" where
  "drmmode_SharedPixmapFlip K frontTarget p s =
     (case calloc s of (ok, s) \<Rightarrow>
        if \<not> ok then (False, s)
        else case ms_drm_queue_alloc p (CB_shared frontTarget (prime_pixmap (crtcs s p)) p True) s of
          (sq, s) \<Rightarrow>
            let s = upd_ppriv frontTarget (\<lambda>v. v\<lparr>pp_flip_seq := sq\<rparr>) s in
            (case drmModePageFlip K (crtc_id (crtcs s p)) (pp_fb_id (ppriv s frontTarget))
                    DRM_MODE_PAGE_FLIP_EVENT sq (kst s) of
               ((ret, err), k) \<Rightarrow>
                 if ret < 0 then
                   (False, ms_drm_abort_seq drv_abort (pp_flip_seq (ppriv s frontTarget))
                      (s\<lparr>kst := k, errno := err\<rparr>))
                 else (True, s\<lparr>kst := k\<rparr>)))"

definition drmmode_SharedPixmapPresentOnVBlank ::
  "'k kernel \<Rightarrow> 'k flush \<Rightarrow> nat \<Rightarrow> nat \<Rightarrow> nat \<Rightarrow> 'k drv \<Rightarrow> (bool \<times> 'k drv) option" where
  "drmmode_SharedPixmapPresentOnVBlank K flush n ppix p s =
     (if prime_pixmap (crtcs s p) = Some ppix then Some (False, s)
      else if prime_pixmap_back (crtcs s p) \<noteq> Some ppix then Some (False, s)
      else case calloc s of (ok, s) \<Rightarrow>
        if \<not> ok then Some (False, s)
        else case ms_drm_queue_alloc p (CB_shared ppix (prime_pixmap (crtcs s p)) p False) s of
          (sq, s) \<Rightarrow>
            let s = upd_ppriv ppix (\<lambda>v. v\<lparr>pp_flip_seq := sq\<rparr>) s in
            map_option (\<lambda>((ok, m), s). (ok, s))
              (ms_queue_vblank K flush drv_abort n p MS_QUEUE_RELATIVE 1 False sq s))"

definition drmmode_SharedPixmapPresent ::
  "'k kernel \<Rightarrow> 'k master \<Rightarrow> 'k flush \<Rightarrow> nat \<Rightarrow> nat \<Rightarrow> nat \<Rightarrow> 'k drv \<Rightarrow> (bool \<times> 'k drv) option" where
  "drmmode_SharedPixmapPresent K M flush n ppix p s =
     (let (presented, k) = PresentSharedPixmap M ppix (kst s);
          s = s\<lparr>kst := k\<rparr>;
          retry = drmmode_SharedPixmapPresentOnVBlank K flush n ppix p
      in if presented then
           (case drmmode_SharedPixmapFlip K ppix p s of (ok, s) \<Rightarrow> if ok then Some (True, s) else retry s)
         else case RequestSharedPixmapNotifyDamage M of
           None \<Rightarrow> retry s
         | Some request \<Rightarrow>
             let s = upd_ppriv ppix (\<lambda>v. v\<lparr>pp_wait_for_damage := True\<rparr>) s in
             (case request ppix (kst s) of (ok, k) \<Rightarrow>
                let s = s\<lparr>kst := k\<rparr> in
                if ok then Some (True, s)
                else retry (upd_ppriv ppix (\<lambda>v. v\<lparr>pp_wait_for_damage := False\<rparr>) s)))"

text \<open>
  The handler of the events of \<open>CB_shared\<close>. A null \<^verbatim>\<open>backTarget\<close> would be
  dereferenced; the model counts that as a fault.
\<close>

definition drmmode_SharedPixmapVBlankEventHandler ::
  "'k kernel \<Rightarrow> 'k master \<Rightarrow> 'k flush \<Rightarrow> nat \<Rightarrow> nat \<Rightarrow> nat option \<Rightarrow> nat \<Rightarrow> bool \<Rightarrow> 'k drv \<Rightarrow>
     'k drv option" where
  "drmmode_SharedPixmapVBlankEventHandler K M flush n frontTarget backTarget p isflip s =
     (if isflip then
        let s = upd_crtc p (\<lambda>c. c\<lparr>prime_pixmap := Some frontTarget, prime_pixmap_back := backTarget\<rparr>) s in
        (case backTarget of
           None \<Rightarrow> Some (misc_fault s)
         | Some b \<Rightarrow> map_option snd (drmmode_SharedPixmapPresent K M flush n b p s))
      else map_option snd (drmmode_SharedPixmapPresent K M flush n frontTarget p s))"

definition drmmode_InitSharedPixmapFlipping ::
  "'k kernel \<Rightarrow> 'k master \<Rightarrow> 'k flush \<Rightarrow> nat \<Rightarrow> nat \<Rightarrow> 'k drv \<Rightarrow> (bool \<times> 'k drv) option" where
  "drmmode_InitSharedPixmapFlipping K M flush n p s =
     (if \<not> enable_flipping (crtcs s p) then Some (False, s)
      else if flipping_active (crtcs s p) then Some (True, s)
      else map_option (\<lambda>(ok, s). (ok, upd_crtc p (\<lambda>c. c\<lparr>flipping_active := ok\<rparr>) s))
             (drmmode_SharedPixmapPresent K M flush n (the (prime_pixmap_back (crtcs s p))) p s))"

definition drmmode_FiniSharedPixmapFlipping :: "nat \<Rightarrow> 'k drv \<Rightarrow> 'k drv" where
  "drmmode_FiniSharedPixmapFlipping p s =
     (if \<not> flipping_active (crtcs s p) then s
      else
        let s = upd_crtc p (\<lambda>c. c\<lparr>flipping_active := False\<rparr>) s;
            sq = pp_flip_seq (ppriv s (the (prime_pixmap (crtcs s p))));
            s = (if sq \<noteq> 0 then ms_drm_abort_seq drv_abort sq s else s);
            sq = pp_flip_seq (ppriv s (the (prime_pixmap_back (crtcs s p))))
        in if sq \<noteq> 0 then ms_drm_abort_seq drv_abort sq s else s)"

text \<open>What the sink does when the master tells it of damage.\<close>

fun notify_crtcs ::
  "'k kernel \<Rightarrow> 'k flush \<Rightarrow> nat \<Rightarrow> nat \<Rightarrow> nat list \<Rightarrow> bool \<Rightarrow> 'k drv \<Rightarrow> (bool \<times> 'k drv) option" where
  "notify_crtcs K flush n ppix [] ret s = Some (ret, s)"
| "notify_crtcs K flush n ppix (p # ps) ret s =
     (if prime_pixmap (crtcs s p) \<noteq> None \<and> prime_pixmap_back (crtcs s p) \<noteq> None then
        case drmmode_SharedPixmapPresentOnVBlank K flush n ppix p s of
          None \<Rightarrow> None
        | Some (ok, s) \<Rightarrow> notify_crtcs K flush n ppix ps (ret \<or> ok) s
      else notify_crtcs K flush n ppix ps ret s)"

definition msSharedPixmapNotifyDamage ::
  "'k kernel \<Rightarrow> 'k flush \<Rightarrow> nat \<Rightarrow> nat \<Rightarrow> nat \<Rightarrow> 'k drv \<Rightarrow> (bool \<times> 'k drv) option" where
  "msSharedPixmapNotifyDamage K flush n scr ppix s =
     (if \<not> pp_wait_for_damage (ppriv s ppix) then Some (False, s)
      else notify_crtcs K flush n ppix (config (mss s scr)) False
             (upd_ppriv ppix (\<lambda>v. v\<lparr>pp_wait_for_damage := False\<rparr>) s))"

text \<open>Attaching and detaching the buffer of a shared pixmap (\<^verbatim>\<open>drmmode_SetSlaveBO\<close>).\<close>

definition drmmode_SetSlaveBO ::
  "'k kernel \<Rightarrow> nat \<Rightarrow> int \<Rightarrow> u32 \<Rightarrow> u32 \<Rightarrow> 'k drv \<Rightarrow> bool \<times> 'k drv" where
  "drmmode_SetSlaveBO K ppix fd_handle pitch sz s =
     (if fd_handle = -1 then
        (True, upd_ppriv ppix (\<lambda>v. v\<lparr>pp_backing_bo := None\<rparr>)
           (snd (dumb_bo_destroy K (the (pp_backing_bo (ppriv s ppix))) s)))
      else case dumb_get_bo_from_fd K fd_handle pitch sz s of (bo, s) \<Rightarrow>
        let s = upd_ppriv ppix (\<lambda>v. v\<lparr>pp_backing_bo := bo\<rparr>) s in
        if bo = None then (False, s) else (True, s\<lparr>kst := close_fd K fd_handle (kst s)\<rparr>))"

section \<open>What the sink leaves alone\<close>

text \<open>Events of shared pixmaps own no flip record and no Present event.\<close>

lemma shared_flip_owners:
  assumes "owners_ok L P s"
  shows "owners_ok L P (snd (drmmode_SharedPixmapFlip K ft p s))"
proof -
  let ?d = "CB_shared ft (prime_pixmap (crtcs (snd (calloc s)) p)) p True"
  obtain sq t where t: "ms_drm_queue_alloc p ?d (snd (calloc s)) = (sq, t)" by (metis surj_pair)
  have "owners_ok L P (snd (calloc s))" using assms by (simp add: owners_ok_same [OF same_owned_updates(4)])
  then have "owners_ok L P t" using other_queued_owners [OF _ t] by simp
  moreover have "same_owned t ((upd_ppriv ft f t)\<lparr>kst := k\<rparr>)" "same_owned t ((upd_ppriv ft f t)\<lparr>kst := k, errno := e\<rparr>)"
    for f k e by (simp_all add: same_owned_def upd_ppriv_def)
  ultimately have "owners_ok L P ((upd_ppriv ft f t)\<lparr>kst := k\<rparr>)" "owners_ok L P ((upd_ppriv ft f t)\<lparr>kst := k, errno := e\<rparr>)"
    for f k e using owners_ok_same by blast+
  with \<open>owners_ok L P (snd (calloc s))\<close> t show ?thesis
    by (auto simp: drmmode_SharedPixmapFlip_def case_prod_beta Let_def intro: abort_seq_owners)
qed

context flushing begin

lemma present_on_vblank_keeps:
  assumes "owners_ok L P s" and "drmmode_SharedPixmapPresentOnVBlank K flush n px p s = Some (ok, s')"
  shows "owners_ok L P s'"
proof -
  let ?d = "CB_shared px (prime_pixmap (crtcs (snd (calloc s)) p)) p False"
  obtain sq t where t: "ms_drm_queue_alloc p ?d (snd (calloc s)) = (sq, t)" by (metis surj_pair)
  have c: "owners_ok L P (snd (calloc s))" using assms(1) by (simp add: owners_ok_same [OF same_owned_updates(4)])
  then have "owners_ok L P t" using other_queued_owners [OF _ t] by simp
  then have "owners_ok L P (upd_ppriv px f t)" for f by (simp add: owners_ok_same [OF same_owned_updates(7)])
  with assms c t show ?thesis
    by (auto simp: drmmode_SharedPixmapPresentOnVBlank_def case_prod_beta Let_def
        intro: queue_vblank_keeps split: if_splits)
qed

lemma shared_present_keeps:
  assumes "owners_ok L P s" and "drmmode_SharedPixmapPresent K M flush n px p s = Some (ok, s')"
  shows "owners_ok L P s'"
proof -
  note frames = owners_ok_same [OF same_owned_updates(1)] owners_ok_same [OF same_owned_updates(7)]
  have retry: "owners_ok L P t \<Longrightarrow> drmmode_SharedPixmapPresentOnVBlank K flush n px p t = Some (ok, s') \<Longrightarrow>
      owners_ok L P s'" for t by (rule present_on_vblank_keeps)
  obtain b k where b: "PresentSharedPixmap M px (kst s) = (b, k)" by (metis surj_pair)
  show ?thesis
  proof (cases b)
    case True
    let ?s = "s\<lparr>kst := k\<rparr>"
    obtain r t where f: "drmmode_SharedPixmapFlip K px p ?s = (r, t)" by (metis surj_pair)
    have "owners_ok L P ?s" using assms(1) by (simp add: frames)
    from shared_flip_owners [OF this, of K px p] f have "owners_ok L P t" by simp
    with assms(2) b f True retry show ?thesis by (auto simp: drmmode_SharedPixmapPresent_def split: if_splits)
  next
    case False
    with assms b show ?thesis
      by (auto simp: drmmode_SharedPixmapPresent_def Let_def case_prod_beta frames
          elim!: retry [rotated] split: option.splits if_splits)
  qed
qed

lemma shared_handler_keeps:
  assumes "owners_ok L P s"
    and "drmmode_SharedPixmapVBlankEventHandler K M flush n ft bt p fl s = Some s'"
  shows "owners_ok L P s'"
proof -
  have "owners_ok L P (upd_crtc p f s)" for f using assms(1) by (simp add: owners_ok_same [OF same_owned_updates(5)])
  then have "owners_ok L P (misc_fault (upd_crtc p f s))" "owners_ok L P (upd_crtc p f s)" for f
    by (simp_all add: owners_ok_same [OF same_owned_updates(9)])
  with assms show ?thesis
    by (auto simp: drmmode_SharedPixmapVBlankEventHandler_def Let_def elim!: shared_present_keeps [rotated]
        split: if_splits option.splits)
qed

end

section \<open>The two pixmaps alternate\<close>

text \<open>
  A CRTC is flipping from \<open>b\<close> to \<open>f\<close> when the event at the front of the queue, the newest,
  is that of a flip to \<open>f\<close> with \<open>b\<close> shown until then. Its completion is reported by the
  kernel: the entry is removed and its handler called.
\<close>

definition flipping_to :: "nat \<Rightarrow> nat \<Rightarrow> nat \<Rightarrow> 'k drv \<Rightarrow> bool" where
  "flipping_to f b p s \<longleftrightarrow>
     (\<exists>q qs. ms_drm_queue s = q # qs \<and> q_crtc q = p \<and> q_data q = CB_shared f (Some b) p True)"

definition complete_flip ::
  "'k kernel \<Rightarrow> 'k master \<Rightarrow> 'k flush \<Rightarrow> nat \<Rightarrow> nat \<Rightarrow> 'k drv \<Rightarrow> 'k drv option" where
  "complete_flip K M flush n p s =
     (case ms_drm_queue s of
        [] \<Rightarrow> None
      | q # qs \<Rightarrow>
          (case q_data q of
             CB_shared f b c fl \<Rightarrow>
               drmmode_SharedPixmapVBlankEventHandler K M flush n f b c fl (s\<lparr>ms_drm_queue := qs\<rparr>)
           | _ \<Rightarrow> None))"

fun complete_flips ::
  "'k kernel \<Rightarrow> 'k master \<Rightarrow> 'k flush \<Rightarrow> nat \<Rightarrow> nat \<Rightarrow> nat \<Rightarrow> 'k drv \<Rightarrow> 'k drv option" where
  "complete_flips K M flush n p 0 s = Some s"
| "complete_flips K M flush n p (Suc m) s =
     Option.bind (complete_flip K M flush n p s) (complete_flips K M flush n p m)"

text \<open>A master that always has a new frame, and a kernel that takes every flip.\<close>

definition always_presents :: "'k kernel \<Rightarrow> 'k master \<Rightarrow> bool" where
  "always_presents K M \<longleftrightarrow>
     (\<forall>px k. fst (PresentSharedPixmap M px k)) \<and>
     (\<forall>c fb f d k. 0 \<le> fst (fst (drmModePageFlip K c fb f d k)))"

lemma shared_flip_accepted:
  assumes "always_presents K M" and "mem_ok s = []"
  shows "\<exists>s'. drmmode_SharedPixmapFlip K px p s = (True, s') \<and> mem_ok s' = [] \<and> crtcs s' = crtcs s \<and>
    (\<exists>q. ms_drm_queue s' = q # ms_drm_queue s \<and> q_crtc q = p \<and>
         q_data q = CB_shared px (prime_pixmap (crtcs s p)) p True)"
proof -
  obtain sq where sq: "ms_drm_queue_alloc p (CB_shared px (prime_pixmap (crtcs s p)) p True) s =
      (sq, s\<lparr>ms_drm_seq := sq + 1, ms_drm_queue := \<lparr>q_crtc = p, q_seq = sq,
         q_data = CB_shared px (prime_pixmap (crtcs s p)) p True, q_scrn = crtc_scrn (crtcs s p)\<rparr> # ms_drm_queue s\<rparr>)"
    using queue_alloc_mem [OF assms(2)] by blast
  have "\<not> fst (fst (drmModePageFlip K c fb f d k)) < 0" for c fb f d k
    using assms(1) by (simp add: always_presents_def not_less)
  with assms(2) show ?thesis
    by (simp add: drmmode_SharedPixmapFlip_def calloc_mem sq Let_def case_prod_beta upd_ppriv_def)
qed

lemma complete_flip_step:
  assumes "always_presents K M" and "mem_ok s = []" and "flipping_to f b p s"
  shows "\<exists>s'. complete_flip K M flush n p s = Some s' \<and> mem_ok s' = [] \<and> flipping_to b f p s' \<and>
    prime_pixmap (crtcs s' p) = Some f \<and> prime_pixmap_back (crtcs s' p) = Some b"
proof -
  from assms(3) obtain q qs where q: "ms_drm_queue s = q # qs" "q_data q = CB_shared f (Some b) p True"
    by (auto simp: flipping_to_def)
  let ?s = "upd_crtc p (\<lambda>c. c\<lparr>prime_pixmap := Some f, prime_pixmap_back := Some b\<rparr>) (s\<lparr>ms_drm_queue := qs\<rparr>)"
  let ?k = "snd (PresentSharedPixmap M b (kst ?s))"
  have "mem_ok (?s\<lparr>kst := ?k\<rparr>) = []" using assms(2) by (simp add: upd_crtc_def)
  from shared_flip_accepted [OF assms(1) this, of b p] obtain s' where
    s': "drmmode_SharedPixmapFlip K b p (?s\<lparr>kst := ?k\<rparr>) = (True, s')" "mem_ok s' = []"
      "crtcs s' = crtcs ?s" "flipping_to b f p s'"
    by (auto simp: flipping_to_def upd_crtc_def)
  have "fst (PresentSharedPixmap M b (kst ?s))" using assms(1) by (simp add: always_presents_def)
  then have "complete_flip K M flush n p s = Some s'"
    by (simp add: complete_flip_def q drmmode_SharedPixmapVBlankEventHandler_def
        drmmode_SharedPixmapPresent_def case_prod_beta Let_def s'(1))
  then show ?thesis using s' by (simp add: upd_crtc_def)
qed

text \<open>
  C19. Shared pixmaps alternate. While the master has frames to present and the kernel takes
  the flips, after any number of completions the CRTC shows the two pixmaps in turn: what it
  shows is what it last flipped to, and the next flip, already queued, goes to the other one.
\<close>

theorem shared_pixmaps_alternate:
  assumes "always_presents K M" and "mem_ok s = []" and "flipping_to f b p s"
  shows "\<exists>s'. complete_flips K M flush n p (Suc m) s = Some s' \<and>
    (if even m then flipping_to b f p s' \<and> prime_pixmap (crtcs s' p) = Some f
     else flipping_to f b p s' \<and> prime_pixmap (crtcs s' p) = Some b)"
  using assms(2,3)
proof (induction m arbitrary: s f b)
  case 0
  then show ?case using complete_flip_step [OF assms(1), of s f b p flush n] by auto
next
  case (Suc m)
  then obtain t where t: "complete_flip K M flush n p s = Some t" "mem_ok t = []" "flipping_to b f p t"
    using complete_flip_step [OF assms(1)] by blast
  from Suc.IH [OF t(2,3)] show ?case using t(1) by auto
qed

section \<open>Stopping\<close>

lemma drv_abort_ppriv:
  "ppriv (drv_abort d s) =
     (case d of
        CB_shared ft bt c fl \<Rightarrow> (ppriv s)(ft := (ppriv s ft)\<lparr>pp_flip_seq := 0\<rparr>)
      | _ \<Rightarrow> ppriv s)"
  by (cases d)
     (auto simp: ms_present_vblank_abort_def free_present_def fault_def ms_pageflip_abort_def
        ms_pageflip_free_def flip_abort_handler_def ms_present_flip_abort_def ms_dri2_flip_abort_def
        misc_fault_def upd_ms_def ms_dri2_frame_event_abort_def ms_dri2_del_frame_event_def
        ms_dri2_destroy_buffer_def ms_dri2_destroy_buffer2_def emit_def Let_def
        drmmode_SharedPixmapVBlankEventAbort_def upd_ppriv_def split: option.split flip_client.split)

lemma drv_abort_crtcs: "crtcs (drv_abort d s) = crtcs s"
  by (cases d)
     (auto simp: ms_present_vblank_abort_def free_present_def fault_def ms_pageflip_abort_def
        ms_pageflip_free_def flip_abort_handler_def ms_present_flip_abort_def ms_dri2_flip_abort_def
        misc_fault_def upd_ms_def ms_dri2_frame_event_abort_def ms_dri2_del_frame_event_def
        ms_dri2_destroy_buffer_def ms_dri2_destroy_buffer2_def emit_def Let_def
        drmmode_SharedPixmapVBlankEventAbort_def upd_ppriv_def split: option.split flip_client.split)

lemma abort_seq_crtcs: "crtcs (ms_drm_abort_seq drv_abort sq s) = crtcs s"
  by (simp add: ms_drm_abort_seq_def ms_drm_abort_one_def drv_abort_crtcs split: option.split)

text \<open>Every pending event of a shared pixmap is the one its pixmap remembers.\<close>

definition shared_tracked :: "'k drv \<Rightarrow> bool" where
  "shared_tracked s \<longleftrightarrow> (\<forall>q \<in> set (ms_drm_queue s). \<forall>ft bt c fl.
     q_data q = CB_shared ft bt c fl \<longrightarrow> pp_flip_seq (ppriv s ft) = q_seq q)"

lemma abort_seq_flip_seq:
  assumes "shared_tracked s"
  shows "pp_flip_seq (ppriv (ms_drm_abort_seq drv_abort sq s) x) = pp_flip_seq (ppriv s x) \<or>
    pp_flip_seq (ppriv s x) = sq"
proof (cases "find (\<lambda>q. q_seq q = sq) (ms_drm_queue s)")
  case None
  then show ?thesis by (simp add: ms_drm_abort_seq_def)
next
  case (Some q)
  then have "q \<in> set (ms_drm_queue s)" "q_seq q = sq" by (auto simp: find_Some_iff)
  let ?t = "s\<lparr>ms_drm_queue := remove1 q (ms_drm_queue s)\<rparr>"
  have "ppriv (ms_drm_abort_seq drv_abort sq s) = ppriv (drv_abort (q_data q) ?t)"
    using Some by (simp add: ms_drm_abort_seq_def ms_drm_abort_one_def)
  with assms \<open>q \<in> set (ms_drm_queue s)\<close> \<open>q_seq q = sq\<close> show ?thesis
    by (cases "q_data q") (auto simp: drv_abort_ppriv shared_tracked_def simp del: drv_abort.simps)
qed


section \<open>Examples\<close>

text \<open>One CRTC showing pixmap 10, with a flip to pixmap 11 pending.\<close>

definition sink :: "unit drv" where
  "sink = (idle_drv ())\<lparr>ms_drm_seq := 6,
     ms_drm_queue := [\<lparr>q_crtc = 0, q_seq = 5, q_data = CB_shared 11 (Some 10) 0 True, q_scrn = 0\<rparr>],
     crtcs := (\<lambda>_. zero_crtc\<lparr>prime_pixmap := Some 10, prime_pixmap_back := Some 11,
       enable_flipping := True, flipping_active := True\<rparr>),
     ppriv := (\<lambda>px. zero_ppriv\<lparr>pp_flip_seq := if px = 11 then 5 else 0\<rparr>)\<rparr>"

definition busy_master :: "unit master" where
  "busy_master = \<lparr>PresentSharedPixmap = (\<lambda>px k. (True, k)), RequestSharedPixmapNotifyDamage = None\<rparr>"

lemmas sink_defs = sink_def idle_drv_def idle_drm_def drm.extend_def

lemma shared_pixmaps_alternate_witness:
  "\<exists>s'. complete_flips flip_kernel busy_master (\<lambda>_ _. None) 1 0 (Suc 3) sink = Some s' \<and>
     prime_pixmap (crtcs s' 0) = Some 10"
proof -
  have "always_presents flip_kernel busy_master"
    by (simp add: always_presents_def flip_kernel_def busy_master_def)
  moreover have "mem_ok sink = []" "flipping_to 11 10 0 sink"
    by (simp_all add: sink_defs flipping_to_def)
  ultimately have "\<exists>s'. complete_flips flip_kernel busy_master (\<lambda>_ _. None) 1 0 (Suc 3) sink = Some s' \<and>
    (if even (3::nat) then flipping_to 10 11 0 s' \<and> prime_pixmap (crtcs s' 0) = Some 11
     else flipping_to 11 10 0 s' \<and> prime_pixmap (crtcs s' 0) = Some 10)"
    by (rule shared_pixmaps_alternate)
  moreover have "odd (3::nat)" by simp
  ultimately show ?thesis by (auto simp del: complete_flips.simps)
qed


end
