(* ===== verification/Leases.thy ===== *)
theory Leases
  imports Flip_Events
begin

text \<open>
  Leases of CRTCs and connectors to other clients (\<^verbatim>\<open>drmmode_create_lease\<close>,
  \<^verbatim>\<open>drmmode_terminate_lease\<close> and \<^verbatim>\<open>drmmode_validate_leases\<close> of
  \<^verbatim>\<open>src/src/drmmode_display.c\<close>). The server keeps the list of leases; the driver
  hangs the kernel's identifier of the lessee off each, in \<^verbatim>\<open>lease->devPrivate\<close>,
  which is \<open>lease_private\<close> of the screen, a map from leases to identifiers.
\<close>

section \<open>Operations\<close>

text \<open>What the server asks for: the CRTCs and the outputs (by position) of one screen.\<close>

record lease_request =
  lr_scr :: nat
  lr_crtcs :: "nat list"
  lr_outputs :: "nat list"

abbreviation (input) BadValue :: int where "BadValue \<equiv> 2"

definition crtc_objects :: "bool \<Rightarrow> crtc \<Rightarrow> u32 list" where
  "crtc_objects atomic c = crtc_id c # (if atomic then [plane_id c] else [])"

definition lease_objects :: "lease_request \<Rightarrow> 'k drv \<Rightarrow> u32 list" where
  "lease_objects r s =
     (let ms = mss s (lr_scr r) in
      concat (map (\<lambda>p. crtc_objects (atomic_modeset ms) (crtcs s p)) (lr_crtcs r)) @
      map (\<lambda>i. the (out_koutput (outputs ms ! i))) (lr_outputs r))"

text \<open>The number of objects the array is allocated for.\<close>

definition lease_nobjects :: "lease_request \<Rightarrow> 'k drv \<Rightarrow> nat" where
  "lease_nobjects r s =
     (let n = length (lr_crtcs r) + length (lr_outputs r)
      in if atomic_modeset (mss s (lr_scr r)) then n + length (lr_crtcs r) else n)"

definition set_lease_private :: "nat \<Rightarrow> nat \<Rightarrow> u32 option \<Rightarrow> 'k drv \<Rightarrow> 'k drv" where
  "set_lease_private scr l v s = upd_ms scr (\<lambda>m. m\<lparr>lease_private := (lease_private m)(l := v)\<rparr>) s"

text \<open>The status, and the descriptor of the lease when it is created.\<close>

definition drmmode_create_lease ::
  "'k kernel \<Rightarrow> nat \<Rightarrow> lease_request \<Rightarrow> 'k drv \<Rightarrow> (int \<times> int option) \<times> 'k drv" where
  "drmmode_create_lease K l r s =
     (if lease_nobjects r s = 0 then ((BadValue, None), s)
      else case calloc s of (ok, s) \<Rightarrow>
        if \<not> ok then ((BadAlloc, None), s)
        else case calloc s of (ok, s) \<Rightarrow>
          if \<not> ok then ((BadAlloc, None), s)
          else case drmModeCreateLease K (lease_objects r s) (kst s) of
            ((fd, lessee), k) \<Rightarrow>
              let s = s\<lparr>kst := k\<rparr> in
              if fd < 0 then ((BadMatch, None), s)
              else
                let s = set_lease_private (lr_scr r) l (Some lessee) s
                in ((Success, Some fd), s\<lparr>kst := xf86CrtcLeaseStarted K l (kst s)\<rparr>))"

text \<open>What happens to a lease the kernel no longer has.\<close>

definition lease_gone :: "'k kernel \<Rightarrow> nat \<Rightarrow> nat \<Rightarrow> 'k drv \<Rightarrow> 'k drv" where
  "lease_gone K scr l s =
     (let s = set_lease_private scr l None s in s\<lparr>kst := xf86CrtcLeaseTerminated K l (kst s)\<rparr>)"

definition drmmode_terminate_lease :: "'k kernel \<Rightarrow> nat \<Rightarrow> nat \<Rightarrow> 'k drv \<Rightarrow> 'k drv" where
  "drmmode_terminate_lease K scr l s =
     (case lease_private (mss s scr) l of
        None \<Rightarrow> misc_fault s
      | Some lessee \<Rightarrow>
          (case drmModeRevokeLease K lessee (kst s) of (ret, k) \<Rightarrow>
             let s = s\<lparr>kst := k\<rparr> in if ret = 0 then lease_gone K scr l s else s))"

text \<open>
  One turn of the loop over the server's leases. The private is looked at only when there is
  a lessee to compare with; without one it would be a null pointer.
\<close>

definition validate_lease :: "'k kernel \<Rightarrow> nat \<Rightarrow> u32 list \<Rightarrow> nat \<Rightarrow> 'k drv \<Rightarrow> 'k drv" where
  "validate_lease K scr lessees l s =
     (if lessees = [] then lease_gone K scr l s
      else case lease_private (mss s scr) l of
        None \<Rightarrow> misc_fault s
      | Some lessee \<Rightarrow> if lessee \<in> set lessees then s else lease_gone K scr l s)"

text \<open>
  The loop holds on to the next lease before it handles one, so it visits the leases that were
  in the list when it began. \<open>randr\<close> tells whether RandR was initialised.
\<close>

definition drmmode_validate_leases :: "'k kernel \<Rightarrow> bool \<Rightarrow> nat \<Rightarrow> 'k drv \<Rightarrow> 'k drv" where
  "drmmode_validate_leases K randr scr s =
     (if \<not> randr then s
      else if \<not> vtSema (mss s scr) then s
      else case drmModeListLessees K (kst s) of (ls, k) \<Rightarrow>
        let s = s\<lparr>kst := k\<rparr> in
        (case ls of
           None \<Rightarrow> s
         | Some lessees \<Rightarrow> fold (validate_lease K scr lessees) (rr_leases K scr (kst s)) s))"

section \<open>Properties\<close>

text \<open>
  The array of objects of a lease is filled exactly: the assertion before the call into
  the kernel holds for every request and every screen, with and without atomic mode setting,
  so no write is past the allocation; and it holds the identifiers of all CRTCs, their planes
  exactly under atomic mode setting, and the connectors.
\<close>

theorem lease_array_filled:
  "length (lease_objects r s) = lease_nobjects r s \<and>
   set (lease_objects r s) =
     (\<lambda>p. crtc_id (crtcs s p)) ` set (lr_crtcs r) \<union>
     (if atomic_modeset (mss s (lr_scr r)) then (\<lambda>p. plane_id (crtcs s p)) ` set (lr_crtcs r) else {}) \<union>
     (\<lambda>i. the (out_koutput (outputs (mss s (lr_scr r)) ! i))) ` set (lr_outputs r)"
proof -
  have len: "length (concat (map (\<lambda>p. crtc_objects a (crtcs s p)) ps)) = length ps * (if a then 2 else 1)"
    for a ps by (induction ps) (simp_all add: crtc_objects_def)
  have "set (concat (map (\<lambda>p. crtc_objects a (crtcs s p)) ps)) =
      (\<lambda>p. crtc_id (crtcs s p)) ` set ps \<union> (if a then (\<lambda>p. plane_id (crtcs s p)) ` set ps else {})" for a ps
    by (auto simp: crtc_objects_def)
  with len show ?thesis by (simp add: lease_objects_def lease_nobjects_def Let_def)
qed

lemma lease_gone_frames:
  "lease_private (mss (lease_gone K scr l s) scr) = (lease_private (mss s scr))(l := None)"
  "misc_faults (lease_gone K scr l s) = misc_faults s"
  "kst (lease_gone K scr l s) = xf86CrtcLeaseTerminated K l (kst s)"
  by (simp_all add: lease_gone_def set_lease_private_def upd_ms_def Let_def)

definition lapsed :: "u32 list \<Rightarrow> (nat \<Rightarrow> u32 option) \<Rightarrow> nat \<Rightarrow> bool" where
  "lapsed lessees pv l \<longleftrightarrow> (case pv l of None \<Rightarrow> False | Some i \<Rightarrow> i \<notin> set lessees)"

lemma validate_fold:
  assumes "distinct ls" and "\<forall>l \<in> set ls. lease_private (mss s scr) l \<noteq> None"
  shows "let t = fold (validate_lease K scr lessees) ls s; gone = filter (lapsed lessees (lease_private (mss s scr))) ls
    in lease_private (mss t scr) = (\<lambda>l. if l \<in> set gone then None else lease_private (mss s scr) l) \<and>
       kst t = fold (xf86CrtcLeaseTerminated K) gone (kst s) \<and> misc_faults t = misc_faults s"
  using assms
proof (induction ls arbitrary: s)
  case Nil
  then show ?case by simp
next
  case (Cons l ls)
  let ?u = "validate_lease K scr lessees l s"
  from Cons.prems obtain i where i: "lease_private (mss s scr) l = Some i" by auto
  have u: "?u = (if lapsed lessees (lease_private (mss s scr)) l then lease_gone K scr l s else s)"
    using i by (simp add: validate_lease_def lapsed_def)
  have pv: "lease_private (mss ?u scr) m = lease_private (mss s scr) m" if "m \<in> set ls" for m
    using that Cons.prems(1) u by (auto simp: lease_gone_frames)
  then have "filter (lapsed lessees (lease_private (mss ?u scr))) ls = filter (lapsed lessees (lease_private (mss s scr))) ls"
    by (intro filter_cong) (simp_all add: lapsed_def)
  moreover have "\<forall>m \<in> set ls. lease_private (mss ?u scr) m \<noteq> None" using pv Cons.prems(2) by simp
  ultimately show ?case
    using Cons.IH [of ?u] Cons.prems(1) u by (auto simp: Let_def lease_gone_frames fun_eq_iff)
qed

text \<open>
  C23. Leases are validated against the kernel's list. On the screen's VT, with a private on
  every lease, the leases whose lessee the kernel no longer lists lose their private and are
  reported terminated, each once and in order; the others keep theirs; and nothing reaches
  through a null private.
\<close>

theorem leases_validated:
  assumes "vtSema (mss s scr)" and "drmModeListLessees K (kst s) = (Some lessees, k)"
    and "distinct (rr_leases K scr k)"
    and "\<forall>l \<in> set (rr_leases K scr k). lease_private (mss s scr) l \<noteq> None"
    and "drmmode_validate_leases K True scr s = s'"
  shows "lease_private (mss s' scr) l =
      (if l \<in> set (rr_leases K scr k) \<and> lapsed lessees (lease_private (mss s scr)) l
       then None else lease_private (mss s scr) l) \<and>
    kst s' = fold (xf86CrtcLeaseTerminated K)
      (filter (lapsed lessees (lease_private (mss s scr))) (rr_leases K scr k)) k \<and>
    misc_faults s' = misc_faults s"
  using assms validate_fold [of "rr_leases K scr k" "s\<lparr>kst := k\<rparr>" scr K lessees]
  by (auto simp: drmmode_validate_leases_def Let_def)

text \<open>Three leases, the second gone.\<close>

definition lease_kernel :: "nat list kernel" where
  "lease_kernel = dead_kernel\<lparr>drmModeListLessees := \<lambda>k. (Some [11, 13], k), rr_leases := \<lambda>scr k. [0, 1, 2],
     xf86CrtcLeaseTerminated := \<lambda>l k. l # k\<rparr>"

lemma leases_validated_witness:
  "\<exists>s'. drmmode_validate_leases lease_kernel True 0
     ((idle_drv [])\<lparr>mss := (\<lambda>_. zero_ms\<lparr>vtSema := True, lease_private := (\<lambda>l. Some (11 + of_nat l))\<rparr>)\<rparr>) = s' \<and>
     lease_private (mss s' 0) 1 = None \<and> kst s' = [1]"
proof -
  let ?s = "(idle_drv [])\<lparr>mss := (\<lambda>_. zero_ms\<lparr>vtSema := True, lease_private := (\<lambda>l. Some (11 + of_nat l))\<rparr>)\<rparr>"
  have k: "drmModeListLessees lease_kernel (kst ?s) = (Some [11, 13], [])" "rr_leases lease_kernel 0 [] = [0, 1, 2]"
    "xf86CrtcLeaseTerminated lease_kernel l [] = [l]" for l
    by (simp_all add: lease_kernel_def idle_drv_def idle_drm_def drm.extend_def)
  have "vtSema (mss ?s 0)" "distinct (rr_leases lease_kernel 0 [])"
    "\<forall>l \<in> set (rr_leases lease_kernel 0 []). lease_private (mss ?s 0) l \<noteq> None"
    by (simp_all add: k)
  from leases_validated [OF this(1) k(1) this(2,3) refl, of 1] show ?thesis
    by (simp add: k lapsed_def)
qed

end
