(* ===== verification/Kms_Modeset.thy ===== *)
theory Kms_Modeset
  imports Prime_Flip Leases
begin

text \<open>
  Modes, power states and the screen's framebuffer as the server drives them
  (\<^verbatim>\<open>drmmode_crtc_dpms\<close>, \<^verbatim>\<open>drmmode_set_mode_major\<close>, \<^verbatim>\<open>drmmode_output_dpms\<close>,
  \<^verbatim>\<open>drmmode_xf86crtc_resize\<close>, \<^verbatim>\<open>drmmode_set_desired_modes\<close> and the slave
  scanout functions of \<^verbatim>\<open>src/src/drmmode_display.c\<close>).
\<close>

section \<open>The environment\<close>

text \<open>
  What these functions call outside the repository, with the kernel, the flush of the event
  loop and the bound on the retry loop of a vblank request. \<open>xf86CrtcRotate\<close> may call
  the driver back, so it works on the driver's state; the other server functions work on the
  server's, which is part of \<open>'k\<close>. \<open>set_pixmap_size\<close> stands for the assignments to the
  sizes of a pixmap and of its screen.
\<close>

record 'k env =
  kernel_of :: "'k kernel"
  master_of :: "'k master"
  flush_of :: "'k flush"
  loop_bound :: nat
  realloc_oracle :: "nat \<Rightarrow> bool"
  randr_registered :: bool
  xf86CrtcRotate :: "nat \<Rightarrow> 'k drv \<Rightarrow> bool \<times> 'k drv"
  xf86OutputFindClosestMode :: "nat \<Rightarrow> nat \<Rightarrow> 'k \<Rightarrow> display_mode option"
  egl_textured_pixmap :: "nat \<Rightarrow> gbm_bo option \<Rightarrow> bool \<Rightarrow> 'k \<Rightarrow> bool \<times> 'k"
  CreatePixmap :: "nat \<Rightarrow> 'k \<Rightarrow> nat option \<times> 'k"
  ModifyPixmapHeader :: "nat \<Rightarrow> int \<Rightarrow> int \<Rightarrow> int \<Rightarrow> int \<Rightarrow> int \<Rightarrow> bool \<Rightarrow> 'k \<Rightarrow> bool \<times> 'k"
  DestroyPixmap :: "nat \<Rightarrow> 'k \<Rightarrow> 'k"
  pixmap_depth :: "nat \<Rightarrow> 'k \<Rightarrow> u8"
  pixmap_bpp :: "nat \<Rightarrow> 'k \<Rightarrow> u8"
  set_pixmap_size :: "nat \<Rightarrow> int \<Rightarrow> int \<Rightarrow> 'k \<Rightarrow> 'k"
  glamor_clear_pixmap :: "nat \<Rightarrow> 'k \<Rightarrow> 'k"
  GetScratchGC :: "u8 \<Rightarrow> 'k \<Rightarrow> bool"
  miClearDrawable :: "nat \<Rightarrow> 'k \<Rightarrow> 'k"
  PixmapStartDirtyTracking :: "nat \<Rightarrow> nat \<Rightarrow> int \<Rightarrow> 'k \<Rightarrow> 'k"
  PixmapStopDirtyTracking :: "nat \<Rightarrow> nat \<Rightarrow> 'k \<Rightarrow> 'k"
  DamageRegister :: "nat \<Rightarrow> 'k \<Rightarrow> 'k"
  DamageUnregister :: "nat \<Rightarrow> 'k \<Rightarrow> 'k"

section \<open>Power states\<close>

definition drmmode_crtc_dpms :: "'k kernel \<Rightarrow> nat \<Rightarrow> int \<Rightarrow> 'k drv \<Rightarrow> 'k drv" where
  "drmmode_crtc_dpms K p mode s =
     (let s = upd_crtc p (\<lambda>c. c\<lparr>dpms_mode := mode\<rparr>) s; ms = ms_of_crtc s p in
      if atomic_modeset ms then
        (if mode \<noteq> DPMSModeOn \<and> \<not> pending_modeset ms then snd (drmmode_crtc_disable K p s) else s)
      else if \<not> enabled (crtcs s p) then s\<lparr>kst := drmModeSetCrtc_off K (crtc_id (crtcs s p)) (kst s)\<rparr>
      else s)"

definition drmmode_crtc_gamma_set :: "'k kernel \<Rightarrow> nat \<Rightarrow> 'k drv \<Rightarrow> 'k drv" where
  "drmmode_crtc_gamma_set K p s = s\<lparr>kst := drmModeCrtcSetGamma K (crtc_id (crtcs s p)) (kst s)\<rparr>"

text \<open>The drmmode functions of shared flipping in this environment.\<close>

definition init_flipping :: "'k env \<Rightarrow> nat \<Rightarrow> 'k drv \<Rightarrow> 'k drv option" where
  "init_flipping E p s =
     map_option snd (drmmode_InitSharedPixmapFlipping (kernel_of E) (master_of E) (flush_of E) (loop_bound E) p s)"

text \<open>
  \<open>set_mode\<close> is \<^verbatim>\<open>drmmode_set_mode_major\<close>, which calls this function in turn; the
  output is given by its position.
\<close>

definition drmmode_output_dpms ::
  "'k env \<Rightarrow> (nat \<Rightarrow> display_mode option \<Rightarrow> nat \<Rightarrow> int \<Rightarrow> int \<Rightarrow> 'k drv \<Rightarrow> (bool \<times> 'k drv) option) \<Rightarrow>
     nat \<Rightarrow> nat \<Rightarrow> int \<Rightarrow> 'k drv \<Rightarrow> 'k drv option" where
  "drmmode_output_dpms E set_mode scr i mode s =
     (let out = outputs (mss s scr) ! i in
      case out_koutput out of
        None \<Rightarrow> Some s
      | Some connector \<Rightarrow>
          let s = upd_ms scr (\<lambda>m. m\<lparr>outputs := (outputs m)[i := (outputs m ! i)\<lparr>out_dpms := mode\<rparr>]\<rparr>) s;
              s = (if atomic_modeset (mss s scr) then
                     (if mode \<noteq> DPMSModeOn \<and> \<not> pending_modeset (mss s scr)
                      then snd (drmmode_output_disable (kernel_of E) scr i s) else s)
                   else s\<lparr>kst := drmModeConnectorSetProperty (kernel_of E) connector (out_dpms_enum_id out) mode (kst s)\<rparr>)
          in case out_crtc out of
               None \<Rightarrow> Some s
             | Some p \<Rightarrow>
                 if mode = DPMSModeOn then
                   Option.bind
                     (if need_modeset (crtcs s p)
                      then map_option snd (set_mode p (Some (crtc_mode (crtcs s p))) (rotation (crtcs s p))
                             (crtc_x (crtcs s p)) (crtc_y (crtcs s p)) s)
                      else Some s)
                     (\<lambda>s. if enable_flipping (crtcs s p) then init_flipping E p s else Some s)
                 else Some (if enable_flipping (crtcs s p) then drmmode_FiniSharedPixmapFlipping p s else s))"

section \<open>Setting a mode\<close>

text \<open>The loop that turns the outputs of the CRTC on.\<close>

fun outputs_on ::
  "'k env \<Rightarrow> (nat \<Rightarrow> display_mode option \<Rightarrow> nat \<Rightarrow> int \<Rightarrow> int \<Rightarrow> 'k drv \<Rightarrow> (bool \<times> 'k drv) option) \<Rightarrow>
     nat \<Rightarrow> nat \<Rightarrow> nat list \<Rightarrow> 'k drv \<Rightarrow> 'k drv option" where
  "outputs_on E set_mode scr p [] s = Some s"
| "outputs_on E set_mode scr p (i # is) s =
     (let out = outputs (mss s scr) ! i in
      if out_crtc out \<noteq> Some p then outputs_on E set_mode scr p is s
      else if out_id out = -1 then outputs_on E set_mode scr p is s
      else Option.bind (drmmode_output_dpms E set_mode scr i DPMSModeOn s) (outputs_on E set_mode scr p is))"

text \<open>
  What \<^verbatim>\<open>drmmode_set_mode_major\<close> does once the mode has been tested, or set where it
  could not be tested.
\<close>

definition mode_accepted ::
  "'k env \<Rightarrow> (nat \<Rightarrow> display_mode option \<Rightarrow> nat \<Rightarrow> int \<Rightarrow> int \<Rightarrow> 'k drv \<Rightarrow> (bool \<times> 'k drv) option) \<Rightarrow>
     nat \<Rightarrow> nat \<Rightarrow> bool \<Rightarrow> 'k drv \<Rightarrow> (bool \<times> 'k drv) option" where
  "mode_accepted E set_mode p scr can_test s =
     (let K = kernel_of E;
          s = upd_ms scr (\<lambda>m. m\<lparr>pending_modeset := True\<rparr>) s;
          s = upd_crtc p (\<lambda>c. c\<lparr>need_modeset := False\<rparr>) s;
          s = drmmode_crtc_dpms K p DPMSModeOn s
      in case (if prime_pixmap_back (crtcs s p) \<noteq> None then init_flipping E p s else Some s) of
           None \<Rightarrow> None
         | Some s \<Rightarrow>
             (case outputs_on E set_mode scr p [0..<length (outputs (mss s scr))] s of
                None \<Rightarrow> None
              | Some s \<Rightarrow>
                  let s = (if can_test then snd (drmmode_crtc_set_mode K p False s) else s);
                      s = upd_ms scr (\<lambda>m. m\<lparr>pending_modeset := False\<rparr>) s
                  in Some (True, upd_crtc p (\<lambda>c. c\<lparr>active := True\<rparr>) s)))"

text \<open>
  \<^verbatim>\<open>drmmode_set_mode_major\<close> with a bound on how deep it may be nested in itself. No mode
  is \<open>None\<close>.
\<close>

fun set_mode_nested ::
  "'k env \<Rightarrow> nat \<Rightarrow> nat \<Rightarrow> display_mode option \<Rightarrow> nat \<Rightarrow> int \<Rightarrow> int \<Rightarrow> 'k drv \<Rightarrow> (bool \<times> 'k drv) option" where
  "set_mode_nested E 0 p mode rot x y s = None"
| "set_mode_nested E (Suc d) p mode rot x y s =
     (let saved = crtcs s p in
      case mode of
        None \<Rightarrow> Some (True, upd_crtc p (\<lambda>c. c\<lparr>active := True\<rparr>) s)
      | Some m \<Rightarrow>
          let s = upd_crtc p (\<lambda>c. c\<lparr>crtc_mode := m, crtc_x := x, crtc_y := y, rotation := rot\<rparr>) s in
          case xf86CrtcRotate E p s of (ok, s) \<Rightarrow>
            if \<not> ok then Some (True, upd_crtc p (\<lambda>c. c\<lparr>active := True\<rparr>) s)
            else
              let s = drmmode_crtc_gamma_set (kernel_of E) p s; can_test = drmmode_crtc_can_test_mode p s in
              case drmmode_crtc_set_mode (kernel_of E) p can_test s of (r, s) \<Rightarrow>
                if r \<noteq> 0 then
                  Some (False, upd_crtc p (\<lambda>c. c\<lparr>crtc_x := crtc_x saved, crtc_y := crtc_y saved,
                    rotation := rotation saved, crtc_mode := crtc_mode saved\<rparr>) s)
                else mode_accepted E (\<lambda>p mode rot x y s. set_mode_nested E d p mode rot x y s)
                       p (crtc_scrn saved) can_test s)"

definition drmmode_set_mode_major ::
  "'k env \<Rightarrow> nat \<Rightarrow> display_mode option \<Rightarrow> nat \<Rightarrow> int \<Rightarrow> int \<Rightarrow> 'k drv \<Rightarrow> (bool \<times> 'k drv) option" where
  "drmmode_set_mode_major E = set_mode_nested E 2"

section \<open>Setting a mode does not nest\<close>

text \<open>
  What the retry loop of a flip or a vblank request could bring in is the handlers of other
  events; the hypothesis on the flush is that these leave \<^verbatim>\<open>need_modeset\<close> of the CRTC
  cleared, which in the driver only \<^verbatim>\<open>ms_present_unflip\<close> sets, called by the server.
\<close>

definition settled :: "nat \<Rightarrow> 'k drv \<Rightarrow> bool" where
  "settled p s \<longleftrightarrow> \<not> need_modeset (crtcs s p)"

definition flush_settles :: "'k flush \<Rightarrow> nat \<Rightarrow> bool" where
  "flush_settles flush p \<longleftrightarrow>
     (\<forall>scr s r s'. flush scr s = Some (r, s') \<longrightarrow> settled p s \<longrightarrow> settled p s')"

lemma settled_frames [simp]:
  "settled p (s\<lparr>kst := k\<rparr>) = settled p s" "settled p (s\<lparr>errno := e\<rparr>) = settled p s"
  "settled p (s\<lparr>kst := k, errno := e\<rparr>) = settled p s" "settled p (upd_ms scr g s) = settled p s"
  "settled p (upd_ppriv px h s) = settled p s" "settled p (snd (calloc s)) = settled p s"
  "settled p (ms_drm_abort_seq drv_abort sq s) = settled p s"
  by (simp_all add: settled_def upd_ms_def upd_ppriv_def frame_simps abort_seq_crtcs)

lemma settled_upd_crtc [simp]:
  "(\<And>c. need_modeset (f c) = need_modeset c) \<Longrightarrow> settled p (upd_crtc q f s) = settled p s"
  by (simp add: settled_def upd_crtc_def)

lemma settled_queue_alloc [simp]: "settled p (snd (ms_drm_queue_alloc q d s)) = settled p s"
  by (simp add: settled_def ms_drm_queue_alloc_def case_prod_beta Let_def frame_simps)

lemma settled_kernel_msc [simp]: "settled p (snd (ms_kernel_msc_to_crtc_msc q m b s)) = settled p s"
  by (simp add: ms_kernel_msc_to_crtc_msc_def kernel_msc_to_crtc_msc_def Let_def settled_def upd_crtc_def)

lemma settled_vblank_once [simp]: "settled p (snd (queue_vblank_once K q fl m sq s)) = settled p s"
  by (simp add: queue_vblank_once_def Let_def case_prod_beta split: if_split)

lemma queue_vblank_settles:
  assumes "flush_settles flush p"
  shows "ms_queue_vblank K flush drv_abort n q fl m want sq s = Some (r, s') \<Longrightarrow> settled p s \<Longrightarrow> settled p s'"
proof (induction n arbitrary: s)
  case 0
  then show ?case by simp
next
  case (Suc n)
  obtain res t where q: "queue_vblank_once K q fl m sq s = (res, t)" by (metis surj_pair)
  with Suc.prems(2) have t: "settled p t" using settled_vblank_once [of p K q fl m sq s] by simp
  show ?case
  proof (cases res)
    case None
    with Suc q t assms show ?thesis
      by (auto simp: flush_settles_def split: if_splits option.splits)
  next
    case (Some x)
    obtain qd i where x: "x = (qd, i)" by (cases x)
    have "settled p (snd (ms_kernel_msc_to_crtc_msc q qd i t))" using t by simp
    with Suc.prems q Some x t show ?thesis by (auto simp: case_prod_beta split: if_splits)
  qed
qed

lemma init_flipping_settles:
  assumes "flush_settles (flush_of E) p" and "init_flipping E q s = Some s'" and "settled p s"
  shows "settled p s'"
proof -
  let ?K = "kernel_of E" and ?f = "flush_of E" and ?n = "loop_bound E"
  have vbl: "settled p t'" if "drmmode_SharedPixmapPresentOnVBlank ?K ?f ?n px q t = Some (b, t')" "settled p t" for px b t t'
    using that
    by (auto simp: drmmode_SharedPixmapPresentOnVBlank_def case_prod_beta Let_def
        dest!: queue_vblank_settles [OF assms(1)] split: if_splits)
  have flip: "settled p (snd (drmmode_SharedPixmapFlip ?K px q t)) = settled p t" for px t
    by (simp add: drmmode_SharedPixmapFlip_def case_prod_beta Let_def)
  have "settled p t'" if pr: "drmmode_SharedPixmapPresent ?K (master_of E) ?f ?n px q t = Some (b, t')" "settled p t" for px b t t'
  proof -
    obtain d k where d: "PresentSharedPixmap (master_of E) px (kst t) = (d, k)" by (metis surj_pair)
    obtain r u where u: "drmmode_SharedPixmapFlip ?K px q (t\<lparr>kst := k\<rparr>) = (r, u)" by (metis surj_pair)
    have "settled p u" using flip [of px "t\<lparr>kst := k\<rparr>"] u that(2) by simp
    with that d u show ?thesis
      by (auto simp: drmmode_SharedPixmapPresent_def Let_def case_prod_beta dest!: vbl
          split: option.splits if_splits)
  qed
  with assms(2,3) show ?thesis
    by (auto simp: init_flipping_def drmmode_InitSharedPixmapFlipping_def split: if_splits)
qed

lemma output_on_settled:
  assumes "settled p s" and "out_crtc (outputs (mss s scr) ! i) = Some p"
  shows "drmmode_output_dpms E f scr i DPMSModeOn s = drmmode_output_dpms E g scr i DPMSModeOn s"
  using assms by (simp add: drmmode_output_dpms_def Let_def settled_def upd_ms_def split: option.split)

lemma output_on_settles:
  assumes "flush_settles (flush_of E) p" and "settled p s" and "out_crtc (outputs (mss s scr) ! i) = Some p"
    and "drmmode_output_dpms E f scr i DPMSModeOn s = Some s'"
  shows "settled p s'"
proof -
  have *: "(crtcs (upd_ms scr g s) p) = crtcs s p" for g by (simp add: frame_simps)
  show ?thesis
    using assms(2-4)
    by (auto simp: drmmode_output_dpms_def Let_def * dest!: init_flipping_settles [OF assms(1)]
        split: option.splits if_splits) (simp_all add: settled_def)
qed

lemma outputs_on_settled:
  assumes "flush_settles (flush_of E) p"
  shows "settled p s \<Longrightarrow> outputs_on E f scr p is s = outputs_on E g scr p is s"
proof (induction "is" arbitrary: s)
  case Nil
  then show ?case by simp
next
  case (Cons i "is")
  show ?case
  proof (cases "out_crtc (outputs (mss s scr) ! i) = Some p")
    case True
    then have "drmmode_output_dpms E f scr i DPMSModeOn s = drmmode_output_dpms E g scr i DPMSModeOn s"
      by (rule output_on_settled [OF Cons.prems])
    moreover have "outputs_on E f scr p is t = outputs_on E g scr p is t"
      if "drmmode_output_dpms E g scr i DPMSModeOn s = Some t" for t
      using output_on_settles [OF assms Cons.prems True that] by (rule Cons.IH)
    ultimately show ?thesis using Cons
      by (cases "drmmode_output_dpms E g scr i DPMSModeOn s") (simp_all add: Let_def)
  next
    case False
    with Cons show ?thesis by (simp add: Let_def)
  qed
qed

text \<open>A CRTC that is not set up for flipping between shared pixmaps.\<close>

definition no_flipping :: "nat \<Rightarrow> 'k drv \<Rightarrow> bool" where
  "no_flipping p s \<longleftrightarrow> prime_pixmap_back (crtcs s p) = None \<and> \<not> enable_flipping (crtcs s p)"

lemma output_on_plain:
  assumes "no_flipping p s" and "settled p s" and "out_crtc (outputs (mss s scr) ! i) = Some p"
  shows "\<exists>t. drmmode_output_dpms E f scr i DPMSModeOn s = Some t \<and> crtcs t = crtcs s"
  using assms
  by (auto simp: drmmode_output_dpms_def Let_def no_flipping_def settled_def frame_simps split: option.split)

lemma outputs_on_plain:
  "no_flipping p s \<Longrightarrow> settled p s \<Longrightarrow> \<exists>t. outputs_on E f scr p is s = Some t \<and> crtcs t = crtcs s"
proof (induction "is" arbitrary: s)
  case Nil
  then show ?case by simp
next
  case (Cons i "is")
  show ?case
  proof (cases "out_crtc (outputs (mss s scr) ! i) = Some p \<and> out_id (outputs (mss s scr) ! i) \<noteq> -1")
    case True
    then obtain t where t: "drmmode_output_dpms E f scr i DPMSModeOn s = Some t" "crtcs t = crtcs s"
      using output_on_plain [OF Cons.prems] by blast
    with Cons.prems have "no_flipping p t" "settled p t" by (simp_all add: no_flipping_def settled_def)
    from Cons.IH [OF this] True t show ?thesis by (auto simp: Let_def)
  next
    case False
    with Cons show ?thesis by (auto simp: Let_def)
  qed
qed

text \<open>Programming the mode touches the routing only by recording the outputs.\<close>

lemma crtc_set_mode_routing:
  assumes "drmmode_crtc_set_mode K p test s = (r, s')"
  obtains t where "same_routing s t" and
    "s' = t \<or> r = 0 \<and> \<not> test \<and> s' = upd_ms (crtc_scrn (crtcs s p)) (\<lambda>m. m\<lparr>outputs := map (track_output p) (outputs m)\<rparr>) t"
proof -
  obtain v u where u: "drmmode_crtc_get_fb_id K p s = (v, u)" by (metis surj_pair)
  then have su: "same_routing s u" using same_routing_get_fb_id [of s K p] by simp
  show thesis
  proof (cases v)
    case None
    with assms u su show thesis by (intro that [of u]) (simp_all add: drmmode_crtc_set_mode_def)
  next
    case (Some a)
    obtain fb x y where a: "a = (fb, x, y)" by (cases a)
    define w where "w = (if ms_glamor (mss u (crtc_scrn (crtcs s p)))
      then u\<lparr>kst := glamor_finish K (crtc_scrn (crtcs s p)) (kst u)\<rparr> else u)"
    have sw: "same_routing s w"
      using su same_routing_trans [OF su same_routing_kst(1)] by (simp add: w_def)
    show thesis
    proof (cases "atomic_modeset (mss w (crtc_scrn (crtcs s p)))")
      case True
      then have e: "set_mode_atomic K p test fb x y w = (r, s')"
        using assms u Some a by (simp add: drmmode_crtc_set_mode_def Let_def w_def)
      show thesis
      proof (rule set_mode_atomic_cases [of w K p test fb x y], goal_cases)
        case (1 t)
        have "crtc_scrn (crtcs w p) = crtc_scrn (crtcs s p)" using sw by (simp add: same_routing_def)
        with 1(2) e have "s' = (if r = 0 \<and> \<not> test then upd_ms (crtc_scrn (crtcs s p))
            (\<lambda>m. m\<lparr>outputs := map (track_output p) (outputs m)\<rparr>) t else t)" by simp
        then show ?case by (intro that [OF same_routing_trans [OF sw 1(1)]]) (simp split: if_splits)
      qed
    next
      case False
      obtain ok z where z: "calloc w = (ok, z)" by (metis surj_pair)
      then have wz: "same_routing w z" using same_routing_calloc [of w] by simp
      from assms u Some a False z have "s' = z \<or> (\<exists>k. s' = z\<lparr>kst := k\<rparr>)"
        by (auto simp: drmmode_crtc_set_mode_def Let_def case_prod_beta split: if_splits simp flip: w_def)
      then have "same_routing z s'" by (auto intro: same_routing_kst)
      then have "same_routing s s'" by (blast intro: same_routing_trans sw wz)
      then show thesis by (rule that) simp
    qed
  qed
qed

definition mode_view :: "crtc \<Rightarrow> display_mode \<times> nat \<times> int \<times> int \<times> bool" where
  "mode_view c = (crtc_mode c, rotation c, crtc_x c, crtc_y c, active c)"

lemma same_routing_views:
  assumes "same_routing s t"
  shows "mode_view (crtcs t q) = mode_view (crtcs s q)" "no_flipping q t = no_flipping q s"
    "crtc_scrn (crtcs t q) = crtc_scrn (crtcs s q)" "outputs (mss t scr) = outputs (mss s scr)"
  using assms by (simp_all add: same_routing_def mode_view_def no_flipping_def)

lemma crtc_set_mode_views:
  assumes "drmmode_crtc_set_mode K p test s = (r, s')"
  shows "mode_view (crtcs s' q) = mode_view (crtcs s q)" "no_flipping q s' = no_flipping q s"
    "crtc_scrn (crtcs s' q) = crtc_scrn (crtcs s q)"
    "r \<noteq> 0 \<Longrightarrow> outputs (mss s' scr) = outputs (mss s scr)"
proof -
  obtain t where t: "same_routing s t" and e: "s' = t \<or> r = 0 \<and> \<not> test \<and>
      s' = upd_ms (crtc_scrn (crtcs s p)) (\<lambda>m. m\<lparr>outputs := map (track_output p) (outputs m)\<rparr>) t"
    using crtc_set_mode_routing [OF assms] .
  have c: "crtcs s' = crtcs t" using e by (auto simp: frame_simps)
  show "mode_view (crtcs s' q) = mode_view (crtcs s q)" "no_flipping q s' = no_flipping q s"
    "crtc_scrn (crtcs s' q) = crtc_scrn (crtcs s q)"
    using same_routing_views [OF t, of q] c by (simp_all add: no_flipping_def)
  show "r \<noteq> 0 \<Longrightarrow> outputs (mss s' scr) = outputs (mss s scr)"
    using e same_routing_views(4) [OF t] by auto
qed

lemma mode_accepted_settled:
  assumes "flush_settles (flush_of E) p"
  shows "mode_accepted E f p scr can_test s = mode_accepted E g p scr can_test s"
proof -
  let ?t = "drmmode_crtc_dpms (kernel_of E) p DPMSModeOn (upd_crtc p (\<lambda>c. c\<lparr>need_modeset := False\<rparr>)
      (upd_ms scr (\<lambda>m. m\<lparr>pending_modeset := True\<rparr>) s))"
  have t: "settled p ?t"
    by (auto simp: drmmode_crtc_dpms_def settled_def upd_crtc_def Let_def)
  show ?thesis
  proof (cases "if prime_pixmap_back (crtcs ?t p) \<noteq> None then init_flipping E p ?t else Some ?t")
    case None
    then show ?thesis unfolding mode_accepted_def Let_def by simp
  next
    case (Some u)
    then have "settled p u" using t init_flipping_settles [OF assms] by (auto split: if_splits)
    then show ?thesis
      unfolding mode_accepted_def Let_def Some by (simp add: outputs_on_settled [OF assms, of u f scr _ g])
  qed
qed

lemma mode_accepted_plain:
  assumes "no_flipping p s"
  shows "\<exists>t. mode_accepted E f p scr can_test s = Some (True, t) \<and>
    no_flipping q t = no_flipping q s \<and>
    mode_view (crtcs t q) = (if q = p then (crtc_mode (crtcs s p), rotation (crtcs s p), crtc_x (crtcs s p), crtc_y (crtcs s p), True)
       else mode_view (crtcs s q))"
proof -
  let ?t = "drmmode_crtc_dpms (kernel_of E) p DPMSModeOn (upd_crtc p (\<lambda>c. c\<lparr>need_modeset := False\<rparr>)
      (upd_ms scr (\<lambda>m. m\<lparr>pending_modeset := True\<rparr>) s))"
  have v: "mode_view (crtcs ?t q) = mode_view (crtcs s q)" "no_flipping q ?t = no_flipping q s" for q
    by (auto simp: drmmode_crtc_dpms_def upd_crtc_def upd_ms_def Let_def mode_view_def no_flipping_def)
  have "settled p ?t" by (auto simp: drmmode_crtc_dpms_def settled_def upd_crtc_def Let_def)
  from outputs_on_plain [OF v(2) [THEN iffD2, OF assms] this, of E f scr "[0..<length (outputs (mss ?t scr))]"]
  obtain u where u: "outputs_on E f scr p [0..<length (outputs (mss ?t scr))] ?t = Some u" "crtcs u = crtcs ?t" by blast
  define w where "w = (if can_test then snd (drmmode_crtc_set_mode (kernel_of E) p False u) else u)"
  have "mode_view (crtcs w q) = mode_view (crtcs u q)" "no_flipping q w = no_flipping q u" for q
    using crtc_set_mode_views(1,2) [of "kernel_of E" p False u "fst (drmmode_crtc_set_mode (kernel_of E) p False u)"]
    by (auto simp: w_def)
  then have w: "mode_view (crtcs w q) = mode_view (crtcs s q)" "no_flipping q w = no_flipping q s" for q
    using v u(2) by (simp_all add: no_flipping_def)
  have "prime_pixmap_back (crtcs ?t p) = None" using v(2) [of p] assms by (simp add: no_flipping_def)
  then have "mode_accepted E f p scr can_test s =
      Some (True, upd_crtc p (\<lambda>c. c\<lparr>active := True\<rparr>) (upd_ms scr (\<lambda>m. m\<lparr>pending_modeset := False\<rparr>) w))"
    by (simp add: mode_accepted_def Let_def u(1) flip: w_def)
  with w show ?thesis
    by (intro exI [of _ "upd_crtc p (\<lambda>c. c\<lparr>active := True\<rparr>) (upd_ms scr (\<lambda>m. m\<lparr>pending_modeset := False\<rparr>) w)"])
       (simp add: upd_crtc_def upd_ms_def mode_view_def no_flipping_def)
qed

text \<open>
  C14. Setting a mode does not nest and returns. \<^verbatim>\<open>drmmode_set_mode_major\<close> and
  \<^verbatim>\<open>drmmode_output_dpms\<close> call each other, but the CRTC's \<^verbatim>\<open>need_modeset\<close> is
  cleared before its outputs are turned on, so the inner call never happens, whatever depth is
  allowed; and on a CRTC that does not flip between shared pixmaps nothing else waits either:
  the function always returns.
\<close>

theorem set_mode_does_not_nest:
  assumes "flush_settles (flush_of E) p"
  shows "set_mode_nested E (Suc d) p mode rot x y s = drmmode_set_mode_major E p mode rot x y s \<and>
    ((\<forall>t. same_routing t (snd (xf86CrtcRotate E p t))) \<longrightarrow> no_flipping p s \<longrightarrow>
       drmmode_set_mode_major E p mode rot x y s \<noteq> None)"
proof -
  have "mode_accepted E (set_mode_nested E d) p scr c t = mode_accepted E (\<lambda>_ _ _ _ _ _. None) p scr c t" for d scr c t
    by (rule mode_accepted_settled [OF assms])
  then have "set_mode_nested E (Suc d) p mode rot x y s = set_mode_nested E (Suc 1) p mode rot x y s" for d
    by (simp only: set_mode_nested.simps(2))
  moreover have "drmmode_set_mode_major E p mode rot x y s \<noteq> None"
    if rot: "\<forall>t. same_routing t (snd (xf86CrtcRotate E p t))" and "no_flipping p s"
  proof (cases mode)
    case None
    then show ?thesis by (simp add: drmmode_set_mode_major_def numeral_2_eq_2)
  next
    case (Some m)
    let ?s = "upd_crtc p (\<lambda>c. c\<lparr>crtc_mode := m, crtc_x := x, crtc_y := y, rotation := rot\<rparr>) s"
    obtain ok t where t: "xf86CrtcRotate E p ?s = (ok, t)" by (metis surj_pair)
    let ?t = "drmmode_crtc_gamma_set (kernel_of E) p t"
    have "no_flipping p ?s" using that(2) by (simp add: no_flipping_def upd_crtc_def)
    with rot t have "no_flipping p t" using same_routing_views(2) [of ?s t p] by (metis snd_conv)
    then have "no_flipping p ?t" by (simp add: no_flipping_def drmmode_crtc_gamma_set_def)
    moreover obtain r u where u: "drmmode_crtc_set_mode (kernel_of E) p (drmmode_crtc_can_test_mode p ?t) ?t = (r, u)"
      by (metis surj_pair)
    ultimately have "no_flipping p u" using crtc_set_mode_views(2) by blast
    then have "mode_accepted E (set_mode_nested E 1) p scr c u \<noteq> None" for scr c
      using mode_accepted_plain [of p u E "set_mode_nested E 1" scr c p] by auto
    with t u Some show ?thesis
      by (auto simp: drmmode_set_mode_major_def numeral_2_eq_2 Let_def)
  qed
  ultimately show ?thesis by (simp add: drmmode_set_mode_major_def numeral_2_eq_2)
qed

text \<open>
  C15. What a mode set leaves behind. When the function reports failure, the CRTC has the mode,
  rotation and position it had, and no output is recorded differently; when it reports success
  it has the requested ones and is active. No other CRTC's mode changes either way.
\<close>

theorem set_mode_outcome:
  assumes "\<forall>t. same_routing t (snd (xf86CrtcRotate E p t))" and "no_flipping p s"
    and "drmmode_set_mode_major E p (Some m) rot x y s = Some (ok, s')"
  shows "mode_view (crtcs s' q) =
      (if q = p \<and> ok then (m, rot, x, y, True) else mode_view (crtcs s q)) \<and>
    (\<not> ok \<longrightarrow> outputs (mss s' scr) = outputs (mss s scr))"
proof -
  let ?s = "upd_crtc p (\<lambda>c. c\<lparr>crtc_mode := m, crtc_x := x, crtc_y := y, rotation := rot\<rparr>) s"
  obtain r1 t where t: "xf86CrtcRotate E p ?s = (r1, t)" by (metis surj_pair)
  let ?t = "drmmode_crtc_gamma_set (kernel_of E) p t"
  let ?c = "drmmode_crtc_can_test_mode p ?t"
  obtain r u where u: "drmmode_crtc_set_mode (kernel_of E) p ?c ?t = (r, u)" by (metis surj_pair)
  have v0: "mode_view (crtcs ?s q) = (if q = p then (m, rot, x, y, active (crtcs s p)) else mode_view (crtcs s q))"
    "no_flipping p ?s" "outputs (mss ?s scr) = outputs (mss s scr)" for q
    using assms(2) by (simp_all add: upd_crtc_def mode_view_def no_flipping_def)
  have "same_routing ?s t" using assms(1) t by (metis snd_conv)
  note vt = same_routing_views [OF this, unfolded v0]
  have gs: "crtcs ?t = crtcs t" "mss ?t = mss t" by (simp_all add: drmmode_crtc_gamma_set_def)
  have vu: "mode_view (crtcs u q) = mode_view (crtcs t q)" "r \<noteq> 0 \<Longrightarrow> outputs (mss u scr) = outputs (mss t scr)" for q
    using crtc_set_mode_views(1,4) [OF u] by (simp_all add: gs)
  have "no_flipping p u" using crtc_set_mode_views(2) [OF u, of p] vt(2) [of p] v0(2) by (simp add: no_flipping_def gs)
  from mode_accepted_plain [OF this, of E "set_mode_nested E 1" "crtc_scrn (crtcs s p)" ?c q]
  obtain w where w: "mode_accepted E (set_mode_nested E 1) p (crtc_scrn (crtcs s p)) ?c u = Some (True, w)"
    "mode_view (crtcs w q) = (if q = p then (crtc_mode (crtcs u p), rotation (crtcs u p), crtc_x (crtcs u p),
       crtc_y (crtcs u p), True) else mode_view (crtcs u q))" by blast
  let ?undo = "\<lambda>c. c\<lparr>crtc_x := crtc_x (crtcs s p), crtc_y := crtc_y (crtcs s p),
      rotation := rotation (crtcs s p), crtc_mode := crtc_mode (crtcs s p)\<rparr>"
  have e: "(ok, s') = (if \<not> r1 then (True, upd_crtc p (\<lambda>c. c\<lparr>active := True\<rparr>) t)
      else if r \<noteq> 0 then (False, upd_crtc p ?undo u) else (True, w))"
    using assms(3) t u w(1) by (simp add: drmmode_set_mode_major_def numeral_2_eq_2 Let_def split: if_splits)
  have "mode_view (crtcs u p) = (m, rot, x, y, active (crtcs s p))" "mode_view (crtcs t p) = (m, rot, x, y, active (crtcs s p))"
    using vt(1) [of p] v0(1) [of p] vu(1) [of p] by simp_all
  moreover have "q \<noteq> p \<Longrightarrow> mode_view (crtcs u q) = mode_view (crtcs s q)" "q \<noteq> p \<Longrightarrow> mode_view (crtcs t q) = mode_view (crtcs s q)"
    using vt(1) [of q] v0(1) [of q] vu(1) [of q] by simp_all
  ultimately show ?thesis
    using e w(2) vu(2) vt(4) by (auto simp: mode_view_def upd_crtc_def split: if_splits)
qed

text \<open>What a mode set leaves alone: the screen's buffer and size, and who is enabled and flipping.\<close>

definition screen_view :: "modesetting \<Rightarrow> drmmode_bo \<times> int \<times> int \<times> int \<times> u32 option \<times> nat list" where
  "screen_view m = (front_bo m, virtualX m, virtualY m, displayWidth m, shadow_fb m, config m)"

definition kept :: "'k drv \<Rightarrow> 'k drv \<Rightarrow> bool" where
  "kept s t \<longleftrightarrow> (\<forall>scr. screen_view (mss t scr) = screen_view (mss s scr)) \<and>
     (\<forall>q. enabled (crtcs t q) = enabled (crtcs s q) \<and> crtc_scrn (crtcs t q) = crtc_scrn (crtcs s q) \<and>
          prime_pixmap_back (crtcs t q) = prime_pixmap_back (crtcs s q) \<and>
          enable_flipping (crtcs t q) = enable_flipping (crtcs s q))"

lemma kept_refl [simp, intro]: "kept s s"
  by (simp add: kept_def)

lemma kept_trans [trans]: "kept s t \<Longrightarrow> kept t u \<Longrightarrow> kept s u"
  by (simp add: kept_def)

lemma kept_no_flipping: "kept s t \<Longrightarrow> no_flipping q t = no_flipping q s"
  by (simp add: kept_def no_flipping_def)

lemma kept_routing: "same_routing s t \<Longrightarrow> kept s t"
  by (simp add: kept_def same_routing_def screen_view_def)

lemma kept_updates:
  "(\<And>m. screen_view (g m) = screen_view m) \<Longrightarrow> kept s (upd_ms scr g s)"
  "(\<And>c. enabled (f c) = enabled c \<and> crtc_scrn (f c) = crtc_scrn c \<and>
     prime_pixmap_back (f c) = prime_pixmap_back c \<and> enable_flipping (f c) = enable_flipping c) \<Longrightarrow>
     kept s (upd_crtc p f s)"
  "kept s (s\<lparr>kst := k\<rparr>)"
  by (simp_all add: kept_def upd_ms_def upd_crtc_def)

lemma kept_crtc_set_mode: "drmmode_crtc_set_mode K p test s = (r, s') \<Longrightarrow> kept s s'"
proof (erule crtc_set_mode_routing)
  fix t
  assume t: "same_routing s t" and e: "s' = t \<or> r = 0 \<and> \<not> test \<and>
      s' = upd_ms (crtc_scrn (crtcs s p)) (\<lambda>m. m\<lparr>outputs := map (track_output p) (outputs m)\<rparr>) t"
  have "kept t (upd_ms scr (\<lambda>m. m\<lparr>outputs := map (track_output p) (outputs m)\<rparr>) t)" for scr
    by (rule kept_updates) (simp add: screen_view_def)
  with e kept_routing [OF t] show "kept s s'" by (elim disjE conjE) (simp_all add: kept_def)
qed

lemma kept_output_on:
  assumes "no_flipping p s" and "settled p s" and "out_crtc (outputs (mss s scr) ! i) = Some p"
    and "drmmode_output_dpms E f scr i DPMSModeOn s = Some t"
  shows "kept s t"
proof -
  let ?u = "upd_ms scr (\<lambda>m. m\<lparr>outputs := (outputs m)[i := (outputs m ! i)\<lparr>out_dpms := DPMSModeOn\<rparr>]\<rparr>) s"
  have "kept s ?u" by (rule kept_updates) (simp add: screen_view_def)
  then have "kept s (?u\<lparr>kst := k\<rparr>)" for k by (rule kept_trans) (rule kept_updates)
  moreover have "t = s \<or> (\<exists>k. t = ?u\<lparr>kst := k\<rparr>)"
  proof (cases "out_koutput (outputs (mss s scr) ! i)")
    case None
    with assms(4) show ?thesis by (simp add: drmmode_output_dpms_def)
  next
    case (Some c)
    define v where "v = ?u"
    define k where "k = drmModeConnectorSetProperty (kernel_of E) c (out_dpms_enum_id (outputs (mss s scr) ! i)) DPMSModeOn (kst v)"
    have "crtcs v = crtcs s" by (simp add: v_def frame_simps)
    then have "t = (if atomic_modeset (mss v scr) then v else v\<lparr>kst := k\<rparr>)"
      using assms Some
      by (simp add: drmmode_output_dpms_def Let_def no_flipping_def settled_def k_def split: if_splits flip: v_def)
    moreover have "v\<lparr>kst := kst v\<rparr> = v" by simp
    ultimately have "t = v\<lparr>kst := (if atomic_modeset (mss v scr) then kst v else k)\<rparr>" by simp
    then show ?thesis unfolding v_def by blast
  qed
  ultimately show ?thesis by (elim disjE exE) simp_all
qed

lemma kept_outputs_on:
  "no_flipping p s \<Longrightarrow> settled p s \<Longrightarrow> outputs_on E f scr p is s = Some t \<Longrightarrow> kept s t"
proof (induction "is" arbitrary: s)
  case Nil
  then show ?case by simp
next
  case (Cons i "is")
  show ?case
  proof (cases "out_crtc (outputs (mss s scr) ! i) = Some p \<and> out_id (outputs (mss s scr) ! i) \<noteq> -1")
    case True
    with Cons.prems obtain u where u: "drmmode_output_dpms E f scr i DPMSModeOn s = Some u"
      "outputs_on E f scr p is u = Some t" "crtcs u = crtcs s"
      using output_on_plain [OF Cons.prems(1,2), of scr i E f] by (auto simp: Let_def)
    with Cons.prems have "no_flipping p u" "settled p u" by (simp_all add: no_flipping_def settled_def)
    from Cons.IH [OF this u(2)] kept_output_on [OF Cons.prems(1,2) _ u(1)] True show ?thesis
      by (blast intro: kept_trans)
  next
    case False
    with Cons show ?thesis by (auto simp: Let_def split: if_splits)
  qed
qed

lemma kept_mode_accepted:
  assumes "no_flipping p s" and "mode_accepted E f p scr can_test s = Some (ok, t)"
  shows "kept s t"
proof -
  let ?t = "drmmode_crtc_dpms (kernel_of E) p DPMSModeOn (upd_crtc p (\<lambda>c. c\<lparr>need_modeset := False\<rparr>)
      (upd_ms scr (\<lambda>m. m\<lparr>pending_modeset := True\<rparr>) s))"
  have st: "kept s ?t"
    by (simp add: drmmode_crtc_dpms_def Let_def kept_def upd_crtc_def upd_ms_def screen_view_def)
  then have nf: "no_flipping p ?t" using assms(1) by (simp add: kept_no_flipping)
  have set: "settled p ?t" by (auto simp: drmmode_crtc_dpms_def settled_def upd_crtc_def Let_def)
  from assms(2) nf obtain u where u: "outputs_on E f scr p [0..<length (outputs (mss ?t scr))] ?t = Some u"
    and e: "t = upd_crtc p (\<lambda>c. c\<lparr>active := True\<rparr>) (upd_ms scr (\<lambda>m. m\<lparr>pending_modeset := False\<rparr>)
        (if can_test then snd (drmmode_crtc_set_mode (kernel_of E) p False u) else u))"
    by (auto simp: mode_accepted_def Let_def no_flipping_def split: option.splits)
  have "kept u (if can_test then snd (drmmode_crtc_set_mode (kernel_of E) p False u) else u)"
    using kept_crtc_set_mode [of "kernel_of E" p False u] by (metis kept_refl prod.collapse)
  also have "kept v (upd_ms scr (\<lambda>m. m\<lparr>pending_modeset := False\<rparr>) v)" for v :: "'k drv"
    by (rule kept_updates) (simp add: screen_view_def)
  also have "kept v (upd_crtc p (\<lambda>c. c\<lparr>active := True\<rparr>) v)" for v :: "'k drv" by (rule kept_updates) simp
  finally have "kept u t" unfolding e .
  with st kept_outputs_on [OF nf set u] show ?thesis by (blast intro: kept_trans)
qed

lemma kept_set_mode:
  assumes "\<forall>t. same_routing t (snd (xf86CrtcRotate E p t))" and "no_flipping p s"
    and "drmmode_set_mode_major E p (Some m) rot x y s = Some (ok, s')"
  shows "kept s s'"
proof -
  let ?s = "upd_crtc p (\<lambda>c. c\<lparr>crtc_mode := m, crtc_x := x, crtc_y := y, rotation := rot\<rparr>) s"
  obtain r1 t where t: "xf86CrtcRotate E p ?s = (r1, t)" by (metis surj_pair)
  let ?t = "drmmode_crtc_gamma_set (kernel_of E) p t"
  let ?c = "drmmode_crtc_can_test_mode p ?t"
  obtain r u where u: "drmmode_crtc_set_mode (kernel_of E) p ?c ?t = (r, u)" by (metis surj_pair)
  have "kept s ?s" by (rule kept_updates) simp
  also have "kept ?s t" using assms(1) t by (metis kept_routing snd_conv)
  finally have st: "kept s t" .
  also have "kept t ?t" by (simp add: drmmode_crtc_gamma_set_def kept_updates)
  also have "kept ?t u" by (rule kept_crtc_set_mode [OF u])
  finally have su: "kept s u" .
  then have "no_flipping p u" using assms(2) by (simp add: kept_no_flipping)
  have upd: "kept v (upd_crtc p (\<lambda>c. c\<lparr>active := True\<rparr>) v)"
    "kept v (upd_crtc p (\<lambda>c. c\<lparr>crtc_x := a, crtc_y := b, rotation := d, crtc_mode := e\<rparr>) v)" for v a b d e
    by (rule kept_updates, simp)+
  from assms(3) t u consider "s' = upd_crtc p (\<lambda>c. c\<lparr>active := True\<rparr>) t"
    | a b d e where "s' = upd_crtc p (\<lambda>c. c\<lparr>crtc_x := a, crtc_y := b, rotation := d, crtc_mode := e\<rparr>) u"
    | "mode_accepted E (set_mode_nested E 1) p (crtc_scrn (crtcs s p)) ?c u = Some (ok, s')"
    by (auto simp: drmmode_set_mode_major_def numeral_2_eq_2 Let_def split: if_splits)
  then show ?thesis
  proof cases
    case 1
    then show ?thesis using kept_trans [OF st upd(1)] by simp
  next
    case (2 a b d e)
    then show ?thesis using kept_trans [OF su upd(2)] by simp
  next
    case 3
    from kept_trans [OF su kept_mode_accepted [OF \<open>no_flipping p u\<close> 3]] show ?thesis .
  qed
qed

section \<open>Mode sets keep the owners of records\<close>

lemma same_owned_crtc_disable: "same_owned s (snd (drmmode_crtc_disable K p s))" for s :: "'k drv"
proof (rule same_owned_routing)
  obtain ok t where c: "calloc s = (ok, t)" by (metis surj_pair)
  obtain r1 rs where a: "crtc_add_prop (crtcs t p) CRTC_ACTIVE 0 ([], t) = (r1, rs)" by (metis surj_pair)
  obtain r2 req u where b: "or_ret r1 (crtc_add_prop (crtcs t p) CRTC_MODE_ID 0 rs) = (r2, req, u)" by (metis surj_pair)
  have "same_routing s t" using same_routing_calloc [of s] c by simp
  also have "same_routing t (snd rs)" using same_routing_add_props(2) [of "([], t)" "crtcs t p" CRTC_ACTIVE 0] a by simp
  also have "same_routing (snd rs) u"
    using same_routing_add_props(2) [of rs "crtcs t p" CRTC_MODE_ID 0] b by (metis snd_conv snd_or_ret(1))
  finally have su: "same_routing s u" .
  have "snd (drmmode_crtc_disable K p s) \<in> {t, u, snd (atomic_commit K req DRM_MODE_ATOMIC_ALLOW_MODESET 0 u)}"
    using c a b by (simp add: drmmode_crtc_disable_def)
  with \<open>same_routing s t\<close> su same_routing_trans [OF su same_routing_commit]
  show "same_routing s (snd (drmmode_crtc_disable K p s))" by auto
qed

lemma same_owned_output_disable: "same_owned s (snd (drmmode_output_disable K scr i s))" for s :: "'k drv"
proof -
  obtain ok t where c: "calloc s = (ok, t)" by (metis surj_pair)
  let ?out = "outputs (mss t scr) ! i"
  obtain r1 rs where a: "connector_add_prop ?out CONNECTOR_CRTC_ID 0 ([], t) = (r1, rs)" by (metis surj_pair)
  obtain r2 req u where b: "(case out_current_crtc ?out of None \<Rightarrow> (r1, rs)
      | Some p \<Rightarrow> (case crtc_add_dpms_props K p DPMSModeOff rs of (act, r, rs) \<Rightarrow> (r1 OR r, rs))) = (r2, req, u)"
    by (metis surj_pair)
  obtain r3 v where d: "(if r2 = 0 then atomic_commit K req DRM_MODE_ATOMIC_ALLOW_MODESET 0 u else (r2, u)) = (r3, v)"
    by (metis surj_pair)
  have st: "same_routing s t" using same_routing_calloc [of s] c by simp
  also have "same_routing t (snd rs)"
    using same_routing_add_props(3) [of "([], t)" ?out CONNECTOR_CRTC_ID 0] a by simp
  also have "same_routing (snd rs) u"
    using b same_routing_crtc_add_dpms [of rs K _ DPMSModeOff]
    by (auto simp: case_prod_beta split: option.splits) (metis snd_conv)
  also have "same_routing u v" using d same_routing_commit [of u K req _ 0] by (metis same_routing_refl snd_conv)
  finally have sv: "same_owned s v" by (rule same_owned_routing)
  have "snd (drmmode_output_disable K scr i s) = (if \<not> ok then t else if r3 = 0 then
      upd_ms scr (\<lambda>m. m\<lparr>outputs := (outputs m)[i := (outputs m ! i)\<lparr>out_current_crtc := None\<rparr>]\<rparr>) v else v)"
    using c a b d by (simp add: drmmode_output_disable_def Let_def)
  with same_owned_routing [OF st] sv same_owned_trans [OF sv same_owned_updates(6)] show ?thesis by simp
qed

lemma same_owned_crtc_set_mode: "same_owned s (snd (drmmode_crtc_set_mode K p test s))" for s :: "'k drv"
proof -
  obtain r s' where m: "drmmode_crtc_set_mode K p test s = (r, s')" by (metis surj_pair)
  then have "same_owned s s'"
    by (rule crtc_set_mode_routing) (auto intro: same_owned_routing same_owned_trans [OF same_owned_routing same_owned_updates(6)])
  with m show ?thesis by simp
qed

lemma same_owned_crtc_dpms: "same_owned s (drmmode_crtc_dpms K p mode s)" for s :: "'k drv"
proof -
  have a: "same_owned s (upd_crtc p f s)" for f by (rule same_owned_updates)
  then have "same_owned s ((upd_crtc p f s)\<lparr>kst := k\<rparr>)" for f k by (rule same_owned_trans) (rule same_owned_updates)
  moreover have "same_owned s (snd (drmmode_crtc_disable K p (upd_crtc p f s)))" for f
    using a by (rule same_owned_trans) (rule same_owned_crtc_disable)
  ultimately show ?thesis using a by (simp add: drmmode_crtc_dpms_def Let_def)
qed

lemma fini_owners: "owners_ok L P s \<Longrightarrow> owners_ok L P (drmmode_FiniSharedPixmapFlipping p s)"
proof -
  assume "owners_ok L P s"
  then have "owners_ok L P (upd_crtc p f s)" for f by (simp add: owners_ok_same [OF same_owned_updates(5)])
  with \<open>owners_ok L P s\<close> show ?thesis
    by (simp add: drmmode_FiniSharedPixmapFlipping_def Let_def abort_seq_owners)
qed

text \<open>What setting a mode is given has to keep the owners; the flush does, in the locale.\<close>

definition rotate_keeps :: "'k env \<Rightarrow> bool" where
  "rotate_keeps E \<longleftrightarrow> (\<forall>L P p s. owners_ok L P s \<longrightarrow> owners_ok L P (snd (xf86CrtcRotate E p s)))"

definition setter_keeps ::
  "(nat \<Rightarrow> display_mode option \<Rightarrow> nat \<Rightarrow> int \<Rightarrow> int \<Rightarrow> 'k drv \<Rightarrow> (bool \<times> 'k drv) option) \<Rightarrow> bool" where
  "setter_keeps f \<longleftrightarrow> (\<forall>L P p m rot x y s ok s'.
     owners_ok L P s \<longrightarrow> f p m rot x y s = Some (ok, s') \<longrightarrow> owners_ok L P s')"

lemma setter_keepsD:
  "setter_keeps f \<Longrightarrow> owners_ok L P s \<Longrightarrow> f p m rot x y s = Some (ok, s') \<Longrightarrow> owners_ok L P s'"
  unfolding setter_keeps_def by blast

context flushing begin

lemma init_flipping_keeps:
  assumes "flush_of E = flush" and "owners_ok L P s" and "init_flipping E p s = Some s'"
  shows "owners_ok L P s'"
proof -
  obtain r where "drmmode_InitSharedPixmapFlipping (kernel_of E) (master_of E) flush (loop_bound E) p s = Some (r, s')"
    using assms(1,3) by (auto simp: init_flipping_def)
  with assms(2) show ?thesis
    by (auto simp: drmmode_InitSharedPixmapFlipping_def owners_ok_same [OF same_owned_updates(5)]
        dest!: shared_present_keeps [OF assms(2)] split: if_splits)
qed

lemma output_dpms_keeps:
  assumes "flush_of E = flush" and "owners_ok L P s"
    and "setter_keeps f"
    and "drmmode_output_dpms E f scr i mode s = Some s'"
  shows "owners_ok L P s'"
proof -
  let ?K = "kernel_of E" and ?out = "outputs (mss s scr) ! i"
  let ?s = "upd_ms scr (\<lambda>m. m\<lparr>outputs := (outputs m)[i := (outputs m ! i)\<lparr>out_dpms := mode\<rparr>]\<rparr>) s"
  define u where "u = (if atomic_modeset (mss ?s scr) then
      (if mode \<noteq> DPMSModeOn \<and> \<not> pending_modeset (mss ?s scr) then snd (drmmode_output_disable ?K scr i ?s) else ?s)
      else ?s\<lparr>kst := drmModeConnectorSetProperty ?K (the (out_koutput ?out)) (out_dpms_enum_id ?out) mode (kst ?s)\<rparr>)"
  have "owners_ok L P ?s" using assms(2) by (simp add: upd_ms_owners)
  then have u: "owners_ok L P u"
    by (simp add: u_def kst_owners owners_ok_same [OF same_owned_output_disable])
  have set: "owners_ok L P t" if "(if need_modeset (crtcs u p) then map_option snd (f p (Some (crtc_mode (crtcs u p)))
      (rotation (crtcs u p)) (crtc_x (crtcs u p)) (crtc_y (crtcs u p)) u) else Some u) = Some t" for p t
    using that u setter_keepsD [OF assms(3) u] by (auto split: if_splits)
  show ?thesis
  proof (cases "out_koutput ?out")
    case None
    with assms(2,4) show ?thesis by (simp add: drmmode_output_dpms_def)
  next
    case (Some c)
    with assms(4) have e: "(case out_crtc ?out of None \<Rightarrow> Some u
        | Some p \<Rightarrow> if mode = DPMSModeOn then
            Option.bind (if need_modeset (crtcs u p) then map_option snd (f p (Some (crtc_mode (crtcs u p)))
              (rotation (crtcs u p)) (crtc_x (crtcs u p)) (crtc_y (crtcs u p)) u) else Some u)
              (\<lambda>s. if enable_flipping (crtcs s p) then init_flipping E p s else Some s)
            else Some (if enable_flipping (crtcs u p) then drmmode_FiniSharedPixmapFlipping p u else u)) = Some s'"
      unfolding drmmode_output_dpms_def Let_def by (simp only: option.case option.sel u_def)
    show ?thesis
    proof (cases "out_crtc ?out")
      case None
      with e u show ?thesis by simp
    next
      case (Some p)
      with e u fini_owners [OF u] set [of p] init_flipping_keeps [OF assms(1)] show ?thesis
        by (auto simp: bind_eq_Some_conv split: if_splits)
    qed
  qed
qed

lemma outputs_on_keeps:
  assumes "flush_of E = flush"
    and "setter_keeps f"
  shows "owners_ok L P s \<Longrightarrow> outputs_on E f scr p is s = Some s' \<Longrightarrow> owners_ok L P s'"
proof (induction "is" arbitrary: s)
  case Nil
  then show ?case by simp
next
  case (Cons i "is")
  from Cons.prems consider "outputs_on E f scr p is s = Some s'"
    | t where "drmmode_output_dpms E f scr i DPMSModeOn s = Some t" "outputs_on E f scr p is t = Some s'"
    by (auto simp: Let_def bind_eq_Some_conv split: if_splits)
  then show ?case
  proof cases
    case 1
    with Cons show ?thesis by blast
  next
    case (2 t)
    from output_dpms_keeps [OF assms(1) Cons.prems(1) assms(2) 2(1)] have "owners_ok L P t" .
    from Cons.IH [OF this 2(2)] show ?thesis .
  qed
qed

lemma mode_accepted_keeps:
  assumes "flush_of E = flush"
    and "setter_keeps f"
    and "owners_ok L P s" and "mode_accepted E f p scr c s = Some (ok, s')"
  shows "owners_ok L P s'"
proof -
  let ?t = "drmmode_crtc_dpms (kernel_of E) p DPMSModeOn (upd_crtc p (\<lambda>c. c\<lparr>need_modeset := False\<rparr>)
      (upd_ms scr (\<lambda>m. m\<lparr>pending_modeset := True\<rparr>) s))"
  have t: "owners_ok L P ?t"
    using assms(3) by (simp add: owners_ok_same [OF same_owned_crtc_dpms] owners_ok_same [OF same_owned_updates(5)] upd_ms_owners)
  from assms(4) obtain u v where u: "(if prime_pixmap_back (crtcs ?t p) \<noteq> None then init_flipping E p ?t else Some ?t) = Some u"
    and v: "outputs_on E f scr p [0..<length (outputs (mss u scr))] u = Some v"
    and s': "s' = upd_crtc p (\<lambda>c. c\<lparr>active := True\<rparr>) (upd_ms scr (\<lambda>m. m\<lparr>pending_modeset := False\<rparr>)
        (if c then snd (drmmode_crtc_set_mode (kernel_of E) p False v) else v))"
    unfolding mode_accepted_def Let_def by (auto split: option.splits)
  have "owners_ok L P u" using u t init_flipping_keeps [OF assms(1) t] by (auto split: if_splits)
  then have "owners_ok L P v" by (rule outputs_on_keeps [OF assms(1,2) _ v])
  then show ?thesis unfolding s'
    by (simp add: owners_ok_same [OF same_owned_updates(5)] upd_ms_owners owners_ok_same [OF same_owned_crtc_set_mode])
qed

lemma set_mode_keeps:
  assumes "flush_of E = flush" and "rotate_keeps E"
  shows "setter_keeps (set_mode_nested E d)"
proof (induction d)
  case 0
  then show ?case by (simp add: setter_keeps_def)
next
  case (Suc d)
  note crtc = owners_ok_same [OF same_owned_updates(5)]
  have "owners_ok L P s'" if ok: "owners_ok L P s" and run: "set_mode_nested E (Suc d) p mode rot x y s = Some (ok, s')"
    for L P p mode rot x y s ok s'
  proof (cases mode)
    case None
    with ok run show ?thesis by (auto simp: crtc)
  next
    case (Some m)
    let ?s = "upd_crtc p (\<lambda>c. c\<lparr>crtc_mode := m, crtc_x := x, crtc_y := y, rotation := rot\<rparr>) s"
    obtain r1 t where t: "xf86CrtcRotate E p ?s = (r1, t)" by (metis surj_pair)
    let ?t = "drmmode_crtc_gamma_set (kernel_of E) p t"
    let ?c = "drmmode_crtc_can_test_mode p ?t"
    obtain r u where u: "drmmode_crtc_set_mode (kernel_of E) p ?c ?t = (r, u)" by (metis surj_pair)
    have "owners_ok L P ?s" using ok by (simp add: crtc)
    then have t': "owners_ok L P t" using assms(2) t unfolding rotate_keeps_def by (metis snd_conv)
    then have "owners_ok L P ?t" by (simp add: drmmode_crtc_gamma_set_def kst_owners)
    then have u': "owners_ok L P u" using owners_ok_same [OF same_owned_crtc_set_mode [of ?t "kernel_of E" p ?c]] u by simp
    have "owners_ok L P s'" if "mode_accepted E (set_mode_nested E d) p (crtc_scrn (crtcs s p)) ?c u = Some (ok, s')"
      using mode_accepted_keeps [OF assms(1) Suc.IH u' that] .
    with run t u Some t' u' show ?thesis by (auto simp: Let_def crtc split: if_splits)
  qed
  then show ?case unfolding setter_keeps_def by blast
qed

end

section \<open>Examples\<close>

definition plain_env :: "'k kernel \<Rightarrow> 'k env" where
  "plain_env K = \<lparr>kernel_of = K,
     master_of = \<lparr>PresentSharedPixmap = (\<lambda>px k. (True, k)), RequestSharedPixmapNotifyDamage = None\<rparr>,
     flush_of = (\<lambda>scr s. Some (0, s)), loop_bound = 2, realloc_oracle = (\<lambda>_. True), randr_registered = False,
     xf86CrtcRotate = (\<lambda>p s. (True, s)), xf86OutputFindClosestMode = (\<lambda>scr i k. None),
     egl_textured_pixmap = (\<lambda>px g u k. (True, k)), CreatePixmap = (\<lambda>scr k. (Some 1, k)),
     ModifyPixmapHeader = (\<lambda>px w h d b p data k. (True, k)), DestroyPixmap = (\<lambda>px k. k),
     pixmap_depth = (\<lambda>px k. 24), pixmap_bpp = (\<lambda>px k. 32),
     set_pixmap_size = (\<lambda>px w h k. k), glamor_clear_pixmap = (\<lambda>px k. k),
     GetScratchGC = (\<lambda>d k. True), miClearDrawable = (\<lambda>px k. k),
     PixmapStartDirtyTracking = (\<lambda>px d x k. k), PixmapStopDirtyTracking = (\<lambda>px d k. k),
     DamageRegister = (\<lambda>px k. k), DamageUnregister = (\<lambda>px k. k)\<rparr>"

lemma set_mode_does_not_nest_witness:
  "drmmode_set_mode_major (plain_env dead_kernel) 0 (Some zero_mode) RR_Rotate_0 0 0 (idle_drv ()) \<noteq> None"
proof -
  have "flush_settles (flush_of (plain_env dead_kernel)) 0" by (simp add: flush_settles_def plain_env_def)
  moreover have "\<forall>t. same_routing t (snd (xf86CrtcRotate (plain_env dead_kernel) 0 t))" by (simp add: plain_env_def)
  moreover have "no_flipping 0 (idle_drv ())"
    by (simp add: no_flipping_def idle_drv_def idle_drm_def drm.extend_def zero_crtc_def)
  ultimately show ?thesis using set_mode_does_not_nest [of "plain_env dead_kernel" 0] by blast
qed

lemma set_mode_outcome_witness:
  "\<exists>s'. drmmode_set_mode_major (plain_env dead_kernel) 0 (Some (zero_mode\<lparr>m_HDisplay := 800\<rparr>)) RR_Rotate_0 5 0
     (idle_drv ()) = Some (False, s') \<and> mode_view (crtcs s' 0) = mode_view zero_crtc"
proof -
  let ?m = "Some (zero_mode\<lparr>m_HDisplay := 800\<rparr>)"
  have "\<exists>s'. drmmode_set_mode_major (plain_env dead_kernel) 0 ?m RR_Rotate_0 5 0 (idle_drv ()) = Some (False, s')"
    by (simp add: drmmode_set_mode_major_def numeral_2_eq_2 plain_env_def drmmode_crtc_gamma_set_def
        drmmode_crtc_set_mode_def drmmode_crtc_get_fb_id_def drmmode_bo_import_def dead_kernel_def Let_def
        upd_crtc_def zero_crtc_def zero_ms_def no_bo_def idle_drv_def idle_drm_def drm.extend_def)
  then obtain s' where s': "drmmode_set_mode_major (plain_env dead_kernel) 0 ?m RR_Rotate_0 5 0 (idle_drv ()) = Some (False, s')"
    by blast
  have rot: "\<forall>t. same_routing t (snd (xf86CrtcRotate (plain_env dead_kernel) 0 t))" by (simp add: plain_env_def)
  have nf: "no_flipping 0 (idle_drv ())"
    by (simp add: no_flipping_def idle_drv_def idle_drm_def drm.extend_def zero_crtc_def)
  from set_mode_outcome [OF rot nf s', where q = 0 and scr = 0] s' show ?thesis
    by (simp add: idle_drv_def idle_drm_def drm.extend_def)
qed

end
