(* ===== verification/Screen_Fb.thy ===== *)
theory Screen_Fb
  imports Kms_Modeset Buffers "HOL-Library.Signed_Division"
begin

text \<open>
  The framebuffer of a screen and what else is scanned out
  (\<^verbatim>\<open>src/src/drmmode_display.c\<close>): resizing, the shadow buffers of rotated CRTCs, pixmaps
  of another GPU as scanout targets, and the modes wanted at start and after a VT switch.
\<close>

section \<open>Front buffer and rotation buffers\<close>

definition drmmode_map_front_bo :: "'k kernel \<Rightarrow> nat \<Rightarrow> 'k drv \<Rightarrow> bool \<times> 'k drv" where
  "drmmode_map_front_bo K scr s =
     (case drmmode_bo_map K (front_bo (mss s scr)) s of
        ((ok, bo), s) \<Rightarrow> (ok, upd_ms scr (\<lambda>m. m\<lparr>front_bo := bo\<rparr>) s))"

definition drmmode_set_pixmap_bo :: "'k env \<Rightarrow> nat \<Rightarrow> nat \<Rightarrow> drmmode_bo \<Rightarrow> 'k drv \<Rightarrow> bool \<times> 'k drv" where
  "drmmode_set_pixmap_bo E scr px bo s =
     (if \<not> ms_glamor (mss s scr) then (True, s)
      else case egl_textured_pixmap E px (bo_gbm bo) (bo_used_modifiers bo) (kst s) of
        (ok, k) \<Rightarrow> (ok, s\<lparr>kst := k\<rparr>))"

definition drmmode_glamor_handle_new_screen_pixmap :: "'k env \<Rightarrow> nat \<Rightarrow> 'k drv \<Rightarrow> bool \<times> 'k drv" where
  "drmmode_glamor_handle_new_screen_pixmap E scr s =
     drmmode_set_pixmap_bo E scr (screen_pixmap (kernel_of E) scr) (front_bo (mss s scr)) s"

definition drmmode_create_pixmap_header ::
  "'k env \<Rightarrow> nat \<Rightarrow> int \<Rightarrow> int \<Rightarrow> int \<Rightarrow> int \<Rightarrow> int \<Rightarrow> bool \<Rightarrow> 'k drv \<Rightarrow> nat option \<times> 'k drv" where
  "drmmode_create_pixmap_header E scr width height dep bpp devKind pixels s =
     (case CreatePixmap E scr (kst s) of
        (None, k) \<Rightarrow> (None, s\<lparr>kst := k\<rparr>)
      | (Some px, k) \<Rightarrow>
          (case ModifyPixmapHeader E px width height dep bpp devKind pixels k of
             (ok, k) \<Rightarrow> if ok then (Some px, s\<lparr>kst := k\<rparr>) else (None, s\<lparr>kst := DestroyPixmap E px k\<rparr>)))"

text \<open>Whether a buffer is returned.\<close>

definition drmmode_shadow_allocate :: "'k env \<Rightarrow> nat \<Rightarrow> int \<Rightarrow> int \<Rightarrow> 'k drv \<Rightarrow> bool \<times> 'k drv" where
  "drmmode_shadow_allocate E p width height s =
     (let K = kernel_of E; c = crtcs s p; scr = crtc_scrn c in
      case drmmode_create_bo K (realloc_oracle E) scr (rotate_bo c) (word_of_int width) (word_of_int height)
             (ucast (kbpp (mss s scr))) s of
        ((ok, bo), s) \<Rightarrow>
          let s = upd_crtc p (\<lambda>c. c\<lparr>rotate_bo := bo\<rparr>) s in
          if \<not> ok then (False, s)
          else case drmmode_bo_import K scr bo s of
            ((ret, fb), s) \<Rightarrow>
              let s = (if ret = 0 then upd_crtc p (\<lambda>c. c\<lparr>rotate_fb_id := fb\<rparr>) s else s) in
              if ret \<noteq> 0 then
                (case drmmode_bo_destroy K bo s of (bo, s) \<Rightarrow> (False, upd_crtc p (\<lambda>c. c\<lparr>rotate_bo := bo\<rparr>) s))
              else (if has_gbm (mss s scr) then bo_gbm bo \<noteq> None else bo_dumb bo \<noteq> None, s))"

definition drmmode_shadow_create ::
  "'k env \<Rightarrow> nat \<Rightarrow> bool \<Rightarrow> int \<Rightarrow> int \<Rightarrow> 'k drv \<Rightarrow> nat option \<times> 'k drv" where
  "drmmode_shadow_create E p data width height s =
     (let scr = crtc_scrn (crtcs s p) in
      case (if data then (True, s) else drmmode_shadow_allocate E p width height s) of
        (data, s) \<Rightarrow>
          if \<not> data then (None, s)
          else if \<not> drmmode_bo_has_bo (rotate_bo (crtcs s p)) then (None, s)
          else case drmmode_bo_map (kernel_of E) (rotate_bo (crtcs s p)) s of
            ((mapped, bo), s) \<Rightarrow>
              let s = upd_crtc p (\<lambda>c. c\<lparr>rotate_bo := bo\<rparr>) s in
              (case drmmode_create_pixmap_header E scr width height (uint (depth (mss s scr)))
                      (uint (kbpp (mss s scr))) (uint (drmmode_bo_get_pitch bo)) mapped s of
                 (None, s) \<Rightarrow> (None, s)
               | (Some px, s) \<Rightarrow> (Some px, snd (drmmode_set_pixmap_bo E scr px bo s))))"

definition drmmode_shadow_destroy ::
  "'k env \<Rightarrow> nat \<Rightarrow> nat option \<Rightarrow> bool \<Rightarrow> 'k drv \<Rightarrow> 'k drv" where
  "drmmode_shadow_destroy E p rotate_pixmap data s =
     (let K = kernel_of E;
          s = (case rotate_pixmap of None \<Rightarrow> s | Some px \<Rightarrow> s\<lparr>kst := DestroyPixmap E px (kst s)\<rparr>)
      in if data then
           let s = s\<lparr>kst := drmModeRmFB K (rotate_fb_id (crtcs s p)) (kst s)\<rparr>;
               s = upd_crtc p (\<lambda>c. c\<lparr>rotate_fb_id := 0\<rparr>) s;
               s = snd (drmmode_bo_destroy K (rotate_bo (crtcs s p)) s)
           in upd_crtc p (\<lambda>c. c\<lparr>rotate_bo := no_bo\<rparr>) s
         else s)"

section \<open>Resizing the screen\<close>

text \<open>The loop that sets the modes of the enabled CRTCs again.\<close>

fun remode :: "'k env \<Rightarrow> nat list \<Rightarrow> 'k drv \<Rightarrow> 'k drv option" where
  "remode E [] s = Some s"
| "remode E (p # ps) s =
     (let c = crtcs s p in
      if \<not> enabled c then remode E ps s
      else case drmmode_set_mode_major E p (Some (crtc_mode c)) (rotation c) (crtc_x c) (crtc_y c) s of
        None \<Rightarrow> None
      | Some (ok, s) \<Rightarrow> remode E ps s)"

text \<open>The label \<^verbatim>\<open>fail\<close>: \<open>old\<close> is the screen as it was, \<open>old_pitch\<close> and \<open>kcpp\<close> as computed then.\<close>

definition resize_fail :: "'k kernel \<Rightarrow> nat \<Rightarrow> modesetting \<Rightarrow> int \<Rightarrow> int \<Rightarrow> 'k drv \<Rightarrow> bool \<times> 'k drv" where
  "resize_fail K scr old old_pitch kcpp s =
     (let s = snd (drmmode_bo_destroy K (front_bo (mss s scr)) s)
      in (False, upd_ms scr (\<lambda>m. m\<lparr>front_bo := front_bo old, virtualX := virtualX old, virtualY := virtualY old,
                                   displayWidth := old_pitch sdiv kcpp, fb_id := fb_id old\<rparr>) s))"

text \<open>
  The shadow framebuffers after the front buffer is mapped: whether to go on, and whether
  there are pixels to show.
\<close>

definition resize_shadows :: "nat \<Rightarrow> int \<Rightarrow> bool \<Rightarrow> 'k drv \<Rightarrow> (bool \<times> bool) \<times> 'k drv" where
  "resize_shadows scr cpp new_pixels s =
     (let m = mss s scr; sz = word_of_int (displayWidth m * virtualY m * cpp) :: u32;
          ((ok, px), s) =
            (if shadow_enable m then
               case calloc s of (ok, s) \<Rightarrow>
                 ((ok, ok), if ok then upd_ms scr (\<lambda>m. m\<lparr>shadow_fb := Some sz\<rparr>) s else s)
             else ((True, new_pixels), s))
      in if \<not> ok then ((False, False), s)
         else if shadow_enable2 m then
           case calloc s of (ok2, s) \<Rightarrow>
             ((True, px), upd_ms scr (\<lambda>m. m\<lparr>shadow_fb2 := if ok2 then Some sz else None\<rparr>) s)
         else ((True, px), s))"

text \<open>Clearing a pixmap; the graphics context is given back at once.\<close>

definition drmmode_clear_pixmap :: "'k env \<Rightarrow> bool \<Rightarrow> nat \<Rightarrow> 'k \<Rightarrow> 'k" where
  "drmmode_clear_pixmap E use_glamor px k =
     (if use_glamor then glamor_clear_pixmap E px k
      else if GetScratchGC E (pixmap_depth E px k) k then miClearDrawable E px k
      else k)"

text \<open>
  From the mapping of the new buffer on; \<open>fail\<close> is the label, \<open>old\<close> the screen as it was.
\<close>

definition resize_show ::
  "'k env \<Rightarrow> nat \<Rightarrow> modesetting \<Rightarrow> ('k drv \<Rightarrow> bool \<times> 'k drv) \<Rightarrow> int \<Rightarrow> int \<Rightarrow> 'k drv \<Rightarrow> (bool \<times> 'k drv) option" where
  "resize_show E scr old fail width height s =
     (let K = kernel_of E; ppix = screen_pixmap K scr; cpp = (bitsPerPixel old + 7) sdiv 8 in
      case (if has_gbm old then (True, s) else drmmode_map_front_bo K scr s) of
        (mapped, s) \<Rightarrow>
          if \<not> mapped then Some (fail s)
          else case resize_shadows scr cpp (\<not> has_gbm old) s of
            ((ok, pixels), s) \<Rightarrow>
              if \<not> ok then Some (fail s)
              else
                let s = s\<lparr>kst := snd (ModifyPixmapHeader E ppix width height (-1) (-1)
                            (displayWidth (mss s scr) * cpp) pixels (kst s))\<rparr>
                in case drmmode_glamor_handle_new_screen_pixmap E scr s of
                     (ok, s) \<Rightarrow>
                       if \<not> ok then Some (fail s)
                       else
                         map_option (\<lambda>s.
                           (True,
                            if fb_id old \<noteq> 0 then
                              snd (drmmode_bo_destroy K (front_bo old)
                                (s\<lparr>kst := drmModeRmFB K (fb_id old) (kst s)\<rparr>))
                            else s))
                           (remode E (config (mss s scr)) (s\<lparr>kst := drmmode_clear_pixmap E (ms_glamor (mss s scr)) ppix (kst s)\<rparr>)))"

definition drmmode_xf86crtc_resize :: "'k env \<Rightarrow> nat \<Rightarrow> int \<Rightarrow> int \<Rightarrow> 'k drv \<Rightarrow> (bool \<times> 'k drv) option" where
  "drmmode_xf86crtc_resize E scr width height s =
     (let K = kernel_of E; old = mss s scr; kcpp = (uint (kbpp old) + 7) sdiv 8;
          old_pitch = to_int32 (uint (drmmode_bo_get_pitch (front_bo old)));
          fail = resize_fail K scr old old_pitch kcpp
      in if virtualX old = width \<and> virtualY old = height then Some (True, s)
         else
           let s = upd_ms scr (\<lambda>m. m\<lparr>fb_id := 0\<rparr>) s in
           case drmmode_create_bo K (realloc_oracle E) scr (front_bo old) (word_of_int width) (word_of_int height)
                  (ucast (kbpp old)) s of
             ((ok, bo), s) \<Rightarrow>
               let s = upd_ms scr (\<lambda>m. m\<lparr>front_bo := bo\<rparr>) s in
               if \<not> ok then Some (fail s)
               else
                 let pitch = to_int32 (uint (drmmode_bo_get_pitch bo))
                 in resize_show E scr old fail width height
                      (upd_ms scr (\<lambda>m. m\<lparr>virtualX := width, virtualY := height, displayWidth := pitch sdiv kcpp\<rparr>) s))"

section \<open>Pixmaps of another GPU as scanout targets\<close>

text \<open>
  \<open>back\<close> tells which of the two targets of a CRTC the pointer \<^verbatim>\<open>target\<close> points to.
\<close>

definition scanout_target :: "bool \<Rightarrow> crtc \<Rightarrow> nat option" where
  "scanout_target second c = (if second then prime_pixmap_back c else prime_pixmap c)"

definition set_scanout_target :: "bool \<Rightarrow> nat option \<Rightarrow> crtc \<Rightarrow> crtc" where
  "set_scanout_target second v c = (if second then c\<lparr>prime_pixmap_back := v\<rparr> else c\<lparr>prime_pixmap := v\<rparr>)"

definition drmmode_map_slave_bo :: "'k kernel \<Rightarrow> nat \<Rightarrow> 'k drv \<Rightarrow> bool \<times> 'k drv" where
  "drmmode_map_slave_bo K px s =
     (case pp_backing_bo (ppriv s px) of
        None \<Rightarrow> (False, misc_fault s)
      | Some d \<Rightarrow>
          if db_ptr d then (True, s)
          else case dumb_bo_map K d s of
            ((ret, d), s) \<Rightarrow> (ret = 0, upd_ppriv px (\<lambda>v. v\<lparr>pp_backing_bo := Some d\<rparr>) s))"

definition drop_target_cpu :: "'k env \<Rightarrow> nat \<Rightarrow> bool \<Rightarrow> 'k drv \<Rightarrow> 'k drv" where
  "drop_target_cpu E p second s =
     (case scanout_target second (crtcs s p) of
        None \<Rightarrow> s
      | Some px \<Rightarrow>
          let s = s\<lparr>kst := drmModeRmFB (kernel_of E) (pp_fb_id (ppriv s px)) (kst s)\<rparr>;
              s = upd_ppriv px (\<lambda>v. v\<lparr>pp_fb_id := 0\<rparr>) s;
              s = (if pp_slave_damage (ppriv s px)
                   then upd_ppriv px (\<lambda>v. v\<lparr>pp_slave_damage := False\<rparr>) (s\<lparr>kst := DamageUnregister E px (kst s)\<rparr>)
                   else s)
          in upd_crtc p (set_scanout_target second None) s)"

definition drmmode_set_target_scanout_pixmap_cpu ::
  "'k env \<Rightarrow> nat \<Rightarrow> nat option \<Rightarrow> bool \<Rightarrow> 'k drv \<Rightarrow> bool \<times> 'k drv" where
  "drmmode_set_target_scanout_pixmap_cpu E p ppix second s =
     (let K = kernel_of E; s = drop_target_cpu E p second s in
      case ppix of
        None \<Rightarrow> (True, s)
      | Some px \<Rightarrow>
          let s = upd_ppriv px (\<lambda>v. v\<lparr>pp_slave_damage := True\<rparr>) s;
              s = snd (drmmode_map_slave_bo K px s);
              s = s\<lparr>kst := DamageRegister E px (kst s)\<rparr>;
              s = (if pp_fb_id (ppriv s px) = 0 then
                     case pp_backing_bo (ppriv s px) of
                       None \<Rightarrow> misc_fault s
                     | Some d \<Rightarrow>
                         (case drmModeAddFB K (pixmap_width K px (kst s)) (pixmap_height K px (kst s))
                                 (pixmap_depth E px (kst s)) (pixmap_bpp E px (kst s))
                                 (pixmap_devKind K px (kst s)) (db_handle d) (kst s) of
                            ((ret, fb), k) \<Rightarrow>
                              let s = s\<lparr>kst := k\<rparr> in
                              if ret = 0 then upd_ppriv px (\<lambda>v. v\<lparr>pp_fb_id := fb\<rparr>) s else s)
                   else s)
          in (True, upd_crtc p (set_scanout_target second (Some px)) s))"

text \<open>The bounding box of the enabled CRTCs side by side: its size, and where \<open>p\<close> begins.\<close>

fun crtc_row :: "('k drv) \<Rightarrow> nat \<Rightarrow> int \<Rightarrow> int \<Rightarrow> nat list \<Rightarrow> int \<times> int \<times> int \<Rightarrow> int \<times> int \<times> int" where
  "crtc_row s p w h [] box = box"
| "crtc_row s p w h (q # ps) (total_width, max_height, this_x) =
     (if \<not> enabled (crtcs s q) \<and> q \<noteq> p then crtc_row s p w h ps (total_width, max_height, this_x)
      else if q = p then crtc_row s p w h ps (total_width + w, max max_height h, total_width)
      else crtc_row s p w h ps
             (total_width + m_HDisplay (crtc_mode (crtcs s q)),
              max max_height (m_VDisplay (crtc_mode (crtcs s q))), this_x))"

definition drop_target_gpu :: "'k env \<Rightarrow> nat \<Rightarrow> bool \<Rightarrow> 'k drv \<Rightarrow> 'k drv" where
  "drop_target_gpu E p second s =
     (let K = kernel_of E; scr = crtc_scrn (crtcs s p) in
      case scanout_target second (crtcs s p) of
        None \<Rightarrow> s
      | Some px \<Rightarrow>
          let s = s\<lparr>kst := PixmapStopDirtyTracking E px (screen_pixmap K scr) (kst s)\<rparr>;
              s = (if fb_id (mss s scr) \<noteq> 0
                   then upd_ms scr (\<lambda>m. m\<lparr>fb_id := 0\<rparr>) (s\<lparr>kst := drmModeRmFB K (fb_id (mss s scr)) (kst s)\<rparr>)
                   else s);
              s = upd_crtc p (\<lambda>c. c\<lparr>prime_pixmap_x := 0\<rparr>) s
          in upd_crtc p (set_scanout_target second None) s)"

definition drmmode_set_target_scanout_pixmap_gpu ::
  "'k env \<Rightarrow> nat \<Rightarrow> nat option \<Rightarrow> bool \<Rightarrow> 'k drv \<Rightarrow> (bool \<times> 'k drv) option" where
  "drmmode_set_target_scanout_pixmap_gpu E p ppix second s =
     (let K = kernel_of E; scr = crtc_scrn (crtcs s p); screenpix = screen_pixmap K scr;
          s = drop_target_gpu E p second s
      in case ppix of
           None \<Rightarrow> Some (True, s)
         | Some px \<Rightarrow>
             (case crtc_row s p (uint (pixmap_width K px (kst s))) (uint (pixmap_height K px (kst s)))
                     (config (mss s scr)) (0, 0, 0) of
                (total_width, max_height, this_x) \<Rightarrow>
                  map_option (\<lambda>(ok, s).
                    if \<not> ok then (False, s)
                    else
                      let s = upd_crtc p (\<lambda>c. c\<lparr>prime_pixmap_x := this_x\<rparr>) s;
                          s = s\<lparr>kst := PixmapStartDirtyTracking E px screenpix this_x (kst s)\<rparr>
                      in (True, upd_crtc p (set_scanout_target second (Some px)) s))
                  (if total_width \<noteq> uint (pixmap_width K screenpix (kst s)) \<or>
                      max_height \<noteq> uint (pixmap_height K screenpix (kst s))
                   then map_option (\<lambda>(ok, s).
                          (ok, if ok then s\<lparr>kst := set_pixmap_size E screenpix total_width max_height (kst s)\<rparr> else s))
                          (drmmode_xf86crtc_resize E scr total_width max_height s)
                   else Some (True, s))))"

definition drmmode_set_target_scanout_pixmap ::
  "'k env \<Rightarrow> nat \<Rightarrow> nat option \<Rightarrow> bool \<Rightarrow> 'k drv \<Rightarrow> (bool \<times> 'k drv) option" where
  "drmmode_set_target_scanout_pixmap E p ppix second s =
     (if is_reverse_prime_offload (ms_of_crtc s p)
      then drmmode_set_target_scanout_pixmap_gpu E p ppix second s
      else Some (drmmode_set_target_scanout_pixmap_cpu E p ppix second s))"

definition drmmode_set_scanout_pixmap :: "'k env \<Rightarrow> nat \<Rightarrow> nat option \<Rightarrow> 'k drv \<Rightarrow> (bool \<times> 'k drv) option" where
  "drmmode_set_scanout_pixmap E p ppix s =
     (if enable_flipping (crtcs s p) then Some (False, s)
      else drmmode_set_target_scanout_pixmap E p ppix False s)"

definition set_enable_flipping :: "nat \<Rightarrow> bool \<Rightarrow> 'k drv \<Rightarrow> 'k drv" where
  "set_enable_flipping p b s = upd_crtc p (\<lambda>c. c\<lparr>enable_flipping := b\<rparr>) s"

definition drmmode_EnableSharedPixmapFlipping ::
  "'k env \<Rightarrow> nat \<Rightarrow> nat \<Rightarrow> nat \<Rightarrow> 'k drv \<Rightarrow> (bool \<times> 'k drv) option" where
  "drmmode_EnableSharedPixmapFlipping E p front second s =
     (case drmmode_set_target_scanout_pixmap E p (Some front) False (set_enable_flipping p True s) of
        None \<Rightarrow> None
      | Some (ok, s) \<Rightarrow>
          let s = set_enable_flipping p ok s in
          if \<not> ok then Some (False, s)
          else case drmmode_set_target_scanout_pixmap E p (Some second) True s of
            None \<Rightarrow> None
          | Some (ok, s) \<Rightarrow>
              let s = set_enable_flipping p ok s in
              if \<not> ok then
                map_option (\<lambda>(_, s). (False, s)) (drmmode_set_target_scanout_pixmap E p None False s)
              else Some (True, s))"

definition drmmode_DisableSharedPixmapFlipping :: "'k env \<Rightarrow> nat \<Rightarrow> 'k drv \<Rightarrow> 'k drv option" where
  "drmmode_DisableSharedPixmapFlipping E p s =
     (let s = drmmode_FiniSharedPixmapFlipping p (set_enable_flipping p False s) in
      case drmmode_set_target_scanout_pixmap E p None False s of
        None \<Rightarrow> None
      | Some (_, s) \<Rightarrow> map_option snd (drmmode_set_target_scanout_pixmap E p None True s))"

section \<open>Desired modes\<close>

definition drmmode_adjust_frame :: "'k env \<Rightarrow> nat \<Rightarrow> int \<Rightarrow> int \<Rightarrow> 'k drv \<Rightarrow> 'k drv option" where
  "drmmode_adjust_frame E scr x y s =
     (case out_crtc (outputs (mss s scr) ! compat_output (mss s scr)) of
        None \<Rightarrow> Some s
      | Some p \<Rightarrow>
          if enabled (crtcs s p) then
            map_option snd (drmmode_set_mode_major E p (Some (crtc_mode (crtcs s p))) (rotation (crtcs s p)) x y s)
          else Some s)"

text \<open>The output whose modes decide for a CRTC: its position.\<close>

definition output_for :: "modesetting \<Rightarrow> nat \<Rightarrow> nat option" where
  "output_for m p =
     (if out_crtc (outputs m ! compat_output m) = Some p then Some (compat_output m)
      else find (\<lambda>i. out_crtc (outputs m ! i) = Some p) [0..<length (outputs m)])"

definition choose_desired :: "'k env \<Rightarrow> nat \<Rightarrow> nat \<Rightarrow> nat \<Rightarrow> 'k drv \<Rightarrow> 'k drv option" where
  "choose_desired E scr p i s =
     (if desired_mode (crtcs s p) \<noteq> None then Some s
      else map_option (\<lambda>m. upd_crtc p (\<lambda>c. c\<lparr>desired_mode := Some m, desired_rotation := RR_Rotate_0,
               desired_x := 0, desired_y := 0\<rparr>) s)
             (xf86OutputFindClosestMode E scr i (kst s)))"

text \<open>The loop, from the CRTCs of the list on; \<open>False\<close> when it returns early.\<close>

fun desired_modes :: "'k env \<Rightarrow> nat \<Rightarrow> bool \<Rightarrow> nat list \<Rightarrow> 'k drv \<Rightarrow> (bool \<times> 'k drv) option" where
  "desired_modes E scr set_hw [] s = Some (True, s)"
| "desired_modes E scr set_hw (p # ps) s =
     (if \<not> enabled (crtcs s p) then
        desired_modes E scr set_hw ps
          (if set_hw then s\<lparr>kst := drmModeSetCrtc_off (kernel_of E) (crtc_id (crtcs s p)) (kst s)\<rparr> else s)
      else case output_for (mss s scr) p of
        None \<Rightarrow> desired_modes E scr set_hw ps s
      | Some i \<Rightarrow>
          let s = upd_crtc p (\<lambda>c. c\<lparr>crtc_mode := zero_mode\<rparr>) s in
          (case choose_desired E scr p i s of
             None \<Rightarrow> Some (False, s)
           | Some s \<Rightarrow>
               let c = crtcs s p in
               if set_hw then
                 (case drmmode_set_mode_major E p (desired_mode c) (desired_rotation c) (desired_x c) (desired_y c) s of
                    None \<Rightarrow> None
                  | Some (ok, s) \<Rightarrow> if \<not> ok then Some (False, s) else desired_modes E scr set_hw ps s)
               else
                 (case xf86CrtcRotate E p (upd_crtc p (\<lambda>c. c\<lparr>crtc_mode := the (desired_mode c),
                         rotation := desired_rotation c, crtc_x := desired_x c, crtc_y := desired_y c\<rparr>) s) of
                    (ok, s) \<Rightarrow> if \<not> ok then Some (False, s) else desired_modes E scr set_hw ps s)))"

definition drmmode_set_desired_modes :: "'k env \<Rightarrow> nat \<Rightarrow> bool \<Rightarrow> 'k drv \<Rightarrow> (bool \<times> 'k drv) option" where
  "drmmode_set_desired_modes E scr set_hw s =
     map_option (\<lambda>(ok, s). (ok, if ok then drmmode_validate_leases (kernel_of E) (randr_registered E) scr s else s))
       (desired_modes E scr set_hw (config (mss s scr)) s)"

section \<open>What buffer calls leave alone\<close>

lemma create_linear_frame:
  "create_linear_bo K bo f s = ((ok, bo'), s') \<Longrightarrow>
     crtcs s' = crtcs s \<and> mss s' = mss s \<and> bo_width bo' = bo_width bo \<and> bo_height bo' = bo_height bo \<and>
     bo_dumb bo' = bo_dumb bo"
  by (auto simp: create_linear_bo_def split: prod.splits)

lemma create_bo_frame:
  assumes "drmmode_create_bo K rok scr bo w h bpp s = ((ok, bo'), s')"
  shows "crtcs s' = crtcs s \<and> mss s' = mss s \<and> bo_width bo' = w \<and> bo_height bo' = h"
proof (cases "ms_glamor (mss s scr)")
  case False
  with assms show ?thesis
    by (auto simp: drmmode_create_bo_def Let_def dumb_bo_create_def frame_simps split: prod.splits if_splits)
      (auto simp: calloc_def split: list.splits)
next
  case True
  with assms show ?thesis
    by (auto simp: drmmode_create_bo_def Let_def dest!: create_linear_frame split: prod.splits option.splits if_splits)
qed

text \<open>
  Creating replaces the buffer of the kind the screen uses, and does not look at the one that
  was there.
\<close>

definition own_kind :: "modesetting \<Rightarrow> drmmode_bo \<Rightarrow> bool" where
  "own_kind m bo \<longleftrightarrow> (if ms_glamor m then bo_dumb bo = None else bo_gbm bo = None)"

lemma create_bo_fresh:
  assumes "own_kind (mss s scr) bo"
  shows "drmmode_create_bo K rok scr bo w h bpp s =
    drmmode_create_bo K rok scr (bo\<lparr>bo_gbm := None, bo_dumb := None\<rparr>) w h bpp s"
proof -
  have lin: "create_linear_bo K (b\<lparr>bo_gbm := None\<rparr>) f t = create_linear_bo K b f t" for b f and t :: "('a, 'b, 'c) drm_scheme"
    by (simp add: create_linear_bo_def split: prod.split)
  show ?thesis
  proof (cases "ms_glamor (mss s scr)")
    case True
    with assms have "bo\<lparr>bo_dumb := None\<rparr> = bo" by (simp add: own_kind_def)
    then have e: "bo\<lparr>bo_gbm := None, bo_dumb := None\<rparr> = bo\<lparr>bo_gbm := None\<rparr>" by (cases bo) simp
    have b: "bo\<lparr>bo_gbm := None, bo_width := w, bo_height := h\<rparr> = bo\<lparr>bo_width := w, bo_height := h, bo_gbm := None\<rparr>"
      by simp
    show ?thesis unfolding drmmode_create_bo_def Let_def e b lin using True
      by (simp split: prod.split option.split)
  next
    case False
    with assms have "bo\<lparr>bo_gbm := None\<rparr> = bo" by (simp add: own_kind_def)
    with False show ?thesis by (cases bo) (simp add: drmmode_create_bo_def Let_def split: prod.split)
  qed
qed

lemma bo_map_frame:
  assumes "drmmode_bo_map K bo s = ((ok, bo'), s')" and "drmmode_bo_has_bo bo"
  shows "crtcs s' = crtcs s \<and> mss s' = mss s \<and> bo_width bo' = bo_width bo \<and> bo_height bo' = bo_height bo \<and>
    drmmode_bo_get_pitch bo' = drmmode_bo_get_pitch bo \<and> drmmode_bo_get_handle bo' = drmmode_bo_get_handle bo \<and>
    one_buffer bo' = one_buffer bo"
  using assms
  by (auto simp: drmmode_bo_map_def dumb_bo_map_def drmmode_bo_get_pitch_def drmmode_bo_get_handle_def
      drmmode_bo_has_bo_def one_buffer_def split: if_splits prod.splits option.splits)

lemma bo_destroy_frame:
  "crtcs (snd (drmmode_bo_destroy K bo s)) = crtcs s \<and> mss (snd (drmmode_bo_destroy K bo s)) = mss s"
  by (auto simp: drmmode_bo_destroy_def dumb_bo_destroy_def Let_def split: option.split prod.split)

section \<open>Resizing\<close>

definition mode_of :: "crtc \<Rightarrow> display_mode \<times> nat \<times> int \<times> int" where
  "mode_of c = (crtc_mode c, rotation c, crtc_x c, crtc_y c)"

lemma remode_kept:
  assumes rot: "\<forall>p t. same_routing t (snd (xf86CrtcRotate E p t))"
  shows "remode E ps s = Some t \<Longrightarrow> \<forall>q. no_flipping q s \<Longrightarrow>
    kept s t \<and> (\<forall>q. mode_of (crtcs t q) = mode_of (crtcs s q))"
proof (induction ps arbitrary: s)
  case Nil
  then show ?case by simp
next
  case (Cons p ps)
  show ?case
  proof (cases "enabled (crtcs s p)")
    case False
    with Cons show ?thesis by simp
  next
    case True
    let ?c = "crtcs s p"
    from True Cons.prems(1) obtain ok u where u:
      "drmmode_set_mode_major E p (Some (crtc_mode ?c)) (rotation ?c) (crtc_x ?c) (crtc_y ?c) s = Some (ok, u)"
      "remode E ps u = Some t" by (auto simp: Let_def split: option.splits)
    have nf: "no_flipping p s" and r: "\<forall>t. same_routing t (snd (xf86CrtcRotate E p t))"
      using Cons.prems(2) rot by simp_all
    have k: "kept s u" by (rule kept_set_mode [OF r nf u(1)])
    have "mode_of (crtcs u q) = mode_of (crtcs s q)" for q
      using set_mode_outcome [OF r nf u(1), of q 0] by (auto simp: mode_view_def mode_of_def split: if_splits)
    moreover have "\<forall>q. no_flipping q u" using k Cons.prems(2) by (simp add: kept_no_flipping)
    ultimately show ?thesis using Cons.IH [OF u(2)] kept_trans [OF k] by simp
  qed
qed

text \<open>The stages of a resize.\<close>

definition fail_of :: "'k env \<Rightarrow> nat \<Rightarrow> 'k drv \<Rightarrow> 'k drv \<Rightarrow> bool \<times> 'k drv" where
  "fail_of E scr s = resize_fail (kernel_of E) scr (mss s scr)
     (to_int32 (uint (drmmode_bo_get_pitch (front_bo (mss s scr))))) ((uint (kbpp (mss s scr)) + 7) sdiv 8)"

lemma fst_fail_of [simp]: "fst (fail_of E scr old s) = False"
  by (simp add: fail_of_def resize_fail_def Let_def)

definition new_front :: "'k env \<Rightarrow> nat \<Rightarrow> int \<Rightarrow> int \<Rightarrow> 'k drv \<Rightarrow> (bool \<times> drmmode_bo) \<times> 'k drv" where
  "new_front E scr width height s =
     drmmode_create_bo (kernel_of E) (realloc_oracle E) scr (front_bo (mss s scr)) (word_of_int width)
       (word_of_int height) (ucast (kbpp (mss s scr))) (upd_ms scr (\<lambda>m. m\<lparr>fb_id := 0\<rparr>) s)"

lemma resize_stages:
  assumes "drmmode_xf86crtc_resize E scr width height s = Some (ok, s')"
    and "\<not> (virtualX (mss s scr) = width \<and> virtualY (mss s scr) = height)"
  obtains (no_buffer) bo t where "new_front E scr width height s = ((False, bo), t)"
      "(ok, s') = fail_of E scr s (upd_ms scr (\<lambda>m. m\<lparr>front_bo := bo\<rparr>) t)"
  | (buffer) bo t where "new_front E scr width height s = ((True, bo), t)"
      "resize_show E scr (mss s scr) (fail_of E scr s) width height
         (upd_ms scr (\<lambda>m. m\<lparr>front_bo := bo, virtualX := width, virtualY := height, displayWidth :=
            to_int32 (uint (drmmode_bo_get_pitch bo)) sdiv ((uint (kbpp (mss s scr)) + 7) sdiv 8)\<rparr>) t) = Some (ok, s')"
proof -
  obtain b bo t where c: "new_front E scr width height s = ((b, bo), t)" by (metis surj_pair)
  have upd: "upd_ms scr g (upd_ms scr f z) = upd_ms scr (\<lambda>m. g (f m)) z" for g f and z :: "'a drv"
    by (simp add: upd_ms_def)
  note defs = drmmode_xf86crtc_resize_def Let_def upd prod.case if_False if_True not_True_eq_False not_False_eq_True
    c [unfolded new_front_def] fail_of_def [symmetric]
  show thesis
  proof (cases b)
    case False
    from assms show thesis
      by (intro no_buffer [of bo t]) (use c False in simp, use False in \<open>simp add: defs\<close>)
  next
    case True
    from assms show thesis
      by (intro buffer [of bo t]) (use c True in simp, use True in \<open>simp add: defs\<close>)
  qed
qed

text \<open>The parts of a screen the shadows and the mapping of the front buffer do not change.\<close>

definition geometry :: "modesetting \<Rightarrow> int \<times> int \<times> int \<times> bool \<times> nat list \<times> xf86_output list" where
  "geometry m = (virtualX m, virtualY m, displayWidth m, shadow_enable m, config m, outputs m)"

definition same_size :: "drmmode_bo \<Rightarrow> drmmode_bo \<Rightarrow> bool" where
  "same_size bo bo' \<longleftrightarrow> bo_width bo' = bo_width bo \<and> bo_height bo' = bo_height bo \<and>
     drmmode_bo_get_pitch bo' = drmmode_bo_get_pitch bo \<and> drmmode_bo_get_handle bo' = drmmode_bo_get_handle bo \<and>
     one_buffer bo' = one_buffer bo"

lemma resize_shadows_frame:
  assumes "resize_shadows scr cpp px s = ((ok, px'), t)"
  shows "crtcs t = crtcs s \<and> kst t = kst s \<and> geometry (mss t scr) = geometry (mss s scr) \<and>
    front_bo (mss t scr) = front_bo (mss s scr) \<and>
    (ok \<longrightarrow> shadow_enable (mss s scr) \<longrightarrow>
       shadow_fb (mss t scr) = Some (word_of_int (displayWidth (mss s scr) * virtualY (mss s scr) * cpp)))"
  using assms
  by (auto simp: resize_shadows_def Let_def case_prod_beta upd_ms_def frame_simps geometry_def split: if_splits)

lemma pixmap_bo_frame:
  "crtcs (snd (drmmode_set_pixmap_bo E scr px bo s)) = crtcs s" "mss (snd (drmmode_set_pixmap_bo E scr px bo s)) = mss s"
  by (simp_all add: drmmode_set_pixmap_bo_def case_prod_beta)

lemma map_front_frame:
  assumes "drmmode_map_front_bo K scr s = (ok, t)" and "drmmode_bo_has_bo (front_bo (mss s scr))"
  shows "crtcs t = crtcs s \<and> geometry (mss t scr) = geometry (mss s scr) \<and>
    same_size (front_bo (mss s scr)) (front_bo (mss t scr))"
proof -
  obtain b bo u where b: "drmmode_bo_map K (front_bo (mss s scr)) s = ((b, bo), u)" by (metis surj_pair)
  from bo_map_frame [OF b assms(2)] b assms(1) show ?thesis
    by (auto simp: drmmode_map_front_bo_def upd_ms_def geometry_def same_size_def)
qed

lemma show_success:
  assumes rot: "\<forall>p t. same_routing t (snd (xf86CrtcRotate E p t))" and nf: "\<forall>q. no_flipping q s"
    and "drmmode_bo_has_bo (front_bo (mss s scr))"
    and "resize_show E scr old fail width height s = Some (True, s')" and "\<And>t. fst (fail t) = False"
  shows "(\<forall>q. mode_of (crtcs s' q) = mode_of (crtcs s q)) \<and>
    virtualX (mss s' scr) = virtualX (mss s scr) \<and> virtualY (mss s' scr) = virtualY (mss s scr) \<and>
    displayWidth (mss s' scr) = displayWidth (mss s scr) \<and>
    bo_width (front_bo (mss s' scr)) = bo_width (front_bo (mss s scr)) \<and>
    bo_height (front_bo (mss s' scr)) = bo_height (front_bo (mss s scr)) \<and>
    drmmode_bo_get_pitch (front_bo (mss s' scr)) = drmmode_bo_get_pitch (front_bo (mss s scr)) \<and>
    (shadow_enable (mss s scr) \<longrightarrow> shadow_fb (mss s' scr) =
       Some (word_of_int (displayWidth (mss s scr) * virtualY (mss s scr) * ((bitsPerPixel old + 7) sdiv 8))))"
proof -
  let ?cpp = "(bitsPerPixel old + 7) sdiv 8"
  have nofail: "Some (fail t) \<noteq> Some (True, s')" for t using assms(5) [of t] by (metis fst_conv option.inject)
  obtain m v where v: "(if has_gbm old then (True, s) else drmmode_map_front_bo (kernel_of E) scr s) = (m, v)"
    by (metis surj_pair)
  obtain ok px w where w: "resize_shadows scr ?cpp (\<not> has_gbm old) v = ((ok, px), w)" by (metis surj_pair)
  define w' where "w' = w\<lparr>kst := snd (ModifyPixmapHeader E (screen_pixmap (kernel_of E) scr) width height (-1) (-1)
      (displayWidth (mss w scr) * ?cpp) px (kst w))\<rparr>"
  obtain g x where x: "drmmode_glamor_handle_new_screen_pixmap E scr w' = (g, x)" by (metis surj_pair)
  have "m" "ok" "g" using assms(4) nofail v w x
    by (auto simp: resize_show_def Let_def split: if_splits simp flip: w'_def)
  with assms(4) v w x obtain z where z: "remode E (config (mss x scr)) (x\<lparr>kst := drmmode_clear_pixmap E (ms_glamor (mss x scr)) (screen_pixmap (kernel_of E) scr) (kst x)\<rparr>) = Some z"
    and s': "crtcs s' = crtcs z" "mss s' = mss z"
    by (auto simp: resize_show_def Let_def bo_destroy_frame split: if_splits simp flip: w'_def)
  have vf: "crtcs v = crtcs s \<and> geometry (mss v scr) = geometry (mss s scr) \<and>
      same_size (front_bo (mss s scr)) (front_bo (mss v scr))"
    using v map_front_frame [of "kernel_of E" scr s m v] assms(3) by (auto simp: same_size_def split: if_splits)
  note wf = resize_shadows_frame [OF w]
  have "crtcs x = crtcs w'" "mss x = mss w'"
    using x pixmap_bo_frame [of E scr "screen_pixmap (kernel_of E) scr" "front_bo (mss w' scr)" w']
    unfolding drmmode_glamor_handle_new_screen_pixmap_def by simp_all
  then have xf: "crtcs x = crtcs w" "mss x = mss w" by (simp_all add: w'_def)
  have "\<forall>q. no_flipping q (x\<lparr>kst := drmmode_clear_pixmap E (ms_glamor (mss x scr)) (screen_pixmap (kernel_of E) scr) (kst x)\<rparr>)"
    using nf xf wf vf by (simp add: no_flipping_def)
  from remode_kept [OF rot z this] have zf: "\<forall>q. mode_of (crtcs z q) = mode_of (crtcs x q)"
    "screen_view (mss z scr) = screen_view (mss x scr)" by (simp_all add: kept_def)
  from zf(2) show ?thesis
    using zf(1) s' xf wf vf \<open>ok\<close> by (auto simp: screen_view_def geometry_def same_size_def)
qed


text \<open>The other calls of a resize create and destroy no buffers, and destroying one succeeds.\<close>

definition resize_calls_ok :: "'k env \<Rightarrow> ('k \<Rightarrow> u32 multiset) \<Rightarrow> bool" where
  "resize_calls_ok E live \<longleftrightarrow> buffers_ok (kernel_of E) live \<and>
     (\<forall>h k. fst (fst (destroy_dumb (kernel_of E) h k)) = 0) \<and>
     (\<forall>h k. live (snd (map_dumb (kernel_of E) h k)) = live k) \<and>
     (\<forall>n off k. live (snd (sys_mmap (kernel_of E) n off k)) = live k) \<and>
     (\<forall>px g u k. live (snd (egl_textured_pixmap E px g u k)) = live k) \<and>
     (\<forall>px w h d b p data k. live (snd (ModifyPixmapHeader E px w h d b p data k)) = live k)"

lemma destroy_bo_all:
  assumes "resize_calls_ok E live" and "drmmode_bo_destroy (kernel_of E) bo s = (bo', s')"
  shows "one_buffer bo \<Longrightarrow> live (kst s') = live (kst s) - {#drmmode_bo_get_handle bo#}"
    and "\<not> drmmode_bo_has_bo bo \<Longrightarrow> s' = s"
proof -
  have z: "fst (fst (destroy_dumb (kernel_of E) h k)) = 0" for h k using assms(1) by (simp add: resize_calls_ok_def)
  have "\<not> drmmode_bo_has_bo bo'"
    using assms(2) z
    by (auto simp: drmmode_bo_destroy_def dumb_bo_destroy_def drmmode_bo_has_bo_def Let_def case_prod_beta split: option.splits if_splits)
  then show "one_buffer bo \<Longrightarrow> live (kst s') = live (kst s) - {#drmmode_bo_get_handle bo#}"
    using destroy_bo_live [of "kernel_of E" live bo s bo' s'] assms by (simp add: resize_calls_ok_def)
  show "\<not> drmmode_bo_has_bo bo \<Longrightarrow> s' = s"
    using assms(2) by (auto simp: drmmode_bo_destroy_def drmmode_bo_has_bo_def split: if_splits)
qed

lemma map_front_live:
  assumes "resize_calls_ok E live" and "drmmode_map_front_bo (kernel_of E) scr s = (ok, t)"
  shows "live (kst t) = live (kst s)"
proof -
  have m: "live (snd (map_dumb (kernel_of E) h k)) = live k" "live (snd (sys_mmap (kernel_of E) n off k)) = live k" for h k n off
    using assms(1) by (simp_all add: resize_calls_ok_def)
  show ?thesis
    using assms(2)
    by (auto simp: drmmode_map_front_bo_def drmmode_bo_map_def dumb_bo_map_def upd_ms_def case_prod_beta m split: if_splits)
qed

text \<open>What a state on the way to \<open>fail\<close> looks like.\<close>

definition resizing :: "('k \<Rightarrow> u32 multiset) \<Rightarrow> nat \<Rightarrow> 'k drv \<Rightarrow> 'k drv \<Rightarrow> bool" where
  "resizing live scr s t \<longleftrightarrow> crtcs t = crtcs s \<and> outputs (mss t scr) = outputs (mss s scr) \<and>
     config (mss t scr) = config (mss s scr) \<and>
     (if drmmode_bo_has_bo (front_bo (mss t scr))
      then one_buffer (front_bo (mss t scr)) \<and>
           live (kst t) = add_mset (drmmode_bo_get_handle (front_bo (mss t scr))) (live (kst s))
      else live (kst t) = live (kst s))"

definition restored :: "('k \<Rightarrow> u32 multiset) \<Rightarrow> nat \<Rightarrow> 'k drv \<Rightarrow> 'k drv \<Rightarrow> bool" where
  "restored live scr s t \<longleftrightarrow> crtcs t = crtcs s \<and> outputs (mss t scr) = outputs (mss s scr) \<and>
     front_bo (mss t scr) = front_bo (mss s scr) \<and> fb_id (mss t scr) = fb_id (mss s scr) \<and>
     virtualX (mss t scr) = virtualX (mss s scr) \<and> virtualY (mss t scr) = virtualY (mss s scr) \<and>
     live (kst t) = live (kst s)"

lemma fail_restores:
  assumes "resize_calls_ok E live" and "resizing live scr s t" and "fail_of E scr s t = (ok, s')"
  shows "restored live scr s s'"
proof -
  obtain bo' u where u: "drmmode_bo_destroy (kernel_of E) (front_bo (mss t scr)) t = (bo', u)" by (metis surj_pair)
  note d = destroy_bo_all [OF assms(1) u] and f = bo_destroy_frame [of "kernel_of E" "front_bo (mss t scr)" t]
  have "live (kst u) = live (kst s)"
    using d assms(2) by (auto simp: resizing_def split: if_splits)
  with f u assms(2,3) show ?thesis
    by (auto simp: fail_of_def resize_fail_def Let_def restored_def upd_ms_def resizing_def)
qed

lemma show_failure:
  assumes "resize_calls_ok E live" and "resizing live scr s u" and "drmmode_bo_has_bo (front_bo (mss u scr))"
    and "resize_show E scr old fail width height u = Some (False, s')"
  obtains t where "resizing live scr s t" and "fail t = (False, s')"
proof -
  let ?cpp = "(bitsPerPixel old + 7) sdiv 8"
  obtain m v where v: "(if has_gbm old then (True, u) else drmmode_map_front_bo (kernel_of E) scr u) = (m, v)"
    by (metis surj_pair)
  obtain ok px w where w: "resize_shadows scr ?cpp (\<not> has_gbm old) v = ((ok, px), w)" by (metis surj_pair)
  define w' where "w' = w\<lparr>kst := snd (ModifyPixmapHeader E (screen_pixmap (kernel_of E) scr) width height (-1) (-1)
      (displayWidth (mss w scr) * ?cpp) px (kst w))\<rparr>"
  obtain g x where x: "drmmode_glamor_handle_new_screen_pixmap E scr w' = (g, x)" by (metis surj_pair)
  have one: "one_buffer (front_bo (mss u scr))" using assms(2,3) by (simp add: resizing_def)
  have rv: "resizing live scr s v"
  proof (cases "has_gbm old")
    case True
    with v assms(2) show ?thesis by simp
  next
    case False
    with v have m: "drmmode_map_front_bo (kernel_of E) scr u = (m, v)" by simp
    from map_front_frame [OF m assms(3)] map_front_live [OF assms(1) m] assms(2,3) one show ?thesis
      by (auto simp: resizing_def geometry_def same_size_def one_buffer_def)
  qed
  then have rw: "resizing live scr s w"
    using resize_shadows_frame [OF w] by (simp add: resizing_def geometry_def)
  then have "resizing live scr s w'" using assms(1) by (simp add: resizing_def w'_def resize_calls_ok_def)
  moreover have "live (kst x) = live (kst w')" "crtcs x = crtcs w'" "mss x = mss w'"
    using x assms(1)
    by (auto simp: drmmode_glamor_handle_new_screen_pixmap_def drmmode_set_pixmap_bo_def resize_calls_ok_def
        case_prod_beta split: if_splits)
  ultimately have rx: "resizing live scr s x" by (simp add: resizing_def)
  have "fail v = (False, s') \<or> fail w = (False, s') \<or> fail x = (False, s')"
    using assms(4) v w x by (auto simp: resize_show_def Let_def split: if_splits simp flip: w'_def)
  with rv rw rx that show thesis by blast
qed

text \<open>
  C17. A resize that fails is undone. Whichever step fails (the buffer, its mapping, the
  shadow, the texture), the screen has its front buffer, framebuffer and size back, the line
  length is that of the old buffer, CRTCs and outputs are untouched, and the buffer made on
  the way is destroyed: the driver owns the handles it owned before.
\<close>

theorem resize_failure_undone:
  assumes "resize_calls_ok E live" and "own_kind (mss s scr) (front_bo (mss s scr))"
    and "drmmode_xf86crtc_resize E scr width height s = Some (False, s')"
  shows "restored live scr s s' \<and> displayWidth (mss s' scr) =
    to_int32 (uint (drmmode_bo_get_pitch (front_bo (mss s scr)))) sdiv ((uint (kbpp (mss s scr)) + 7) sdiv 8)"
proof -
  let ?s = "upd_ms scr (\<lambda>m. m\<lparr>fb_id := 0\<rparr>) s"
  have K: "buffers_ok (kernel_of E) live" using assms(1) by (simp add: resize_calls_ok_def)
  have size: "\<not> (virtualX (mss s scr) = width \<and> virtualY (mss s scr) = height)"
    using assms(3) by (auto simp: drmmode_xf86crtc_resize_def Let_def)
  have own: "own_kind (mss ?s scr) (front_bo (mss s scr))" using assms(2) by (simp add: own_kind_def upd_ms_def)
  have no: "\<not> drmmode_bo_has_bo ((front_bo (mss s scr))\<lparr>bo_gbm := None, bo_dumb := None\<rparr>)"
    by (simp add: has_bo_iff)
  have nf: "new_front E scr width height s = drmmode_create_bo (kernel_of E) (realloc_oracle E) scr
      ((front_bo (mss s scr))\<lparr>bo_gbm := None, bo_dumb := None\<rparr>) (word_of_int width) (word_of_int height)
      (ucast (kbpp (mss s scr))) ?s"
    using create_bo_fresh [OF own] by (simp add: new_front_def)
  have created: "crtcs t = crtcs s" "mss t = mss ?s" "b = drmmode_bo_has_bo bo" "b \<Longrightarrow> one_buffer bo"
    "live (kst t) = (if b then add_mset (drmmode_bo_get_handle bo) (live (kst s)) else live (kst s))"
    if "new_front E scr width height s = ((b, bo), t)" for b bo t
    using create_bo_live [OF K no that [unfolded nf]] create_bo_frame [OF that [unfolded nf]]
    by (simp_all add: frame_simps)
  obtain t where t: "resizing live scr s t" "fail_of E scr s t = (False, s')"
  proof (rule resize_stages [OF assms(3) size], goal_cases)
    case (1 bo u)
    have "resizing live scr s (upd_ms scr (\<lambda>m. m\<lparr>front_bo := bo\<rparr>) u)"
      using created [OF 1(2)] by (simp add: resizing_def upd_ms_def)
    from 1(1) [OF this] 1(3) show ?case by simp
  next
    case (2 bo u)
    let ?u = "upd_ms scr (\<lambda>m. m\<lparr>front_bo := bo, virtualX := width, virtualY := height, displayWidth :=
            to_int32 (uint (drmmode_bo_get_pitch bo)) sdiv ((uint (kbpp (mss s scr)) + 7) sdiv 8)\<rparr>) u"
    have "resizing live scr s ?u" "drmmode_bo_has_bo (front_bo (mss ?u scr))"
      using created [OF 2(2)] by (simp_all add: resizing_def upd_ms_def)
    from show_failure [OF assms(1) this 2(3)] 2(1) show ?case by blast
  qed
  from fail_restores [OF assms(1) t(1) t(2)] t(2) show ?thesis
    by (auto simp: fail_of_def resize_fail_def Let_def upd_ms_def)
qed

section \<open>Shared pixmaps as scanout targets\<close>

text \<open>
  Framebuffers registered with the kernel: adding one that succeeds registers a nonzero
  identifier, removing one takes it away, the other calls of this path do neither.
\<close>

definition fbs_ok :: "'k env \<Rightarrow> ('k \<Rightarrow> u32 multiset) \<Rightarrow> bool" where
  "fbs_ok E fbs \<longleftrightarrow>
     (\<forall>w h d b p hd k ret fb k'. drmModeAddFB (kernel_of E) w h d b p hd k = ((ret, fb), k') \<longrightarrow>
        fbs k' = (if ret = 0 then add_mset fb (fbs k) else fbs k) \<and> (ret = 0 \<longrightarrow> fb \<noteq> 0)) \<and>
     (\<forall>fb k. fbs (drmModeRmFB (kernel_of E) fb k) = fbs k - {#fb#}) \<and> (\<forall>k. 0 \<notin># fbs k) \<and>
     (\<forall>h k. fbs (snd (map_dumb (kernel_of E) h k)) = fbs k) \<and>
     (\<forall>n off k. fbs (snd (sys_mmap (kernel_of E) n off k)) = fbs k) \<and>
     (\<forall>px k. fbs (DamageRegister E px k) = fbs k) \<and> (\<forall>px k. fbs (DamageUnregister E px k) = fbs k)"

lemma fbs_okD:
  assumes "fbs_ok E fbs"
  shows "drmModeAddFB (kernel_of E) w h d b p hn k = ((ret, fb), k') \<Longrightarrow>
      fbs k' = (if ret = 0 then add_mset fb (fbs k) else fbs k) \<and> (ret = 0 \<longrightarrow> fb \<noteq> 0)"
    and "fbs (drmModeRmFB (kernel_of E) fb k) = fbs k - {#fb#}" and "0 \<notin># fbs k"
    and "fbs (snd (map_dumb (kernel_of E) hn k)) = fbs k" and "fbs (snd (sys_mmap (kernel_of E) n off k)) = fbs k"
    and "fbs (DamageRegister E px k) = fbs k" and "fbs (DamageUnregister E px k) = fbs k"
  using assms unfolding fbs_ok_def by - (elim conjE, metis)+

definition fb_entry :: "u32 \<Rightarrow> u32 multiset" where
  "fb_entry fb = (if fb = 0 then {#} else {#fb#})"

lemma map_slave_frame:
  assumes "fbs_ok E fbs" and "drmmode_map_slave_bo (kernel_of E) px s = (ok, t)"
  shows "fbs (kst t) = fbs (kst s) \<and> crtcs t = crtcs s \<and> mss t = mss s \<and>
    (\<forall>x. pp_fb_id (ppriv t x) = pp_fb_id (ppriv s x) \<and> pp_flip_seq (ppriv t x) = pp_flip_seq (ppriv s x))"
  using assms(2) fbs_okD(4,5) [OF assms(1)]
  by (auto simp: drmmode_map_slave_bo_def dumb_bo_map_def upd_ppriv_def misc_fault_def case_prod_beta
      split: option.splits if_splits)

lemma set_target_registers:
  assumes fb: "fbs_ok E fbs" and "scanout_target second (crtcs s p) = None" and "pp_fb_id (ppriv s px) = 0"
    and "drmmode_set_target_scanout_pixmap_cpu E p (Some px) second s = (ok, t)"
  shows "ok \<and> scanout_target second (crtcs t p) = Some px \<and>
    crtcs t = (crtcs s)(p := set_scanout_target second (Some px) (crtcs s p)) \<and> mss t = mss s \<and>
    (\<forall>x. x \<noteq> px \<longrightarrow> pp_fb_id (ppriv t x) = pp_fb_id (ppriv s x)) \<and>
    fbs (kst t) = fbs (kst s) + fb_entry (pp_fb_id (ppriv t px))"
proof -
  let ?s = "upd_ppriv px (\<lambda>v. v\<lparr>pp_slave_damage := True\<rparr>) s"
  obtain m u where u: "drmmode_map_slave_bo (kernel_of E) px ?s = (m, u)" by (metis surj_pair)
  note uf = map_slave_frame [OF fb u]
  let ?k = "DamageRegister E px (kst u)"
  have z: "pp_fb_id (ppriv u px) = 0" and o: "\<And>x. x \<noteq> px \<Longrightarrow> pp_fb_id (ppriv u x) = pp_fb_id (ppriv s x)"
    using uf assms(3) by (simp_all add: upd_ppriv_def)
  have k: "fbs ?k = fbs (kst s)" using uf fbs_okD(6) [OF fb] by (simp add: upd_ppriv_def)
  have cm: "crtcs u = crtcs s" "mss u = mss s" using uf by (simp_all add: upd_ppriv_def)
  have tgt: "scanout_target second (set_scanout_target second v c) = v" for v c
    by (simp add: scanout_target_def set_scanout_target_def)
  show ?thesis
  proof (cases "pp_backing_bo (ppriv u px)")
    case None
    with assms(2,4) u z o k cm show ?thesis
      by (auto simp: drmmode_set_target_scanout_pixmap_cpu_def drop_target_cpu_def Let_def upd_crtc_def misc_fault_def
          tgt fb_entry_def)
  next
    case (Some d)
    obtain ret i k' where a: "drmModeAddFB (kernel_of E) (pixmap_width (kernel_of E) px ?k) (pixmap_height (kernel_of E) px ?k)
       (pixmap_depth E px ?k) (pixmap_bpp E px ?k) (pixmap_devKind (kernel_of E) px ?k) (db_handle d) ?k = ((ret, i), k')"
      by (metis surj_pair)
    from fbs_okD(1) [OF fb a] k have k': "fbs k' = (if ret = 0 then add_mset i (fbs (kst s)) else fbs (kst s))"
      "ret = 0 \<longrightarrow> i \<noteq> 0" by simp_all
    from assms(2,4) u z Some a have t: "ok" "t = upd_crtc p (set_scanout_target second (Some px))
        (if ret = 0 then upd_ppriv px (\<lambda>v. v\<lparr>pp_fb_id := i\<rparr>) (u\<lparr>kst := k'\<rparr>) else u\<lparr>kst := k'\<rparr>)"
      by (auto simp: drmmode_set_target_scanout_pixmap_cpu_def drop_target_cpu_def Let_def)
    with k' z o cm show ?thesis by (auto simp: upd_crtc_def upd_ppriv_def tgt fb_entry_def)
  qed
qed

lemma drop_target_releases:
  assumes fb: "fbs_ok E fbs" and "scanout_target second (crtcs s p) = Some px"
    and "drop_target_cpu E p second s = t"
  shows "crtcs t = (crtcs s)(p := set_scanout_target second None (crtcs s p)) \<and> mss t = mss s \<and>
    pp_fb_id (ppriv t px) = 0 \<and> (\<forall>x. x \<noteq> px \<longrightarrow> pp_fb_id (ppriv t x) = pp_fb_id (ppriv s x)) \<and>
    fbs (kst t) = fbs (kst s) - fb_entry (pp_fb_id (ppriv s px))"
proof -
  have "fbs k - {#0#} = fbs k" for k using fbs_okD(3) [OF fb] by simp
  then show ?thesis
    using assms(2,3) fbs_okD(2,7) [OF fb]
    by (auto simp: drop_target_cpu_def Let_def upd_crtc_def upd_ppriv_def fb_entry_def)
qed

text \<open>
  C18. Enabling and disabling shared flipping is balanced. On a sink that scans the pixmaps
  out itself, enabling registers the two pixmaps with the kernel and makes them the targets of
  the CRTC; disabling it then takes back exactly those framebuffers, leaves both pixmaps and
  the CRTC without any, and always returns.
\<close>

theorem shared_flipping_balanced:
  assumes "fbs_ok E fbs" and "\<not> is_reverse_prime_offload (ms_of_crtc s p)"
    and "prime_pixmap (crtcs s p) = None" and "prime_pixmap_back (crtcs s p) = None"
    and "\<not> flipping_active (crtcs s p)" and "f \<noteq> b"
    and "pp_fb_id (ppriv s f) = 0" and "pp_fb_id (ppriv s b) = 0"
  shows "\<exists>t u. drmmode_EnableSharedPixmapFlipping E p f b s = Some (True, t) \<and>
    drmmode_DisableSharedPixmapFlipping E p t = Some u \<and>
    prime_pixmap (crtcs t p) = Some f \<and> prime_pixmap_back (crtcs t p) = Some b \<and> enable_flipping (crtcs t p) \<and>
    fbs (kst t) = fbs (kst s) + fb_entry (pp_fb_id (ppriv t f)) + fb_entry (pp_fb_id (ppriv t b)) \<and>
    prime_pixmap (crtcs u p) = None \<and> prime_pixmap_back (crtcs u p) = None \<and> \<not> enable_flipping (crtcs u p) \<and>
    pp_fb_id (ppriv u f) = 0 \<and> pp_fb_id (ppriv u b) = 0 \<and> fbs (kst u) = fbs (kst s)"
proof -
  note tgts = scanout_target_def set_scanout_target_def
  let ?s = "set_enable_flipping p True s"
  obtain o1 s1 where 1: "drmmode_set_target_scanout_pixmap_cpu E p (Some f) False ?s = (o1, s1)" by (metis surj_pair)
  have "scanout_target False (crtcs ?s p) = None" "pp_fb_id (ppriv ?s f) = 0"
    using assms(3,7) by (simp_all add: set_enable_flipping_def upd_crtc_def tgts)
  note r1 = set_target_registers [OF assms(1) this 1]
  let ?s1 = "set_enable_flipping p True s1"
  obtain o2 s2 where 2: "drmmode_set_target_scanout_pixmap_cpu E p (Some b) True ?s1 = (o2, s2)" by (metis surj_pair)
  have "scanout_target True (crtcs ?s1 p) = None" "pp_fb_id (ppriv ?s1 b) = 0"
    using assms(4,6,8) r1 by (simp_all add: set_enable_flipping_def upd_crtc_def tgts)
  note r2 = set_target_registers [OF assms(1) this 2]
  let ?t = "set_enable_flipping p True s2"
  have cpu: "\<not> is_reverse_prime_offload (ms_of_crtc ?s p)" "\<not> is_reverse_prime_offload (ms_of_crtc ?s1 p)"
    using assms(2) r1 by (simp_all add: set_enable_flipping_def upd_crtc_def upd_ms_def tgts)
  have en: "drmmode_EnableSharedPixmapFlipping E p f b s = Some (True, ?t)"
    using cpu 1 2 r1 r2 by (simp add: drmmode_EnableSharedPixmapFlipping_def drmmode_set_target_scanout_pixmap_def Let_def)
  have tc: "crtcs ?t p = (crtcs s p)\<lparr>enable_flipping := True, prime_pixmap := Some f, prime_pixmap_back := Some b\<rparr>"
    and tp: "fbs (kst ?t) = fbs (kst s) + fb_entry (pp_fb_id (ppriv ?t f)) + fb_entry (pp_fb_id (ppriv ?t b))"
    using r1 r2 assms(6) by (simp_all add: set_enable_flipping_def upd_crtc_def tgts)
  let ?d = "set_enable_flipping p False ?t"
  have fini: "drmmode_FiniSharedPixmapFlipping p ?d = ?d"
    using tc assms(5) by (simp add: drmmode_FiniSharedPixmapFlipping_def set_enable_flipping_def upd_crtc_def)
  have dc: "crtcs ?d p = (crtcs s p)\<lparr>enable_flipping := False, prime_pixmap := Some f, prime_pixmap_back := Some b\<rparr>"
    using tc by (simp add: set_enable_flipping_def upd_crtc_def)
  let ?v = "drop_target_cpu E p False ?d"
  have "scanout_target False (crtcs ?d p) = Some f" by (simp add: dc tgts)
  note v = drop_target_releases [OF assms(1) this refl]
  let ?u = "drop_target_cpu E p True ?v"
  have "scanout_target True (crtcs ?v p) = Some b" using v dc by (simp add: tgts)
  note u = drop_target_releases [OF assms(1) this refl]
  have rev: "\<not> is_reverse_prime_offload (ms_of_crtc ?d p)" "\<not> is_reverse_prime_offload (ms_of_crtc ?v p)"
    using assms(2) r1 r2 v by (simp_all add: set_enable_flipping_def upd_crtc_def tgts)
  have dis: "drmmode_DisableSharedPixmapFlipping E p ?t = Some ?u"
    using rev by (simp add: drmmode_DisableSharedPixmapFlipping_def Let_def fini drmmode_set_target_scanout_pixmap_def
        drmmode_set_target_scanout_pixmap_cpu_def)
  have "ppriv ?d = ppriv ?t" "kst ?d = kst ?t" by (simp_all add: set_enable_flipping_def upd_crtc_def)
  then have "pp_fb_id (ppriv ?u f) = 0" "pp_fb_id (ppriv ?u b) = 0" "fbs (kst ?u) = fbs (kst s)"
    using u v tp assms(6) by auto
  moreover have "crtcs ?u p = (crtcs s p)\<lparr>enable_flipping := False, prime_pixmap := None, prime_pixmap_back := None\<rparr>"
    using u v dc by (simp add: tgts)
  ultimately show ?thesis using en dis tc tp by (intro exI [of _ ?t] exI [of _ ?u]) simp
qed

section \<open>Examples\<close>

text \<open>A screen of 640 by 480 with a dumb front buffer, on a kernel that can map buffers or cannot.\<close>

definition mapping_kernel :: "u32 list kernel" where
  "mapping_kernel = dumb_kernel\<lparr>map_dumb := \<lambda>h k. ((0, 0), k), sys_mmap := \<lambda>n off k. ((True, 0), k)\<rparr>"

definition small_screen :: "u32 list drv" where
  "small_screen = (idle_drv [7])\<lparr>mss := (\<lambda>_. zero_ms\<lparr>virtualX := 640, virtualY := 480, displayWidth := 640,
     kbpp := 32, bitsPerPixel := 32, fb_id := 5, front_bo := no_bo\<lparr>bo_width := 640, bo_height := 480,
       bo_dumb := Some \<lparr>db_handle = 7, db_size = 0, db_ptr = False, db_pitch = 2560\<rparr>\<rparr>\<rparr>)\<rparr>"

lemma small_screen_simps [simp]:
  "crtcs small_screen p = zero_crtc" "kst small_screen = [7]" "mem_ok small_screen = []"
  "own_kind (mss small_screen 0) (front_bo (mss small_screen 0))" "virtualX (mss small_screen 0) = 640"
  "virtualY (mss small_screen 0) = 480" "no_flipping q small_screen" "fb_id (mss small_screen 0) = 5"
  "has_gbm (mss small_screen 0) = False" "ms_glamor (mss small_screen 0) = False"
  "shadow_enable (mss small_screen 0) = False" "shadow_enable2 (mss small_screen 0) = False"
  "config (mss small_screen 0) = []" "bo_gbm (front_bo (mss small_screen 0)) = None"
  "bo_dumb (front_bo (mss small_screen 0)) = Some \<lparr>db_handle = 7, db_size = 0, db_ptr = False, db_pitch = 2560\<rparr>"
  by (simp_all add: small_screen_def idle_drv_def idle_drm_def drm.extend_def own_kind_def zero_ms_def no_bo_def
      no_flipping_def zero_crtc_def)

lemmas resize_evals = drmmode_xf86crtc_resize_def resize_show_def resize_shadows_def resize_fail_def
  drmmode_create_bo_def dumb_bo_create_def calloc_def drmmode_map_front_bo_def drmmode_bo_map_def dumb_bo_map_def
  drmmode_glamor_handle_new_screen_pixmap_def drmmode_set_pixmap_bo_def plain_env_def dumb_kernel_def
  dead_kernel_def Let_def upd_ms_def case_prod_beta


lemma resize_failure_undone_witness:
  "\<exists>s'. drmmode_xf86crtc_resize (plain_env dumb_kernel) 0 800 600 small_screen = Some (False, s') \<and>
     virtualX (mss s' 0) = 640 \<and> mset (kst s') = {#7#}"
proof -
  have "\<exists>s'. drmmode_xf86crtc_resize (plain_env dumb_kernel) 0 800 600 small_screen = Some (False, s')"
    by (simp add: resize_evals)
  then obtain s' where s': "drmmode_xf86crtc_resize (plain_env dumb_kernel) 0 800 600 small_screen = Some (False, s')"
    by blast
  have "resize_calls_ok (plain_env dumb_kernel) mset"
    using buffers_ok_dumb_kernel
    by (simp add: resize_calls_ok_def plain_env_def) (simp add: dumb_kernel_def dead_kernel_def)
  from resize_failure_undone [OF this _ s'] s' show ?thesis by (simp add: restored_def)
qed

text \<open>A kernel whose state is its list of framebuffers, and two imported pixmaps.\<close>

definition fb_kernel :: "u32 list kernel" where
  "fb_kernel = dead_kernel\<lparr>drmModeAddFB := \<lambda>w h d b p hd k.
       if length k < 10 then ((0, of_nat (length k) + 1), (of_nat (length k) + 1) # k) else ((-1, 0), k),
     drmModeRmFB := \<lambda>fb k. remove1 fb k\<rparr>"

definition two_imports :: "u32 list drv" where
  "two_imports = (idle_drv [])\<lparr>ppriv := (\<lambda>_. zero_ppriv\<lparr>pp_backing_bo :=
     Some \<lparr>db_handle = 3, db_size = 0, db_ptr = True, db_pitch = 2560\<rparr>\<rparr>)\<rparr>"

lemma fbs_ok_fb_kernel: "fbs_ok (plain_env fb_kernel) (\<lambda>k. filter_mset (\<lambda>i. i \<noteq> 0) (mset k))"
proof -
  have "of_nat n + 1 \<noteq> (0 :: u32)" if "n < 10" for n
  proof -
    have "unat (of_nat (Suc n) :: u32) = Suc n" using that by (simp add: unsigned_of_nat take_bit_nat_eq_self del: of_nat_Suc)
    then show ?thesis by (metis Suc_neq_Zero add.commute of_nat_Suc unat_0)
  qed
  then show ?thesis
    by (auto simp: fbs_ok_def plain_env_def fb_kernel_def dead_kernel_def)
qed

lemma shared_flipping_balanced_witness:
  "\<exists>t u. drmmode_EnableSharedPixmapFlipping (plain_env fb_kernel) 0 10 11 two_imports = Some (True, t) \<and>
     drmmode_DisableSharedPixmapFlipping (plain_env fb_kernel) 0 t = Some u \<and>
     prime_pixmap (crtcs t 0) = Some 10 \<and> filter_mset (\<lambda>i. i \<noteq> 0) (mset (kst u)) = {#}"
proof -
  have "\<not> is_reverse_prime_offload (ms_of_crtc two_imports 0)" "prime_pixmap (crtcs two_imports 0) = None"
    "prime_pixmap_back (crtcs two_imports 0) = None" "\<not> flipping_active (crtcs two_imports 0)"
    "pp_fb_id (ppriv two_imports x) = 0" "kst two_imports = []" for x
    by (simp_all add: two_imports_def idle_drv_def idle_drm_def drm.extend_def zero_crtc_def zero_ms_def zero_ppriv_def)
  then show ?thesis
    using shared_flipping_balanced [OF fbs_ok_fb_kernel, of two_imports 0 10 11] by auto
qed

end
