(* ===== verification/Cursors.thy ===== *)
theory Cursors
  imports Screen_Fb
begin

text \<open>
  Cursors (\<^verbatim>\<open>src/src/drmmode_display.c\<close>): the buffers made with the front buffer and
  given back with it, the hardware cursor of a CRTC with its fallback to software, and the
  count of software cursors on the screen, which keeps Present from flipping. At the end the
  probe for the default depth, which makes a buffer for a moment.
\<close>

section \<open>The initial buffers\<close>

fun create_cursor_bos :: "'k kernel \<Rightarrow> u32 \<Rightarrow> u32 \<Rightarrow> nat list \<Rightarrow> 'k drv \<Rightarrow> 'k drv" where
  "create_cursor_bos K w h [] s = s"
| "create_cursor_bos K w h (p # ps) s =
     (case dumb_bo_create K w h 32 s of
        (bo, s) \<Rightarrow> create_cursor_bos K w h ps (upd_crtc p (\<lambda>c. c\<lparr>cursor_bo := bo\<rparr>) s))"

definition drmmode_create_initial_bos :: "'k env \<Rightarrow> nat \<Rightarrow> 'k drv \<Rightarrow> bool \<times> 'k drv" where
  "drmmode_create_initial_bos E scr s =
     (let K = kernel_of E; m = mss s scr; cpp = (uint (kbpp m) + 7) sdiv 8 in
      case drmmode_create_bo K (realloc_oracle E) scr (front_bo m) (word_of_int (virtualX m)) (word_of_int (virtualY m))
             (ucast (kbpp m)) s of
        ((ok, bo), s) \<Rightarrow>
          let s = upd_ms scr (\<lambda>m. m\<lparr>front_bo := bo\<rparr>) s in
          if \<not> ok then (False, s)
          else
            let s = upd_ms scr (\<lambda>m. m\<lparr>displayWidth := uint (drmmode_bo_get_pitch bo div word_of_int cpp)\<rparr>) s
            in (True, create_cursor_bos K (cursor_width m) (cursor_height m) (config m) s))"

text \<open>A CRTC whose cursor buffer could not be made has a null pointer, which mapping reaches through.\<close>

fun drmmode_map_cursor_bos :: "'k kernel \<Rightarrow> nat list \<Rightarrow> 'k drv \<Rightarrow> bool \<times> 'k drv" where
  "drmmode_map_cursor_bos K [] s = (True, s)"
| "drmmode_map_cursor_bos K (p # ps) s =
     (case cursor_bo (crtcs s p) of
        None \<Rightarrow> drmmode_map_cursor_bos K ps (misc_fault s)
      | Some bo \<Rightarrow>
          (case dumb_bo_map K bo s of
             ((ret, bo), s) \<Rightarrow>
               let s = upd_crtc p (\<lambda>c. c\<lparr>cursor_bo := Some bo\<rparr>) s in
               if ret \<noteq> 0 then (False, s) else drmmode_map_cursor_bos K ps s))"

text \<open>\<open>cursor_bo\<close> is \<open>None\<close> once its buffer is freed.\<close>

fun free_cursor_bos :: "'k kernel \<Rightarrow> nat list \<Rightarrow> 'k drv \<Rightarrow> 'k drv" where
  "free_cursor_bos K [] s = s"
| "free_cursor_bos K (p # ps) s =
     (case cursor_bo (crtcs s p) of
        None \<Rightarrow> free_cursor_bos K ps (misc_fault s)
      | Some bo \<Rightarrow>
          (case dumb_bo_destroy K bo s of
             ((ret, bo), s) \<Rightarrow> free_cursor_bos K ps (upd_crtc p (\<lambda>c. c\<lparr>cursor_bo := bo\<rparr>) s)))"

definition drmmode_free_bos :: "'k kernel \<Rightarrow> nat \<Rightarrow> 'k drv \<Rightarrow> 'k drv" where
  "drmmode_free_bos K scr s =
     (let s = (if fb_id (mss s scr) \<noteq> 0
               then upd_ms scr (\<lambda>m. m\<lparr>fb_id := 0\<rparr>) (s\<lparr>kst := drmModeRmFB K (fb_id (mss s scr)) (kst s)\<rparr>)
               else s)
      in case drmmode_bo_destroy K (front_bo (mss s scr)) s of
           (bo, s) \<Rightarrow> free_cursor_bos K (config (mss s scr)) (upd_ms scr (\<lambda>m. m\<lparr>front_bo := bo\<rparr>) s))"

section \<open>The hardware cursor\<close>

text \<open>
  \<open>current_cursor\<close> is the hot spot of the server's current cursor, \<open>disable_hw_cursor\<close> sets
  \<^verbatim>\<open>MaxWidth\<close> and \<^verbatim>\<open>MaxHeight\<close> of its cursor information to zero.
\<close>

record 'k cursor_server =
  current_cursor :: "nat \<Rightarrow> 'k \<Rightarrow> (u32 \<times> u32) option"
  disable_hw_cursor :: "nat \<Rightarrow> 'k \<Rightarrow> 'k"

definition drmmode_set_cursor_position :: "'k kernel \<Rightarrow> nat \<Rightarrow> int \<Rightarrow> int \<Rightarrow> 'k drv \<Rightarrow> 'k drv" where
  "drmmode_set_cursor_position K p x y s = s\<lparr>kst := drmModeMoveCursor K (crtc_id (crtcs s p)) x y (kst s)\<rparr>"

definition drmmode_set_cursor :: "'k kernel \<Rightarrow> 'k cursor_server \<Rightarrow> nat \<Rightarrow> 'k drv \<Rightarrow> bool \<times> 'k drv" where
  "drmmode_set_cursor K C p s =
     (let c = crtcs s p; scr = crtc_scrn c; w = cursor_width (mss s scr); h = cursor_height (mss s scr) in
      case cursor_bo c of
        None \<Rightarrow> (False, misc_fault s)
      | Some bo \<Rightarrow>
          (case current_cursor C scr (kst s) of
             None \<Rightarrow> (True, s)
           | Some (xhot, yhot) \<Rightarrow>
               (case drmModeSetCursor2 K (crtc_id c) (db_handle bo) w h xhot yhot (kst s) of
                  (ret, k) \<Rightarrow>
                    (case (if ret = - EINVAL then drmModeSetCursor K (crtc_id c) (db_handle bo) w h k else (ret, k)) of
                       (ret, k) \<Rightarrow>
                         let s = s\<lparr>kst := k\<rparr>;
                             s = (if ret = - ENXIO then
                                    upd_ms scr (\<lambda>m. m\<lparr>sw_cursor := True\<rparr>) (s\<lparr>kst := disable_hw_cursor C scr (kst s)\<rparr>)
                                  else s)
                         in (ret = 0, s)))))"

definition drmmode_load_cursor_argb_check ::
  "'k kernel \<Rightarrow> 'k cursor_server \<Rightarrow> nat \<Rightarrow> u32 list \<Rightarrow> 'k drv \<Rightarrow> bool \<times> 'k drv" where
  "drmmode_load_cursor_argb_check K C p argb s =
     (let c = crtcs s p; m = mss s (crtc_scrn c) in
      case cursor_bo c of
        None \<Rightarrow> (False, misc_fault s)
      | Some bo \<Rightarrow>
          if \<not> db_ptr bo then (False, misc_fault s)
          else
            let s = s\<lparr>kst := write_cursor K (db_handle bo) (take (unat (cursor_width m * cursor_height m)) argb) (kst s)\<rparr>
            in if cursor_up c then drmmode_set_cursor K C p s else (True, s))"

definition drmmode_hide_cursor :: "'k kernel \<Rightarrow> nat \<Rightarrow> 'k drv \<Rightarrow> 'k drv" where
  "drmmode_hide_cursor K p s =
     (let s = upd_crtc p (\<lambda>c. c\<lparr>cursor_up := False\<rparr>) s; m = ms_of_crtc s p
      in s\<lparr>kst := snd (drmModeSetCursor K (crtc_id (crtcs s p)) 0 (cursor_width m) (cursor_height m) (kst s))\<rparr>)"

definition drmmode_show_cursor :: "'k kernel \<Rightarrow> 'k cursor_server \<Rightarrow> nat \<Rightarrow> 'k drv \<Rightarrow> bool \<times> 'k drv" where
  "drmmode_show_cursor K C p s = drmmode_set_cursor K C p (upd_crtc p (\<lambda>c. c\<lparr>cursor_up := True\<rparr>) s)"

section \<open>Software cursors\<close>

text \<open>
  The \<^verbatim>\<open>msSpritePrivRec\<close> of a device on a screen: the cursor's hot spot and size, and
  whether it is on the screen.
\<close>

record sprite =
  sp_cursor :: "(int \<times> int \<times> int \<times> int) option"
  sprite_visible :: bool

definition drmmode_sprite_do_set_cursor ::
  "sprite \<Rightarrow> int \<Rightarrow> int \<Rightarrow> modesetting \<Rightarrow> sprite \<times> modesetting" where
  "drmmode_sprite_do_set_cursor sp x y m =
     (let v = (case sp_cursor sp of
                 None \<Rightarrow> False
               | Some (xhot, yhot, width, height) \<Rightarrow>
                   let x = x - xhot; y = y - yhot
                   in x < virtualX m \<and> y < virtualY m \<and> x + width > 0 \<and> y + height > 0)
      in (sp\<lparr>sprite_visible := v\<rparr>,
          m\<lparr>sprites_visible := sprites_visible m + (of_bool v - of_bool (sprite_visible sp))\<rparr>))"

text \<open>
  The hooks of the server's sprite functions; \<open>sps\<close> holds the sprites of the devices, and
  \<open>wrapped\<close> is the server's own function, called last.
\<close>

definition sprite_hook ::
  "nat \<Rightarrow> nat \<Rightarrow> ((int \<times> int \<times> int \<times> int) option) option \<Rightarrow> int \<Rightarrow> int \<Rightarrow> ('k \<Rightarrow> 'k) \<Rightarrow>
     (nat \<Rightarrow> sprite) \<times> 'k drv \<Rightarrow> (nat \<Rightarrow> sprite) \<times> 'k drv" where
  "sprite_hook scr dev cursor x y wrapped = (\<lambda>(sps, s).
     let sp = (case cursor of None \<Rightarrow> sps dev | Some c \<Rightarrow> (sps dev)\<lparr>sp_cursor := c\<rparr>) in
     case drmmode_sprite_do_set_cursor sp x y (mss s scr) of
       (sp, m) \<Rightarrow> (sps(dev := sp), let s = upd_ms scr (\<lambda>_. m) s in s\<lparr>kst := wrapped (kst s)\<rparr>))"

definition drmmode_sprite_set_cursor ::
  "nat \<Rightarrow> nat \<Rightarrow> (int \<times> int \<times> int \<times> int) option \<Rightarrow> int \<Rightarrow> int \<Rightarrow> ('k \<Rightarrow> 'k) \<Rightarrow>
     (nat \<Rightarrow> sprite) \<times> 'k drv \<Rightarrow> (nat \<Rightarrow> sprite) \<times> 'k drv" where
  "drmmode_sprite_set_cursor scr dev cursor x y wrapped = sprite_hook scr dev (Some cursor) x y wrapped"

definition drmmode_sprite_move_cursor ::
  "nat \<Rightarrow> nat \<Rightarrow> int \<Rightarrow> int \<Rightarrow> ('k \<Rightarrow> 'k) \<Rightarrow> (nat \<Rightarrow> sprite) \<times> 'k drv \<Rightarrow> (nat \<Rightarrow> sprite) \<times> 'k drv" where
  "drmmode_sprite_move_cursor scr dev x y wrapped = sprite_hook scr dev None x y wrapped"

section \<open>The default depth\<close>

text \<open>
  \<open>cap\<close> is the answer to \<^verbatim>\<open>DRM_CAP_DUMB_PREFERRED_DEPTH\<close>, \<open>res\<close> the minimal size
  of \<^verbatim>\<open>drmModeGetResources\<close>, \<open>None\<close> when that fails. The result is the depth and the
  bits per pixel, \<open>bpp\<close> what they were before.
\<close>

definition drmmode_get_default_bpp ::
  "'k kernel \<Rightarrow> int \<times> u64 \<Rightarrow> (u32 \<times> u32) option \<Rightarrow> int \<Rightarrow> 'k drv \<Rightarrow> (int \<times> int) \<times> 'k drv" where
  "drmmode_get_default_bpp K cap res bpp s =
     (if fst cap = 0 \<and> (snd cap = 16 \<or> snd cap = 8) then ((uint (snd cap), uint (snd cap)), s)
      else case res of
        None \<Rightarrow> ((24, bpp), s)
      | Some (min_width, min_height) \<Rightarrow>
          let w = (if min_width = 0 then 1 else min_width); h = (if min_height = 0 then 1 else min_height) in
          (case dumb_bo_create K w h 32 s of
             (None, s) \<Rightarrow> ((24, 24), s)
           | (Some bo, s) \<Rightarrow>
               (case drmModeAddFB K w h 24 32 (db_pitch bo) (db_handle bo) (kst s) of
                  ((ret, fb), k) \<Rightarrow>
                    let s = s\<lparr>kst := k\<rparr> in
                    if ret \<noteq> 0 then ((24, 24), snd (dumb_bo_destroy K bo s))
                    else ((24, 32), snd (dumb_bo_destroy K bo (s\<lparr>kst := drmModeRmFB K fb (kst s)\<rparr>))))))"

section \<open>Properties\<close>

text \<open>A call of one of the hooks: the device, its new cursor when it is set, the position.\<close>

fun sprite_call ::
  "nat \<Rightarrow> nat \<times> ((int \<times> int \<times> int \<times> int) option) option \<times> int \<times> int \<times> ('k \<Rightarrow> 'k) \<Rightarrow>
     (nat \<Rightarrow> sprite) \<times> 'k drv \<Rightarrow> (nat \<Rightarrow> sprite) \<times> 'k drv" where
  "sprite_call scr (dev, Some cursor, x, y, wrapped) = drmmode_sprite_set_cursor scr dev cursor x y wrapped"
| "sprite_call scr (dev, None, x, y, wrapped) = drmmode_sprite_move_cursor scr dev x y wrapped"

definition sprites_ok :: "nat list \<Rightarrow> nat \<Rightarrow> (nat \<Rightarrow> sprite) \<times> 'k drv \<Rightarrow> bool" where
  "sprites_ok devs scr st \<longleftrightarrow>
     sprites_visible (mss (snd st) scr) = int (length (filter (\<lambda>d. sprite_visible (fst st d)) devs))"

lemma count_update:
  assumes "distinct devs" and "d \<in> set devs"
  shows "int (length (filter (\<lambda>e. P ((f(d := v)) e)) devs)) =
    int (length (filter (\<lambda>e. P (f e)) devs)) + (of_bool (P v) - of_bool (P (f d)))"
  using assms
proof (induction devs)
  case Nil
  then show ?case by simp
next
  case (Cons e devs)
  then have "d \<notin> set devs \<Longrightarrow> filter (\<lambda>e. P ((f(d := v)) e)) devs = filter (\<lambda>e. P (f e)) devs"
    by (intro filter_cong) auto
  with Cons show ?case by (cases "d = e") auto
qed

lemma sprite_call_ok:
  assumes "distinct devs" and "fst c \<in> set devs" and "sprites_ok devs scr st"
  shows "sprites_ok devs scr (sprite_call scr c st)"
proof -
  obtain d cur x y f sps s where c: "c = (d, cur, x, y, f)" and st: "st = (sps, s)" by (metis surj_pair)
  have vis: "sprite_visible (case cur of None \<Rightarrow> sps d | Some k \<Rightarrow> (sps d)\<lparr>sp_cursor := k\<rparr>) = sprite_visible (sps d)"
    by (simp split: option.split)
  have "sprite_call scr c st = sprite_hook scr d cur x y f st"
    by (cases cur) (simp_all add: c drmmode_sprite_set_cursor_def drmmode_sprite_move_cursor_def)
  then show ?thesis
    using assms count_update [OF assms(1), of d sprite_visible sps] vis
    by (cases cur) (simp_all add: sprite_hook_def st c drmmode_sprite_do_set_cursor_def Let_def sprites_ok_def upd_ms_def
        case_prod_beta)
qed



lemma create_cursor_frame:
  "distinct ps \<Longrightarrow> p \<notin> set ps \<Longrightarrow> cursor_bo (crtcs (create_cursor_bos K w h ps s) p) = cursor_bo (crtcs s p)"
proof (induction ps arbitrary: s)
  case Nil
  then show ?case by simp
next
  case (Cons q ps)
  obtain bo t where "dumb_bo_create K w h 32 s = (bo, t)" by (metis surj_pair)
  moreover from this have "crtcs t = crtcs s"
    by (auto simp: dumb_bo_create_def case_prod_beta frame_simps split: if_splits)
  ultimately show ?case using Cons by (simp add: upd_crtc_def)
qed

definition cursor_handle :: "crtc \<Rightarrow> u32 multiset" where
  "cursor_handle c = (case cursor_bo c of None \<Rightarrow> {#} | Some bo \<Rightarrow> {#db_handle bo#})"

definition cursor_handles :: "nat list \<Rightarrow> 'k drv \<Rightarrow> u32 multiset" where
  "cursor_handles ps s = sum_list (map (\<lambda>p. cursor_handle (crtcs s p)) ps)"

lemma create_cursors_live:
  assumes "buffers_ok K live"
  shows "distinct ps \<Longrightarrow> let t = create_cursor_bos K w h ps s in
    mss t = mss s \<and> live (kst t) = live (kst s) + cursor_handles ps t"
proof (induction ps arbitrary: s)
  case Nil
  then show ?case by (simp add: cursor_handles_def)
next
  case (Cons p ps)
  obtain bo t where c: "dumb_bo_create K w h 32 s = (bo, t)" by (metis surj_pair)
  then have f: "mss t = mss s"
    by (auto simp: dumb_bo_create_def case_prod_beta frame_simps split: if_splits)
  let ?u = "upd_crtc p (\<lambda>c. c\<lparr>cursor_bo := bo\<rparr>) t"
  have "cursor_bo (crtcs (create_cursor_bos K w h ps ?u) p) = bo"
    using create_cursor_frame [of ps p K w h ?u] Cons.prems by (simp add: upd_crtc_def)
  then have "cursor_handles (p # ps) (create_cursor_bos K w h ps ?u) =
      (case bo of None \<Rightarrow> {#} | Some b \<Rightarrow> {#db_handle b#}) + cursor_handles ps (create_cursor_bos K w h ps ?u)"
    by (simp add: cursor_handles_def cursor_handle_def)
  moreover have "live (kst t) = live (kst s) + (case bo of None \<Rightarrow> {#} | Some b \<Rightarrow> {#db_handle b#})"
    using dumb_create_live [OF assms c] by (simp split: option.split)
  ultimately show ?case
    using Cons.IH [of ?u] Cons.prems c f by (simp add: Let_def frame_simps)
qed

lemma free_cursors_live:
  assumes "resize_calls_ok E live"
  shows "distinct ps \<Longrightarrow> live (kst s) = M + cursor_handles ps s \<Longrightarrow>
    live (kst (free_cursor_bos (kernel_of E) ps s)) = M"
proof (induction ps arbitrary: s)
  case Nil
  then show ?case by (simp add: cursor_handles_def)
next
  case (Cons p ps)
  have B: "buffers_ok (kernel_of E) live" and z: "fst (fst (destroy_dumb (kernel_of E) h k)) = 0" for h k
    using assms by (simp_all add: resize_calls_ok_def)
  show ?case
  proof (cases "cursor_bo (crtcs s p)")
    case None
    have "cursor_handles ps (misc_fault s) = cursor_handles ps s" by (simp add: cursor_handles_def misc_fault_def)
    with Cons None show ?thesis by (simp add: cursor_handles_def cursor_handle_def misc_fault_def)
  next
    case (Some bo)
    obtain ret bo' t where d: "dumb_bo_destroy (kernel_of E) bo s = ((ret, bo'), t)" by (metis surj_pair)
    then have r: "ret = 0" and c: "crtcs t = crtcs s"
      using z by (auto simp: dumb_bo_destroy_def Let_def case_prod_beta split: if_splits)
    have l: "live (kst t) = live (kst s) - {#db_handle bo#}" using dumb_destroy_live [OF B d] r by simp
    let ?u = "upd_crtc p (\<lambda>c. c\<lparr>cursor_bo := bo'\<rparr>) t"
    have "cursor_handles ps ?u = cursor_handles ps s"
      unfolding cursor_handles_def by (rule arg_cong [of _ _ sum_list], rule map_cong)
        (use Cons.prems(1) c in \<open>auto simp: upd_crtc_def\<close>)
    moreover have "cursor_handles (p # ps) s = add_mset (db_handle bo) (cursor_handles ps s)"
      using Some by (simp add: cursor_handles_def cursor_handle_def)
    ultimately have "live (kst ?u) = M + cursor_handles ps ?u" using l Cons.prems(2) by (simp add: frame_simps)
    from Cons.IH [OF _ this] Cons.prems(1) Some d show ?thesis by simp
  qed
qed

text \<open>Freeing the buffers of a screen removes their handles.\<close>

lemma free_bos_live:
  assumes "resize_calls_ok E live" and "\<forall>fb k. live (drmModeRmFB (kernel_of E) fb k) = live k"
    and "distinct (config (mss t scr))" and "one_buffer (front_bo (mss t scr))"
    and "live (kst t) = M + {#drmmode_bo_get_handle (front_bo (mss t scr))#} + cursor_handles (config (mss t scr)) t"
  shows "live (kst (drmmode_free_bos (kernel_of E) scr t)) = M"
proof -
  define w where "w = (if fb_id (mss t scr) \<noteq> 0 then upd_ms scr (\<lambda>m. m\<lparr>fb_id := 0\<rparr>)
      (t\<lparr>kst := drmModeRmFB (kernel_of E) (fb_id (mss t scr)) (kst t)\<rparr>) else t)"
  have w: "live (kst w) = live (kst t)" "crtcs w = crtcs t" "front_bo (mss w scr) = front_bo (mss t scr)"
    "config (mss w scr) = config (mss t scr)"
    using assms(2) by (simp_all add: w_def upd_ms_def)
  obtain bo' x where d: "drmmode_bo_destroy (kernel_of E) (front_bo (mss t scr)) w = (bo', x)" by (metis surj_pair)
  have x: "crtcs x = crtcs w" "mss x = mss w" using bo_destroy_frame [of "kernel_of E" "front_bo (mss t scr)" w] d by simp_all
  have "live (kst x) = M + cursor_handles (config (mss t scr)) t"
    using destroy_bo_all(1) [OF assms(1) d assms(4)] assms(5) w by simp
  moreover have "cursor_handles ps (upd_ms scr g x) = cursor_handles ps t" for ps g
    using x w by (simp add: cursor_handles_def frame_simps)
  ultimately have "live (kst (free_cursor_bos (kernel_of E) (config (mss t scr)) (upd_ms scr (\<lambda>m. m\<lparr>front_bo := bo'\<rparr>) x))) = M"
    using free_cursors_live [OF assms(1,3), of "upd_ms scr (\<lambda>m. m\<lparr>front_bo := bo'\<rparr>) x" M]
    by (simp add: frame_simps)
  then show ?thesis using d w x by (simp add: drmmode_free_bos_def Let_def flip: w_def)
qed

text \<open>
  The buffers of a screen are given back. Making the front buffer and the cursors and
  then freeing them returns every kernel handle that was taken: the driver owns what it owned
  before. (When a cursor could not be made, freeing reaches through its null pointer.)
\<close>

theorem initial_buffers_freed:
  assumes "resize_calls_ok E live" and "\<forall>fb k. live (drmModeRmFB (kernel_of E) fb k) = live k"
    and "distinct (config (mss s scr))" and "\<not> drmmode_bo_has_bo (front_bo (mss s scr))"
    and "drmmode_create_initial_bos E scr s = (True, t)"
  shows "live (kst t) = live (kst s) + {#drmmode_bo_get_handle (front_bo (mss t scr))#} +
      cursor_handles (config (mss s scr)) t \<and>
    live (kst (drmmode_free_bos (kernel_of E) scr t)) = live (kst s)"
proof -
  have B: "buffers_ok (kernel_of E) live" using assms(1) by (simp add: resize_calls_ok_def)
  obtain ok bo u where c: "drmmode_create_bo (kernel_of E) (realloc_oracle E) scr (front_bo (mss s scr))
      (word_of_int (virtualX (mss s scr))) (word_of_int (virtualY (mss s scr))) (ucast (kbpp (mss s scr))) s = ((ok, bo), u)"
    by (metis surj_pair)
  note live = create_bo_live [OF B assms(4) c] and frame = create_bo_frame [OF c]
  from assms(5) c obtain v where ok: ok
    and t: "t = create_cursor_bos (kernel_of E) (cursor_width (mss s scr)) (cursor_height (mss s scr)) (config (mss s scr)) v"
    and v: "kst v = kst u" "front_bo (mss v scr) = bo" "config (mss v scr) = config (mss u scr)"
    by (auto simp: drmmode_create_initial_bos_def Let_def upd_ms_def split: if_splits)
  have tv: "mss t = mss v" "live (kst t) = live (kst v) + cursor_handles (config (mss s scr)) t"
    using create_cursors_live [OF B assms(3), of "cursor_width (mss s scr)" "cursor_height (mss s scr)" v]
    by (simp_all add: t Let_def)
  then have lt: "live (kst t) = live (kst s) + {#drmmode_bo_get_handle bo#} + cursor_handles (config (mss s scr)) t"
    using live ok v by simp
  have "one_buffer (front_bo (mss t scr))" "config (mss t scr) = config (mss s scr)"
    using live ok tv v frame by simp_all
  with free_bos_live [OF assms(1,2), of t scr "live (kst s)"] lt tv v assms(3)
  have "live (kst (drmmode_free_bos (kernel_of E) scr t)) = live (kst s)" by simp
  with lt tv v show ?thesis by simp
qed

lemma initial_buffers_freed_witness:
  "mset (kst (drmmode_free_bos dumb_kernel 0 (snd (drmmode_create_initial_bos (plain_env dumb_kernel) 0
     ((idle_drv [])\<lparr>mss := (\<lambda>_. zero_ms\<lparr>virtualX := 640, virtualY := 480, kbpp := 32, config := [0, 1]\<rparr>)\<rparr>))))) = {#}"
proof -
  let ?s = "(idle_drv [])\<lparr>mss := (\<lambda>_. zero_ms\<lparr>virtualX := 640, virtualY := 480, kbpp := 32, config := [0, 1]\<rparr>)\<rparr>"
  have "fst (drmmode_create_initial_bos (plain_env dumb_kernel) 0 ?s)"
    by (simp add: drmmode_create_initial_bos_def drmmode_create_bo_def dumb_bo_create_def plain_env_def
        dumb_kernel_def dead_kernel_def idle_drv_def idle_drm_def drm.extend_def zero_ms_def calloc_def Let_def)
  then obtain t where t: "drmmode_create_initial_bos (plain_env dumb_kernel) 0 ?s = (True, t)" by (metis prod.collapse)
  have "resize_calls_ok (plain_env dumb_kernel) mset"
    using buffers_ok_dumb_kernel
    by (simp add: resize_calls_ok_def plain_env_def) (simp add: dumb_kernel_def dead_kernel_def)
  moreover have "\<forall>fb k. mset (drmModeRmFB (kernel_of (plain_env dumb_kernel)) fb k) = mset k"
    by (simp add: plain_env_def dumb_kernel_def dead_kernel_def)
  ultimately have "mset (kst (drmmode_free_bos (kernel_of (plain_env dumb_kernel)) 0 t)) = mset (kst ?s)"
    using initial_buffers_freed [of "plain_env dumb_kernel" mset ?s 0 t] t
    by (simp add: has_bo_iff zero_ms_def no_bo_def)
  moreover have "kernel_of (plain_env dumb_kernel) = dumb_kernel" "mset (kst ?s) = {#}"
    by (simp_all add: plain_env_def idle_drv_def idle_drm_def drm.extend_def)
  ultimately show ?thesis unfolding t snd_conv by simp
qed

end
