(* ===== verification/Present_Ext.thy ===== *)
theory Present_Ext
  imports Kms_Modeset Geometry Buffers
begin

text \<open>
  The screen functions of the Present extension (\<^verbatim>\<open>src/src/present.c\<close>): the CRTC and the
  frame count of a window, waiting for a frame and giving up waiting, flipping to a client's
  pixmap and back to the screen's. The handlers of its events are in \<open>Flip_Events\<close>.
\<close>

section \<open>Frames\<close>

definition ms_present_get_crtc :: "bool \<Rightarrow> screen \<Rightarrow> drawable_geom \<Rightarrow> rr_crtc option" where
  "ms_present_get_crtc reg s d = ms_randr_crtc_covering_drawable reg s d"

definition ms_present_get_ust_msc ::
  "'k kernel \<Rightarrow> nat \<Rightarrow> 'k drv \<Rightarrow> (int \<times> u64 option \<times> u64 option) \<times> 'k drv" where
  "ms_present_get_ust_msc K p s = ms_get_crtc_ust_msc K p s"

text \<open>\<open>calloc\<close> of an event: its address.\<close>

definition new_present :: "u64 \<Rightarrow> bool \<Rightarrow> 'k drv \<Rightarrow> nat option \<times> 'k drv" where
  "new_present event_id unflip s =
     (case calloc s of (ok, s) \<Rightarrow>
        if \<not> ok then (None, s)
        else (Some (next_addr s),
              s\<lparr>presents := (presents s)(next_addr s \<mapsto> \<lparr>pe_event_id = event_id, pe_unflip = unflip\<rparr>),
                next_addr := next_addr s + 1\<rparr>))"

definition ms_present_queue_vblank ::
  "'k env \<Rightarrow> nat \<Rightarrow> u64 \<Rightarrow> u64 \<Rightarrow> 'k drv \<Rightarrow> (int \<times> 'k drv) option" where
  "ms_present_queue_vblank E p event_id msc s =
     (case new_present event_id False s of
        (None, s) \<Rightarrow> Some (BadAlloc, s)
      | (Some a, s) \<Rightarrow>
          (case ms_drm_queue_alloc p (CB_present a) s of (sq, s) \<Rightarrow>
             if sq = 0 then Some (BadAlloc, free_present a s)
             else map_option (\<lambda>((ok, m), s). (if \<not> ok then BadAlloc else Success, s))
               (ms_queue_vblank (kernel_of E) (flush_of E) drv_abort (loop_bound E) p MS_QUEUE_ABSOLUTE msc False sq s)))"

text \<open>
  \<^verbatim>\<open>ms_present_event_match\<close> reads the first eight bytes of whatever an entry carries,
  because \<^verbatim>\<open>ms_drm_abort\<close> offers it every entry of the queue. For an event of Present
  these are the event's identifier; for a page flip the field \<^verbatim>\<open>on_reference_crtc\<close> with
  its padding; for a DRI2 event its screen pointer and for a shared pixmap the pixmap pointer.
  \<open>ptr\<close> gives the pointers' values, of screens and of pixmaps.
\<close>

record pointers =
  screen_ptr :: "nat \<Rightarrow> u64"
  pixmap_ptr :: "nat \<Rightarrow> u64"

fun first_word :: "pointers \<Rightarrow> 'k drv \<Rightarrow> callback \<Rightarrow> u64" where
  "first_word ptr s (CB_present a) = (case presents s a of None \<Rightarrow> 0 | Some e \<Rightarrow> pe_event_id e)"
| "first_word ptr s (CB_flip on_reference_crtc a) = (if on_reference_crtc then 1 else 0)"
| "first_word ptr s (CB_dri2 a) = (case frame_events s a of None \<Rightarrow> 0 | Some e \<Rightarrow> screen_ptr ptr (fe_screen e))"
| "first_word ptr s (CB_shared front second p fl) = pixmap_ptr ptr front"

definition ms_present_event_match :: "pointers \<Rightarrow> 'k drv \<Rightarrow> u64 \<Rightarrow> callback \<Rightarrow> bool" where
  "ms_present_event_match ptr s match d \<longleftrightarrow> match = first_word ptr s d"

definition ms_present_abort_vblank :: "pointers \<Rightarrow> u64 \<Rightarrow> 'k drv \<Rightarrow> 'k drv" where
  "ms_present_abort_vblank ptr event_id s = ms_drm_abort drv_abort (ms_present_event_match ptr s event_id) s"

definition ms_present_flush :: "'k kernel \<Rightarrow> nat \<Rightarrow> 'k drv \<Rightarrow> 'k drv" where
  "ms_present_flush K scr s =
     (if ms_glamor (mss s scr) then s\<lparr>kst := glamor_block_handler K scr (kst s)\<rparr> else s)"

section \<open>Flips\<close>

text \<open>
  Whether page flipping to a pixmap is possible, and whether \<^verbatim>\<open>*reason\<close> is set to the
  buffer's format (when the caller asks for a reason).
\<close>

definition ms_present_check_unflip :: "'k kernel \<Rightarrow> nat \<Rightarrow> nat \<Rightarrow> 'k drv \<Rightarrow> (bool \<times> bool) \<times> 'k drv" where
  "ms_present_check_unflip K scr pixmap s =
     (let m = mss s scr in
      if \<not> pageflip m then ((False, False), s)
      else if dri2_flipping m then ((False, False), s)
      else if \<not> vtSema m then ((False, False), s)
      else if list_ex (\<lambda>p. bo_gbm (rotate_bo (crtcs s p)) \<noteq> None) (config m) then ((False, False), s)
      else if filter (\<lambda>p. ms_crtc_on (crtcs s p)) (config m) = [] then ((False, False), s)
      else if \<not> atomic_modeset m \<and> pixmap_devKind K pixmap (kst s) \<noteq> drmmode_bo_get_pitch (front_bo m)
      then ((False, False), s)
      else case gbm_bo_from_pixmap K pixmap (kst s) of
        (None, k) \<Rightarrow> ((True, False), s\<lparr>kst := k\<rparr>)
      | (Some g, k) \<Rightarrow>
          let s = s\<lparr>kst := gbm_bo_destroy K g k\<rparr> in
          if \<not> drmmode_is_format_supported (map (crtcs s) (config m)) (gb_format g) (gb_modifier g)
          then ((False, True), s)
          else ((True, False), s))"

definition ms_present_check_flip :: "'k kernel \<Rightarrow> nat \<Rightarrow> nat \<Rightarrow> 'k drv \<Rightarrow> (bool \<times> bool) \<times> 'k drv" where
  "ms_present_check_flip K scr pixmap s =
     (if sprites_visible (mss s scr) > 0 then ((False, False), s)
      else ms_present_check_unflip K scr pixmap s)"

definition ms_present_flip ::
  "'k env \<Rightarrow> nat \<Rightarrow> u64 \<Rightarrow> nat \<Rightarrow> bool \<Rightarrow> 'k drv \<Rightarrow> (bool \<times> 'k drv) option" where
  "ms_present_flip E p event_id pixmap sync_flip s =
     (let K = kernel_of E; scr = crtc_scrn (crtcs s p) in
      case ms_present_check_flip K scr pixmap s of ((ok, reason), s) \<Rightarrow>
        if \<not> ok then Some (False, s)
        else case new_present event_id False s of
          (None, s) \<Rightarrow> Some (False, s)
        | (Some a, s) \<Rightarrow>
            map_option (\<lambda>(ret, s).
                (ret, if ret then upd_ms scr (\<lambda>m. m\<lparr>present_flipping := True\<rparr>) s else s))
              (ms_do_pageflip K (flush_of E) (loop_bound E) scr pixmap (FLIP_PRESENT a)
                 (vblank_pipe (crtcs s p)) (\<not> sync_flip) s))"

text \<open>The loop of \<^verbatim>\<open>ms_present_unflip\<close> that shows the screen's own buffer again.\<close>

fun unflip_crtcs :: "'k env \<Rightarrow> nat \<Rightarrow> nat list \<Rightarrow> 'k drv \<Rightarrow> 'k drv option" where
  "unflip_crtcs E scr [] s = Some s"
| "unflip_crtcs E scr (p # ps) s =
     (if \<not> enabled (crtcs s p) then unflip_crtcs E scr ps s
      else
        let s = (if fb_id (mss s scr) \<noteq> 0
                 then upd_ms scr (\<lambda>m. m\<lparr>fb_id := 0\<rparr>) (s\<lparr>kst := drmModeRmFB (kernel_of E) (fb_id (mss s scr)) (kst s)\<rparr>)
                 else s);
            c = crtcs s p
        in case (if dpms_mode c = DPMSModeOn
                 then map_option snd (drmmode_set_mode_major E p (Some (crtc_mode c)) (rotation c) (crtc_x c) (crtc_y c) s)
                 else Some (upd_crtc p (\<lambda>c. c\<lparr>need_modeset := True\<rparr>) s)) of
             None \<Rightarrow> None
           | Some s \<Rightarrow> unflip_crtcs E scr ps s)"

definition ms_present_unflip :: "'k env \<Rightarrow> nat \<Rightarrow> u64 \<Rightarrow> 'k drv \<Rightarrow> 'k drv option" where
  "ms_present_unflip E scr event_id s =
     (let K = kernel_of E; pixmap = screen_pixmap K scr in
      case new_present event_id True s of
        (None, s) \<Rightarrow> Some s
      | (Some a, s) \<Rightarrow>
          (case ms_present_check_unflip K scr pixmap s of ((ok, reason), s) \<Rightarrow>
             case (if ok then ms_do_pageflip K (flush_of E) (loop_bound E) scr pixmap (FLIP_PRESENT a) (-1) False s
                   else Some (False, s)) of
               None \<Rightarrow> None
             | Some (flipped, s) \<Rightarrow>
                 if flipped then Some s
                 else map_option (\<lambda>s. upd_ms scr (\<lambda>m. m\<lparr>present_flipping := False\<rparr>)
                        (emit (Present_notify event_id 0 0) s))
                      (unflip_crtcs E scr (config (mss s scr)) s)))"

text \<open>
  \<^verbatim>\<open>ms_present_screen_init\<close>: the capabilities it registers, from those left by the last
  screen (the structure is static) and the kernel's answer to
  \<^verbatim>\<open>DRM_CAP_ASYNC_PAGE_FLIP\<close>.
\<close>

abbreviation (input) PresentCapabilityAsync :: u32 where "PresentCapabilityAsync \<equiv> 1"

definition ms_present_screen_init :: "int \<times> u64 \<Rightarrow> u32 \<Rightarrow> u32" where
  "ms_present_screen_init cap capabilities =
     (if fst cap = 0 \<and> snd cap = 1 then capabilities OR PresentCapabilityAsync else capabilities)"

section \<open>The owners of events\<close>

lemma new_present_owners:
  assumes "owners_ok L P s" and "new_present i u s = (r, s')"
  shows "owners_ok L (case r of None \<Rightarrow> P | Some a \<Rightarrow> add_mset a P) s'"
proof -
  obtain ok t where t: "calloc s = (ok, t)" by (metis surj_pair)
  have ot: "owners_ok L P t" using assms(1) owners_ok_same [OF same_owned_updates(4) [of s]] t by simp
  show ?thesis
  proof (cases ok)
    case False
    with assms(2) t ot show ?thesis by (auto simp: new_present_def)
  next
    case True
    let ?a = "next_addr t"
    have r: "r = Some ?a" "s' = t\<lparr>presents := (presents t)(?a \<mapsto> \<lparr>pe_event_id = i, pe_unflip = u\<rparr>), next_addr := ?a + 1\<rparr>"
      using assms(2) t True by (simp_all add: new_present_def)
    have ok: "presents_ok P t" and bound: "\<forall>a. flipdatas t a \<noteq> None \<longrightarrow> a < ?a"
      using ot by (simp_all add: owners_ok_def flip_records_ok_def)
    have none: "presents t ?a = None" using ok by (auto simp: presents_ok_def)
    then have new: "?a \<notin># P + pending_presents t" and nc: "flip_clients t b \<noteq> Some (FLIP_PRESENT ?a)" for b
      using ok unfolding presents_ok_def by metis+
    have pend: "pending_flips s' = pending_flips t" "pending_presents s' = pending_presents t"
      "flip_clients s' = flip_clients t" "flipdatas s' = flipdatas t" "faults s' = faults t"
      "presents s' = (presents t)(?a \<mapsto> \<lparr>pe_event_id = i, pe_unflip = u\<rparr>)" "next_addr s' = ?a + 1"
      by (simp_all add: r pending_flips_def pending_presents_def flip_clients_def fun_eq_iff)
    have once: "count (P + pending_presents t) x \<le> 1" for x using ok by (simp add: presents_ok_def)
    have "count (add_mset ?a P + pending_presents t) x \<le> 1" for x
      using once [of x] new by (auto simp: not_in_iff)
    then have "presents_ok (add_mset ?a P) s'"
      using ok nc by (auto simp: presents_ok_def pend less_Suc_eq)
    moreover have "flip_records_ok L s'"
      using ot bound by (auto simp: owners_ok_def flip_records_ok_def pend owned_cong [of s' t] less_Suc_eq)
    ultimately show ?thesis using ot r(1) pend by (simp add: owners_ok_def)
  qed
qed

context flushing begin

lemma present_queue_vblank_keeps:
  assumes "flush_of E = flush" and "owners_ok L P s" and "ms_present_queue_vblank E p i m s = Some (r, s')"
  shows "owners_ok L P s'"
proof -
  obtain a t where t: "new_present i False s = (a, t)" by (metis surj_pair)
  note ot = new_present_owners [OF assms(2) t]
  show ?thesis
  proof (cases a)
    case None
    with assms(3) t ot show ?thesis by (auto simp: ms_present_queue_vblank_def)
  next
    case (Some e)
    with ot have ot: "owners_ok L (add_mset e P) t" by simp
    obtain sq u where u: "ms_drm_queue_alloc p (CB_present e) t = (sq, u)" by (metis surj_pair)
    show ?thesis
    proof (cases "sq = 0")
      case True
      with u have "same_owned t u" using alloc_failed_owners by blast
      then have "owners_ok L (add_mset e P) u" using ot owners_ok_same by blast
      then show ?thesis using assms(3) t Some u True by (auto simp: ms_present_queue_vblank_def intro: free_present_owners)
    next
      case False
      have "owners_ok L P u" by (rule present_queued_owners [OF ot u False])
      then show ?thesis
        using assms(1,3) t Some u False by (auto simp: ms_present_queue_vblank_def intro: queue_vblank_keeps)
    qed
  qed
qed

lemma present_abort_keeps: "owners_ok L P s \<Longrightarrow> owners_ok L P (ms_present_abort_vblank ptr i s)"
  by (simp add: ms_present_abort_vblank_def abort_owners)

lemma check_unflip_same_owned: "same_owned s (snd (ms_present_check_unflip K scr px s))"
  by (simp add: ms_present_check_unflip_def Let_def same_owned_def case_prod_beta split: option.split prod.split)

lemma present_flip_keeps:
  assumes "flush_of E = flush" and "owners_ok L P s" and "ms_present_flip E p i px sync s = Some (r, s')"
  shows "owners_ok L P s'"
proof -
  let ?K = "kernel_of E" and ?scr = "crtc_scrn (crtcs s p)"
  obtain ok re t where t: "ms_present_check_flip ?K ?scr px s = ((ok, re), t)" by (metis surj_pair)
  then have "same_owned s t"
    using check_unflip_same_owned [of s ?K ?scr px] by (auto simp: ms_present_check_flip_def split: if_splits)
  then have ot: "owners_ok L P t" using assms(2) owners_ok_same by blast
  show ?thesis
  proof (cases ok)
    case False
    with assms(3) t ot show ?thesis by (auto simp: ms_present_flip_def Let_def)
  next
    case True
    obtain a u where u: "new_present i False t = (a, u)" by (metis surj_pair)
    note ou = new_present_owners [OF ot u]
    show ?thesis
    proof (cases a)
      case None
      with assms(3) t u True ou show ?thesis by (auto simp: ms_present_flip_def Let_def)
    next
      case (Some e)
      with ou have "owners_ok L (P + client_presents (FLIP_PRESENT e)) u" by (simp add: client_presents_def)
      from do_pageflip_keeps [OF this, of ?K "loop_bound E" ?scr px "vblank_pipe (crtcs u p)" "\<not> sync"]
      show ?thesis using assms(1,3) t u True Some by (auto simp: ms_present_flip_def Let_def upd_ms_owners)
    qed
  qed
qed

lemma unflip_crtcs_keep:
  assumes "flush_of E = flush" and "rotate_keeps E"
  shows "owners_ok L P s \<Longrightarrow> unflip_crtcs E scr ps s = Some s' \<Longrightarrow> owners_ok L P s'"
proof (induction ps arbitrary: s)
  case Nil
  then show ?case by simp
next
  case (Cons p ps)
  define t where "t = (if fb_id (mss s scr) \<noteq> 0
      then upd_ms scr (\<lambda>m. m\<lparr>fb_id := 0\<rparr>) (s\<lparr>kst := drmModeRmFB (kernel_of E) (fb_id (mss s scr)) (kst s)\<rparr>) else s)"
  have ot: "owners_ok L P t" using Cons.prems(1) by (simp add: t_def upd_ms_owners kst_owners)
  have set: "owners_ok L P u" if "drmmode_set_mode_major E p m rot x y t = Some (b, u)" for m rot x y b u
    using setter_keepsD [OF set_mode_keeps [OF assms] ot] that by (simp add: drmmode_set_mode_major_def)
  have upd: "owners_ok L P (upd_crtc p f t)" for f using ot by (simp add: owners_ok_same [OF same_owned_updates(5)])
  show ?case
  proof (cases "enabled (crtcs s p)")
    case False
    with Cons show ?thesis by simp
  next
    case True
    with Cons.prems(2) obtain u where "unflip_crtcs E scr ps u = Some s'" "(if dpms_mode (crtcs t p) = DPMSModeOn
        then map_option snd (drmmode_set_mode_major E p (Some (crtc_mode (crtcs t p))) (rotation (crtcs t p))
           (crtc_x (crtcs t p)) (crtc_y (crtcs t p)) t)
        else Some (upd_crtc p (\<lambda>c. c\<lparr>need_modeset := True\<rparr>) t)) = Some u"
      by (auto simp: Let_def simp flip: t_def split: option.splits)
    moreover from this have "owners_ok L P u" using set upd by (auto split: if_splits)
    ultimately show ?thesis using Cons.IH by blast
  qed
qed

lemma present_unflip_keeps:
  assumes "flush_of E = flush" and "rotate_keeps E" and "owners_ok L P s"
    and "ms_present_unflip E scr i s = Some s'"
  shows "owners_ok L P s'"
proof -
  let ?K = "kernel_of E" and ?px = "screen_pixmap (kernel_of E) scr"
  obtain a t where t: "new_present i True s = (a, t)" by (metis surj_pair)
  note ot = new_present_owners [OF assms(3) t]
  show ?thesis
  proof (cases a)
    case None
    with assms(4) t ot show ?thesis by (auto simp: ms_present_unflip_def)
  next
    case (Some e)
    obtain ok re u where u: "ms_present_check_unflip ?K scr ?px t = ((ok, re), u)" by (metis surj_pair)
    then have "same_owned t u" using check_unflip_same_owned [of t ?K scr ?px] by simp
    then have ou: "owners_ok L (P + {#e#}) u" using ot Some owners_ok_same by auto
    from assms(1,4) t Some u obtain f v where
      v: "(if ok then ms_do_pageflip ?K flush (loop_bound E) scr ?px (FLIP_PRESENT e) (-1) False u else Some (False, u)) = Some (f, v)"
      and s': "(if f then Some v else map_option (\<lambda>s. upd_ms scr (\<lambda>m. m\<lparr>present_flipping := False\<rparr>)
                        (emit (Present_notify i 0 0) s)) (unflip_crtcs E scr (config (mss v scr)) v)) = Some s'"
      by (auto simp: ms_present_unflip_def Let_def split: option.splits)
    have "owners_ok L P v"
      using v do_pageflip_keeps [of L P "FLIP_PRESENT e" u ?K "loop_bound E" scr ?px "-1" False f v] ou owners_ok_leak [OF ou]
      by (auto simp: client_presents_def split: if_splits)
    with s' unflip_crtcs_keep [OF assms(1,2) this] show ?thesis
      by (auto simp: upd_ms_owners emit_present_owners split: if_splits)
  qed
qed

end

section \<open>Properties\<close>

text \<open>
  C21. Giving up waiting. When the request of a Present event is the only entry of the queue
  whose first word is the event's identifier, aborting it removes exactly that request, frees
  exactly that event, reports nothing to the extension and leaves the records of everything
  else alone; an identifier no entry begins with changes nothing. (An entry of another kind
  can begin with the same word: a page flip with 0 or 1, so the condition is needed.)
\<close>

theorem present_abort_exact:
  assumes "q \<in> set (ms_drm_queue s)" and "q_data q = CB_present a"
    and "presents s a = Some e" and "pe_event_id e = i"
    and "\<forall>r \<in> set (ms_drm_queue s). first_word ptr s (q_data r) = i \<longrightarrow> r = q"
    and "s' = ms_present_abort_vblank ptr i s"
  shows "ms_drm_queue s' = remove1 q (ms_drm_queue s) \<and> presents s' = (presents s)(a := None) \<and>
    server_log s' = server_log s \<and> flipdatas s' = flipdatas s \<and> frame_events s' = frame_events s \<and>
    faults s' = faults s \<and>
    ((\<forall>r \<in> set (ms_drm_queue s). first_word ptr s (q_data r) \<noteq> j) \<longrightarrow> ms_present_abort_vblank ptr j s = s)"
proof -
  let ?m = "\<lambda>r. ms_present_event_match ptr s i (q_data r)"
  have "?m q" using assms(2-4) by (simp add: ms_present_event_match_def)
  then obtain r where r: "find ?m (ms_drm_queue s) = Some r"
    using assms(1) by (cases "find ?m (ms_drm_queue s)") (auto simp: find_None_iff)
  then have "r \<in> set (ms_drm_queue s)" "?m r" using find_Some_mem [OF r] by simp_all
  then have "r = q" using assms(5) by (simp add: ms_present_event_match_def)
  with r have e: "s' = free_present a (s\<lparr>ms_drm_queue := remove1 q (ms_drm_queue s)\<rparr>)"
    using assms(2,6) by (simp add: ms_present_abort_vblank_def ms_drm_abort_def ms_drm_abort_one_def ms_present_vblank_abort_def)
  have none: "ms_present_abort_vblank ptr j s = s"
    if "\<forall>r \<in> set (ms_drm_queue s). first_word ptr s (q_data r) \<noteq> j"
  proof -
    have "find (\<lambda>r. ms_present_event_match ptr s j (q_data r)) (ms_drm_queue s) = None"
      using that by (auto simp: find_None_iff ms_present_event_match_def)
    then show ?thesis by (simp add: ms_present_abort_vblank_def ms_drm_abort_def)
  qed
  show ?thesis using e none assms(3) by (simp add: free_present_def)
qed


section \<open>Examples\<close>

definition waiting :: "unit drv" where
  "waiting = (idle_drv ())\<lparr>ms_drm_seq := 7,
     ms_drm_queue := [\<lparr>q_crtc = 0, q_seq = 6, q_data = CB_flip True 3, q_scrn = 0\<rparr>,
                      \<lparr>q_crtc = 0, q_seq = 5, q_data = CB_present 0, q_scrn = 0\<rparr>],
     presents := [0 \<mapsto> \<lparr>pe_event_id = 9, pe_unflip = False\<rparr>], next_addr := 4\<rparr>"

lemma present_abort_exact_witness:
  "ms_drm_queue (ms_present_abort_vblank \<lparr>screen_ptr = \<lambda>_. 4096, pixmap_ptr = \<lambda>_. 8192\<rparr> 9 waiting) =
     [\<lparr>q_crtc = 0, q_seq = 6, q_data = CB_flip True 3, q_scrn = 0\<rparr>]"
proof -
  let ?ptr = "\<lparr>screen_ptr = \<lambda>_. 4096, pixmap_ptr = \<lambda>_. 8192\<rparr>"
  let ?q = "\<lparr>q_crtc = 0, q_seq = 5, q_data = CB_present 0, q_scrn = 0\<rparr>"
  have w: "ms_drm_queue waiting = [\<lparr>q_crtc = 0, q_seq = 6, q_data = CB_flip True 3, q_scrn = 0\<rparr>, ?q]"
    "presents waiting 0 = Some \<lparr>pe_event_id = 9, pe_unflip = False\<rparr>"
    by (simp_all add: waiting_def)
  have "?q \<in> set (ms_drm_queue waiting)" "q_data ?q = CB_present 0"
    "pe_event_id \<lparr>pe_event_id = 9, pe_unflip = False\<rparr> = 9"
    "\<forall>r \<in> set (ms_drm_queue waiting). first_word ?ptr waiting (q_data r) = 9 \<longrightarrow> r = ?q"
    by (simp_all add: w)
  from present_abort_exact [OF this(1,2) w(2) this(3,4) refl] show ?thesis by (simp add: w)
qed

definition flip_screen :: "unit drv" where
  "flip_screen = (idle_drv ())\<lparr>
     crtcs := (\<lambda>_. zero_crtc\<lparr>enabled := True\<rparr>),
     mss := (\<lambda>_. zero_ms\<lparr>config := [0], fb_id := 41, pageflip := True, vtSema := True,
       front_bo := no_bo\<lparr>bo_gbm := Some \<lparr>gb_handle = 8, gb_stride = 0, gb_format = 0, gb_modifier = 0, gb_planes = []\<rparr>\<rparr>\<rparr>)\<rparr>"


end
