(* ===== verification/Dri2_Ext.thy ===== *)
theory Dri2_Ext
  imports Present_Ext
begin

text \<open>
  The driver's side of DRI2 (\<^verbatim>\<open>src/src/dri2.c\<close>): the buffers of a drawable, waiting for a
  frame, swapping by copy or by page flip, and what happens when the client or the drawable is
  gone while an event is pending. A frame event is on the list of its client, and of its
  drawable, exactly while the pointer to it is set, so the lists of the resource database are
  the events whose \<open>fe_client\<close>, or \<open>fe_drawable\<close>, is the one in question.
\<close>

section \<open>The server\<close>

text \<open>
  What the server knows of drawables and clients. \<open>dri2_screens\<close> is the screen with its
  RandR configuration as the coverage search sees it; \<open>uninit_msc\<close> is what an
  uninitialised variable holds.
\<close>

datatype dri2_restype = FRAME_EVENT_CLIENT | FRAME_EVENT_DRAWABLE

record 'k dri2_server =
  lookup_drawable :: "nat \<Rightarrow> nat option"
  drawable_id :: "nat \<Rightarrow> nat"
  is_window :: "nat \<Rightarrow> bool"
  drawable_screen :: "nat \<Rightarrow> nat"
  drawable_geom_of :: "nat \<Rightarrow> 'k \<Rightarrow> drawable_geom"
  drawable_depth :: "nat \<Rightarrow> u32"
  dri2_screens :: "nat \<Rightarrow> (nat \<Rightarrow> crtc) \<Rightarrow> 'k \<Rightarrow> screen"
  xf86ModeWidth :: "display_mode \<Rightarrow> nat \<Rightarrow> int"
  xf86ModeHeight :: "display_mode \<Rightarrow> nat \<Rightarrow> int"
  GetWindowPixmap :: "nat \<Rightarrow> 'k \<Rightarrow> nat"
  pixmap_screen :: "nat \<Rightarrow> 'k \<Rightarrow> nat"
  pixmap_origin :: "nat \<Rightarrow> 'k \<Rightarrow> int \<times> int"
  create_pixmap :: "nat \<Rightarrow> u32 \<Rightarrow> u32 \<Rightarrow> u32 \<Rightarrow> 'k \<Rightarrow> nat option \<times> 'k"
  name_from_pixmap :: "nat \<Rightarrow> 'k \<Rightarrow> (u32 \<times> u16) \<times> 'k"
  DRI2CanFlip :: "nat \<Rightarrow> 'k \<Rightarrow> bool"
  DRI2UpdatePrime :: "nat \<Rightarrow> nat \<Rightarrow> 'k \<Rightarrow> copy_end option \<times> 'k"
  GetScratchGC :: "copy_end \<Rightarrow> 'k \<Rightarrow> bool \<times> 'k"
  client_key :: "nat \<Rightarrow> 'k \<Rightarrow> nat"
  set_client_key :: "nat \<Rightarrow> nat \<Rightarrow> 'k \<Rightarrow> 'k"
  FakeClientID :: "nat \<Rightarrow> 'k \<Rightarrow> nat \<times> 'k"
  dixLookupResourceByType :: "dri2_restype \<Rightarrow> nat \<Rightarrow> 'k \<Rightarrow> bool"
  AddResource :: "dri2_restype \<Rightarrow> nat \<Rightarrow> 'k \<Rightarrow> bool \<times> 'k"
  clock_gettime :: "'k \<Rightarrow> (u64 \<times> u64) option \<times> 'k"
  egl_exchange_buffers :: "nat \<Rightarrow> nat \<Rightarrow> 'k \<Rightarrow> 'k"
  uninit_msc :: "'k \<Rightarrow> u64"

abbreviation (input) DRI2BufferFrontLeft :: nat where "DRI2BufferFrontLeft \<equiv> 0"
abbreviation (input) DRI2BufferBackLeft :: nat where "DRI2BufferBackLeft \<equiv> 1"
abbreviation (input) DRI2BufferFrontRight :: nat where "DRI2BufferFrontRight \<equiv> 2"
abbreviation (input) DRI2BufferBackRight :: nat where "DRI2BufferBackRight \<equiv> 3"
abbreviation (input) DRI2BufferAccum :: nat where "DRI2BufferAccum \<equiv> 6"
abbreviation (input) DRI2BufferFakeFrontLeft :: nat where "DRI2BufferFakeFrontLeft \<equiv> 7"
abbreviation (input) DRI2BufferFakeFrontRight :: nat where "DRI2BufferFakeFrontRight \<equiv> 8"

definition dri2_crtc :: "'k env \<Rightarrow> 'k dri2_server \<Rightarrow> nat \<Rightarrow> 'k drv \<Rightarrow> nat option" where
  "dri2_crtc E D d s =
     map_option crtc_index
       (ms_dri2_crtc_covering_drawable (xf86ModeWidth D) (xf86ModeHeight D) (randr_registered E)
          (dri2_screens D (drawable_screen D d) (crtcs s) (kst s)) (drawable_geom_of D d (kst s)))"

text \<open>A pixmap that is a drawable has the drawable's number.\<close>

definition get_drawable_pixmap :: "'k dri2_server \<Rightarrow> nat \<Rightarrow> 'k drv \<Rightarrow> nat" where
  "get_drawable_pixmap D d s = (if is_window D d then GetWindowPixmap D d (kst s) else d)"

section \<open>Buffers\<close>

definition ms_dri2_create_buffer2 ::
  "'k env \<Rightarrow> 'k dri2_server \<Rightarrow> nat \<Rightarrow> nat \<Rightarrow> nat \<Rightarrow> u32 \<Rightarrow> 'k drv \<Rightarrow> nat option \<times> 'k drv" where
  "ms_dri2_create_buffer2 E D scr d attachment fmt s =
     (case calloc s of (ok, s) \<Rightarrow>
        if \<not> ok then (None, s)
        else case calloc s of (ok, s) \<Rightarrow>
          if \<not> ok then (None, s)
          else
            let px = get_drawable_pixmap D d s;
                (pixmap, s) =
                  (if attachment = DRI2BufferFrontLeft \<and> pixmap_screen D px (kst s) = scr
                   then (Some px, emit (Reference_pixmap px) s)
                   else if attachment \<in> {DRI2BufferAccum, DRI2BufferBackLeft, DRI2BufferBackRight,
                             DRI2BufferFakeFrontLeft, DRI2BufferFakeFrontRight, DRI2BufferFrontLeft,
                             DRI2BufferFrontRight}
                   then let g = drawable_geom_of D d (kst s) in
                     (case create_pixmap D scr (of_nat (d_width g)) (of_nat (d_height g))
                             (if fmt \<noteq> 0 then fmt else drawable_depth D d) (kst s) of
                        (px, k) \<Rightarrow> (px, s\<lparr>kst := k\<rparr>))
                   else (None, s))
            in case pixmap of
                 None \<Rightarrow> (None, s)
               | Some px \<Rightarrow>
                   (case name_from_pixmap D px (kst s) of
                      ((name, pitch), k) \<Rightarrow>
                        let s = s\<lparr>kst := k\<rparr> in
                        if name = -1 then (None, emit (Destroy_pixmap px) s)
                        else (Some (next_addr s),
                              s\<lparr>dri2_bufs := (dri2_bufs s)(next_addr s \<mapsto>
                                  \<lparr>db2_attachment = attachment, db2_name = name, db2_pitch2 = ucast pitch,
                                   db2_cpp = ucast (pixmap_bpp E px (kst s)) div 8, db2_format = fmt,
                                   db2_private = Some (1, px)\<rparr>),
                                next_addr := next_addr s + 1\<rparr>)))"

definition ms_dri2_create_buffer ::
  "'k env \<Rightarrow> 'k dri2_server \<Rightarrow> nat \<Rightarrow> nat \<Rightarrow> u32 \<Rightarrow> 'k drv \<Rightarrow> nat option \<times> 'k drv" where
  "ms_dri2_create_buffer E D d attachment fmt s =
     ms_dri2_create_buffer2 E D (drawable_screen D d) d attachment fmt s"

text \<open>The private of a buffer: its count and its pixmap; \<open>None\<close> where the code would follow a bad pointer.\<close>

definition buffer_private :: "'k drv \<Rightarrow> nat option \<Rightarrow> (dri2_buffer \<times> nat) option" where
  "buffer_private s b =
     Option.bind b (\<lambda>a. Option.bind (dri2_bufs s a) (\<lambda>buf. map_option (\<lambda>(n, px). (buf, px)) (db2_private buf)))"

text \<open>
  The copy between two buffers. The clip is a list of boxes; it is translated when the copy
  goes to a slave screen's pixmap.
\<close>

definition ms_dri2_copy_region2 ::
  "'k dri2_server \<Rightarrow> nat \<Rightarrow> nat \<Rightarrow> (int \<times> int \<times> int \<times> int) list \<Rightarrow> nat option \<Rightarrow> nat option \<Rightarrow>
     'k drv \<Rightarrow> 'k drv" where
  "ms_dri2_copy_region2 D scr d region destb srcb s =
     (case (buffer_private s srcb, buffer_private s destb) of
        (Some (sbuf, spx), Some (dbuf, dpx)) \<Rightarrow>
          let src = (if db2_attachment sbuf = DRI2BufferFrontLeft then COPY_DRAWABLE d else COPY_PIXMAP spx);
              dst = (if db2_attachment dbuf = DRI2BufferFrontLeft then COPY_DRAWABLE d else COPY_PIXMAP dpx);
              (dst, s) =
                (if db2_attachment dbuf = DRI2BufferFrontLeft \<and> drawable_screen D d \<noteq> scr
                 then (case DRI2UpdatePrime D d (the destb) (kst s) of (e, k) \<Rightarrow> (e, s\<lparr>kst := k\<rparr>))
                 else (Some dst, s))
          in (case dst of
                None \<Rightarrow> s
              | Some dst \<Rightarrow>
                  let translate = (db2_attachment dbuf = DRI2BufferFrontLeft \<and> drawable_screen D d \<noteq> scr \<and>
                                   dst \<noteq> COPY_DRAWABLE d);
                      g = drawable_geom_of D d (kst s);
                      (ox, oy) = pixmap_origin D (get_drawable_pixmap D d s) (kst s);
                      (off_x, off_y) = (if translate \<and> is_window D d then (- ox + d_x g, - oy + d_y g) else (0, 0));
                      clip = (if translate then map (\<lambda>(x1, y1, x2, y2). (x1 + off_x, y1 + off_y, x2 + off_x, y2 + off_y)) region
                              else region)
                  in (case GetScratchGC D dst (kst s) of
                        (ok, k) \<Rightarrow>
                          let s = s\<lparr>kst := k\<rparr> in
                          if \<not> ok then s
                          else emit (Copy_area src dst clip (d_width g) (d_height g) off_x off_y) s))
      | _ \<Rightarrow> misc_fault s)"

definition ms_dri2_copy_region ::
  "'k dri2_server \<Rightarrow> nat \<Rightarrow> (int \<times> int \<times> int \<times> int) list \<Rightarrow> nat option \<Rightarrow> nat option \<Rightarrow> 'k drv \<Rightarrow> 'k drv" where
  "ms_dri2_copy_region D d region destb srcb s = ms_dri2_copy_region2 D (drawable_screen D d) d region destb srcb s"

definition ms_dri2_blit_swap ::
  "'k dri2_server \<Rightarrow> nat \<Rightarrow> nat option \<Rightarrow> nat option \<Rightarrow> 'k drv \<Rightarrow> 'k drv" where
  "ms_dri2_blit_swap D d dst src s =
     (let g = drawable_geom_of D d (kst s)
      in ms_dri2_copy_region D d [(0, 0, int (d_width g), int (d_height g))] dst src s)"

section \<open>Frame counts\<close>

definition gettime_us :: "'k dri2_server \<Rightarrow> 'k drv \<Rightarrow> u64 \<times> 'k drv" where
  "gettime_us D s =
     (case clock_gettime D (kst s) of
        (None, k) \<Rightarrow> (0, s\<lparr>kst := k\<rparr>)
      | (Some (tv_sec, tv_nsec), k) \<Rightarrow> (tv_sec * 1000000 + tv_nsec div 1000, s\<lparr>kst := k\<rparr>))"

text \<open>The status, and what is written to \<^verbatim>\<open>*ust\<close> and \<^verbatim>\<open>*msc\<close>.\<close>

definition ms_dri2_get_msc ::
  "'k env \<Rightarrow> 'k dri2_server \<Rightarrow> nat \<Rightarrow> 'k drv \<Rightarrow> (bool \<times> u64 option \<times> u64 option) \<times> 'k drv" where
  "ms_dri2_get_msc E D d s =
     (case dri2_crtc E D d s of
        None \<Rightarrow> (case gettime_us D s of (ust, s) \<Rightarrow> ((True, Some ust, Some 0), s))
      | Some p \<Rightarrow>
          (case ms_get_crtc_ust_msc (kernel_of E) p s of ((ret, ust, msc), s) \<Rightarrow> ((ret = 0, ust, msc), s)))"

section \<open>Frame events\<close>

text \<open>
  The resource of a client or drawable that holds the list of its events; it is made on the
  first use. A resource the database does not take is not freed.
\<close>

definition ms_get_resource ::
  "'k dri2_server \<Rightarrow> nat \<Rightarrow> dri2_restype \<Rightarrow> 'k drv \<Rightarrow> bool \<times> 'k drv" where
  "ms_get_resource D i t s =
     (if dixLookupResourceByType D t i (kst s) then (True, s)
      else case calloc s of (ok, s) \<Rightarrow>
        if \<not> ok then (False, s)
        else case AddResource D t i (kst s) of (ok, k) \<Rightarrow> (ok, s\<lparr>kst := k\<rparr>))"

definition get_client_id :: "'k dri2_server \<Rightarrow> nat \<Rightarrow> 'k drv \<Rightarrow> nat \<times> 'k drv" where
  "get_client_id D client s =
     (if client_key D client (kst s) = 0 then
        (case FakeClientID D client (kst s) of (i, k) \<Rightarrow> (i, s\<lparr>kst := set_client_key D client i k\<rparr>))
      else (client_key D client (kst s), s))"

definition ms_dri2_add_frame_event ::
  "'k dri2_server \<Rightarrow> nat \<Rightarrow> nat \<Rightarrow> 'k drv \<Rightarrow> bool \<times> 'k drv" where
  "ms_dri2_add_frame_event D client d s =
     (case get_client_id D client s of (i, s) \<Rightarrow>
        case ms_get_resource D i FRAME_EVENT_CLIENT s of (ok, s) \<Rightarrow>
          if \<not> ok then (False, s)
          else ms_get_resource D (drawable_id D d) FRAME_EVENT_DRAWABLE s)"

text \<open>
  \<^verbatim>\<open>calloc\<close> of a frame event, the assignments to it and its entry into the lists; when
  that fails it is freed again.
\<close>

definition new_frame_event ::
  "'k dri2_server \<Rightarrow> dri2_frame_event \<Rightarrow> nat \<Rightarrow> nat \<Rightarrow> 'k drv \<Rightarrow> nat option \<times> 'k drv" where
  "new_frame_event D info client d s =
     (case calloc s of (ok, s) \<Rightarrow>
        if \<not> ok then (None, s)
        else case ms_dri2_add_frame_event D client d s of (ok, s) \<Rightarrow>
          if \<not> ok then (None, s)
          else (Some (next_addr s),
                s\<lparr>frame_events := (frame_events s)(next_addr s \<mapsto> info), next_addr := next_addr s + 1\<rparr>))"

definition upd_event :: "nat \<Rightarrow> (dri2_frame_event \<Rightarrow> dri2_frame_event) \<Rightarrow> 'k drv \<Rightarrow> 'k drv" where
  "upd_event a f s =
     (case frame_events s a of
        None \<Rightarrow> misc_fault s
      | Some info \<Rightarrow> s\<lparr>frame_events := (frame_events s)(a \<mapsto> f info)\<rparr>)"

section \<open>Flips\<close>

definition ms_dri2_schedule_flip ::
  "'k env \<Rightarrow> 'k dri2_server \<Rightarrow> dri2_frame_event \<Rightarrow> nat \<Rightarrow> 'k drv \<Rightarrow> (bool \<times> 'k drv) option" where
  "ms_dri2_schedule_flip E D info d s =
     (case buffer_private s (fe_back info) of
        None \<Rightarrow> Some (False, misc_fault s)
      | Some (buf, px) \<Rightarrow>
          (case calloc s of (ok, s) \<Rightarrow>
             if \<not> ok then Some (False, s)
             else
               let scr = drawable_screen D d; a = next_addr s;
                   ev = \<lparr>dv_drawable_id = drawable_id D d, dv_client = fe_client info,
                         dv_event_complete = fe_event_complete info, dv_event_data = fe_event_data info\<rparr>;
                   s = s\<lparr>dri2_flips := (dri2_flips s)(a \<mapsto> ev), next_addr := a + 1\<rparr>
               in map_option
                    (\<lambda>(ok, s). (ok, if ok then upd_ms scr (\<lambda>m. m\<lparr>dri2_flipping := True\<rparr>) s else s))
                    (ms_do_pageflip (kernel_of E) (flush_of E) (loop_bound E) scr px (FLIP_DRI2 a)
                       (vblank_pipe (crtcs s (fe_crtc info))) False s)))"

definition upd_buf :: "nat option \<Rightarrow> (dri2_buffer \<Rightarrow> dri2_buffer) \<Rightarrow> 'k drv \<Rightarrow> 'k drv" where
  "upd_buf b f s =
     (case b of
        None \<Rightarrow> misc_fault s
      | Some a \<Rightarrow>
          (case dri2_bufs s a of
             None \<Rightarrow> misc_fault s
           | Some buf \<Rightarrow> s\<lparr>dri2_bufs := (dri2_bufs s)(a \<mapsto> f buf)\<rparr>))"

definition update_front ::
  "'k env \<Rightarrow> 'k dri2_server \<Rightarrow> nat \<Rightarrow> nat option \<Rightarrow> 'k drv \<Rightarrow> bool \<times> 'k drv" where
  "update_front E D d front s =
     (let px = get_drawable_pixmap D d s in
      case name_from_pixmap D px (kst s) of ((name, pitch), k) \<Rightarrow>
        let s = s\<lparr>kst := k\<rparr> in
        if sint name < 0 then (False, s)
        else case buffer_private s front of
          None \<Rightarrow> (False, misc_fault s)
        | Some (buf, old) \<Rightarrow>
            (True, emit (Reference_pixmap px)
               (upd_buf front (\<lambda>b. b\<lparr>db2_name := name, db2_pitch2 := pixmap_devKind (kernel_of E) px (kst s),
                   db2_cpp := ucast (pixmap_bpp E px (kst s)) div 8,
                   db2_private := map_option (\<lambda>(n, _). (n, px)) (db2_private b)\<rparr>)
                 (emit (Destroy_pixmap old) s))))"

definition can_exchange ::
  "'k env \<Rightarrow> 'k dri2_server \<Rightarrow> nat \<Rightarrow> nat \<Rightarrow> nat option \<Rightarrow> nat option \<Rightarrow> 'k drv \<Rightarrow> bool \<times> 'k drv" where
  "can_exchange E D scr d front b s =
     (let K = kernel_of E; ps = config (mss s scr) in
      if list_ex (\<lambda>p. bo_gbm (rotate_bo (crtcs s p)) \<noteq> None) ps then (False, s)
      else if filter (\<lambda>p. ms_crtc_on (crtcs s p)) ps = [] then (False, s)
      else case update_front E D d front s of (ok, s) \<Rightarrow>
        if \<not> ok then (False, s)
        else case (buffer_private s front, buffer_private s b) of
          (Some (_, f), Some (_, b)) \<Rightarrow>
            (pixmap_width K f (kst s) = pixmap_width K b (kst s) \<and>
             pixmap_height K f (kst s) = pixmap_height K b (kst s) \<and>
             pixmap_bpp E f (kst s) = pixmap_bpp E b (kst s) \<and>
             pixmap_devKind K f (kst s) = pixmap_devKind K b (kst s), s)
        | _ \<Rightarrow> (False, misc_fault s))"

definition can_flip ::
  "'k env \<Rightarrow> 'k dri2_server \<Rightarrow> nat \<Rightarrow> nat \<Rightarrow> nat option \<Rightarrow> nat option \<Rightarrow> 'k drv \<Rightarrow> bool \<times> 'k drv" where
  "can_flip E D scr d front b s =
     (let m = mss s scr in
      if is_window D d \<and> pageflip m \<and> sprites_visible m = 0 \<and> \<not> present_flipping m \<and> vtSema m \<and>
         DRI2CanFlip D d (kst s)
      then can_exchange E D scr d front b s
      else (False, s))"

text \<open>Exchanging the EXA privates of two pixmaps (\<^verbatim>\<open>src/src/fake_exa.c\<close>).\<close>

definition ms_exa_exchange_buffers :: "nat \<Rightarrow> nat \<Rightarrow> 'k drv \<Rightarrow> 'k drv" where
  "ms_exa_exchange_buffers f b s =
     (case (exa_privs s f, exa_privs s b) of
        (Some x, Some y) \<Rightarrow> s\<lparr>exa_privs := (exa_privs s)(f \<mapsto> y, b \<mapsto> x)\<rparr>
      | _ \<Rightarrow> misc_fault s)"

definition ms_dri2_exchange_buffers ::
  "'k dri2_server \<Rightarrow> nat \<Rightarrow> nat option \<Rightarrow> nat option \<Rightarrow> 'k drv \<Rightarrow> 'k drv" where
  "ms_dri2_exchange_buffers D d front b s =
     (case (buffer_private s front, buffer_private s b) of
        (Some (fbuf, f), Some (bbuf, r)) \<Rightarrow>
          let m = mss s (drawable_screen D d);
              s = upd_buf front (\<lambda>x. x\<lparr>db2_name := db2_name bbuf\<rparr>) s;
              s = upd_buf b (\<lambda>x. x\<lparr>db2_name := db2_name fbuf\<rparr>) s;
              s = s\<lparr>ppriv := (ppriv s)(f := ppriv s r, r := ppriv s f)\<rparr>;
              s = (if ms_glamor m then s\<lparr>kst := egl_exchange_buffers D f r (kst s)\<rparr>
                   else if exa_enabled m then ms_exa_exchange_buffers f r s else s)
          in emit (Damage_pixmap f) s
      | _ \<Rightarrow> misc_fault s)"

section \<open>The handler\<close>

definition frame_of :: "u64 \<Rightarrow> u64" where
  "frame_of msc = ucast (ucast msc :: u32)"

definition finish_swap ::
  "'k dri2_server \<Rightarrow> dri2_frame_event \<Rightarrow> nat \<Rightarrow> u64 \<Rightarrow> u64 \<Rightarrow> 'k drv \<Rightarrow> 'k drv" where
  "finish_swap D info d msc usec s =
     emit (Swap_complete (fe_client info) d (frame_of msc) (ucast (usec div 1000000)) (ucast (usec mod 1000000))
             DRI2_BLIT_COMPLETE (if fe_client info \<noteq> None then Some (fe_event_complete info) else None)
             (fe_event_data info))
       (ms_dri2_blit_swap D d (fe_front info) (fe_back info) s)"

definition ms_dri2_frame_event_handler ::
  "'k env \<Rightarrow> 'k dri2_server \<Rightarrow> u64 \<Rightarrow> u64 \<Rightarrow> nat \<Rightarrow> 'k drv \<Rightarrow> 'k drv option" where
  "ms_dri2_frame_event_handler E D msc usec a s =
     (case frame_events s a of
        None \<Rightarrow> Some (misc_fault s)
      | Some info \<Rightarrow>
          (case fe_drawable info of
             None \<Rightarrow> Some (ms_dri2_del_frame_event a s)
           | Some d \<Rightarrow>
               map_option (ms_dri2_del_frame_event a)
                 (case fe_type info of
                    MS_DRI2_QUEUE_FLIP \<Rightarrow>
                      (case can_flip E D (fe_screen info) d (fe_front info) (fe_back info) s of
                         (ok, s) \<Rightarrow>
                           if \<not> ok then Some (finish_swap D info d msc usec s)
                           else (case ms_dri2_schedule_flip E D info d s of
                                   None \<Rightarrow> None
                                 | Some (True, s) \<Rightarrow> Some (ms_dri2_exchange_buffers D d (fe_front info) (fe_back info) s)
                                 | Some (False, s) \<Rightarrow> Some (finish_swap D info d msc usec s)))
                  | MS_DRI2_QUEUE_SWAP \<Rightarrow> Some (finish_swap D info d msc usec s)
                  | MS_DRI2_WAIT_MSC \<Rightarrow>
                      Some (if fe_client info \<noteq> None
                            then emit (Wait_complete (fe_client info) d (frame_of msc) (ucast (usec div 1000000))
                                         (ucast (usec mod 1000000))) s
                            else s))))"

section \<open>Waiting for a frame\<close>

text \<open>The frame asked for when the target has passed, in the two functions that ask.\<close>

definition wait_request_msc :: "u64 \<Rightarrow> u64 \<Rightarrow> u64 \<Rightarrow> u64" where
  "wait_request_msc current_msc divisor remainder =
     (let request_msc = current_msc - current_msc mod divisor + remainder
      in if current_msc mod divisor \<ge> remainder then request_msc + divisor else request_msc)"

definition swap_request_msc :: "u64 \<Rightarrow> u64 \<Rightarrow> u64 \<Rightarrow> u64" where
  "swap_request_msc current_msc divisor remainder =
     (let request_msc = current_msc - current_msc mod divisor + remainder
      in if request_msc \<le> current_msc then request_msc + divisor else request_msc)"

text \<open>The labels \<^verbatim>\<open>out_complete\<close> and \<^verbatim>\<open>out_free\<close>.\<close>

definition wait_complete :: "nat \<Rightarrow> nat \<Rightarrow> u64 \<Rightarrow> 'k drv \<Rightarrow> 'k drv" where
  "wait_complete client d target_msc s = emit (Wait_complete (Some client) d (frame_of target_msc) 0 0) s"

definition wait_free :: "nat \<Rightarrow> nat \<Rightarrow> nat \<Rightarrow> u64 \<Rightarrow> 'k drv \<Rightarrow> 'k drv" where
  "wait_free a client d target_msc s = wait_complete client d target_msc (ms_dri2_del_frame_event a s)"

text \<open>
  Queueing the request; \<open>target\<close> and \<open>target'\<close> are what the client is told when the
  entry, or the request, fails.
\<close>

definition queue_wait ::
  "'k env \<Rightarrow> nat \<Rightarrow> nat \<Rightarrow> nat \<Rightarrow> nat \<Rightarrow> u64 \<Rightarrow> u64 \<Rightarrow> u64 \<Rightarrow> 'k drv \<Rightarrow> 'k drv option" where
  "queue_wait E p a client d msc target target' s =
     (case ms_drm_queue_alloc p (CB_dri2 a) s of (sq, s) \<Rightarrow>
        if sq = 0 then Some (wait_free a client d target s)
        else case ms_queue_vblank (kernel_of E) (flush_of E) drv_abort (loop_bound E) p
                    MS_QUEUE_ABSOLUTE msc True sq s of
          None \<Rightarrow> None
        | Some ((ok, queued), s) \<Rightarrow>
            if \<not> ok then Some (wait_free a client d target' s)
            else Some (emit (Block_client (Some client) d)
                        (upd_event a (\<lambda>i. i\<lparr>fe_frame := ucast (the queued)\<rparr>) s)))"

text \<open>The event of a wait as it is filled in.\<close>

definition wait_info :: "'k dri2_server \<Rightarrow> nat \<Rightarrow> nat \<Rightarrow> dri2_frame_event" where
  "wait_info D client d = \<lparr>fe_screen = drawable_screen D d, fe_drawable = Some d, fe_client = Some client,
     fe_type = MS_DRI2_WAIT_MSC, fe_frame = 0, fe_crtc = 0, fe_event_complete = 0, fe_event_data = 0,
     fe_front = None, fe_back = None\<rparr>"

definition ms_dri2_schedule_wait_msc ::
  "'k env \<Rightarrow> 'k dri2_server \<Rightarrow> nat \<Rightarrow> nat \<Rightarrow> u64 \<Rightarrow> u64 \<Rightarrow> u64 \<Rightarrow> 'k drv \<Rightarrow> 'k drv option" where
  "ms_dri2_schedule_wait_msc E D client d target_msc divisor remainder s =
     (case dri2_crtc E D d s of
        None \<Rightarrow> Some (wait_complete client d target_msc s)
      | Some p \<Rightarrow>
          (case new_frame_event D (wait_info D client d) client d s of
             (None, s) \<Rightarrow> Some (wait_complete client d target_msc s)
           | (Some a, s) \<Rightarrow>
               (case ms_get_crtc_ust_msc (kernel_of E) p s of
                  ((ret, ust, msc), s) \<Rightarrow>
                    let current_msc = (case msc of None \<Rightarrow> uninit_msc D (kst s) | Some m \<Rightarrow> m) in
                    if divisor = 0 \<or> current_msc < target_msc then
                      let target' = (if current_msc \<ge> target_msc then current_msc else target_msc)
                      in queue_wait E p a client d target' target_msc target' s
                    else
                      queue_wait E p a client d (wait_request_msc current_msc divisor remainder)
                        target_msc target_msc s)))"

section \<open>Swapping\<close>

text \<open>The label \<^verbatim>\<open>blit_fallback\<close>, with the value of \<^verbatim>\<open>*target_msc\<close> first.\<close>

definition swap_fallback ::
  "'k dri2_server \<Rightarrow> nat \<Rightarrow> nat \<Rightarrow> nat option \<Rightarrow> nat option \<Rightarrow> nat \<Rightarrow> nat \<Rightarrow> nat option \<Rightarrow> 'k drv \<Rightarrow>
     u64 \<times> 'k drv" where
  "swap_fallback D client d front b func data info s =
     (let s = emit (Swap_complete (Some client) d 0 0 0 DRI2_BLIT_COMPLETE (Some func) data)
                (ms_dri2_blit_swap D d front b s)
      in (0, case info of None \<Rightarrow> s | Some a \<Rightarrow> ms_dri2_del_frame_event a s))"

definition queue_swap ::
  "'k env \<Rightarrow> 'k dri2_server \<Rightarrow> nat \<Rightarrow> nat \<Rightarrow> nat \<Rightarrow> nat \<Rightarrow> nat option \<Rightarrow> nat option \<Rightarrow> nat \<Rightarrow> nat \<Rightarrow>
     u32 \<Rightarrow> u64 \<Rightarrow> u64 \<Rightarrow> 'k drv \<Rightarrow> (u64 \<times> 'k drv) option" where
  "queue_swap E D p a client d front b func data flags flip msc s =
     (case ms_drm_queue_alloc p (CB_dri2 a) s of (sq, s) \<Rightarrow>
        if sq = 0 then Some (swap_fallback D client d front b func data (Some a) s)
        else case ms_queue_vblank (kernel_of E) (flush_of E) drv_abort (loop_bound E) p flags msc True sq s of
          None \<Rightarrow> None
        | Some ((ok, queued), s) \<Rightarrow>
            if \<not> ok then Some (swap_fallback D client d front b func data (Some a) s)
            else let target_msc = the queued + flip
                 in Some (target_msc, upd_event a (\<lambda>i. i\<lparr>fe_frame := ucast target_msc\<rparr>) s))"

definition swap_info ::
  "'k dri2_server \<Rightarrow> nat \<Rightarrow> nat \<Rightarrow> nat \<Rightarrow> nat \<Rightarrow> nat \<Rightarrow> nat option \<Rightarrow> nat option \<Rightarrow> dri2_frame_event" where
  "swap_info D client d p func data front b = \<lparr>fe_screen = drawable_screen D d, fe_drawable = Some d,
     fe_client = Some client, fe_type = MS_DRI2_QUEUE_SWAP, fe_frame = 0, fe_crtc = p,
     fe_event_complete = func, fe_event_data = data, fe_front = front, fe_back = b\<rparr>"

definition ms_dri2_schedule_swap ::
  "'k env \<Rightarrow> 'k dri2_server \<Rightarrow> nat \<Rightarrow> nat \<Rightarrow> nat option \<Rightarrow> nat option \<Rightarrow> u64 \<Rightarrow> u64 \<Rightarrow> u64 \<Rightarrow> nat \<Rightarrow> nat \<Rightarrow>
     'k drv \<Rightarrow> (u64 \<times> 'k drv) option" where
  "ms_dri2_schedule_swap E D client d front b target_msc divisor remainder func data s =
     (let scr = drawable_screen D d in
      case dri2_crtc E D d s of
        None \<Rightarrow> Some (swap_fallback D client d front b func data None s)
      | Some p \<Rightarrow>
          (case new_frame_event D (swap_info D client d p func data front b) client d s of
             (None, s) \<Rightarrow> Some (swap_fallback D client d front b func data None s)
           | (Some a, s) \<Rightarrow>
               (let s = ms_dri2_reference_buffer b (ms_dri2_reference_buffer front s) in
                case ms_get_crtc_ust_msc (kernel_of E) p s of
                  ((ret, ust, msc), s) \<Rightarrow>
                    if ret \<noteq> Success then Some (swap_fallback D client d front b func data (Some a) s)
                    else case can_flip E D scr d front b s of
                      (can, s) \<Rightarrow>
                        let current_msc = the msc;
                            s = (if can then upd_event a (\<lambda>i. i\<lparr>fe_type := MS_DRI2_QUEUE_FLIP\<rparr>) s else s);
                            flip = (if can then 1 else 0);
                            target_msc = (if target_msc > 0 then target_msc - flip else target_msc);
                            flags = MS_QUEUE_ABSOLUTE OR (if can then 0 else MS_QUEUE_NEXT_ON_MISS)
                        in if divisor = 0 \<or> current_msc < target_msc then
                             queue_swap E D p a client d front b func data flags flip
                               (if current_msc \<ge> target_msc then current_msc else target_msc) s
                           else
                             queue_swap E D p a client d front b func data flags flip
                               (swap_request_msc current_msc divisor remainder - flip) s)))"

section \<open>When a client or a drawable is gone\<close>

text \<open>
  The server deletes the resource that holds the list; every event on it loses its pointer.
  \<open>client\<close> and \<open>d\<close> are whose resource it is.
\<close>

definition ms_dri2_frame_event_client_gone :: "nat \<Rightarrow> 'k drv \<Rightarrow> 'k drv" where
  "ms_dri2_frame_event_client_gone client s =
     s\<lparr>frame_events := (\<lambda>a. map_option
         (\<lambda>info. if fe_client info = Some client then info\<lparr>fe_client := None\<rparr> else info) (frame_events s a))\<rparr>"

definition ms_dri2_frame_event_drawable_gone :: "nat \<Rightarrow> 'k drv \<Rightarrow> 'k drv" where
  "ms_dri2_frame_event_drawable_gone d s =
     s\<lparr>frame_events := (\<lambda>a. map_option
         (\<lambda>info. if fe_drawable info = Some d then info\<lparr>fe_drawable := None\<rparr> else info) (frame_events s a))\<rparr>"

section \<open>The names of the client drivers\<close>

text \<open>
  What \<^verbatim>\<open>ms_dri2_screen_init\<close> tells the DRI2 module of the drivers clients should load,
  from the name EGL gives: none, or the DRI driver and the VDPAU driver.
\<close>

definition dri2_driver_names :: "string option \<Rightarrow> string list" where
  "dri2_driver_names egl_name =
     (case egl_name of
        None \<Rightarrow> []
      | Some n \<Rightarrow> [n, if n = ''i965'' \<or> n = ''iris'' then ''va_gl'' else n])"

section \<open>The frame asked for\<close>

lemma next_frame_nat:
  fixes c d r :: nat
  assumes "r < d"
  defines "m \<equiv> c - c mod d + r + (if r \<le> c mod d then d else 0)"
  shows "c < m" and "m mod d = r" and "m \<le> c + d" and "c < n \<Longrightarrow> n mod d = r \<Longrightarrow> m \<le> n"
    and "c - c mod d + r \<le> c \<longleftrightarrow> r \<le> c mod d"
proof -
  have lt: "c mod d < d" and le: "c mod d \<le> c" using assms(1) by simp_all
  show "c - c mod d + r \<le> c \<longleftrightarrow> r \<le> c mod d" using le by arith
  show "c < m" "m \<le> c + d" using assms(1) lt le unfolding m_def by (simp_all split: if_split; arith)+
  have base: "c - c mod d = d * (c div d)" by (simp add: minus_mod_eq_mult_div)
  show "m mod d = r" using assms(1) by (simp add: m_def base)
  show "m \<le> n" if n: "c < n" "n mod d = r"
  proof -
    have e: "n = d * (n div d) + r" using n(2) mult_div_mod_eq [of d n] by simp
    have q: "c div d \<le> n div d" using n(1) by (simp add: div_le_mono)
    show ?thesis
    proof (cases "r \<le> c mod d")
      case False
      then have "m = d * (c div d) + r" by (simp add: m_def base)
      also have "\<dots> \<le> d * (n div d) + r" using q by simp
      finally show ?thesis using e by simp
    next
      case True
      have "c div d \<noteq> n div d"
      proof
        assume "c div d = n div d"
        then have "n \<le> d * (c div d) + c mod d" using e True by simp
        then show False using n(1) by simp
      qed
      then have "Suc (c div d) \<le> n div d" using q by simp
      then have "d * Suc (c div d) \<le> d * (n div d)" by (rule mult_le_mono2)
      then show ?thesis using e True by (simp add: m_def base)
    qed
  qed
qed

lemma request_msc_nat:
  assumes "remainder < divisor" and "unat current + unat divisor < 2 ^ 64"
  shows "unat (wait_request_msc current divisor remainder) =
      unat current - unat current mod unat divisor + unat remainder +
        (if unat remainder \<le> unat current mod unat divisor then unat divisor else 0)"
    and "swap_request_msc current divisor remainder = wait_request_msc current divisor remainder"
proof -
  let ?c = "unat current" and ?d = "unat divisor" and ?r = "unat remainder"
  have r: "?r < ?d" using assms(1) by (simp add: word_less_nat_alt)
  have md: "unat (current mod divisor) = ?c mod ?d" by (simp add: unat_mod)
  have sub: "unat (current - current mod divisor) = ?c - ?c mod ?d"
    by (simp add: unat_sub word_le_nat_alt md)
  have bound: "?c - ?c mod ?d + ?r < 2 ^ 64" "?c - ?c mod ?d + ?r + ?d < 2 ^ 64" if "?r \<le> ?c mod ?d"
    using that assms(2) mod_less_eq_dividend [of ?c ?d] by linarith+
  have bound': "?c - ?c mod ?d + ?r < 2 ^ 64"
    using assms(2) r by linarith
  have base: "unat (current - current mod divisor + remainder) = ?c - ?c mod ?d + ?r"
    using bound' unat_word_ariths(1) [of "current - current mod divisor" remainder] unfolding sub by simp
  have cond: "current mod divisor \<ge> remainder \<longleftrightarrow> ?r \<le> ?c mod ?d" by (simp add: word_le_nat_alt md)
  have more: "unat (current - current mod divisor + remainder + divisor) = ?c - ?c mod ?d + ?r + ?d"
    if "?r \<le> ?c mod ?d"
    using bound(2) [OF that] unat_word_ariths(1) [of "current - current mod divisor + remainder" divisor]
    unfolding base by simp
  show "unat (wait_request_msc current divisor remainder) =
      ?c - ?c mod ?d + ?r + (if ?r \<le> ?c mod ?d then ?d else 0)"
    unfolding wait_request_msc_def Let_def cond by (cases "?r \<le> ?c mod ?d") (simp_all only: base more if_True if_False add_0_right)
  have "current - current mod divisor + remainder \<le> current \<longleftrightarrow> ?r \<le> ?c mod ?d"
    using next_frame_nat(5) [OF r] by (simp add: word_le_nat_alt base)
  then show "swap_request_msc current divisor remainder = wait_request_msc current divisor remainder"
    by (simp add: swap_request_msc_def wait_request_msc_def Let_def cond)
qed

lemma request_msc_least:
  assumes "remainder < divisor" and "unat current + unat divisor < 2 ^ 64"
  defines "m \<equiv> wait_request_msc current divisor remainder"
  shows "current < m" and "m mod divisor = remainder"
    and "current < n \<Longrightarrow> n mod divisor = remainder \<Longrightarrow> m \<le> n"
    and "swap_request_msc current divisor remainder = m"
proof -
  have r: "unat remainder < unat divisor" using assms(1) by (simp add: word_less_nat_alt)
  note m = request_msc_nat(1) [OF assms(1,2), folded m_def]
  show "current < m" using next_frame_nat(1) [OF r, of "unat current"] by (simp add: word_less_nat_alt m)
  have "unat (m mod divisor) = unat remainder"
    using next_frame_nat(2) [OF r, of "unat current"] by (simp add: unat_mod m)
  then show "m mod divisor = remainder" by (simp only: word_unat_eq_iff)
  show "m \<le> n" if "current < n" "n mod divisor = remainder"
  proof -
    have "unat n mod unat divisor = unat remainder" using that(2) by (metis unat_mod)
    then show ?thesis using next_frame_nat(4) [OF r, of "unat current" "unat n"] that(1)
      by (simp add: word_less_nat_alt word_le_nat_alt m)
  qed
  show "swap_request_msc current divisor remainder = m" using request_msc_nat(2) [OF assms(1,2)] by (simp add: m_def)
qed

text \<open>
  Waiting asks for the right frame. When the target of a wait has passed, the frame asked
  of the kernel is the first one after the current with the remainder asked for; a swap asks
  for the same one. The two functions compute it differently, and neither wraps around below
  the last frames of the counter.
\<close>

theorem wait_asks_least_frame:
  assumes "dri2_crtc E D d s = Some p"
    and "new_frame_event D (wait_info D client d) client d s = (Some a, t)"
    and "ms_get_crtc_ust_msc (kernel_of E) p t = ((Success, ust, Some current), u)"
    and "target \<le> current" and "remainder < divisor" and "unat current + unat divisor < 2 ^ 64"
  shows "\<exists>m. ms_dri2_schedule_wait_msc E D client d target divisor remainder s =
        queue_wait E p a client d m target target u \<and>
      current < m \<and> m mod divisor = remainder \<and>
      (\<forall>n. current < n \<longrightarrow> n mod divisor = remainder \<longrightarrow> m \<le> n) \<and>
      swap_request_msc current divisor remainder = m"
proof (intro exI conjI allI impI)
  let ?m = "wait_request_msc current divisor remainder"
  have "divisor \<noteq> 0" "\<not> current < target" using assms(4,5) by auto
  then show "ms_dri2_schedule_wait_msc E D client d target divisor remainder s =
      queue_wait E p a client d ?m target target u"
    using assms(1-3) by (simp add: ms_dri2_schedule_wait_msc_def Let_def)
  show "current < ?m" "?m mod divisor = remainder" "swap_request_msc current divisor remainder = ?m"
    by (rule request_msc_least [OF assms(5,6)])+
  show "?m \<le> n" if "current < n" "n mod divisor = remainder" for n
    by (rule request_msc_least(3) [OF assms(5,6) that])
qed

section \<open>Gone clients and drawables\<close>

lemma destroy_buffer_log:
  "set (server_log (ms_dri2_destroy_buffer2 b s)) \<subseteq> set (server_log s) \<union> range Destroy_pixmap"
  "frame_events (ms_dri2_destroy_buffer2 b s) = frame_events s"
  "kst (ms_dri2_destroy_buffer2 b s) = kst s"
  by (auto simp: ms_dri2_destroy_buffer2_def emit_def misc_fault_def split: option.splits)

lemma del_frame_event_log:
  "set (server_log (ms_dri2_del_frame_event a s)) \<subseteq> set (server_log s) \<union> range Destroy_pixmap"
proof -
  have "set (server_log (ms_dri2_destroy_buffer2 b (ms_dri2_destroy_buffer2 c s))) \<subseteq>
      set (server_log s) \<union> range Destroy_pixmap" for b c
    using destroy_buffer_log(1) [of b "ms_dri2_destroy_buffer2 c s"] destroy_buffer_log(1) [of c s] by blast
  then show ?thesis
    using destroy_buffer_log(1) [of _ s]
    by (auto simp: ms_dri2_del_frame_event_def ms_dri2_destroy_buffer_def misc_fault_def Let_def split: option.splits)
qed

lemma del_frame_event_frames:
  "frame_events (ms_dri2_del_frame_event a s) = (frame_events s)(a := None)"
  "kst (ms_dri2_del_frame_event a s) = kst s"
  by (auto simp: ms_dri2_del_frame_event_def ms_dri2_destroy_buffer_def misc_fault_def Let_def
      destroy_buffer_log split: option.splits)

text \<open>
  Nothing reaches a drawable that is gone. Once the server has destroyed a drawable, an
  event that was pending for it only gives its buffers back: no copy, no swap and no wake-up
  is reported, nothing is asked of the kernel, and the events of other drawables keep their
  records.
\<close>

theorem gone_drawable_untouched:
  assumes "t = ms_dri2_frame_event_drawable_gone d s"
    and "frame_events s a = Some info" and "fe_drawable info = Some d"
  shows "\<exists>u. ms_dri2_frame_event_handler E D msc usec a t = Some u \<and>
    set (server_log u) \<subseteq> set (server_log s) \<union> range Destroy_pixmap \<and> kst u = kst s \<and>
    frame_events u a = None \<and>
    (\<forall>c j. c \<noteq> a \<longrightarrow> frame_events s c = Some j \<longrightarrow> fe_drawable j \<noteq> Some d \<longrightarrow> frame_events u c = Some j)"
proof -
  have t: "server_log t = server_log s" "kst t = kst s" "frame_events t a = Some (info\<lparr>fe_drawable := None\<rparr>)"
    and other: "\<forall>c j. frame_events s c = Some j \<longrightarrow> fe_drawable j \<noteq> Some d \<longrightarrow> frame_events t c = Some j"
    using assms by (simp_all add: ms_dri2_frame_event_drawable_gone_def)
  have "ms_dri2_frame_event_handler E D msc usec a t = Some (ms_dri2_del_frame_event a t)"
    by (simp add: ms_dri2_frame_event_handler_def t(3))
  moreover have "set (server_log (ms_dri2_del_frame_event a t)) \<subseteq> set (server_log s) \<union> range Destroy_pixmap"
    using del_frame_event_log [of a t] t(1) by simp
  ultimately show ?thesis
    using other by (intro exI [of _ "ms_dri2_del_frame_event a t"]) (simp add: del_frame_event_frames t(2))
qed

section \<open>A swap from the request to the event\<close>

text \<open>The vblank functions leave the records of DRI2 alone.\<close>

lemma dri2_records_more:
  fixes s t :: "'k drv"
  assumes "drm.more t = drm.more s"
  shows "dri2_bufs t = dri2_bufs s" "frame_events t = frame_events s" "server_log t = server_log s"
  using assms by (cases s; cases t; simp)+

lemma kernel_msc_more: "drm.more (snd (ms_kernel_msc_to_crtc_msc p m b s)) = drm.more s"
  by (simp add: ms_kernel_msc_to_crtc_msc_def case_prod_beta upd_crtc_def)

lemma get_ust_msc_more: "drm.more (snd (ms_get_crtc_ust_msc K p s)) = drm.more s"
proof -
  have "drm.more (snd (ms_get_kernel_ust_msc K p s)) = drm.more s"
    by (simp add: ms_get_kernel_ust_msc_def Let_def case_prod_beta upd_ms_def)
  then show ?thesis by (simp add: ms_get_crtc_ust_msc_def case_prod_beta kernel_msc_more)
qed

lemma queue_vblank_once_more: "drm.more (snd (queue_vblank_once K p flags msc sq s)) = drm.more s"
  by (simp add: queue_vblank_once_def Let_def case_prod_beta upd_ms_def)

lemma queue_vblank_once_queue: "ms_drm_queue (snd (queue_vblank_once K p flags msc sq s)) = ms_drm_queue s"
  by (simp add: queue_vblank_once_def Let_def case_prod_beta upd_ms_def)

lemma kernel_msc_queue: "ms_drm_queue (snd (ms_kernel_msc_to_crtc_msc p m b s)) = ms_drm_queue s"
  by (simp add: ms_kernel_msc_to_crtc_msc_def case_prod_beta upd_crtc_def)

lemma get_ust_msc_frames:
  "ms_drm_queue (snd (ms_get_crtc_ust_msc K p s)) = ms_drm_queue s"
  "mem_ok (snd (ms_get_crtc_ust_msc K p s)) = mem_ok s"
  "pageflip (mss (snd (ms_get_crtc_ust_msc K p s)) scr) = pageflip (mss s scr)"
proof -
  let ?t = "snd (ms_get_kernel_ust_msc K p s)"
  have "ms_drm_queue ?t = ms_drm_queue s \<and> mem_ok ?t = mem_ok s \<and> pageflip (mss ?t scr) = pageflip (mss s scr)"
    by (simp add: ms_get_kernel_ust_msc_def Let_def case_prod_beta upd_ms_def)
  moreover have "ms_drm_queue (snd (ms_get_crtc_ust_msc K p s)) = ms_drm_queue ?t \<and>
      mem_ok (snd (ms_get_crtc_ust_msc K p s)) = mem_ok ?t \<and> mss (snd (ms_get_crtc_ust_msc K p s)) = mss ?t"
    by (simp add: ms_get_crtc_ust_msc_def ms_kernel_msc_to_crtc_msc_def case_prod_beta upd_crtc_def)
  ultimately show "ms_drm_queue (snd (ms_get_crtc_ust_msc K p s)) = ms_drm_queue s"
    and "mem_ok (snd (ms_get_crtc_ust_msc K p s)) = mem_ok s"
    and "pageflip (mss (snd (ms_get_crtc_ust_msc K p s)) scr) = pageflip (mss s scr)" by simp_all
qed

text \<open>A kernel that tells its count and takes every request for a frame, by either call.\<close>

definition accepts_vblanks :: "'k kernel \<Rightarrow> bool" where
  "accepts_vblanks K \<longleftrightarrow>
     (\<forall>c f q u k. fst (fst (drmCrtcQueueSequence K c f q u k)) = 0) \<and>
     (\<forall>c k. fst (fst (drmCrtcGetSequence K c k)) = 0) \<and>
     (\<forall>t q u k. fst (fst (drmWaitVBlank K t q u k)) = 0)"

lemma get_ust_msc_accepted:
  fixes s :: "'k drv"
  assumes "accepts_vblanks K"
  shows "\<exists>ust m t. ms_get_crtc_ust_msc K p s = ((Success, ust, Some m), t)"
proof -
  have "fst (fst (ms_get_kernel_ust_msc K p s))"
    using assms by (auto simp: ms_get_kernel_ust_msc_def accepts_vblanks_def Let_def case_prod_beta)
  then show ?thesis by (auto simp: ms_get_crtc_ust_msc_def case_prod_beta)
qed

lemma queue_vblank_accepted:
  fixes s :: "'k drv"
  assumes "accepts_vblanks K"
  shows "\<exists>m t. ms_queue_vblank K flush ab (Suc n) p flags msc True sq s = Some ((True, Some m), t) \<and>
    drm.more t = drm.more s \<and> ms_drm_queue t = ms_drm_queue s"
proof -
  obtain q t where q: "queue_vblank_once K p flags msc sq s = (q, t)" by (metis surj_pair)
  have "q \<noteq> None"
    using assms q by (auto simp: queue_vblank_once_def accepts_vblanks_def Let_def case_prod_beta split: if_splits)
  then obtain f b where f: "q = Some (f, b)" by force
  obtain m u where m: "ms_kernel_msc_to_crtc_msc p f b t = (m, u)" by (metis surj_pair)
  have "drm.more u = drm.more s" "ms_drm_queue u = ms_drm_queue s"
    using queue_vblank_once_more [of K p flags msc sq s] queue_vblank_once_queue [of K p flags msc sq s]
      kernel_msc_more [of p f b t] kernel_msc_queue [of p f b t] q m by simp_all
  then show ?thesis using q f m by simp
qed

text \<open>References taken and given back.\<close>

lemma reference_refs:
  assumes "buffer_refs s a = Some n"
  shows "buffer_refs (ms_dri2_reference_buffer (Some a) s) = (buffer_refs s)(a \<mapsto> n + 1)"
proof -
  obtain buf px where b: "dri2_bufs s a = Some buf" "db2_private buf = Some (n, px)"
    using assms by (auto simp: buffer_refs_def bind_eq_Some_conv)
  then show ?thesis by (auto simp: ms_dri2_reference_buffer_def buffer_refs_def fun_eq_iff)
qed

lemma unreference_refs:
  assumes "buffer_refs s a = Some n" and "n > 1"
  shows "buffer_refs (ms_dri2_destroy_buffer2 (Some a) s) = (buffer_refs s)(a \<mapsto> n - 1)"
    and "server_log (ms_dri2_destroy_buffer2 (Some a) s) = server_log s"
proof -
  obtain buf px where b: "dri2_bufs s a = Some buf" "db2_private buf = Some (n, px)"
    using assms(1) by (auto simp: buffer_refs_def bind_eq_Some_conv)
  with assms(2) show "buffer_refs (ms_dri2_destroy_buffer2 (Some a) s) = (buffer_refs s)(a \<mapsto> n - 1)"
    and "server_log (ms_dri2_destroy_buffer2 (Some a) s) = server_log s"
    by (auto simp: ms_dri2_destroy_buffer2_def buffer_refs_def fun_eq_iff)
qed

lemma reference_frames:
  "frame_events (ms_dri2_reference_buffer b s) = frame_events s"
  "server_log (ms_dri2_reference_buffer b s) = server_log s"
  "mss (ms_dri2_reference_buffer b s) = mss s"
  by (auto simp: ms_dri2_reference_buffer_def misc_fault_def split: option.split prod.split)

lemma blit_frames:
  "dri2_bufs (ms_dri2_blit_swap D d b c s) = dri2_bufs s"
  "frame_events (ms_dri2_blit_swap D d b c s) = frame_events s"
  by (auto simp: ms_dri2_blit_swap_def ms_dri2_copy_region_def ms_dri2_copy_region2_def emit_def misc_fault_def
      Let_def split: option.split prod.split)

lemma new_event_frames:
  assumes "new_frame_event D info client d s = (Some a, t)"
  shows "frame_events t = (frame_events s)(a \<mapsto> info)" and "dri2_bufs t = dri2_bufs s"
    and "server_log t = server_log s" and "mss t = mss s" and "ms_drm_queue t = ms_drm_queue s"
    and "mem_ok s = [] \<Longrightarrow> mem_ok t = []"
proof -
  have keep: "drm.more (snd (ms_dri2_add_frame_event D client d u)) = drm.more u \<and>
      mss (snd (ms_dri2_add_frame_event D client d u)) = mss u \<and>
      ms_drm_queue (snd (ms_dri2_add_frame_event D client d u)) = ms_drm_queue u" for u :: "'a drv"
    by (auto simp: ms_dri2_add_frame_event_def get_client_id_def ms_get_resource_def case_prod_beta frame_simps)
  have mem: "mem_ok (snd (ms_dri2_add_frame_event D client d u)) = []" if "mem_ok u = []" for u :: "'a drv"
    using that
    by (auto simp: ms_dri2_add_frame_event_def get_client_id_def ms_get_resource_def case_prod_beta calloc_def)
  obtain ok u where u': "ms_dri2_add_frame_event D client d (snd (calloc s)) = (ok, u)" by (metis surj_pair)
  then have u: "ms_dri2_add_frame_event D client d (snd (calloc s)) = (ok, u)"
    "drm.more u = drm.more s" "mss u = mss s" "ms_drm_queue u = ms_drm_queue s"
    using keep [of "snd (calloc s)"] by (simp_all add: frame_simps)
  with assms have t: "ok" "t = u\<lparr>frame_events := (frame_events u)(a \<mapsto> info), next_addr := next_addr u + 1\<rparr>"
    by (auto simp: new_frame_event_def case_prod_beta split: if_splits)
  show "frame_events t = (frame_events s)(a \<mapsto> info)" "dri2_bufs t = dri2_bufs s"
    "server_log t = server_log s" "mss t = mss s" "ms_drm_queue t = ms_drm_queue s"
    using dri2_records_more [OF u(2)] u(3,4) by (simp_all add: t(2))
  show "mem_ok t = []" if "mem_ok s = []"
    using mem [of "snd (calloc s)"] that u(1) by (simp add: t(2) calloc_def)
qed

lemma buffer_refs_cong: "dri2_bufs t = dri2_bufs s \<Longrightarrow> buffer_refs t = buffer_refs s"
  by (simp add: buffer_refs_def fun_eq_iff)

text \<open>The event of a swap by copy: the client is told and the references are given back.\<close>

lemma swap_event_handled:
  assumes "frame_events s a = Some info" and "fe_type info = MS_DRI2_QUEUE_SWAP"
    and "fe_drawable info = Some d" and "fe_front info = Some f" and "fe_back info = Some b" and "f \<noteq> b"
    and "buffer_refs s f = Some n" and "buffer_refs s b = Some m" and "1 < n" and "1 < m"
  shows "\<exists>u. ms_dri2_frame_event_handler E D msc usec a s = Some u \<and>
    buffer_refs u = (buffer_refs s)(f \<mapsto> n - 1, b \<mapsto> m - 1) \<and> frame_events u = (frame_events s)(a := None) \<and>
    hd (server_log u) = Swap_complete (fe_client info) d (frame_of msc) (ucast (usec div 1000000))
      (ucast (usec mod 1000000)) DRI2_BLIT_COMPLETE
      (if fe_client info \<noteq> None then Some (fe_event_complete info) else None) (fe_event_data info)"
proof -
  let ?t = "finish_swap D info d msc usec s"
  have t: "frame_events ?t = frame_events s" "dri2_bufs ?t = dri2_bufs s"
    by (simp_all add: finish_swap_def emit_def blit_frames)
  note refs = buffer_refs_cong [OF t(2)]
  let ?v = "ms_dri2_destroy_buffer2 (Some f) ?t"
  have f: "buffer_refs ?v = (buffer_refs s)(f \<mapsto> n - 1)" "server_log ?v = server_log ?t"
    using unreference_refs [of ?t f n] assms(7,9) refs by simp_all
  let ?w = "ms_dri2_destroy_buffer2 (Some b) ?v"
  have b: "buffer_refs ?w = (buffer_refs s)(f \<mapsto> n - 1, b \<mapsto> m - 1)" "server_log ?w = server_log ?t"
    using unreference_refs [of ?v b m] assms(6,8,10) f by simp_all
  have fr: "frame_events ?w = frame_events s" by (simp add: destroy_buffer_log(2) t(1))
  have del: "ms_dri2_del_frame_event a ?t = ?w\<lparr>frame_events := (frame_events s)(a := None)\<rparr>"
    using assms(1,4,5) t(1) by (simp add: ms_dri2_del_frame_event_def ms_dri2_destroy_buffer_def fr)
  have "ms_dri2_frame_event_handler E D msc usec a s = Some (ms_dri2_del_frame_event a ?t)"
    using assms(1-3) by (simp add: ms_dri2_frame_event_handler_def)
  moreover have "buffer_refs (?w\<lparr>frame_events := (frame_events s)(a := None)\<rparr>) = buffer_refs ?w"
    by (rule buffer_refs_cong) simp
  moreover have "hd (server_log ?t) = Swap_complete (fe_client info) d (frame_of msc) (ucast (usec div 1000000))
      (ucast (usec mod 1000000)) DRI2_BLIT_COMPLETE
      (if fe_client info \<noteq> None then Some (fe_event_complete info) else None) (fe_event_data info)"
    by (simp add: finish_swap_def emit_def)
  ultimately show ?thesis using b by (simp add: del)
qed

text \<open>A swap that waits is queued and changes nothing but its own record.\<close>

lemma swap_queued:
  assumes "accepts_vblanks (kernel_of E)" and "loop_bound E = Suc k" and "mem_ok v = []"
    and "frame_events v a = Some info"
  shows "\<exists>q target' w i. queue_swap E D p a client d front back func data flags 0 msc v = Some (target', w) \<and>
    ms_drm_queue w = q # ms_drm_queue v \<and> q_data q = CB_dri2 a \<and> server_log w = server_log v \<and>
    dri2_bufs w = dri2_bufs v \<and> frame_events w = (frame_events v)(a \<mapsto> info\<lparr>fe_frame := i\<rparr>)"
proof -
  obtain sq w where w: "ms_drm_queue_alloc p (CB_dri2 a) v = (sq, w)" "sq \<noteq> 0"
    using queue_alloc_mem [OF assms(3)] by blast
  have mw: "drm.more w = drm.more v" and
    qw: "ms_drm_queue w = \<lparr>q_crtc = p, q_seq = sq, q_data = CB_dri2 a, q_scrn = crtc_scrn (crtcs v p)\<rparr> # ms_drm_queue v"
    using queue_alloc_more [OF w(1)] w(2) by simp_all
  obtain frame x where x: "ms_queue_vblank (kernel_of E) (flush_of E) drv_abort (loop_bound E) p flags msc True sq w =
      Some ((True, Some frame), x)" "drm.more x = drm.more w" "ms_drm_queue x = ms_drm_queue w"
    using queue_vblank_accepted [OF assms(1)] assms(2) by metis
  have "frame_events x = frame_events v" "server_log x = server_log v" "dri2_bufs x = dri2_bufs v"
    using dri2_records_more [of x v] x(2) mw by simp_all
  then show ?thesis
    using w x(1,3) qw assms(4) by (auto simp: queue_swap_def upd_event_def)
qed

text \<open>
  C27. A swap is completed and gives back what it took. With page flips off, a swap of a
  visible drawable whose request the kernel takes queues exactly one event, holding a
  reference to each buffer, and reports nothing yet; when the event comes, with any frame and
  time, the client's completion function is called with them, and every buffer has the
  references it had before.
\<close>

theorem swap_gives_back_buffers:
  assumes "accepts_vblanks (kernel_of E)" and "loop_bound E = Suc k" and "mem_ok s = []"
    and "dri2_crtc E D d s = Some p"
    and "new_frame_event D (swap_info D client d p func data (Some f) (Some b)) client d s = (Some a, t)"
    and "\<not> pageflip (mss s (drawable_screen D d))"
    and "f \<noteq> b" and "buffer_refs s f = Some n" and "buffer_refs s b = Some m" and "1 \<le> n" and "1 \<le> m"
  shows "\<exists>q target' s'. ms_dri2_schedule_swap E D client d (Some f) (Some b) target divisor remainder func data s =
      Some (target', s') \<and> ms_drm_queue s' = q # ms_drm_queue s \<and> q_data q = CB_dri2 a \<and>
      server_log s' = server_log s \<and> buffer_refs s' = (buffer_refs s)(f \<mapsto> n + 1, b \<mapsto> m + 1) \<and>
      (\<forall>msc usec. \<exists>u. ms_dri2_frame_event_handler E D msc usec a s' = Some u \<and> buffer_refs u = buffer_refs s \<and>
         frame_events u = (frame_events s)(a := None) \<and>
         hd (server_log u) = Swap_complete (Some client) d (frame_of msc) (ucast (usec div 1000000))
           (ucast (usec mod 1000000)) DRI2_BLIT_COMPLETE (Some func) data)"
proof -
  let ?K = "kernel_of E" and ?i = "swap_info D client d p func data (Some f) (Some b)"
  note t = new_event_frames [OF assms(5)]
  define u where "u = ms_dri2_reference_buffer (Some b) (ms_dri2_reference_buffer (Some f) t)"
  have rt: "buffer_refs t = buffer_refs s" using t(2) by (rule buffer_refs_cong)
  have u: "frame_events u = (frame_events s)(a \<mapsto> ?i)" "server_log u = server_log s" "mss u = mss s"
    by (simp_all add: u_def reference_frames t)
  have qu: "ms_drm_queue u = ms_drm_queue s" "mem_ok u = []"
    using t(5,6) assms(3) by (auto simp: u_def ms_dri2_reference_buffer_def misc_fault_def split: option.splits)
  have ru: "buffer_refs u = (buffer_refs s)(f \<mapsto> n + 1, b \<mapsto> m + 1)"
    using reference_refs [of t f n] reference_refs [of "ms_dri2_reference_buffer (Some f) t" b m] assms(7-9)
    by (simp add: u_def rt)
  obtain ust cur v where v: "ms_get_crtc_ust_msc ?K p u = ((Success, ust, Some cur), v)"
    using get_ust_msc_accepted [OF assms(1)] by blast
  have mv: "drm.more v = drm.more u" "ms_drm_queue v = ms_drm_queue s" "mem_ok v = []"
    "\<not> pageflip (mss v (drawable_screen D d))"
    using get_ust_msc_more [of ?K p u] get_ust_msc_frames [of ?K p u] v qu u(3) assms(6) by simp_all
  have flip: "can_flip E D scr d x y v = (False, v)" if "scr = drawable_screen D d" for scr x y
    using mv(4) that by (simp add: can_flip_def Let_def)
  have fv: "frame_events v = (frame_events s)(a \<mapsto> ?i)" "server_log v = server_log s" "dri2_bufs v = dri2_bufs u"
    using dri2_records_more [OF mv(1)] u by simp_all
  have sched: "\<exists>flags msc. ms_dri2_schedule_swap E D client d (Some f) (Some b) target divisor remainder func data s =
      queue_swap E D p a client d (Some f) (Some b) func data flags 0 msc v"
    by (simp add: ms_dri2_schedule_swap_def Let_def assms(4,5) v flip flip: u_def) metis
  then obtain q target' s' i where s': "ms_dri2_schedule_swap E D client d (Some f) (Some b) target divisor remainder func data s =
      Some (target', s')" "ms_drm_queue s' = q # ms_drm_queue s" "q_data q = CB_dri2 a" "server_log s' = server_log s"
      "dri2_bufs s' = dri2_bufs u" "frame_events s' = (frame_events s)(a \<mapsto> ?i\<lparr>fe_frame := i\<rparr>)"
    using swap_queued [OF assms(1,2) mv(3), of a ?i] fv mv(2) by simp metis
  have rs: "buffer_refs s' = (buffer_refs s)(f \<mapsto> n + 1, b \<mapsto> m + 1)"
    using buffer_refs_cong [OF s'(5)] ru by simp
  have "(buffer_refs s)(f \<mapsto> n, b \<mapsto> m) = buffer_refs s" using assms(8,9) by (simp add: fun_upd_idem)
  then have "\<exists>x. ms_dri2_frame_event_handler E D msc usec a s' = Some x \<and> buffer_refs x = buffer_refs s \<and>
         frame_events x = (frame_events s)(a := None) \<and>
         hd (server_log x) = Swap_complete (Some client) d (frame_of msc) (ucast (usec div 1000000))
           (ucast (usec mod 1000000)) DRI2_BLIT_COMPLETE (Some func) data" for msc usec
    using swap_event_handled [of s' a "?i\<lparr>fe_frame := i\<rparr>" d f b "n + 1" "m + 1" E D msc usec] assms(7,10,11) rs
    by (simp add: swap_info_def s'(6) fun_upd_twist)
  with s' rs show ?thesis by blast
qed

section \<open>Examples\<close>

text \<open>A kernel that counts frames and takes requests, and a server with one window on one CRTC.\<close>

definition vblank_kernel :: "unit kernel" where
  "vblank_kernel = dead_kernel\<lparr>
     drmCrtcGetSequence := (\<lambda>c k. ((0, 0, 103, 5000), k)),
     drmCrtcQueueSequence := (\<lambda>c f q u k. ((0, 0, q), k)),
     drmWaitVBlank := (\<lambda>t q u k. ((0, 0, 103, 0, 5), k))\<rparr>"

definition window_server :: "unit dri2_server" where
  "window_server = \<lparr>
     lookup_drawable = Some, drawable_id = id, is_window = (\<lambda>d. True), drawable_screen = (\<lambda>d. 0),
     drawable_geom_of = (\<lambda>d k. edge_drawable), drawable_depth = (\<lambda>d. 24),
     dri2_screens = (\<lambda>scr cs k. Screen scr True False (Some [hd_crtc]) None []),
     xf86ModeWidth = (\<lambda>m r. m_HDisplay m), xf86ModeHeight = (\<lambda>m r. m_VDisplay m),
     GetWindowPixmap = (\<lambda>d k. 20), pixmap_screen = (\<lambda>p k. 0), pixmap_origin = (\<lambda>p k. (0, 0)),
     create_pixmap = (\<lambda>scr w h d k. (Some 21, k)), name_from_pixmap = (\<lambda>p k. ((7, 256), k)),
     DRI2CanFlip = (\<lambda>d k. False), DRI2UpdatePrime = (\<lambda>d b k. (None, k)), GetScratchGC = (\<lambda>e k. (True, k)),
     client_key = (\<lambda>c k. 0), set_client_key = (\<lambda>c i k. k), FakeClientID = (\<lambda>c k. (1000 + c, k)),
     dixLookupResourceByType = (\<lambda>t i k. False), AddResource = (\<lambda>t i k. (True, k)),
     clock_gettime = (\<lambda>k. (None, k)), egl_exchange_buffers = (\<lambda>f b k. k), uninit_msc = (\<lambda>k. 0)\<rparr>"

definition swapping :: "unit drv" where
  "swapping = (idle_drv ())\<lparr>next_addr := 5,
     dri2_bufs := [3 \<mapsto> \<lparr>db2_attachment = 0, db2_name = 1, db2_pitch2 = 0, db2_cpp = 4, db2_format = 0,
                          db2_private = Some (1, 20)\<rparr>,
                   4 \<mapsto> \<lparr>db2_attachment = 1, db2_name = 2, db2_pitch2 = 0, db2_cpp = 4, db2_format = 0,
                          db2_private = Some (1, 21)\<rparr>]\<rparr>"

lemma window_crtc: "dri2_crtc (plain_env vblank_kernel) window_server 9 s = Some 0"
  by (simp add: dri2_crtc_def window_server_def plain_env_def ms_dri2_crtc_covering_drawable_def Let_def
      ms_crtc_box_def hd_crtc_def zero_crtc_def zero_mode_def is_short_def ms_crtc_on_def drawable_box_def
      edge_drawable_def ms_box_intersect_def ms_box_area_def to_int32_def signed_take_bit_int_eq_self)

lemma window_event:
  "new_frame_event window_server info 2 9 swapping =
     (Some 5, swapping\<lparr>frame_events := [5 \<mapsto> info], next_addr := 6\<rparr>)"
  by (simp add: new_frame_event_def ms_dri2_add_frame_event_def get_client_id_def ms_get_resource_def
      window_server_def swapping_def idle_drv_def idle_drm_def drm.extend_def calloc_def)

lemma wait_asks_least_frame_witness:
  "\<exists>m u. ms_dri2_schedule_wait_msc (plain_env vblank_kernel) window_server 2 9 100 10 7 swapping =
     queue_wait (plain_env vblank_kernel) 0 5 2 9 m 100 100 u \<and> 103 < m \<and> m mod 10 = 7 \<and> m \<le> 107"
proof -
  let ?t = "swapping\<lparr>frame_events := [5 \<mapsto> wait_info window_server 2 9], next_addr := 6\<rparr>"
  have k: "kernel_of (plain_env vblank_kernel) = vblank_kernel" by (simp add: plain_env_def)
  have "\<exists>ust u. ms_get_crtc_ust_msc vblank_kernel 0 ?t = ((Success, ust, Some 103), u)"
    by (simp add: ms_get_crtc_ust_msc_def ms_get_kernel_ust_msc_def vblank_kernel_def swapping_def idle_drv_def
        idle_drm_def drm.extend_def zero_crtc_def zero_ms_def Let_def upd_ms_def ms_kernel_msc_to_crtc_msc_def
        kernel_msc_to_crtc_msc_def upd_crtc_def dead_kernel_def)
  then obtain ust u where u: "ms_get_crtc_ust_msc (kernel_of (plain_env vblank_kernel)) 0 ?t = ((Success, ust, Some 103), u)"
    unfolding k by blast
  have "(100::u64) \<le> 103" "(7::u64) < 10" "unat (103::u64) + unat (10::u64) < 2 ^ 64" by simp_all
  from wait_asks_least_frame [OF window_crtc window_event u this] obtain m where m:
    "ms_dri2_schedule_wait_msc (plain_env vblank_kernel) window_server 2 9 100 10 7 swapping =
       queue_wait (plain_env vblank_kernel) 0 5 2 9 m 100 100 u"
    "103 < m" "m mod 10 = 7" "\<forall>n. 103 < n \<longrightarrow> n mod 10 = 7 \<longrightarrow> m \<le> n" by blast
  from m(4) have "m \<le> 107" by (simp add: allE [of _ 107])
  with m(1-3) show ?thesis by blast
qed

lemma gone_drawable_untouched_witness:
  "\<exists>u. ms_dri2_frame_event_handler (plain_env vblank_kernel) window_server 110 7 5
     (ms_dri2_frame_event_drawable_gone 9
        (swapping\<lparr>frame_events := [5 \<mapsto> swap_info window_server 2 9 0 50 60 (Some 3) (Some 4)]\<rparr>)) = Some u \<and>
     set (server_log u) \<subseteq> range Destroy_pixmap \<and> frame_events u 5 = None"
proof -
  let ?i = "swap_info window_server 2 9 0 50 60 (Some 3) (Some 4)"
  let ?s = "swapping\<lparr>frame_events := [5 \<mapsto> ?i]\<rparr>"
  have "frame_events ?s 5 = Some ?i" "fe_drawable ?i = Some 9" "set (server_log ?s) = {}"
    by (simp_all add: swap_info_def swapping_def idle_drv_def drm.extend_def)
  with gone_drawable_untouched [OF refl this(1,2), of "plain_env vblank_kernel" window_server 110 7]
  show ?thesis by auto
qed

lemma swap_gives_back_buffers_witness:
  "\<exists>s' u. ms_dri2_schedule_swap (plain_env vblank_kernel) window_server 2 9 (Some 3) (Some 4) 0 0 0 50 60 swapping =
      Some s' \<and> buffer_refs (snd s') 3 = Some 2 \<and>
    ms_dri2_frame_event_handler (plain_env vblank_kernel) window_server 110 7000000 5 (snd s') = Some u \<and>
    buffer_refs u 3 = Some 1 \<and> hd (server_log u) = Swap_complete (Some 2) 9 110 7 0 DRI2_BLIT_COMPLETE (Some 50) 60"
proof -
  let ?E = "plain_env vblank_kernel" and ?i = "swap_info window_server 2 9 0 50 60 (Some 3) (Some 4)"
  have K: "accepts_vblanks (kernel_of ?E)" by (simp add: accepts_vblanks_def plain_env_def vblank_kernel_def)
  have n: "loop_bound ?E = Suc 1" by (simp add: plain_env_def)
  have mem: "mem_ok swapping = []" by (simp add: swapping_def idle_drv_def idle_drm_def drm.extend_def)
  have pf: "\<not> pageflip (mss swapping (drawable_screen window_server 9))"
    by (simp add: swapping_def idle_drv_def idle_drm_def drm.extend_def zero_ms_def)
  have refs: "(3::nat) \<noteq> 4" "buffer_refs swapping 3 = Some 1" "buffer_refs swapping 4 = Some 1" "(1::int) \<le> 1"
    by (simp_all add: swapping_def buffer_refs_def)
  obtain q tg s' where s': "ms_dri2_schedule_swap ?E window_server 2 9 (Some 3) (Some 4) 0 0 0 50 60 swapping = Some (tg, s')"
      "buffer_refs s' = (buffer_refs swapping)(3 \<mapsto> 1 + 1, 4 \<mapsto> 1 + 1)"
    and h: "\<forall>msc usec. \<exists>u. ms_dri2_frame_event_handler ?E window_server msc usec 5 s' = Some u \<and>
         buffer_refs u = buffer_refs swapping \<and> frame_events u = (frame_events swapping)(5 := None) \<and>
         hd (server_log u) = Swap_complete (Some 2) 9 (frame_of msc) (ucast (usec div 1000000))
           (ucast (usec mod 1000000)) DRI2_BLIT_COMPLETE (Some 50) 60"
    using swap_gives_back_buffers [OF K n mem window_crtc window_event pf refs(1-4) refs(4), of 0 0 0] by blast
  from h obtain u where "ms_dri2_frame_event_handler ?E window_server 110 7000000 5 s' = Some u"
    "buffer_refs u = buffer_refs swapping" "hd (server_log u) = Swap_complete (Some 2) 9 (frame_of 110)
       (ucast (7000000 div 1000000 :: u64)) (ucast (7000000 mod 1000000 :: u64)) DRI2_BLIT_COMPLETE (Some 50) 60"
    by metis
  with s' refs show ?thesis by (intro exI [of _ "(tg, s')"] exI [of _ u]) (simp add: frame_of_def)
qed

end
