(* ===== verification/Driver_Loop.thy ===== *)
theory Driver_Loop
  imports Dri2_Ext Screen_Fb
begin

text \<open>
  The event loop of the whole driver. The handlers of the four kinds of queue entries wait, in
  the retry loops of vblank requests and page flips, by flushing the kernel's events, which
  calls the handlers again: the dispatcher is tied into a loop here, with a bound on the
  nesting.
\<close>

section \<open>DRI2 keeps the owners\<close>

lemma bump_owners:
  assumes "owners_ok L P s" and "flipdatas t = flipdatas s" and "presents t = presents s"
    and "faults t = faults s" and "ms_drm_queue t = ms_drm_queue s" and "next_addr s \<le> next_addr t"
  shows "owners_ok L P t"
proof -
  have pend: "pending_flips t = pending_flips s" "pending_presents t = pending_presents s"
    using assms(5) by (simp_all add: pending_flips_def pending_presents_def)
  have fc: "flip_clients t = flip_clients s" by (rule flip_clients_cong) (rule assms(2))
  have "flip_records_ok L s" "presents_ok P s" "faults s = 0" using assms(1) by (simp_all add: owners_ok_def)
  note ok = this
  have "\<forall>a. flipdatas s a \<noteq> None \<longrightarrow> a < next_addr t" "\<forall>e. presents s e \<noteq> None \<longrightarrow> e < next_addr t"
    using ok assms(6) unfolding flip_records_ok_def presents_ok_def by (meson less_le_trans)+
  then have "flip_records_ok L t" "presents_ok P t"
    using ok owned_cong [OF assms(2)]
    unfolding flip_records_ok_def presents_ok_def pend fc assms(2,3) by simp_all
  then show ?thesis using ok(3) assms(4) by (simp add: owners_ok_def)
qed

lemma dri2_same_owned [owned_frames]:
  fixes s :: "'k drv"
  shows "same_owned s (upd_event a f s)" and "same_owned s (upd_buf b g s)"
    and "same_owned s (ms_dri2_reference_buffer b s)" and "same_owned s (ms_dri2_del_frame_event a s)"
    and "same_owned s (ms_dri2_blit_swap D d x y s)"
    and "same_owned s (ms_exa_exchange_buffers p q s)"
    and "same_owned s (ms_dri2_frame_event_client_gone c s)"
    and "same_owned s (ms_dri2_frame_event_drawable_gone d s)"
  by (auto simp: upd_event_def upd_buf_def ms_dri2_reference_buffer_def ms_dri2_del_frame_event_def
      ms_dri2_destroy_buffer_def ms_dri2_destroy_buffer2_def ms_dri2_blit_swap_def ms_dri2_copy_region_def
      ms_dri2_copy_region2_def ms_exa_exchange_buffers_def ms_dri2_frame_event_client_gone_def
      ms_dri2_frame_event_drawable_gone_def same_owned_def emit_def misc_fault_def Let_def
      split: option.split prod.split)

lemma update_front_same_owned [owned_frames]:
  fixes s :: "'k drv"
  shows "same_owned s (snd (update_front E D d front s))"
  by (auto simp: update_front_def upd_buf_def same_owned_def emit_def misc_fault_def Let_def
      split: option.split prod.split)

lemma can_flip_same_owned [owned_frames]:
  fixes s :: "'k drv"
  shows "same_owned s (snd (can_flip E D scr d front b s))"
proof -
  have "same_owned s (snd (can_exchange E D scr d front b s))"
    using update_front_same_owned [of s E D d front]
    by (auto simp: can_exchange_def same_owned_def misc_fault_def Let_def case_prod_beta split: option.split prod.split)
  then show ?thesis by (auto simp: can_flip_def Let_def)
qed

lemma exchange_same_owned [owned_frames]:
  fixes s :: "'k drv"
  shows "same_owned s (ms_dri2_exchange_buffers D d front b s)"
proof (cases "buffer_private s front = None \<or> buffer_private s b = None")
  case True
  then show ?thesis
    by (auto simp: ms_dri2_exchange_buffers_def same_owned_updates split: option.split)
next
  case False
  then obtain fbuf f bbuf r where x: "buffer_private s front = Some (fbuf, f)" "buffer_private s b = Some (bbuf, r)"
    by auto
  let ?m = "mss s (drawable_screen D d)"
  define t where "t = upd_buf front (\<lambda>x. x\<lparr>db2_name := db2_name bbuf\<rparr>) s"
  define u where "u = upd_buf b (\<lambda>x. x\<lparr>db2_name := db2_name fbuf\<rparr>) t"
  define v where "v = u\<lparr>ppriv := (ppriv u)(f := ppriv u r, r := ppriv u f)\<rparr>"
  define w where "w = (if ms_glamor ?m then v\<lparr>kst := egl_exchange_buffers D f r (kst v)\<rparr>
    else if exa_enabled ?m then ms_exa_exchange_buffers f r v else v)"
  have "same_owned s t" unfolding t_def by (rule dri2_same_owned)
  also have "same_owned t u" unfolding u_def by (rule dri2_same_owned)
  also have "same_owned u v" by (simp add: v_def same_owned_def)
  also have "same_owned v w" by (simp add: w_def same_owned_updates dri2_same_owned)
  also have "same_owned w (emit (Damage_pixmap f) w)" by (rule same_owned_updates)
  also have "emit (Damage_pixmap f) w = ms_dri2_exchange_buffers D d front b s"
    by (simp add: ms_dri2_exchange_buffers_def x Let_def t_def u_def v_def w_def)
  finally show ?thesis .
qed

lemma add_frame_event_same_owned [owned_frames]:
  fixes s :: "'k drv"
  shows "same_owned s (snd (ms_dri2_add_frame_event D client d s))"
proof -
  have "same_owned u (snd (ms_get_resource D i t u))" for i t and u :: "'k drv"
    using same_owned_updates(4) [of u]
    by (auto simp: ms_get_resource_def case_prod_beta same_owned_def)
  moreover have "same_owned s (snd (get_client_id D client s))"
    by (simp add: get_client_id_def case_prod_beta same_owned_def)
  ultimately show ?thesis
    by (simp add: ms_dri2_add_frame_event_def case_prod_beta) (blast intro: same_owned_trans)
qed

lemma new_frame_event_owners:
  assumes "owners_ok L P s" and "new_frame_event D info client d s = (r, t)"
  shows "owners_ok L P t"
proof -
  let ?c = "snd (calloc s)"
  obtain ok u where u: "ms_dri2_add_frame_event D client d ?c = (ok, u)" by (metis surj_pair)
  have c: "owners_ok L P ?c" using assms(1) by (simp add: owners_ok_same [OF same_owned_updates(4)])
  then have o: "owners_ok L P u"
    using owners_ok_same [OF add_frame_event_same_owned [of ?c D client d]] u by simp
  have "owners_ok L P (u\<lparr>frame_events := h, next_addr := next_addr u + 1\<rparr>)" for h
    by (rule bump_owners [OF o]) simp_all
  with assms(2) u c o show ?thesis by (auto simp: new_frame_event_def case_prod_beta split: if_splits)
qed

lemma finish_swap_same_owned [owned_frames]:
  fixes s :: "'k drv"
  shows "same_owned s (finish_swap D info d msc usec s)"
  unfolding finish_swap_def by (rule same_owned_trans [OF dri2_same_owned(5) same_owned_updates(8)])

lemma swap_fallback_same_owned [owned_frames]:
  fixes s :: "'k drv"
  shows "same_owned s (snd (swap_fallback D client d front b func data info s))"
proof -
  let ?c = "Swap_complete (Some client) d 0 0 0 DRI2_BLIT_COMPLETE (Some func) data"
  have "same_owned s (emit ?c (ms_dri2_blit_swap D d front b s))" (is "same_owned s ?t")
    by (rule same_owned_trans [OF dri2_same_owned(5) same_owned_updates(8)])
  moreover have "same_owned ?t (ms_dri2_del_frame_event a ?t)" for a by (rule dri2_same_owned)
  ultimately show ?thesis
    unfolding swap_fallback_def Let_def by (cases info) (auto intro: same_owned_trans)
qed

lemma wait_free_same_owned [owned_frames]:
  fixes s :: "'k drv"
  shows "same_owned s (wait_complete client d m s)" and "same_owned s (wait_free a client d m s)"
proof -
  show w: "same_owned t (wait_complete client d m t)" for t :: "'k drv"
    unfolding wait_complete_def by (rule same_owned_updates(8))
  show "same_owned s (wait_free a client d m s)"
    unfolding wait_free_def by (rule same_owned_trans [OF dri2_same_owned(4) w])
qed

context flushing begin

lemma schedule_flip_keeps:
  assumes "flush_of E = flush" and "owners_ok L P s" and "ms_dri2_schedule_flip E D info d s = Some (ok, s')"
  shows "owners_ok L P s'"
proof (cases "buffer_private s (fe_back info)")
  case None
  with assms(2,3) show ?thesis
    by (auto simp: ms_dri2_schedule_flip_def owners_ok_same [OF same_owned_updates(9)])
next
  case (Some x)
  obtain buf px where x: "x = (buf, px)" by (metis surj_pair)
  obtain c t where t: "calloc s = (c, t)" by (metis surj_pair)
  have ot: "owners_ok L P t"
    using assms(2) owners_ok_same [OF same_owned_updates(4) [of s]] t by simp
  show ?thesis
  proof (cases c)
    case False
    with assms(3) Some x t ot show ?thesis by (simp add: ms_dri2_schedule_flip_def)
  next
    case True
    define v where "v = t\<lparr>dri2_flips := (dri2_flips t)(next_addr t \<mapsto>
        \<lparr>dv_drawable_id = drawable_id D d, dv_client = fe_client info,
         dv_event_complete = fe_event_complete info, dv_event_data = fe_event_data info\<rparr>),
      next_addr := next_addr t + 1\<rparr>"
    have "owners_ok L (P + client_presents (FLIP_DRI2 (next_addr t))) v"
      by (rule bump_owners [where s = t]) (simp_all add: ot client_presents_def v_def)
    note keep = do_pageflip_keeps [OF this]
    have "ms_dri2_schedule_flip E D info d s = map_option
        (\<lambda>(ok, s). (ok, if ok then upd_ms (drawable_screen D d) (\<lambda>m. m\<lparr>dri2_flipping := True\<rparr>) s else s))
        (ms_do_pageflip (kernel_of E) flush (loop_bound E) (drawable_screen D d) px (FLIP_DRI2 (next_addr t))
          (vblank_pipe (crtcs v (fe_crtc info))) False v)"
      using Some x t True assms(1) by (simp add: ms_dri2_schedule_flip_def Let_def v_def)
    with assms(3) obtain b u where
      "ms_do_pageflip (kernel_of E) flush (loop_bound E) (drawable_screen D d) px (FLIP_DRI2 (next_addr t))
        (vblank_pipe (crtcs v (fe_crtc info))) False v = Some (b, u)"
      "s' = (if b then upd_ms (drawable_screen D d) (\<lambda>m. m\<lparr>dri2_flipping := True\<rparr>) u else u)"
      by auto
    with keep show ?thesis by (auto simp: upd_ms_owners)
  qed
qed

lemma frame_event_handler_keeps:
  assumes "flush_of E = flush" and "owners_ok L P s"
    and "ms_dri2_frame_event_handler E D msc usec a s = Some s'"
  shows "owners_ok L P s'"
proof (cases "frame_events s a")
  case None
  with assms show ?thesis
    by (auto simp: ms_dri2_frame_event_handler_def owners_ok_same [OF same_owned_updates(9)])
next
  case (Some info)
  show ?thesis
  proof (cases "fe_drawable info")
    case None
    with assms Some show ?thesis by (auto simp: ms_dri2_frame_event_handler_def dri2_event_owners)
  next
    case (Some d)
    obtain c t where t: "can_flip E D (fe_screen info) d (fe_front info) (fe_back info) s = (c, t)" by (metis surj_pair)
    have ot: "owners_ok L P t" using assms(2) owners_ok_same [OF can_flip_same_owned] t by (metis snd_conv)
    note swap = owners_ok_same [OF finish_swap_same_owned] owners_ok_same [OF exchange_same_owned]
      owners_ok_same [OF same_owned_updates(8)]
    have flip: "owners_ok L P u" if "ms_dri2_schedule_flip E D info d t = Some (b, u)" for b u
      by (rule schedule_flip_keeps [OF assms(1) ot that])
    show ?thesis
      using assms(2,3) \<open>frame_events s a = Some info\<close> Some t ot
      by (auto simp: ms_dri2_frame_event_handler_def dri2_event_owners swap dest!: flip
          split: dri2_event_type.splits if_splits option.splits bool.splits)
  qed
qed

lemma queue_dri2_keeps:
  assumes "flush_of E = flush" and "owners_ok L P s" and "ms_drm_queue_alloc p (CB_dri2 a) s = (sq, t)"
    and "ms_queue_vblank (kernel_of E) (flush_of E) drv_abort n p flags msc w sq t = Some (r, u)"
  shows "owners_ok L P t \<and> owners_ok L P u"
proof -
  have "owners_ok L P t" using other_queued_owners [OF assms(2,3)] by simp
  then show ?thesis using queue_vblank_keeps assms(1,4) by blast
qed

lemma queue_wait_keeps:
  assumes "flush_of E = flush" and "owners_ok L P s"
    and "queue_wait E p a client d msc target target' s = Some s'"
  shows "owners_ok L P s'"
proof -
  obtain sq t where t: "ms_drm_queue_alloc p (CB_dri2 a) s = (sq, t)" by (metis surj_pair)
  have ot: "owners_ok L P t" using other_queued_owners [OF assms(2) t] by simp
  note same = owners_ok_same [OF wait_free_same_owned(2)] owners_ok_same [OF same_owned_updates(8)]
    owners_ok_same [OF dri2_same_owned(1)]
  show ?thesis
    using assms(1,3) t ot queue_dri2_keeps [OF assms(1,2) t]
    by (auto simp: queue_wait_def same split: if_splits option.splits)
qed

lemma schedule_wait_keeps:
  assumes "flush_of E = flush" and "owners_ok L P s"
    and "ms_dri2_schedule_wait_msc E D client d target divisor remainder s = Some s'"
  shows "owners_ok L P s'"
proof -
  note same = owners_ok_same [OF wait_free_same_owned(1)]
  obtain r t where t: "new_frame_event D (wait_info D client d) client d s = (r, t)" by (metis surj_pair)
  note ot = new_frame_event_owners [OF assms(2) t]
  have ou: "owners_ok L P (snd (ms_get_crtc_ust_msc (kernel_of E) p t))" for p
    using ot by (simp add: owners_ok_same [OF get_ust_msc_same_owned])
  show ?thesis
    using assms(2,3) t ot ou
    by (auto simp: ms_dri2_schedule_wait_msc_def Let_def case_prod_beta same
        dest: queue_wait_keeps [OF assms(1)] split: option.splits if_splits)
qed

lemma queue_swap_keeps:
  assumes "flush_of E = flush" and "owners_ok L P s"
    and "queue_swap E D p a client d front b func data flags flip msc s = Some (m, s')"
  shows "owners_ok L P s'"
proof -
  obtain sq t where t: "ms_drm_queue_alloc p (CB_dri2 a) s = (sq, t)" by (metis surj_pair)
  have ot: "owners_ok L P t" using other_queued_owners [OF assms(2) t] by simp
  have same: "owners_ok L P v" if "swap_fallback D client d front b func data i u = (m, v)" "owners_ok L P u" for i m u v
    using that owners_ok_same [OF swap_fallback_same_owned [of u D client d front b func data i]] by simp
  have queued: "owners_ok L P u"
    if "ms_queue_vblank (kernel_of E) (flush_of E) drv_abort n p flags msc w sq t = Some (r, u)" for n w r u
    using queue_dri2_keeps [OF assms(1,2) t that] by simp
  show ?thesis
    using assms(3) t ot
    by (auto simp: queue_swap_def Let_def owners_ok_same [OF dri2_same_owned(1)] dest!: queued intro: same
        split: if_splits option.splits)
qed

lemma schedule_swap_keeps:
  assumes "flush_of E = flush" and "owners_ok L P s"
    and "ms_dri2_schedule_swap E D client d front b target divisor remainder func data s = Some (m, s')"
  shows "owners_ok L P s'"
proof -
  let ?scr = "drawable_screen D d"
  have fall: "owners_ok L P v" if "swap_fallback D client d front b func data i u = (m, v)" "owners_ok L P u" for i u v
    using that owners_ok_same [OF swap_fallback_same_owned [of u D client d front b func data i]] by simp
  show ?thesis
  proof (cases "dri2_crtc E D d s")
    case None
    with assms(2,3) fall show ?thesis by (auto simp: ms_dri2_schedule_swap_def Let_def)
  next
    case (Some p)
    obtain r t where t: "new_frame_event D (swap_info D client d p func data front b) client d s = (r, t)"
      by (metis surj_pair)
    note ot = new_frame_event_owners [OF assms(2) t]
    show ?thesis
    proof (cases r)
      case None
      with assms(3) Some t fall ot show ?thesis by (auto simp: ms_dri2_schedule_swap_def Let_def)
    next
      case (Some a)
      define u where "u = ms_dri2_reference_buffer b (ms_dri2_reference_buffer front t)"
      have "same_owned t u" unfolding u_def by (rule same_owned_trans; rule dri2_same_owned)
      then have ou: "owners_ok L P u" using ot owners_ok_same by blast
      obtain ret ust msc v where v: "ms_get_crtc_ust_msc (kernel_of E) p u = ((ret, ust, msc), v)"
        by (metis surj_pair)
      have ov: "owners_ok L P v" using ou owners_ok_same [OF get_ust_msc_same_owned [of u "kernel_of E" p]] v by simp
      show ?thesis
      proof (cases "ret = Success")
        case False
        with assms(3) \<open>dri2_crtc E D d s = Some p\<close> t Some v ov fall show ?thesis
          by (auto simp: ms_dri2_schedule_swap_def Let_def simp flip: u_def)
      next
        case True
        obtain can w where w: "can_flip E D ?scr d front b v = (can, w)" by (metis surj_pair)
        have ow: "owners_ok L P w" using ov owners_ok_same [OF can_flip_same_owned] w by (metis snd_conv)
        define x where "x = (if can then upd_event a (\<lambda>i. i\<lparr>fe_type := MS_DRI2_QUEUE_FLIP\<rparr>) w else w)"
        have ox: "owners_ok L P x" using ow by (simp add: x_def owners_ok_same [OF dri2_same_owned(1)])
        have "\<exists>flags flip msc. queue_swap E D p a client d front b func data flags flip msc x = Some (m, s')"
          using assms(3) \<open>dri2_crtc E D d s = Some p\<close> t Some v True w
          by (auto simp: ms_dri2_schedule_swap_def Let_def simp flip: u_def x_def split: if_splits)
        with queue_swap_keeps [OF assms(1) ox] show ?thesis by blast
      qed
    qed
  qed
qed

end

section \<open>The screen's buffers keep the owners\<close>

lemma create_bo_same_owned [owned_frames]:
  fixes s :: "'k drv"
  shows "same_owned s (snd (drmmode_create_bo K rok scr bo w h bpp s))"
proof -
  have lin: "same_owned s (snd (create_linear_bo K b f s))" "same_owned s (snd (create_linear_bo K b f (s\<lparr>kst := k\<rparr>)))"
    for b f k by (simp_all add: create_linear_bo_def case_prod_beta same_owned_def)
  have dumb: "same_owned s (snd (dumb_bo_create K x y z s))" for x y z
    by (simp add: dumb_bo_create_def case_prod_beta same_owned_def calloc_def split: list.split)
  show ?thesis
    by (simp add: drmmode_create_bo_def Let_def case_prod_beta lin dumb same_owned_updates(1) split: option.split)
qed

lemma screen_same_owned [owned_frames]:
  fixes s :: "'k drv"
  shows "same_owned s (snd (drmmode_map_front_bo K scr s))"
    and "same_owned s (snd (drmmode_glamor_handle_new_screen_pixmap E scr s))"
    and "same_owned s (snd (resize_shadows scr cpp px s))"
    and "same_owned s (snd (resize_fail K scr old op kcpp s))"
proof -
  have "same_owned s (snd (drmmode_bo_map K bo s))" for bo
    by (auto simp: drmmode_bo_map_def dumb_bo_map_def same_owned_def case_prod_beta split: option.split)
  then show "same_owned s (snd (drmmode_map_front_bo K scr s))"
    by (simp add: drmmode_map_front_bo_def case_prod_beta same_owned_trans [OF _ same_owned_updates(6)])
  show "same_owned s (snd (drmmode_glamor_handle_new_screen_pixmap E scr s))"
    by (simp add: drmmode_glamor_handle_new_screen_pixmap_def drmmode_set_pixmap_bo_def case_prod_beta same_owned_updates)
  show "same_owned s (snd (resize_shadows scr cpp px s))"
    by (simp add: resize_shadows_def Let_def case_prod_beta same_owned_def upd_ms_def calloc_def split: list.split)
  show "same_owned s (snd (resize_fail K scr old op kcpp s))"
    by (simp add: resize_fail_def Let_def same_owned_trans [OF same_owned_bo(1) same_owned_updates(6)])
qed

lemma slave_same_owned [owned_frames]:
  fixes s :: "'k drv"
  shows "same_owned s (drop_target_cpu E p second s)" and "same_owned s (drop_target_gpu E p second s)"
    and "same_owned s (snd (drmmode_map_slave_bo K px s))"
    and "same_owned s (set_enable_flipping p ok s)"
  by (auto simp: drop_target_cpu_def drop_target_gpu_def drmmode_map_slave_bo_def dumb_bo_map_def
      set_enable_flipping_def same_owned_def Let_def case_prod_beta upd_crtc_def upd_ms_def upd_ppriv_def
      misc_fault_def split: option.split)

lemma set_target_cpu_same_owned [owned_frames]:
  fixes s :: "'k drv"
  shows "same_owned s (snd (drmmode_set_target_scanout_pixmap_cpu E p px second s))"
proof (cases px)
  case None
  then show ?thesis by (simp add: drmmode_set_target_scanout_pixmap_cpu_def slave_same_owned)
next
  case (Some x)
  define t where "t = upd_ppriv x (\<lambda>v. v\<lparr>pp_slave_damage := True\<rparr>) (drop_target_cpu E p second s)"
  define u where "u = snd (drmmode_map_slave_bo (kernel_of E) x t)"
  have "same_owned s t" unfolding t_def by (rule same_owned_trans [OF slave_same_owned(1) same_owned_updates(7)])
  also have "same_owned t u" unfolding u_def by (rule slave_same_owned)
  also have "same_owned u (snd (drmmode_set_target_scanout_pixmap_cpu E p px second s))"
    by (simp add: drmmode_set_target_scanout_pixmap_cpu_def Some Let_def same_owned_def case_prod_beta
        upd_crtc_def upd_ppriv_def misc_fault_def flip: t_def [unfolded upd_ppriv_def] u_def [unfolded upd_ppriv_def]
        split: option.split)
  finally show ?thesis .
qed

context flushing begin

lemma set_mode_major_keeps:
  assumes "flush_of E = flush" and "rotate_keeps E" and "owners_ok L P s"
    and "drmmode_set_mode_major E p m rot x y s = Some (ok, s')"
  shows "owners_ok L P s'"
  using setter_keepsD [OF set_mode_keeps [OF assms(1,2)] assms(3)] assms(4) by (simp add: drmmode_set_mode_major_def)

lemma remode_keeps:
  assumes "flush_of E = flush" and "rotate_keeps E"
  shows "owners_ok L P s \<Longrightarrow> remode E ps s = Some s' \<Longrightarrow> owners_ok L P s'"
proof (induction ps arbitrary: s)
  case Nil
  then show ?case by simp
next
  case (Cons p ps)
  show ?case
  proof (cases "enabled (crtcs s p)")
    case False
    with Cons show ?thesis by simp
  next
    case True
    with Cons.prems(2) obtain ok t where t: "drmmode_set_mode_major E p (Some (crtc_mode (crtcs s p)))
        (rotation (crtcs s p)) (crtc_x (crtcs s p)) (crtc_y (crtcs s p)) s = Some (ok, t)" "remode E ps t = Some s'"
      by (auto simp: Let_def split: option.splits)
    from Cons.IH [OF set_mode_major_keeps [OF assms Cons.prems(1) t(1)] t(2)] show ?thesis .
  qed
qed

lemma resize_show_keeps:
  assumes "flush_of E = flush" and "rotate_keeps E" and "owners_ok L P s"
    and fail: "\<And>t. owners_ok L P t \<Longrightarrow> owners_ok L P (snd (fail t))"
    and "resize_show E scr old fail w h s = Some (ok, s')"
  shows "owners_ok L P s'"
proof -
  let ?K = "kernel_of E" and ?px = "screen_pixmap (kernel_of E) scr" and ?cpp = "(bitsPerPixel old + 7) sdiv 8"
  obtain m t where t: "(if has_gbm old then (True, s) else drmmode_map_front_bo ?K scr s) = (m, t)" by (metis surj_pair)
  have ot: "owners_ok L P t"
    using t assms(3) owners_ok_same [OF screen_same_owned(1) [of s ?K scr], of L P] by (auto split: if_splits)
  obtain o2 px u where u: "resize_shadows scr ?cpp (\<not> has_gbm old) t = ((o2, px), u)" by (metis surj_pair)
  have ou: "owners_ok L P u"
    using ot owners_ok_same [OF screen_same_owned(3) [of t scr ?cpp "\<not> has_gbm old"], of L P] u by simp
  define v where "v = u\<lparr>kst := snd (ModifyPixmapHeader E ?px w h (-1) (-1) (displayWidth (mss u scr) * ?cpp) px (kst u))\<rparr>"
  obtain o3 x where x: "drmmode_glamor_handle_new_screen_pixmap E scr v = (o3, x)" by (metis surj_pair)
  have ov: "owners_ok L P v" using ou by (simp add: v_def kst_owners)
  then have ox: "owners_ok L P x" using owners_ok_same [OF screen_same_owned(2) [of v E scr], of L P] x by simp
  have ok': "owners_ok L P (x\<lparr>kst := k\<rparr>)" for k using ox by (simp add: kst_owners)
  note remode = remode_keeps [OF assms(1,2) ok']
  have destroy: "owners_ok L P (snd (drmmode_bo_destroy ?K bo (y\<lparr>kst := k\<rparr>)))" if "owners_ok L P y" for y bo k
    using that by (simp add: owners_ok_same [OF same_owned_bo(1)] kst_owners)
  have failed: "owners_ok L P s'" if "Some (fail y) = Some (ok, s')" "owners_ok L P y" for y
    using fail [OF that(2)] that(1) by simp
  from assms(5) have "(if \<not> m then Some (fail t) else if \<not> o2 then Some (fail u) else if \<not> o3 then Some (fail x)
      else map_option (\<lambda>s. (True, if fb_id old \<noteq> 0 then
              snd (drmmode_bo_destroy ?K (front_bo old) (s\<lparr>kst := drmModeRmFB ?K (fb_id old) (kst s)\<rparr>)) else s))
         (remode E (config (mss x scr)) (x\<lparr>kst := drmmode_clear_pixmap E (ms_glamor (mss x scr)) ?px (kst x)\<rparr>))) = Some (ok, s')"
    unfolding resize_show_def Let_def t prod.case u v_def [symmetric] x by (simp split: if_splits)
  with failed [OF _ ot] failed [OF _ ou] failed [OF _ ox] remode destroy show ?thesis
    by (auto split: if_splits)
qed

lemma resize_keeps:
  assumes "flush_of E = flush" and "rotate_keeps E" and "owners_ok L P s"
    and "drmmode_xf86crtc_resize E scr w h s = Some (ok, s')"
  shows "owners_ok L P s'"
proof (cases "virtualX (mss s scr) = w \<and> virtualY (mss s scr) = h")
  case True
  with assms(3,4) show ?thesis by (simp add: drmmode_xf86crtc_resize_def Let_def)
next
  case False
  let ?K = "kernel_of E" and ?old = "mss s scr" and ?s = "upd_ms scr (\<lambda>m. m\<lparr>fb_id := 0\<rparr>) s"
  let ?kcpp = "(uint (kbpp ?old) + 7) sdiv 8" and ?op = "to_int32 (uint (drmmode_bo_get_pitch (front_bo ?old)))"
  let ?fail = "resize_fail ?K scr ?old ?op ?kcpp"
  obtain c bo t where t: "drmmode_create_bo ?K (realloc_oracle E) scr (front_bo ?old) (word_of_int w) (word_of_int h)
      (ucast (kbpp ?old)) ?s = ((c, bo), t)" by (metis surj_pair)
  have "owners_ok L P ?s" using assms(3) by (simp add: upd_ms_owners)
  then have ot: "owners_ok L P t"
    using owners_ok_same [OF create_bo_same_owned [of ?s ?K "realloc_oracle E" scr "front_bo ?old"], of L P] t by (metis snd_conv)
  have fail: "owners_ok L P (snd (?fail u))" if "owners_ok L P u" for u
    using that by (simp add: owners_ok_same [OF screen_same_owned(4)])
  have upd: "owners_ok L P (upd_ms scr g t)" "owners_ok L P (upd_ms scr g' (upd_ms scr g t))" for g g'
    using ot by (simp_all add: upd_ms_owners)
  show ?thesis
  proof (cases c)
    case True
    with assms(4) False t show ?thesis
      by (auto simp: drmmode_xf86crtc_resize_def Let_def intro: resize_show_keeps [OF assms(1,2) upd(2) fail])
  next
    case False
    with assms(4) \<open>\<not> (virtualX (mss s scr) = w \<and> virtualY (mss s scr) = h)\<close> t
    have "?fail (upd_ms scr (\<lambda>m. m\<lparr>front_bo := bo\<rparr>) t) = (ok, s')"
      unfolding drmmode_xf86crtc_resize_def Let_def by simp
    with fail [OF upd(1)] show ?thesis by (metis snd_conv)
  qed
qed

lemma set_target_keeps:
  assumes "flush_of E = flush" and "rotate_keeps E" and "owners_ok L P s"
    and "drmmode_set_target_scanout_pixmap E p px second s = Some (ok, s')"
  shows "owners_ok L P s'"
proof (cases "is_reverse_prime_offload (ms_of_crtc s p)")
  case False
  with assms(4) have "s' = snd (drmmode_set_target_scanout_pixmap_cpu E p px second s)"
    by (simp add: drmmode_set_target_scanout_pixmap_def)
  with assms(3) show ?thesis by (simp add: owners_ok_same [OF set_target_cpu_same_owned])
next
  case True
  let ?K = "kernel_of E" and ?scr = "crtc_scrn (crtcs s p)" and ?t = "drop_target_gpu E p second s"
  have t: "owners_ok L P ?t" using assms(3) by (simp add: owners_ok_same [OF slave_same_owned(2)])
  show ?thesis
  proof (cases px)
    case None
    with True assms(4) t show ?thesis
      by (auto simp: drmmode_set_target_scanout_pixmap_def drmmode_set_target_scanout_pixmap_gpu_def Let_def)
  next
    case (Some x)
    obtain tw mh tx where row: "crtc_row ?t p (uint (pixmap_width ?K x (kst ?t))) (uint (pixmap_height ?K x (kst ?t)))
        (config (mss ?t ?scr)) (0, 0, 0) = (tw, mh, tx)" by (metis surj_pair)
    have resize: "owners_ok L P u" if "drmmode_xf86crtc_resize E ?scr a b ?t = Some (c, u)" for a b c u
      by (rule resize_keeps [OF assms(1,2) t that])
    have done': "owners_ok L P (upd_crtc p g ((upd_crtc p f (u\<lparr>kst := l\<rparr>))\<lparr>kst := k\<rparr>))"
      "owners_ok L P (upd_crtc p g ((upd_crtc p f u)\<lparr>kst := k\<rparr>))" if "owners_ok L P u" for u f g k l
      using that by (simp_all add: owners_ok_same [OF same_owned_updates(5)] kst_owners)
    from True assms(4) Some row t show ?thesis
      by (auto simp: drmmode_set_target_scanout_pixmap_def drmmode_set_target_scanout_pixmap_gpu_def Let_def
          kst_owners dest!: resize intro: done' split: if_splits)
  qed
qed

lemma enable_shared_keeps:
  assumes "flush_of E = flush" and "rotate_keeps E" and "owners_ok L P s"
    and "drmmode_EnableSharedPixmapFlipping E p f b s = Some (ok, s')"
  shows "owners_ok L P s'"
proof -
  have set: "owners_ok L P (set_enable_flipping p v t)" if "owners_ok L P t" for v t
    using that by (simp add: owners_ok_same [OF slave_same_owned(4)])
  obtain o1 t where t: "drmmode_set_target_scanout_pixmap E p (Some f) False (set_enable_flipping p True s) = Some (o1, t)"
    using assms(4)
    by (cases "drmmode_set_target_scanout_pixmap E p (Some f) False (set_enable_flipping p True s)")
       (auto simp: drmmode_EnableSharedPixmapFlipping_def)
  have rest: "(if \<not> o1 then Some (False, set_enable_flipping p o1 t)
          else case drmmode_set_target_scanout_pixmap E p (Some b) True (set_enable_flipping p o1 t) of
            None \<Rightarrow> None
          | Some (ok, s) \<Rightarrow>
              if \<not> ok then map_option (\<lambda>(_, s). (False, s))
                  (drmmode_set_target_scanout_pixmap E p None False (set_enable_flipping p ok s))
              else Some (True, set_enable_flipping p ok s)) = Some (ok, s')"
    using assms(4) unfolding drmmode_EnableSharedPixmapFlipping_def Let_def t by simp
  have ot: "owners_ok L P (set_enable_flipping p o1 t)"
    by (rule set, rule set_target_keeps [OF assms(1,2) set [OF assms(3)] t])
  show ?thesis
  proof (cases "drmmode_set_target_scanout_pixmap E p (Some b) True (set_enable_flipping p o1 t)")
    case None
    with rest ot show ?thesis by (auto split: if_splits)
  next
    case (Some x)
    then obtain o2 u where u: "drmmode_set_target_scanout_pixmap E p (Some b) True (set_enable_flipping p o1 t) = Some (o2, u)"
      by (metis surj_pair)
    have ou: "owners_ok L P (set_enable_flipping p v u)" for v
      by (rule set, rule set_target_keeps [OF assms(1,2) ot u])
    show ?thesis
      using rest u ot ou by (auto split: if_splits dest: set_target_keeps [OF assms(1,2) ou])
  qed
qed

lemma disable_shared_keeps:
  assumes "flush_of E = flush" and "rotate_keeps E" and "owners_ok L P s"
    and "drmmode_DisableSharedPixmapFlipping E p s = Some s'"
  shows "owners_ok L P s'"
proof -
  let ?s = "drmmode_FiniSharedPixmapFlipping p (set_enable_flipping p False s)"
  have "owners_ok L P ?s" using assms(3) by (simp add: fini_owners owners_ok_same [OF slave_same_owned(4)])
  note first = set_target_keeps [OF assms(1,2) this]
  from assms(4) show ?thesis
    by (auto simp: drmmode_DisableSharedPixmapFlipping_def Let_def split: option.splits
        dest!: first dest: set_target_keeps [OF assms(1,2)])
qed

lemma desired_modes_keeps:
  assumes "flush_of E = flush" and "rotate_keeps E"
  shows "owners_ok L P s \<Longrightarrow> desired_modes E scr hw ps s = Some (ok, s') \<Longrightarrow> owners_ok L P s'"
proof (induction ps arbitrary: s)
  case Nil
  then show ?case by simp
next
  case (Cons p ps)
  note crtc = owners_ok_same [OF same_owned_updates(5)]
  let ?t = "upd_crtc p (\<lambda>c. c\<lparr>crtc_mode := zero_mode\<rparr>) s"
  have ot: "owners_ok L P ?t" using Cons.prems(1) by (simp add: crtc)
  show ?case
  proof (cases "enabled (crtcs s p) \<and> output_for (mss s scr) p \<noteq> None")
    case False
    have kst: "owners_ok L P (s\<lparr>kst := k\<rparr>)" for k using Cons.prems(1) by (simp add: kst_owners)
    from False Cons.prems Cons.IH [OF Cons.prems(1)] Cons.IH [OF kst] show ?thesis
      by (auto split: if_splits option.splits)
  next
    case True
    then obtain i where i: "enabled (crtcs s p)" "output_for (mss s scr) p = Some i" by auto
    show ?thesis
    proof (cases "choose_desired E scr p i ?t")
      case None
      with Cons.prems i ot show ?thesis by (simp add: Let_def)
    next
      case (Some u)
      then have ou: "owners_ok L P u" using ot by (auto simp: choose_desired_def crtc split: if_splits)
      let ?c = "crtcs u p"
      let ?v = "upd_crtc p (\<lambda>c. c\<lparr>crtc_mode := the (desired_mode c), rotation := desired_rotation c,
          crtc_x := desired_x c, crtc_y := desired_y c\<rparr>) u"
      have rot: "owners_ok L P (snd (xf86CrtcRotate E p ?v))"
        using assms(2) ou unfolding rotate_keeps_def by (simp add: crtc)
      have set: "owners_ok L P w" if "drmmode_set_mode_major E p (desired_mode ?c) (desired_rotation ?c)
          (desired_x ?c) (desired_y ?c) u = Some (r, w)" for r w
        by (rule set_mode_major_keeps [OF assms ou that])
      have fin: "owners_ok L P s'" if "owners_ok L P w"
        and "(if \<not> r then Some (False, w) else desired_modes E scr hw ps w) = Some (ok, s')" for r w
        using that Cons.IH [of w] by (cases r) simp_all
      show ?thesis
      proof (cases hw)
        case True
        with Cons.prems(2) i Some obtain x where x: "drmmode_set_mode_major E p (desired_mode ?c) (desired_rotation ?c)
            (desired_x ?c) (desired_y ?c) u = Some x"
          by (cases "drmmode_set_mode_major E p (desired_mode ?c) (desired_rotation ?c) (desired_x ?c) (desired_y ?c) u")
             (simp_all add: Let_def)
        obtain r w where rw: "x = (r, w)" by (cases x)
        have "(if \<not> r then Some (False, w) else desired_modes E scr hw ps w) = Some (ok, s')"
          using Cons.prems(2) i Some True x rw by (simp add: Let_def split: if_splits)
        with set [OF x [unfolded rw]] show ?thesis by (rule fin)
      next
        case False
        obtain r w where w: "xf86CrtcRotate E p ?v = (r, w)" by (rule prod.exhaust)
        have ow: "owners_ok L P w" using rot w by simp
        have eq: "desired_modes E scr False (p # ps) s =
            (case xf86CrtcRotate E p ?v of (r, w) \<Rightarrow> if \<not> r then Some (False, w) else desired_modes E scr False ps w)"
          using i Some by (simp add: Let_def)
        have hw: "hw = False" using False by simp
        have "(if \<not> r then Some (False, w) else desired_modes E scr hw ps w) = Some (ok, s')"
          using Cons.prems(2) unfolding hw eq w prod.case .
        with ow show ?thesis by (rule fin)
      qed
    qed
  qed
qed

end

lemma validate_leases_same_owned [owned_frames]:
  fixes s :: "'k drv"
  shows "same_owned s (drmmode_validate_leases K reg scr s)"
proof -
  have one: "same_owned t (validate_lease K scr ls l t)" for ls l and t :: "'k drv"
    by (auto simp: validate_lease_def lease_gone_def set_lease_private_def same_owned_def upd_ms_def misc_fault_def
        Let_def split: option.split)
  have "same_owned t (fold (validate_lease K scr ls) qs t)" for ls qs and t :: "'k drv"
  proof (induction qs arbitrary: t)
    case Nil
    then show ?case by simp
  next
    case (Cons q qs)
    from same_owned_trans [OF one Cons.IH] show ?case by simp
  qed
  then show ?thesis
    by (auto simp: drmmode_validate_leases_def Let_def same_owned_updates split: option.split prod.split
        intro: same_owned_trans [OF same_owned_updates(1)])
qed

section \<open>The loop\<close>

text \<open>
  The handler of a queue entry, with at most \<open>n\<close> flushes nested in each other: \<open>None\<close> when
  that is not enough. \<open>drv_env n E D\<close> is the environment \<open>E\<close> with the driver's own flush,
  \<^verbatim>\<open>ms_flush_drm_events\<close>, whose handlers may nest \<open>n\<close> times.
\<close>

fun drv_handler ::
  "nat \<Rightarrow> 'k env \<Rightarrow> 'k dri2_server \<Rightarrow> callback \<Rightarrow> u64 \<Rightarrow> u64 \<Rightarrow> 'k drv \<Rightarrow> 'k drv option" where
  "drv_handler 0 E D d msc usec s = None"
| "drv_handler (Suc n) E D d msc usec s =
     (let flush = ms_flush_drm_events (kernel_of E) (drv_handler n E D) in
      case d of
        CB_present a \<Rightarrow> Some (ms_present_vblank_handler msc usec a s)
      | CB_flip ref a \<Rightarrow> Some (ms_pageflip_handler (kernel_of E) (lookup_drawable D) msc usec ref a s)
      | CB_dri2 a \<Rightarrow> ms_dri2_frame_event_handler (E\<lparr>flush_of := flush\<rparr>) D msc usec a s
      | CB_shared frontTarget backTarget p flip \<Rightarrow>
          drmmode_SharedPixmapVBlankEventHandler (kernel_of E) (master_of E) flush (loop_bound E)
            frontTarget backTarget p flip s)"

definition drv_flush :: "nat \<Rightarrow> 'k env \<Rightarrow> 'k dri2_server \<Rightarrow> 'k flush" where
  "drv_flush n E D = ms_flush_drm_events (kernel_of E) (drv_handler n E D)"

definition drv_env :: "nat \<Rightarrow> 'k env \<Rightarrow> 'k dri2_server \<Rightarrow> 'k env" where
  "drv_env n E D = E\<lparr>flush_of := drv_flush n E D\<rparr>"

lemma drv_env_simps [simp]:
  "kernel_of (drv_env n E D) = kernel_of E" "flush_of (drv_env n E D) = drv_flush n E D"
  "loop_bound (drv_env n E D) = loop_bound E" "master_of (drv_env n E D) = master_of E"
  "xf86CrtcRotate (drv_env n E D) = xf86CrtcRotate E"
  by (simp_all add: drv_env_def)

lemma flushingI: "handler_keeps h \<Longrightarrow> flushing (ms_flush_drm_events K h)"
  by unfold_locales (rule flush_owners)

lemma drv_handler_keeps: "handler_keeps (drv_handler n E D)"
proof (induction n)
  case 0
  then show ?case by (simp add: handler_keeps_def)
next
  case (Suc n)
  let ?flush = "ms_flush_drm_events (kernel_of E) (drv_handler n E D)"
  note F = flushingI [OF Suc.IH, of "kernel_of E"]
  have "owners_ok L P s'"
    if ok: "owners_ok (L + flips_of d) (P + presents_of d) s" and run: "drv_handler (Suc n) E D d msc usec s = Some s'"
    for d msc usec s s' L P
  proof (cases d)
    case (CB_present a)
    with ok run present_handler_owners(1) show ?thesis by auto
  next
    case (CB_flip r a)
    with ok have "owners_ok (add_mset a L) P s" by simp
    from end_flip_owners [OF this, of "kernel_of E" "lookup_drawable D" "Reported r msc usec"] run CB_flip
    show ?thesis by auto
  next
    case (CB_dri2 a)
    with ok run show ?thesis by (auto intro: flushing.frame_event_handler_keeps [OF F, of "E\<lparr>flush_of := ?flush\<rparr>"])
  next
    case (CB_shared ft bt p fl)
    with ok run show ?thesis by (auto intro: flushing.shared_handler_keeps [OF F])
  qed
  then show ?case unfolding handler_keeps_def by blast
qed

text \<open>The driver's own flush meets the contract its callers were verified with.\<close>

interpretation drv: flushing "drv_flush n E D" for n E D
  unfolding drv_flush_def by (rule flushingI) (rule drv_handler_keeps)

section \<open>Histories of the driver\<close>

text \<open>
  What the server, its extensions and the main loop do to a driver, in any order. \<open>n\<close> bounds
  the nesting of flushes, \<open>D\<close> is the server, \<open>E\<close> the environment without the flush. A screen is
  closed only when the entries of the queue differ, which the sequence numbers see to. The
  calls of a history return.
\<close>

inductive driver_run :: "nat \<Rightarrow> 'k env \<Rightarrow> 'k dri2_server \<Rightarrow> pointers \<Rightarrow> 'k drv \<Rightarrow> 'k drv \<Rightarrow> bool"
  for n E D ptr s0 where
  start: "driver_run n E D ptr s0 s0"
| events: "driver_run n E D ptr s0 s \<Longrightarrow>
    ms_drm_socket_handler (kernel_of E) (drv_handler n E D) scr s = Some t \<Longrightarrow> driver_run n E D ptr s0 t"
| present_wait: "driver_run n E D ptr s0 s \<Longrightarrow>
    ms_present_queue_vblank (drv_env n E D) p i m s = Some (r, t) \<Longrightarrow> driver_run n E D ptr s0 t"
| present_abort: "driver_run n E D ptr s0 s \<Longrightarrow> driver_run n E D ptr s0 (ms_present_abort_vblank ptr i s)"
| present_flip: "driver_run n E D ptr s0 s \<Longrightarrow>
    ms_present_flip (drv_env n E D) p i px sync s = Some (ok, t) \<Longrightarrow> driver_run n E D ptr s0 t"
| present_unflip: "driver_run n E D ptr s0 s \<Longrightarrow>
    ms_present_unflip (drv_env n E D) sc i s = Some t \<Longrightarrow> driver_run n E D ptr s0 t"
| dri2_wait: "driver_run n E D ptr s0 s \<Longrightarrow>
    ms_dri2_schedule_wait_msc (drv_env n E D) D client d target divisor remainder s = Some t \<Longrightarrow>
    driver_run n E D ptr s0 t"
| dri2_swap: "driver_run n E D ptr s0 s \<Longrightarrow>
    ms_dri2_schedule_swap (drv_env n E D) D client d front b target divisor remainder func data s = Some (m, t) \<Longrightarrow>
    driver_run n E D ptr s0 t"
| client_gone: "driver_run n E D ptr s0 s \<Longrightarrow>
    driver_run n E D ptr s0 (ms_dri2_frame_event_client_gone client s)"
| drawable_gone: "driver_run n E D ptr s0 s \<Longrightarrow>
    driver_run n E D ptr s0 (ms_dri2_frame_event_drawable_gone d s)"
| buffer_gone: "driver_run n E D ptr s0 s \<Longrightarrow> driver_run n E D ptr s0 (ms_dri2_destroy_buffer b s)"
| set_mode: "driver_run n E D ptr s0 s \<Longrightarrow>
    drmmode_set_mode_major (drv_env n E D) p mode rot x y s = Some (ok, t) \<Longrightarrow> driver_run n E D ptr s0 t"
| resize: "driver_run n E D ptr s0 s \<Longrightarrow>
    drmmode_xf86crtc_resize (drv_env n E D) sc w h s = Some (ok, t) \<Longrightarrow> driver_run n E D ptr s0 t"
| desired: "driver_run n E D ptr s0 s \<Longrightarrow>
    drmmode_set_desired_modes (drv_env n E D) sc hw s = Some (ok, t) \<Longrightarrow> driver_run n E D ptr s0 t"
| shared_enable: "driver_run n E D ptr s0 s \<Longrightarrow>
    drmmode_EnableSharedPixmapFlipping (drv_env n E D) p f b s = Some (ok, t) \<Longrightarrow> driver_run n E D ptr s0 t"
| shared_disable: "driver_run n E D ptr s0 s \<Longrightarrow>
    drmmode_DisableSharedPixmapFlipping (drv_env n E D) p s = Some t \<Longrightarrow> driver_run n E D ptr s0 t"
| shared_start: "driver_run n E D ptr s0 s \<Longrightarrow>
    init_flipping (drv_env n E D) p s = Some t \<Longrightarrow> driver_run n E D ptr s0 t"
| shared_stop: "driver_run n E D ptr s0 s \<Longrightarrow>
    driver_run n E D ptr s0 (drmmode_FiniSharedPixmapFlipping p s)"
| close_screen: "driver_run n E D ptr s0 s \<Longrightarrow> distinct (ms_drm_queue s) \<Longrightarrow>
    driver_run n E D ptr s0 (ms_vblank_close_screen drv_abort gen sc s)"

lemma destroy_buffer_same_owned [owned_frames]:
  fixes s :: "'k drv"
  shows "same_owned s (ms_dri2_destroy_buffer b s)"
  by (simp add: ms_dri2_destroy_buffer_def ms_dri2_destroy_buffer2_def same_owned_def misc_fault_def emit_def
      split: option.split)

lemma close_screen_owners:
  assumes "owners_ok L P s" and "distinct (ms_drm_queue s)"
  shows "owners_ok L P (ms_vblank_close_screen drv_abort gen sc s)"
proof -
  have same: "same_owned t (t\<lparr>entity_of := e, notify_fd := f\<rparr>)" "same_owned t (t\<lparr>entity_of := e\<rparr>)" for t :: "'a drv" and e f
    by (simp_all add: same_owned_def)
  note ok = abort_scrn_owners [OF assms, of sc]
  show ?thesis
    using ok by (simp add: ms_vblank_close_screen_def Let_def case_prod_beta owners_ok_same [OF same(1)]
        owners_ok_same [OF same(2)])
qed

lemma driver_run_owners:
  assumes "rotate_keeps E"
  shows "driver_run n E D ptr s0 s \<Longrightarrow> owners_ok L P s0 \<Longrightarrow> owners_ok L P s"
proof (induction rule: driver_run.induct)
  have r: "rotate_keeps (drv_env n E D)" using assms by (simp add: rotate_keeps_def)
  note f = drv_env_simps(2) [of n E D]
  {
    case (events s scr t)
    then show ?case
      by (auto simp: ms_drm_socket_handler_def split: option.splits dest: handle_event_owners [OF drv_handler_keeps])
  next
    case (present_wait s p i m r t)
    then show ?case by (auto intro: drv.present_queue_vblank_keeps [OF f])
  next
    case (present_flip s p i px sync ok t)
    then show ?case by (auto intro: drv.present_flip_keeps [OF f])
  next
    case (present_unflip s sc i t)
    then show ?case by (auto intro: drv.present_unflip_keeps [OF f r])
  next
    case (dri2_wait s client d target divisor remainder t)
    then show ?case by (auto intro: drv.schedule_wait_keeps [OF f])
  next
    case (dri2_swap s client d front b target divisor remainder func data m t)
    then show ?case by (auto intro: drv.schedule_swap_keeps [OF f])
  next
    case (set_mode s p mode rot x y ok t)
    then show ?case by (auto intro: drv.set_mode_major_keeps [OF f r])
  next
    case (resize s sc w h ok t)
    then show ?case by (auto intro: drv.resize_keeps [OF f r])
  next
    case (desired s sc hw ok t)
    from desired.hyps(2) obtain c u where u: "desired_modes (drv_env n E D) sc hw (config (mss s sc)) s = Some (c, u)"
      and t: "t = (if c then drmmode_validate_leases (kernel_of (drv_env n E D)) (randr_registered (drv_env n E D)) sc u else u)"
      by (auto simp: drmmode_set_desired_modes_def)
    from drv.desired_modes_keeps [OF f r _ u] desired show ?case
      by (simp add: t owners_ok_same [OF validate_leases_same_owned])
  next
    case (shared_enable s p f' b ok t)
    then show ?case by (auto intro: drv.enable_shared_keeps [OF f r])
  next
    case (shared_disable s p t)
    then show ?case by (auto intro: drv.disable_shared_keeps [OF f r])
  next
    case (shared_start s p t)
    then show ?case by (auto intro: drv.init_flipping_keeps [OF f])
  }
qed (simp_all add: fini_owners close_screen_owners drv.present_abort_keeps
    owners_ok_same [OF dri2_same_owned(7)] owners_ok_same [OF dri2_same_owned(8)]
    owners_ok_same [OF destroy_buffer_same_owned])


lemma pending_flips_carried:
  "count (pending_flips s) a = length (filter (\<lambda>q. \<exists>r. q_data q = CB_flip r a) (ms_drm_queue s))"
proof -
  have "count (sum_list (map (\<lambda>q. flips_of (q_data q)) qs)) a = length (filter (\<lambda>q. \<exists>r. q_data q = CB_flip r a) qs)" for qs
  proof (induction qs)
    case Nil
    then show ?case by simp
  next
    case (Cons q qs)
    then show ?case by (cases "q_data q") auto
  qed
  then show ?thesis by (simp add: pending_flips_def)
qed

lemma pending_presents_carried:
  assumes "q \<in> set (ms_drm_queue s)" and "q_data q = CB_present e"
  shows "e \<in># pending_presents s"
proof -
  have "q \<in> set qs \<Longrightarrow> e \<in># sum_list (map (\<lambda>q. presents_of (q_data q)) qs)" for qs
    using assms(2) by (induction qs) auto
  with assms(1) show ?thesis by (simp add: pending_presents_def)
qed


section \<open>A request is answered\<close>

lemma queue_vblank_unasked:
  fixes s :: "'k drv"
  assumes "accepts_vblanks K"
  shows "\<exists>t. ms_queue_vblank K flush ab (Suc n) p flags msc False sq s = Some ((True, None), t) \<and>
    drm.more t = drm.more s \<and> ms_drm_queue t = ms_drm_queue s"
proof -
  obtain q t where q: "queue_vblank_once K p flags msc sq s = (q, t)" by (metis surj_pair)
  have "q \<noteq> None"
    using assms q by (auto simp: queue_vblank_once_def accepts_vblanks_def Let_def case_prod_beta split: if_splits)
  then show ?thesis
    using q queue_vblank_once_more [of K p flags msc sq s] queue_vblank_once_queue [of K p flags msc sq s] by force
qed

lemma drv_log_more: "drm.more t = drm.more s \<Longrightarrow> server_log t = server_log s"
  for s t :: "'k drv"
  by (cases s; cases t) simp

lemma present_request_queued:
  fixes s :: "'k drv"
  assumes "accepts_vblanks (kernel_of E)" and "loop_bound E = Suc k" and "mem_ok s = []"
    and "sq = (if ms_drm_seq s = 0 then 1 else ms_drm_seq s)"
  shows "\<exists>t. ms_present_queue_vblank E p i msc s = Some (Success, t) \<and>
    ms_drm_queue t = \<lparr>q_crtc = p, q_seq = sq, q_data = CB_present (next_addr s), q_scrn = crtc_scrn (crtcs s p)\<rparr> # ms_drm_queue s \<and>
    presents t = (presents s)(next_addr s \<mapsto> \<lparr>pe_event_id = i, pe_unflip = False\<rparr>) \<and> server_log t = server_log s"
proof -
  let ?a = "next_addr s" and ?e = "\<lparr>pe_event_id = i, pe_unflip = False\<rparr>"
  define s1 where "s1 = s\<lparr>presents := (presents s)(?a \<mapsto> ?e), next_addr := ?a + 1\<rparr>"
  have new: "new_present i False s = (Some ?a, s1)"
    using assms(3) by (simp add: new_present_def calloc_def s1_def)
  let ?q = "\<lparr>q_crtc = p, q_seq = sq, q_data = CB_present ?a, q_scrn = crtc_scrn (crtcs s p)\<rparr>"
  define s2 where "s2 = s1\<lparr>ms_drm_seq := sq + 1, ms_drm_queue := ?q # ms_drm_queue s\<rparr>"
  have alloc: "ms_drm_queue_alloc p (CB_present ?a) s1 = (sq, s2)" and nz: "sq \<noteq> 0"
    using assms(3,4) by (simp_all add: ms_drm_queue_alloc_def calloc_def s1_def s2_def Let_def)
  obtain t where t: "ms_queue_vblank (kernel_of E) (flush_of E) drv_abort (Suc k) p MS_QUEUE_ABSOLUTE msc False sq s2 =
      Some ((True, None), t)" "drm.more t = drm.more s2" "ms_drm_queue t = ms_drm_queue s2"
    using queue_vblank_unasked [OF assms(1)] by metis
  have "ms_present_queue_vblank E p i msc s = Some (Success, t)"
    using nz t(1) by (simp add: ms_present_queue_vblank_def new alloc assms(2) del: ms_queue_vblank.simps)
  moreover have "presents t = presents s2" "server_log t = server_log s2"
    by (rule drv_more_fields(2) drv_log_more, rule t(2))+
  ultimately show ?thesis using t(3) by (simp add: s2_def s1_def)
qed

text \<open>
  C26. A client of Present that waits is answered. When there is memory and the kernel takes the
  request, \<^verbatim>\<open>ms_present_queue_vblank\<close> succeeds with a new entry at the head of the queue
  and its event record live; and when the kernel then reports the frame under that entry's
  number, the main loop's handler tells the client that frame and time, once, frees the record
  and takes the entry off the queue, leaving the others.
\<close>

theorem present_request_answered:
  assumes "accepts_vblanks (kernel_of E)" and "loop_bound E = Suc k" and "mem_ok s = []"
    and "sq = (if ms_drm_seq s = 0 then 1 else ms_drm_seq s)"
    and "\<And>k. drm_read_events K k = (Some [EV_CRTC_SEQUENCE frame ns (ucast sq)], k)"
  shows "\<exists>t q u. ms_present_queue_vblank E p i msc s = Some (Success, t) \<and>
    ms_drm_queue t = q # ms_drm_queue s \<and> q_seq q = sq \<and>
    presents t = (presents s)(next_addr s \<mapsto> \<lparr>pe_event_id = i, pe_unflip = False\<rparr>) \<and> server_log t = server_log s \<and>
    ms_drm_socket_handler K (drv_handler (Suc n) E D) (Some scr) t = Some u \<and>
    server_log u = Present_notify i (ns div 1000) frame # server_log s \<and>
    ms_drm_queue u = ms_drm_queue s \<and> presents u = (presents s)(next_addr s := None)"
proof -
  let ?a = "next_addr s" and ?e = "\<lparr>pe_event_id = i, pe_unflip = False\<rparr>"
  let ?q = "\<lparr>q_crtc = p, q_seq = sq, q_data = CB_present ?a, q_scrn = crtc_scrn (crtcs s p)\<rparr>"
  obtain t where ask: "ms_present_queue_vblank E p i msc s = Some (Success, t)"
    and ft: "ms_drm_queue t = ?q # ms_drm_queue s" "presents t = (presents s)(?a \<mapsto> ?e)" "server_log t = server_log s"
    using present_request_queued [OF assms(1-4)] by metis
  obtain c where c: "ms_kernel_msc_to_crtc_msc p frame True (t\<lparr>kst := kst t\<rparr>) = (frame, c)"
    by (simp add: ms_kernel_msc_to_crtc_msc_def kernel_msc_to_crtc_msc_def)
  have mc: "drm.more c = drm.more t"
    using kernel_msc_more [of p frame True t] c by simp
  have fc: "presents c = presents t" "server_log c = server_log t" "ms_drm_queue c = ms_drm_queue t"
    using drv_more_fields(2) [OF mc] drv_log_more [OF mc] kernel_msc_queue [of p frame True t] c by simp_all
  have sq: "ucast (ucast sq :: u64) = sq" by (simp add: ucast_up_ucast_id is_up)
  let ?u = "ms_present_vblank_handler frame (ns div 1000) ?a (c\<lparr>ms_drm_queue := ms_drm_queue s\<rparr>)"
  have "ms_drm_socket_handler K (drv_handler (Suc n) E D) (Some scr) t = Some ?u"
    using c by (simp add: ms_drm_socket_handler_def drmHandleEvent_def assms(5) dispatch_event_def
        ms_drm_sequence_handler_64bit_def ms_drm_sequence_handler_def Let_def ft sq fc)
  moreover have "server_log ?u = Present_notify i (ns div 1000) frame # server_log s"
    "ms_drm_queue ?u = ms_drm_queue s" "presents ?u = (presents s)(?a := None)"
    by (simp_all add: ms_present_vblank_handler_def free_present_def emit_def fc ft)
  ultimately show ?thesis
    using ask ft by (intro exI [of _ t] exI [of _ ?q] exI [of _ ?u]) simp
qed

section \<open>Examples\<close>

definition event_kernel :: "unit kernel" where
  "event_kernel = vblank_kernel\<lparr>drm_read_events := \<lambda>k. (Some [EV_CRTC_SEQUENCE 120 9000000 1], k)\<rparr>"

lemma present_request_answered_witness:
  "\<exists>t u. ms_present_queue_vblank (plain_env event_kernel) 0 77 120 (idle_drv ()) = Some (Success, t) \<and>
    length (ms_drm_queue t) = 1 \<and>
    ms_drm_socket_handler event_kernel (drv_handler 1 (plain_env event_kernel) window_server) (Some 0) t = Some u \<and>
    server_log u = [Present_notify 77 9000 120]"
proof -
  have a: "accepts_vblanks (kernel_of (plain_env event_kernel))"
    by (simp add: accepts_vblanks_def plain_env_def event_kernel_def vblank_kernel_def)
  have b: "loop_bound (plain_env event_kernel) = Suc 1" by (simp add: plain_env_def)
  have c: "mem_ok (idle_drv ()) = []" by (simp add: idle_drv_def idle_drm_def drm.extend_def)
  have d: "drm_read_events event_kernel k = (Some [EV_CRTC_SEQUENCE 120 9000000 (ucast (1 :: u32))], k)" for k
    by (simp add: event_kernel_def)
  have e: "(1 :: u32) = (if ms_drm_seq (idle_drv ()) = 0 then 1 else ms_drm_seq (idle_drv ()))"
    by (simp add: idle_drv_def idle_drm_def drm.extend_def)
  have f: "server_log (idle_drv ()) = []" "ms_drm_queue (idle_drv ()) = []"
    by (simp_all add: idle_drv_def idle_drm_def drm.extend_def)
  from present_request_answered [OF a b c e d, of 0 77 120 0 window_server 0] f show ?thesis by auto
qed


end
