(* ===== verification/Shadow_Fb.thy ===== *)
theory Shadow_Fb
  imports Geometry Driver_State "HOL-Library.Signed_Division"
begin

text \<open>
  The shadow framebuffer (\<^verbatim>\<open>src/src/loongson_shadow.c\<close>): its allocation, the choice
  whether to use one, and the update that copies the damage to the scanned-out buffer. With
  double shadow updates a second copy (\<^verbatim>\<open>shadow_fb2\<close>) holds what was copied last; the
  update compares the two by tiles and copies only the tiles that differ.
\<close>

section \<open>Allocation\<close>

definition shadow_bytes :: "modesetting \<Rightarrow> u32" where
  "shadow_bytes m = word_of_int (displayWidth m * virtualY m * ((bitsPerPixel m + 7) div 8))"

definition LS_ShadowAllocFB :: "nat \<Rightarrow> ('d, 'k, 'z) drm_scheme \<Rightarrow> bool \<times> ('d, 'k, 'z) drm_scheme" where
  "LS_ShadowAllocFB scr s =
     (case calloc s of (ok, s) \<Rightarrow>
        (ok, upd_ms scr (\<lambda>m. m\<lparr>shadow_fb := if ok then Some (shadow_bytes m) else None\<rparr>) s))"

definition LS_ShadowFreeFB :: "nat \<Rightarrow> ('d, 'k, 'z) drm_scheme \<Rightarrow> ('d, 'k, 'z) drm_scheme" where
  "LS_ShadowFreeFB scr s = upd_ms scr (\<lambda>m. m\<lparr>shadow_fb := None\<rparr>) s"

definition LS_ShadowAllocDoubleFB ::
  "nat \<Rightarrow> ('d, 'k, 'z) drm_scheme \<Rightarrow> bool \<times> ('d, 'k, 'z) drm_scheme" where
  "LS_ShadowAllocDoubleFB scr s =
     (case calloc s of (ok, s) \<Rightarrow>
        (ok, upd_ms scr (\<lambda>m. m\<lparr>shadow_fb2 := if ok then Some (shadow_bytes m) else None\<rparr>) s))"

definition LS_ShadowFreeDoubleFB :: "nat \<Rightarrow> ('d, 'k, 'z) drm_scheme \<Rightarrow> ('d, 'k, 'z) drm_scheme" where
  "LS_ShadowFreeDoubleFB scr s = upd_ms scr (\<lambda>m. m\<lparr>shadow_fb2 := None\<rparr>) s"

section \<open>Whether to use a shadow\<close>

text \<open>
  \<open>name\<close> is the kernel driver's name (\<^verbatim>\<open>drmGetVersion\<close>); an option of the
  configuration file is \<open>None\<close> when it is not given; \<open>cap\<close> is the result of
  \<^verbatim>\<open>drmGetCap\<close> and the value it wrote.
\<close>

definition LS_ShadowShouldDouble :: "string \<Rightarrow> bool option \<Rightarrow> bool" where
  "LS_ShadowShouldDouble name double_shadow =
     (let ret = (name = ''mgag200'' \<or> name = ''ast'')
      in case double_shadow of None \<Rightarrow> ret | Some b \<Rightarrow> b)"

definition LS_TryEnableShadow ::
  "int \<times> u64 \<Rightarrow> bool option \<Rightarrow> string \<Rightarrow> bool option \<Rightarrow> nat \<Rightarrow> ('d, 'k, 'z) drm_scheme \<Rightarrow>
     ('d, 'k, 'z) drm_scheme" where
  "LS_TryEnableShadow cap shadow_opt name double_opt scr s =
     (let enable =
            (if force_24_32 (mss s scr) then True
             else let prefer_shadow = (if fst cap = 0 then snd cap \<noteq> 0 else True)
                  in case shadow_opt of None \<Rightarrow> prefer_shadow | Some b \<Rightarrow> b)
      in upd_ms scr (\<lambda>m. m\<lparr>shadow_enable := enable,
           shadow_enable2 := if enable then LS_ShadowShouldDouble name double_opt else False\<rparr>) s)"

section \<open>Where a line of the screen is\<close>

text \<open>The size reported, and the byte of the mapped front buffer the pointer returned points to.\<close>

definition LS_ShadowWindow :: "modesetting \<Rightarrow> u32 \<Rightarrow> u32 \<Rightarrow> u32 \<times> u32" where
  "LS_ShadowWindow m row offset =
     (let stride = (displayWidth m * uint (kbpp m)) sdiv 8
      in (word_of_int stride, row * word_of_int stride + offset))"

section \<open>The update\<close>

text \<open>
  The contents of \<^verbatim>\<open>shadow_fb\<close> and \<^verbatim>\<open>shadow_fb2\<close>, the length of a line of the pixmap
  and the bytes per pixel.
\<close>

record shadow_mem =
  sm_new :: "u8 list"
  sm_old :: "u8 list"
  sm_devKind :: int
  sm_cpp :: int

record rect =
  rx :: int
  ry :: int
  rwidth :: int
  rheight :: int

text \<open>
  The loop over the lines of a tile. \<open>off\<close> is how far \<^verbatim>\<open>old\<close> and \<^verbatim>\<open>new\<close>
  point into their buffers; \<open>None\<close> when a line is not inside both.
\<close>

fun intersect_lines ::
  "nat \<Rightarrow> nat \<Rightarrow> nat \<Rightarrow> nat \<Rightarrow> u8 list \<Rightarrow> u8 list \<Rightarrow> (bool \<times> u8 list) option" where
  "intersect_lines 0 off stride width new old = Some (False, old)"
| "intersect_lines (Suc n) off stride width new old =
     (if off + width > length new \<or> off + width > length old then None
      else
        let differ = (take width (drop off old) \<noteq> take width (drop off new));
            old = (if differ then take off old @ take width (drop off new) @ drop (off + width) old else old)
        in map_option (\<lambda>(dirty, old). (differ \<or> dirty, old))
             (intersect_lines n (off + stride) stride width new old))"

definition msUpdateIntersect :: "shadow_mem \<Rightarrow> box \<Rightarrow> (rect option \<times> shadow_mem) option" where
  "msUpdateIntersect sm b =
     (let stride = (word_of_int (sm_devKind sm) :: u32);
          cpp = (word_of_int (sm_cpp sm) :: u32);
          width = word_of_int (bx2 b - bx1 b) * cpp;
          num_lines = (word_of_int (by2 b - by1 b) :: u32);
          go_to_start = word_of_int (by1 b) * stride + word_of_int (bx1 b) * cpp
      in map_option
           (\<lambda>(dirty, old).
              (if dirty then Some \<lparr>rx = bx1 b, ry = by1 b, rwidth = bx2 b - bx1 b, rheight = by2 b - by1 b\<rparr>
               else None,
               sm\<lparr>sm_old := old\<rparr>))
           (intersect_lines (unat num_lines) (unat go_to_start) (unat stride) (unat width) (sm_new sm) (sm_old sm)))"

text \<open>
  Regions are the server's; \<open>'r\<close> is their type. \<open>RegionContainsRect\<close> tells whether
  the result is not \<^verbatim>\<open>rgnOUT\<close>.
\<close>

record 'r region_ops =
  RegionExtents :: "'r \<Rightarrow> box"
  RegionContainsRect :: "'r \<Rightarrow> box \<Rightarrow> bool"
  RegionFromRects :: "rect list \<Rightarrow> 'r"
  RegionIntersect :: "'r \<Rightarrow> 'r \<Rightarrow> 'r"

abbreviation (input) TILE :: int where "TILE \<equiv> 16"

text \<open>The two loops over the tiles of the extents, last tile first.\<close>

definition tiles_of :: "box \<Rightarrow> box list" where
  "tiles_of e =
     (let tx1 = bx1 e sdiv TILE; tx2 = (bx2 e + TILE - 1) sdiv TILE;
          ty1 = by1 e sdiv TILE; ty2 = (by2 e + TILE - 1) sdiv TILE
      in concat (map (\<lambda>j. map (\<lambda>i. \<lparr>bx1 = max (i * TILE) (bx1 e), by1 = max (j * TILE) (by1 e),
                                       bx2 = min ((i + 1) * TILE) (bx2 e), by2 = min ((j + 1) * TILE) (by2 e)\<rparr>)
                            (rev [tx1..tx2 - 1]))
                 (rev [ty1..ty2 - 1])))"

fun update_tiles :: "(box \<Rightarrow> bool) \<Rightarrow> box list \<Rightarrow> shadow_mem \<Rightarrow> (rect list \<times> shadow_mem) option" where
  "update_tiles hit [] sm = Some ([], sm)"
| "update_tiles hit (b # bs) sm =
     (if hit b then
        (case msUpdateIntersect sm b of
           None \<Rightarrow> None
         | Some (r, sm) \<Rightarrow>
             map_option (\<lambda>(rs, sm). (case r of None \<Rightarrow> rs | Some r \<Rightarrow> r # rs, sm)) (update_tiles hit bs sm))
      else update_tiles hit bs sm)"

text \<open>
  \<^verbatim>\<open>LS_ShadowUpdatePacked\<close>: \<open>alloc\<close> tells whether the array of rectangles can be
  allocated, \<open>double\<close> whether there is a second shadow to compare with, \<open>update\<close> is the
  server's \<^verbatim>\<open>shadowUpdatePacked\<close> or \<^verbatim>\<open>shadowUpdate32to24\<close>. The damage that is
  left, the shadows, and the scanned-out buffer.
\<close>

definition shadow_damage ::
  "'r region_ops \<Rightarrow> bool \<Rightarrow> bool \<Rightarrow> 'r \<Rightarrow> shadow_mem \<Rightarrow> ('r \<times> shadow_mem) option" where
  "shadow_damage R alloc double damage sm =
     (if double \<and> alloc then
        map_option (\<lambda>(rs, sm). (RegionIntersect R damage (RegionFromRects R rs), sm))
          (update_tiles (RegionContainsRect R damage) (tiles_of (RegionExtents R damage)) sm)
      else Some (damage, sm))"

record ('r, 'f) shadow_api =
  Update32to24 :: "'r \<Rightarrow> u8 list \<Rightarrow> 'f \<Rightarrow> 'f"
  UpdatePacked :: "'r \<Rightarrow> u8 list \<Rightarrow> 'f \<Rightarrow> 'f"

definition LS_ShadowUpdatePacked ::
  "'r region_ops \<Rightarrow> ('r, 'f) shadow_api \<Rightarrow> modesetting \<Rightarrow> bool \<Rightarrow> 'r \<Rightarrow> shadow_mem \<Rightarrow> 'f \<Rightarrow>
     ('r \<times> shadow_mem \<times> 'f) option" where
  "LS_ShadowUpdatePacked R A m alloc damage sm fb =
     (let use_3224 = (force_24_32 m \<and> bitsPerPixel m = 32)
      in map_option
           (\<lambda>(damage, sm). (damage, sm, (if use_3224 then Update32to24 A else UpdatePacked A) damage (sm_new sm) fb))
           (shadow_damage R alloc (shadow_enable2 m \<and> shadow_fb2 m \<noteq> None) damage sm))"

section \<open>One tile\<close>

text \<open>
  A memory \<open>old\<close> brought up to date with \<open>new\<close> at the positions \<open>L\<close>, and whether any of
  them differed.
\<close>

definition patched :: "nat set \<Rightarrow> 'a list \<Rightarrow> 'a list \<Rightarrow> 'a list \<Rightarrow> bool" where
  "patched L new old old' \<longleftrightarrow>
     length old' = length old \<and> (\<forall>k < length old. old' ! k = (if k \<in> L then new ! k else old ! k))"

definition differ_on :: "nat set \<Rightarrow> 'a list \<Rightarrow> 'a list \<Rightarrow> bool" where
  "differ_on L new old \<longleftrightarrow> (\<exists>k \<in> L. old ! k \<noteq> new ! k)"

lemma patched_none [simp]: "patched {} new old old' \<longleftrightarrow> old' = old"
  by (auto simp: patched_def list_eq_iff_nth_eq)

lemma patched_Un:
  "patched L new old mid \<Longrightarrow> patched M new mid old' \<Longrightarrow> patched (L \<union> M) new old old'"
  by (auto simp: patched_def)

lemma differ_on_patched:
  assumes "patched L new old mid" and "\<forall>k \<in> M. k < length old"
  shows "differ_on L new old \<or> differ_on M new mid \<longleftrightarrow> differ_on (L \<union> M) new old"
proof -
  have "mid ! k \<noteq> new ! k \<longleftrightarrow> k \<notin> L \<and> old ! k \<noteq> new ! k" if "k \<in> M" for k
    using assms that by (simp add: patched_def)
  then show ?thesis unfolding differ_on_def by blast
qed

lemma line_positions: "(\<exists>k \<in> {off..<off + w}. P k) \<longleftrightarrow> (\<exists>i < w. P (off + i))" for off :: nat
proof
  assume "\<exists>k \<in> {off..<off + w}. P k"
  then obtain k where "off \<le> k" "k < off + w" "P k" by auto
  then show "\<exists>i < w. P (off + i)" by (intro exI [of _ "k - off"]) auto
qed auto

lemma copy_line:
  assumes "off + w \<le> length new" and "length old = length new"
  defines "old' \<equiv> if take w (drop off old) \<noteq> take w (drop off new)
      then take off old @ take w (drop off new) @ drop (off + w) old else old"
  shows "patched {off..<off + w} new old old'"
    and "take w (drop off old) \<noteq> take w (drop off new) \<longleftrightarrow> differ_on {off..<off + w} new old"
proof -
  have eq: "take w (drop off old) \<noteq> take w (drop off new) \<longleftrightarrow> differ_on {off..<off + w} new old"
    using assms(1,2) unfolding differ_on_def line_positions by (auto simp: list_eq_iff_nth_eq)
  then show "take w (drop off old) \<noteq> take w (drop off new) \<longleftrightarrow> differ_on {off..<off + w} new old" .
  show "patched {off..<off + w} new old old'"
  proof (cases "take w (drop off old) = take w (drop off new)")
    case True
    then show ?thesis using eq by (auto simp: patched_def old'_def differ_on_def)
  next
    case False
    with assms(1,2) show ?thesis by (auto simp: patched_def old'_def nth_append)
  qed
qed

definition lines :: "nat \<Rightarrow> nat \<Rightarrow> nat \<Rightarrow> nat \<Rightarrow> nat set" where
  "lines n off stride width = (\<Union>i<n. {off + i * stride..<off + i * stride + width})"

lemma lines_Suc: "lines (Suc n) off stride width = {off..<off + width} \<union> lines n (off + stride) stride width"
  unfolding lines_def lessThan_Suc_eq_insert_0 by (simp add: image_comp add.assoc)

lemma intersect_lines_patches:
  assumes "lines n off stride width \<subseteq> {..<length new}" and "length old = length new" and "0 < width"
  shows "\<exists>old'. intersect_lines n off stride width new old = Some (differ_on (lines n off stride width) new old, old') \<and>
    patched (lines n off stride width) new old old'"
  using assms
proof (induction n arbitrary: off old)
  case 0
  then show ?case by (simp add: lines_def differ_on_def)
next
  case (Suc n)
  let ?L = "{off..<off + width}" and ?M = "lines n (off + stride) stride width"
  let ?d = "take width (drop off old) \<noteq> take width (drop off new)"
  let ?mid = "if ?d then take off old @ take width (drop off new) @ drop (off + width) old else old"
  have fit: "off + width \<le> length new" "?M \<subseteq> {..<length new}"
    using Suc.prems(1,3) unfolding lines_Suc by (auto dest!: subsetD [where c = "off + width - 1"])
  note line = copy_line [OF fit(1) Suc.prems(2)]
  have len: "length ?mid = length new" using line(1) Suc.prems(2) by (simp add: patched_def)
  from Suc.IH [OF fit(2) len Suc.prems(3)] obtain old'
    where old': "intersect_lines n (off + stride) stride width new ?mid = Some (differ_on ?M new ?mid, old')"
      "patched ?M new ?mid old'" by blast
  have "\<forall>k \<in> ?M. k < length old" using fit(2) Suc.prems(2) by auto
  from differ_on_patched [OF line(1) this]
  have "?d \<or> differ_on ?M new ?mid \<longleftrightarrow> differ_on (lines (Suc n) off stride width) new old"
    by (simp only: line(2) lines_Suc)
  moreover have "patched (lines (Suc n) off stride width) new old old'"
    unfolding lines_Suc by (rule patched_Un [OF line(1) old'(2)])
  ultimately show ?case using fit(1) Suc.prems(2) old'(1) by (auto simp: Let_def)
qed

section \<open>Pixels and their bytes\<close>

text \<open>
  The shadows hold line after line of \<open>sm_devKind\<close> bytes, a pixel takes \<open>sm_cpp\<close>. A box
  fits when it is inside the line and the buffers, whose size the unsigned arithmetic can
  express.
\<close>

definition bytes_at :: "shadow_mem \<Rightarrow> int \<times> int \<Rightarrow> nat set" where
  "bytes_at sm = (\<lambda>(x, y). {k. y * sm_devKind sm + x * sm_cpp sm \<le> int k \<and>
                                    int k < y * sm_devKind sm + (x + 1) * sm_cpp sm})"

definition pixel_bytes :: "shadow_mem \<Rightarrow> (int \<times> int) set \<Rightarrow> nat set" where
  "pixel_bytes sm S = (\<Union>p \<in> S. bytes_at sm p)"

definition fits :: "shadow_mem \<Rightarrow> box \<Rightarrow> bool" where
  "fits sm b \<longleftrightarrow> 0 < sm_cpp sm \<and> 0 \<le> bx1 b \<and> 0 \<le> by1 b \<and> bx2 b * sm_cpp sm \<le> sm_devKind sm \<and>
     by2 b * sm_devKind sm \<le> int (length (sm_new sm)) \<and> length (sm_old sm) = length (sm_new sm) \<and>
     int (length (sm_new sm)) < 4294967296"

lemma bytes_at_cong [simp]: "bytes_at (sm\<lparr>sm_old := old\<rparr>) = bytes_at sm"
  by (simp add: bytes_at_def)

lemma pixel_bytes_cong [simp]: "pixel_bytes (sm\<lparr>sm_old := old\<rparr>) = pixel_bytes sm"
  by (simp add: pixel_bytes_def fun_eq_iff)

lemma fits_patched: "fits sm b \<Longrightarrow> length old = length (sm_old sm) \<Longrightarrow> fits (sm\<lparr>sm_old := old\<rparr>) b"
  by (simp add: fits_def)

lemma fits_facts:
  assumes "fits sm b" and "pixels b \<noteq> {}"
  shows "bx1 b < bx2 b" "by1 b < by2 b" "0 < sm_devKind sm"
    "by2 b < 4294967296" "bx2 b * sm_cpp sm < 4294967296" "sm_devKind sm < 4294967296"
    "(by2 b - 1) * sm_devKind sm + bx2 b * sm_cpp sm \<le> int (length (sm_new sm))"
proof -
  show xy: "bx1 b < bx2 b" "by1 b < by2 b" using assms(2) by (auto simp: pixels_def)
  have c: "0 < sm_cpp sm" "0 \<le> bx1 b" "0 \<le> by1 b" "bx2 b * sm_cpp sm \<le> sm_devKind sm"
    "by2 b * sm_devKind sm \<le> int (length (sm_new sm))" "int (length (sm_new sm)) < 4294967296"
    using assms(1) by (simp_all add: fits_def)
  have "0 < bx2 b * sm_cpp sm" using c xy by (simp add: mult_pos_pos)
  then show d: "0 < sm_devKind sm" using c(4) by linarith
  have "by2 b * 1 \<le> by2 b * sm_devKind sm" using d xy c by (intro mult_left_mono) auto
  then show "by2 b < 4294967296" using c by linarith
  have "1 * sm_devKind sm \<le> by2 b * sm_devKind sm" using d xy c by (intro mult_right_mono) auto
  then show k: "sm_devKind sm < 4294967296" using c by linarith
  show "bx2 b * sm_cpp sm < 4294967296" using c k by linarith
  have "(by2 b - 1) * sm_devKind sm + sm_devKind sm = by2 b * sm_devKind sm" by (simp add: algebra_simps)
  then show "(by2 b - 1) * sm_devKind sm + bx2 b * sm_cpp sm \<le> int (length (sm_new sm))" using c by linarith
qed

lemma tile_lines:
  assumes "fits sm b" and "pixels b \<noteq> {}"
  shows "lines (nat (by2 b - by1 b)) (nat (by1 b * sm_devKind sm + bx1 b * sm_cpp sm)) (nat (sm_devKind sm))
      (nat ((bx2 b - bx1 b) * sm_cpp sm)) = pixel_bytes sm (pixels b)"
proof -
  note f = fits_facts [OF assms]
  let ?d = "sm_devKind sm" and ?c = "sm_cpp sm"
  have c: "0 < ?c" "0 \<le> bx1 b" "0 \<le> by1 b" using assms(1) by (simp_all add: fits_def)
  have pos: "0 \<le> by1 b * ?d + bx1 b * ?c" "0 \<le> (bx2 b - bx1 b) * ?c" using c f by simp_all
  define off st w where "off = nat (by1 b * ?d + bx1 b * ?c)" and "st = nat ?d" and "w = nat ((bx2 b - bx1 b) * ?c)"
  then have int_of: "int off = by1 b * ?d + bx1 b * ?c" "int st = ?d" "int w = bx2 b * ?c - bx1 b * ?c"
    using pos f by (simp_all add: left_diff_distrib)
  have at: "int (off + i * st) = (by1 b + int i) * ?d + bx1 b * ?c" for i
    by (simp add: int_of algebra_simps)
  have mem: "k \<in> lines (nat (by2 b - by1 b)) off st w \<longleftrightarrow>
      (\<exists>y. by1 b \<le> y \<and> y < by2 b \<and> y * ?d + bx1 b * ?c \<le> int k \<and> int k < y * ?d + bx2 b * ?c)" (is "?l \<longleftrightarrow> ?r") for k
  proof
    assume ?l
    then obtain i where i: "i < nat (by2 b - by1 b)" "off + i * st \<le> k" "k < off + i * st + w"
      by (auto simp: lines_def)
    have "int (off + i * st) \<le> int k" "int k < int (off + i * st) + int w"
      using i(2,3) by linarith+
    then show ?r using i(1) unfolding at int_of by (intro exI [of _ "by1 b + int i"]) auto
  next
    assume ?r
    then obtain y where y: "by1 b \<le> y" "y < by2 b" "y * ?d + bx1 b * ?c \<le> int k" "int k < y * ?d + bx2 b * ?c" by blast
    have "int (off + nat (y - by1 b) * st) \<le> int k" "int k < int (off + nat (y - by1 b) * st) + int w"
      unfolding at int_of using y by simp_all
    then have "off + nat (y - by1 b) * st \<le> k" "k < off + nat (y - by1 b) * st + w" by linarith+
    then show ?l using y unfolding lines_def by (intro UN_I [of "nat (y - by1 b)"]) auto
  qed
  have row: "(y * ?d + bx1 b * ?c \<le> k \<and> k < y * ?d + bx2 b * ?c) \<longleftrightarrow>
      (\<exists>x. bx1 b \<le> x \<and> x < bx2 b \<and> y * ?d + x * ?c \<le> k \<and> k < y * ?d + (x + 1) * ?c)" (is "?l \<longleftrightarrow> ?r") for y k
  proof
    assume l: ?l
    let ?x = "(k - y * ?d) div ?c"
    have x: "?x * ?c \<le> k - y * ?d" "k - y * ?d < (?x + 1) * ?c"
      using c(1) pos_mod_bound [of ?c "k - y * ?d"] pos_mod_sign [of ?c "k - y * ?d"] div_mult_mod_eq [of "k - y * ?d" ?c]
      unfolding distrib_right by linarith+
    have "bx1 b * ?c < (?x + 1) * ?c" "?x * ?c < bx2 b * ?c" using l x by linarith+
    then have "bx1 b \<le> ?x" "?x < bx2 b" using c(1) by simp_all
    with x have "bx1 b \<le> ?x \<and> ?x < bx2 b \<and> y * ?d + ?x * ?c \<le> k \<and> k < y * ?d + (?x + 1) * ?c" by linarith
    then show ?r by blast
  next
    assume ?r
    then obtain x where x: "bx1 b \<le> x" "x < bx2 b" "y * ?d + x * ?c \<le> k" "k < y * ?d + (x + 1) * ?c" by blast
    have "bx1 b * ?c \<le> x * ?c" "(x + 1) * ?c \<le> bx2 b * ?c" using x c(1) by (auto intro: mult_right_mono)
    with x show ?l by linarith
  qed
  have "k \<in> pixel_bytes sm (pixels b) \<longleftrightarrow> (\<exists>y. by1 b \<le> y \<and> y < by2 b \<and>
      (\<exists>x. bx1 b \<le> x \<and> x < bx2 b \<and> y * ?d + x * ?c \<le> int k \<and> int k < y * ?d + (x + 1) * ?c))" for k
    unfolding pixel_bytes_def bytes_at_def pixels_def by (simp add: Bex_def split_paired_Ex) blast
  then show ?thesis
    unfolding set_eq_iff off_def [symmetric] st_def [symmetric] w_def [symmetric] mem row by blast
qed

lemma unat_word_of_int_nat: "0 \<le> i \<Longrightarrow> i < 4294967296 \<Longrightarrow> unat (word_of_int i :: u32) = nat i"
  by (simp add: unsigned_of_int take_bit_eq_mod)

definition rect_of :: "box \<Rightarrow> rect" where
  "rect_of b = \<lparr>rx = bx1 b, ry = by1 b, rwidth = bx2 b - bx1 b, rheight = by2 b - by1 b\<rparr>"

lemma update_tile:
  assumes "fits sm b" and "pixels b \<noteq> {}"
  defines "B \<equiv> pixel_bytes sm (pixels b)"
  shows "\<exists>old'. msUpdateIntersect sm b =
      Some (if differ_on B (sm_new sm) (sm_old sm) then Some (rect_of b) else None, sm\<lparr>sm_old := old'\<rparr>) \<and>
    patched B (sm_new sm) (sm_old sm) old' \<and> B \<subseteq> {..<length (sm_new sm)}"
proof -
  note f = fits_facts [OF assms(1,2)]
  let ?d = "sm_devKind sm" and ?c = "sm_cpp sm"
  let ?L = "lines (nat (by2 b - by1 b)) (nat (by1 b * ?d + bx1 b * ?c)) (nat ?d) (nat ((bx2 b - bx1 b) * ?c))"
  have c: "0 < ?c" "0 \<le> bx1 b" "0 \<le> by1 b" "length (sm_old sm) = length (sm_new sm)"
    "by2 b * ?d \<le> int (length (sm_new sm))" "int (length (sm_new sm)) < 4294967296" "bx2 b * ?c \<le> ?d"
    using assms(1) by (simp_all add: fits_def)
  have "by1 b * ?d \<le> (by2 b - 1) * ?d" "bx1 b * ?c \<le> bx2 b * ?c" using f c by (auto intro!: mult_right_mono)
  then have off: "by1 b * ?d + bx1 b * ?c < 4294967296" "0 \<le> by1 b * ?d + bx1 b * ?c"
    using f c by (linarith, simp)
  have w: "0 < (bx2 b - bx1 b) * ?c" "(bx2 b - bx1 b) * ?c < 4294967296"
    using f(1,5) c(1) mult_nonneg_nonneg [OF c(2) less_imp_le [OF c(1)]] unfolding left_diff_distrib by (simp, linarith)
  have words: "unat (word_of_int (by2 b - by1 b) :: u32) = nat (by2 b - by1 b)" "unat (word_of_int ?d :: u32) = nat ?d"
    "unat (word_of_int (by1 b) * word_of_int ?d + word_of_int (bx1 b) * word_of_int ?c :: u32) = nat (by1 b * ?d + bx1 b * ?c)"
    "unat (word_of_int (bx2 b - bx1 b) * word_of_int ?c :: u32) = nat ((bx2 b - bx1 b) * ?c)"
    unfolding wi_hom_mult wi_hom_add by (rule unat_word_of_int_nat; use f c off w in linarith)+
  have B: "?L = B" unfolding B_def by (rule tile_lines [OF assms(1,2)])
  have "B \<subseteq> {..<length (sm_new sm)}"
  proof
    fix k assume "k \<in> B"
    then obtain i where i: "i < nat (by2 b - by1 b)" "k < nat (by1 b * ?d + bx1 b * ?c) + i * nat ?d + nat ((bx2 b - bx1 b) * ?c)"
      unfolding B [symmetric] lines_def by auto
    have "int (nat (by1 b * ?d + bx1 b * ?c) + i * nat ?d + nat ((bx2 b - bx1 b) * ?c)) =
        by1 b * ?d + bx1 b * ?c + int i * ?d + (bx2 b - bx1 b) * ?c" using off w f by simp
    with i(2) have "int k < by1 b * ?d + bx1 b * ?c + int i * ?d + (bx2 b - bx1 b) * ?c" by linarith
    moreover have "(by1 b + int i) * ?d \<le> (by2 b - 1) * ?d"
      using i(1) f(2,3) by (intro mult_right_mono) auto
    then have "by1 b * ?d + int i * ?d \<le> (by2 b - 1) * ?d" by (simp only: distrib_right)
    ultimately have "int k < int (length (sm_new sm))" using f(7) by (simp add: left_diff_distrib)
    then show "k \<in> {..<length (sm_new sm)}" by simp
  qed
  moreover from this intersect_lines_patches [of "nat (by2 b - by1 b)" "nat (by1 b * ?d + bx1 b * ?c)" "nat ?d"
      "nat ((bx2 b - bx1 b) * ?c)" "sm_new sm" "sm_old sm"] w(1) c(4)
  obtain old' where "intersect_lines (nat (by2 b - by1 b)) (nat (by1 b * ?d + bx1 b * ?c)) (nat ?d)
        (nat ((bx2 b - bx1 b) * ?c)) (sm_new sm) (sm_old sm) = Some (differ_on B (sm_new sm) (sm_old sm), old')"
      "patched B (sm_new sm) (sm_old sm) old'" unfolding B by auto
  ultimately show ?thesis
    unfolding msUpdateIntersect_def Let_def words by (intro exI [of _ old']) (simp add: rect_of_def)
qed

section \<open>All tiles\<close>

text \<open>Bytes that differ are in a tile that is reported.\<close>

lemma update_tiles_patches:
  assumes "\<forall>b \<in> set bs. hit b \<longrightarrow> fits sm b \<and> pixels b \<noteq> {}"
  defines "T \<equiv> \<Union>b \<in> {b \<in> set bs. hit b}. pixel_bytes sm (pixels b)"
  shows "\<exists>rs old'. update_tiles hit bs sm = Some (map rect_of rs, sm\<lparr>sm_old := old'\<rparr>) \<and>
    patched T (sm_new sm) (sm_old sm) old' \<and> set rs \<subseteq> {b \<in> set bs. hit b} \<and>
    (\<forall>k \<in> T. sm_old sm ! k \<noteq> sm_new sm ! k \<longrightarrow> (\<exists>b \<in> set rs. k \<in> pixel_bytes sm (pixels b)))"
  using assms(1) unfolding T_def
proof (induction bs arbitrary: sm)
  case Nil
  then show ?case by (intro exI [of _ "[]"] exI [of _ "sm_old sm"]) simp
next
  case (Cons b bs)
  show ?case
  proof (cases "hit b")
    case False
    then have eq: "{c \<in> set (b # bs). hit c} = {b \<in> set bs. hit b}" by auto
    have "\<forall>b \<in> set bs. hit b \<longrightarrow> fits sm b \<and> pixels b \<noteq> {}" using Cons.prems by simp
    from Cons.IH [OF this] False show ?thesis unfolding eq by simp
  next
    case True
    let ?B = "pixel_bytes sm (pixels b)"
    let ?T = "\<Union>b \<in> {b \<in> set bs. hit b}. pixel_bytes sm (pixels b)"
    have b: "fits sm b" "pixels b \<noteq> {}" using Cons.prems True by auto
    from update_tile [OF b] obtain mid where mid:
      "msUpdateIntersect sm b = Some (if differ_on ?B (sm_new sm) (sm_old sm) then Some (rect_of b) else None, sm\<lparr>sm_old := mid\<rparr>)"
      "patched ?B (sm_new sm) (sm_old sm) mid" "?B \<subseteq> {..<length (sm_new sm)}" by blast
    have len: "length mid = length (sm_old sm)" using mid(2) by (simp add: patched_def)
    have "\<forall>b \<in> set bs. hit b \<longrightarrow> fits (sm\<lparr>sm_old := mid\<rparr>) b \<and> pixels b \<noteq> {}"
      using Cons.prems fits_patched [OF _ len] by auto
    from Cons.IH [OF this] obtain rs old' where r: "update_tiles hit bs (sm\<lparr>sm_old := mid\<rparr>) = Some (map rect_of rs, sm\<lparr>sm_old := old'\<rparr>)"
      "patched ?T (sm_new sm) mid old'" "set rs \<subseteq> {b \<in> set bs. hit b}"
      "\<forall>k \<in> ?T. mid ! k \<noteq> sm_new sm ! k \<longrightarrow> (\<exists>b \<in> set rs. k \<in> pixel_bytes sm (pixels b))"
      by auto
    let ?rs = "if differ_on ?B (sm_new sm) (sm_old sm) then b # rs else rs"
    have "(\<Union>b \<in> {c \<in> set (b # bs). hit c}. pixel_bytes sm (pixels b)) = ?B \<union> ?T" using True by auto
    moreover have "patched (?B \<union> ?T) (sm_new sm) (sm_old sm) old'" by (rule patched_Un [OF mid(2) r(2)])
    moreover have "\<exists>b \<in> set ?rs. k \<in> pixel_bytes sm (pixels b)"
      if k: "k \<in> ?B \<union> ?T" and d: "sm_old sm ! k \<noteq> sm_new sm ! k" for k
    proof (cases "k \<in> ?B")
      case True
      with d show ?thesis by (auto simp: differ_on_def)
    next
      case False
      then have kT: "k \<in> ?T" using k by blast
      then obtain c where c: "c \<in> set bs" "hit c" "k \<in> pixel_bytes sm (pixels c)" by blast
      then have "fits sm c" "pixels c \<noteq> {}" using Cons.prems by auto
      from update_tile [OF this] c(3) have "k < length (sm_old sm)" using b(1) by (auto simp: fits_def)
      then have "mid ! k = sm_old sm ! k" using mid(2) False by (simp add: patched_def)
      with r(4) kT d show ?thesis by auto
    qed
    ultimately show ?thesis
      using True mid(1) r(1,3) by (intro exI [of _ ?rs] exI [of _ old']) auto
  qed
qed

text \<open>The tiles cover the extents and stay inside them.\<close>

lemma tiles_inside:
  assumes "b \<in> set (tiles_of e)"
  shows "bx1 e \<le> bx1 b" "by1 e \<le> by1 b" "bx2 b \<le> bx2 e" "by2 b \<le> by2 e"
  using assms by (auto simp: tiles_of_def Let_def)

lemma tiles_cover:
  assumes "(x, y) \<in> pixels e" and "0 \<le> bx1 e" and "0 \<le> by1 e"
  shows "\<exists>b \<in> set (tiles_of e). (x, y) \<in> pixels b"
proof -
  have p: "bx1 e \<le> x" "x < bx2 e" "by1 e \<le> y" "y < by2 e" using assms(1) by (auto simp: pixels_def)
  have d: "bx1 e sdiv 16 = bx1 e div 16" "(bx2 e + 16 - 1) sdiv 16 = (bx2 e + 15) div 16"
    "by1 e sdiv 16 = by1 e div 16" "(by2 e + 16 - 1) sdiv 16 = (by2 e + 15) div 16"
    using p assms(2,3) by (auto simp: signed_divide_int_def sgn_if)
  let ?i = "x div 16" and ?j = "y div 16"
  let ?b = "\<lparr>bx1 = max (?i * 16) (bx1 e), by1 = max (?j * 16) (by1 e),
              bx2 = min ((?i + 1) * 16) (bx2 e), by2 = min ((?j + 1) * 16) (by2 e)\<rparr>"
  have tile: "a div 16 \<le> z div 16 \<and> z div 16 \<le> (b + 15) div 16 - 1 \<and> z div 16 * 16 \<le> z \<and> z < (z div 16 + 1) * 16"
    if "a \<le> z" "z < b" for a z b :: int
  proof -
    have "(z + 16) div 16 \<le> (b + 15) div 16" by (rule zdiv_mono1) (use that in simp_all)
    moreover have "a div 16 \<le> z div 16" by (rule zdiv_mono1) (use that in simp_all)
    moreover have "(z + 16) div 16 = z div 16 + 1" by simp
    moreover have "0 \<le> z mod 16" "z mod 16 < 16" by simp_all
    ultimately show ?thesis using div_mult_mod_eq [of z 16] unfolding distrib_right by linarith
  qed
  note x = tile [OF p(1,2)] and y = tile [OF p(3,4)]
  have "?b \<in> set (tiles_of e)" unfolding tiles_of_def Let_def d using x y
    by simp (intro bexI [of _ ?j] image_eqI [of _ _ ?i], simp_all)
  moreover have "(x, y) \<in> pixels ?b" using p x y by (simp add: pixels_def)
  ultimately show ?thesis by blast
qed

section \<open>The screen shows the shadow\<close>

text \<open>
  What the server's regions are: sets of pixels. \<open>pix r\<close> are the pixels of the region \<open>r\<close>.
\<close>

definition rect_pixels :: "rect \<Rightarrow> (int \<times> int) set" where
  "rect_pixels q = {rx q..<rx q + rwidth q} \<times> {ry q..<ry q + rheight q}"

lemma rect_pixels_of [simp]: "rect_pixels (rect_of b) = pixels b"
  by (simp add: rect_pixels_def rect_of_def pixels_def)

definition region_laws :: "'r region_ops \<Rightarrow> ('r \<Rightarrow> (int \<times> int) set) \<Rightarrow> bool" where
  "region_laws R pix \<longleftrightarrow>
     (\<forall>r. pix r \<subseteq> pixels (RegionExtents R r)) \<and>
     (\<forall>r b. RegionContainsRect R r b \<longleftrightarrow> pix r \<inter> pixels b \<noteq> {}) \<and>
     (\<forall>qs. pix (RegionFromRects R qs) = (\<Union>q \<in> set qs. rect_pixels q)) \<and>
     (\<forall>r t. pix (RegionIntersect R r t) = pix r \<inter> pix t)"

text \<open>The server's update copies the bytes of the damaged pixels, and no others.\<close>

definition copies_damage ::
  "('r \<Rightarrow> (int \<times> int) set) \<Rightarrow> shadow_mem \<Rightarrow> ('r \<Rightarrow> u8 list \<Rightarrow> u8 list \<Rightarrow> u8 list) \<Rightarrow> bool" where
  "copies_damage pix sm upd \<longleftrightarrow>
     (\<forall>r fb. patched (pixel_bytes sm (pix r)) (sm_new sm) fb (upd r (sm_new sm) fb))"

lemma bytes_at_inject:
  assumes "k \<in> bytes_at sm (x, y)" and "k \<in> bytes_at sm (x', y')" and "(x, y) \<in> pixels e" and "(x', y') \<in> pixels e"
    and "fits sm e"
  shows "(x, y) = (x', y')"
proof -
  let ?d = "sm_devKind sm" and ?c = "sm_cpp sm"
  have c: "0 < ?c" "0 \<le> bx1 e" "bx2 e * ?c \<le> ?d" using assms(5) by (simp_all add: fits_def)
  have line: "y * ?d \<le> int k \<and> int k < (y + 1) * ?d \<and> x * ?c \<le> int k - y * ?d \<and> int k - y * ?d < (x + 1) * ?c"
    if "k \<in> bytes_at sm (x, y)" "(x, y) \<in> pixels e" for x y
  proof -
    have b: "y * ?d + x * ?c \<le> int k" "int k < y * ?d + (x + 1) * ?c" "0 \<le> x" "x + 1 \<le> bx2 e"
      using that c by (auto simp: bytes_at_def pixels_def)
    have "0 \<le> x * ?c" "(x + 1) * ?c \<le> bx2 e * ?c" using b c by (auto intro: mult_right_mono)
    moreover have "(y + 1) * ?d = y * ?d + ?d" by (simp add: distrib_right)
    ultimately show ?thesis using b c by linarith
  qed
  have order: "\<not> a < b" if "a * q \<le> k'" "k' < (a + 1) * q" "b * q \<le> k'" for a b q k' :: int
  proof
    assume "a < b"
    have "0 < q" using that(1,2) by (simp add: distrib_right)
    with \<open>a < b\<close> have "(a + 1) * q \<le> b * q" by (intro mult_right_mono) auto
    with that show False by linarith
  qed
  note l = line [OF assms(1,3)] line [OF assms(2,4)]
  have y: "y = y'" using order [of y ?d "int k" y'] order [of y' ?d "int k" y] l by linarith
  have "x = x'" using order [of x ?c "int k - y * ?d" x'] order [of x' ?c "int k - y * ?d" x] l unfolding y by linarith
  with y show ?thesis by simp
qed

lemma fits_tile:
  assumes "fits sm e" and "b \<in> set (tiles_of e)" and "pixels b \<noteq> {}"
  shows "fits sm b"
proof -
  note t = tiles_inside [OF assms(2)]
  have xy: "bx1 b < bx2 b" "by1 b < by2 b" using assms(3) by (auto simp: pixels_def)
  have e: "0 < sm_cpp sm" "0 \<le> bx1 e" "0 \<le> by1 e" "bx2 e * sm_cpp sm \<le> sm_devKind sm"
    "by2 e * sm_devKind sm \<le> int (length (sm_new sm))" using assms(1) by (simp_all add: fits_def)
  have "pixels e \<noteq> {}" using xy t by (auto simp: pixels_def)
  then have d: "0 < sm_devKind sm" by (rule fits_facts [OF assms(1)])
  have "bx2 b * sm_cpp sm \<le> bx2 e * sm_cpp sm" "by2 b * sm_devKind sm \<le> by2 e * sm_devKind sm"
    using t e d by (auto intro: mult_right_mono)
  with assms(1) t e show ?thesis unfolding fits_def by linarith
qed

lemma damage_reduced:
  assumes laws: "region_laws R pix" and fit: "fits sm (RegionExtents R damage)"
    and out: "\<And>k. k < length (sm_new sm) \<Longrightarrow> k \<notin> pixel_bytes sm (pix damage) \<Longrightarrow> sm_old sm ! k = sm_new sm ! k"
  shows "\<exists>damage'. shadow_damage R True True damage sm = Some (damage', sm\<lparr>sm_old := sm_new sm\<rparr>) \<and>
    pix damage' \<subseteq> pix damage \<and>
    (\<forall>k < length (sm_new sm). sm_old sm ! k \<noteq> sm_new sm ! k \<longrightarrow> k \<in> pixel_bytes sm (pix damage'))"
proof -
  let ?e = "RegionExtents R damage" and ?hit = "RegionContainsRect R damage"
  have ext: "pix damage \<subseteq> pixels ?e" and hit: "\<And>b. ?hit b \<longleftrightarrow> pix damage \<inter> pixels b \<noteq> {}"
    and rects: "\<And>qs. pix (RegionFromRects R qs) = (\<Union>q \<in> set qs. rect_pixels q)"
    and meet: "\<And>r t. pix (RegionIntersect R r t) = pix r \<inter> pix t"
    using laws by (simp_all add: region_laws_def)
  have c: "0 \<le> bx1 ?e" "0 \<le> by1 ?e" "length (sm_old sm) = length (sm_new sm)" using fit by (simp_all add: fits_def)
  let ?bs = "{b \<in> set (tiles_of ?e). ?hit b}"
  have tiles: "\<forall>b \<in> set (tiles_of ?e). ?hit b \<longrightarrow> fits sm b \<and> pixels b \<noteq> {}"
    using fits_tile [OF fit] hit by blast
  from update_tiles_patches [OF tiles] obtain rs old' where u:
    "update_tiles ?hit (tiles_of ?e) sm = Some (map rect_of rs, sm\<lparr>sm_old := old'\<rparr>)"
    "patched (\<Union>b \<in> ?bs. pixel_bytes sm (pixels b)) (sm_new sm) (sm_old sm) old'" "set rs \<subseteq> ?bs"
    "\<forall>k \<in> \<Union>b \<in> ?bs. pixel_bytes sm (pixels b). sm_old sm ! k \<noteq> sm_new sm ! k \<longrightarrow> (\<exists>b \<in> set rs. k \<in> pixel_bytes sm (pixels b))"
    by (elim exE conjE) (rule that)
  have cover: "k \<in> (\<Union>b \<in> ?bs. pixel_bytes sm (pixels b))" if k: "k \<in> bytes_at sm p" "p \<in> pix damage" for k p
  proof -
    obtain x y where p: "p = (x, y)" by (cases p)
    have "(x, y) \<in> pixels ?e" using k ext p by blast
    then obtain b where b: "b \<in> set (tiles_of ?e)" "(x, y) \<in> pixels b" using tiles_cover [OF _ c(1,2)] by blast
    have "?hit b" unfolding hit using b(2) k(2) p by auto
    with b(1) have "b \<in> ?bs" by simp
    moreover have "k \<in> pixel_bytes sm (pixels b)" unfolding pixel_bytes_def using b(2) k(1) p by (intro UN_I [of p]) simp_all
    ultimately show ?thesis by (rule UN_I)
  qed
  have in_tile: "k \<in> (\<Union>b \<in> ?bs. pixel_bytes sm (pixels b))" if "k \<in> pixel_bytes sm (pix damage)" for k
    using that unfolding pixel_bytes_def [of sm "pix damage"] by (elim UN_E) (rule cover)
  have "old' ! k = sm_new sm ! k" if k: "k < length (sm_new sm)" for k
  proof (cases "k \<in> pixel_bytes sm (pix damage)")
    case True
    from u(2) in_tile [OF this] k c(3) show ?thesis by (simp only: patched_def if_True)
  next
    case False
    from out [OF k this] u(2) k c(3) show ?thesis by (simp only: patched_def if_cancel split: if_split)
  qed
  then have old': "old' = sm_new sm" using u(2) c(3) by (simp add: patched_def list_eq_iff_nth_eq)
  let ?d = "RegionIntersect R damage (RegionFromRects R (map rect_of rs))"
  have d: "pix ?d = pix damage \<inter> (\<Union>b \<in> set rs. pixels b)" unfolding meet rects by simp
  have "k \<in> pixel_bytes sm (pix ?d)" if k: "k < length (sm_new sm)" "sm_old sm ! k \<noteq> sm_new sm ! k" for k
  proof -
    from out [OF k(1)] k(2) have "k \<in> pixel_bytes sm (pix damage)" by blast
    then obtain x y where p: "(x, y) \<in> pix damage" "k \<in> bytes_at sm (x, y)" by (auto simp: pixel_bytes_def)
    from bspec [OF u(4) cover [OF p(2,1)]] k(2) obtain b where b: "b \<in> set rs" "k \<in> pixel_bytes sm (pixels b)" by blast
    then obtain x' y' where q: "(x', y') \<in> pixels b" "k \<in> bytes_at sm (x', y')" by (auto simp: pixel_bytes_def)
    have "b \<in> set (tiles_of ?e)" using b u(3) by blast
    from tiles_inside [OF this] q(1) have "(x', y') \<in> pixels ?e" by (auto simp: pixels_def)
    from bytes_at_inject [OF p(2) q(2) _ this fit] p(1) ext have "(x, y) = (x', y')" by (simp add: subsetD)
    then have "(x, y) \<in> pix ?d" unfolding d using p(1) q(1) b(1) by auto
    with p(2) show ?thesis unfolding pixel_bytes_def by (intro UN_I)
  qed
  moreover have "shadow_damage R True True damage sm = Some (?d, sm\<lparr>sm_old := sm_new sm\<rparr>)"
    unfolding shadow_damage_def u(1) old' by simp
  moreover have "pix ?d \<subseteq> pix damage" unfolding d by (rule Int_lower1)
  ultimately show ?thesis by blast
qed

text \<open>
  C30. After every update the screen shows the shadow. If the screen showed the shadow
  outside the damage and, with double updates, the second shadow is what the screen shows, then
  the update accesses no memory outside the shadows, and afterwards every byte of the screen is
  that of the shadow, and so is every byte of the second shadow when the tiles were compared:
  comparing tiles drops damage that changes nothing and never drops a pixel that changed.
\<close>

theorem shadow_update_shows:
  assumes "region_laws R pix" and "fits sm (RegionExtents R damage)"
    and "\<not> (force_24_32 m \<and> bitsPerPixel m = 32)" and "copies_damage pix sm (UpdatePacked A)"
    and "length fb = length (sm_new sm)"
    and "\<forall>k < length fb. k \<notin> pixel_bytes sm (pix damage) \<longrightarrow> fb ! k = sm_new sm ! k"
    and "compared = (shadow_enable2 m \<and> shadow_fb2 m \<noteq> None \<and> alloc)"
    and "compared \<longrightarrow> sm_old sm = fb"
  shows "\<exists>damage'. LS_ShadowUpdatePacked R A m alloc damage sm fb =
      Some (damage', (if compared then sm\<lparr>sm_old := sm_new sm\<rparr> else sm), sm_new sm) \<and> pix damage' \<subseteq> pix damage"
proof -
  have show_all: "UpdatePacked A r (sm_new sm) fb = sm_new sm"
    if "\<forall>k < length fb. fb ! k \<noteq> sm_new sm ! k \<longrightarrow> k \<in> pixel_bytes sm (pix r)" for r
    using assms(4,5) that by (auto simp: copies_damage_def patched_def list_eq_iff_nth_eq)
  show ?thesis
  proof (cases compared)
    case False
    with assms(7) have "\<not> (shadow_enable2 m \<and> shadow_fb2 m \<noteq> None \<and> alloc)" by blast
    then have "shadow_damage R alloc (shadow_enable2 m \<and> shadow_fb2 m \<noteq> None) damage sm = Some (damage, sm)"
      by (auto simp: shadow_damage_def)
    moreover have "UpdatePacked A damage (sm_new sm) fb = sm_new sm" by (rule show_all) (use assms(6) in blast)
    ultimately show ?thesis using assms(3) False by (auto simp: LS_ShadowUpdatePacked_def)
  next
    case True
    then have c: "shadow_enable2 m" "shadow_fb2 m \<noteq> None" "alloc" "sm_old sm = fb" using assms(7,8) by simp_all
    from damage_reduced [OF assms(1,2)] assms(5,6) c(4) obtain damage' where d:
      "shadow_damage R True True damage sm = Some (damage', sm\<lparr>sm_old := sm_new sm\<rparr>)" "pix damage' \<subseteq> pix damage"
      "\<forall>k < length (sm_new sm). fb ! k \<noteq> sm_new sm ! k \<longrightarrow> k \<in> pixel_bytes sm (pix damage')" by auto
    from show_all [of damage'] d(3) assms(5) have "UpdatePacked A damage' (sm_new sm) fb = sm_new sm" by simp
    with d c assms(3) True show ?thesis by (auto simp: LS_ShadowUpdatePacked_def)
  qed
qed

section \<open>Examples\<close>

text \<open>Regions as lists of pixels.\<close>

definition list_regions :: "(int \<times> int) list region_ops" where
  "list_regions = \<lparr>
     RegionExtents = (\<lambda>r. if r = [] then zero_box
       else \<lparr>bx1 = Min (set (map fst r)), by1 = Min (set (map snd r)), bx2 = Max (set (map fst r)) + 1, by2 = Max (set (map snd r)) + 1\<rparr>),
     RegionContainsRect = (\<lambda>r b. list_ex (\<lambda>(x, y). bx1 b \<le> x \<and> x < bx2 b \<and> by1 b \<le> y \<and> y < by2 b) r),
     RegionFromRects = (\<lambda>qs. concat (map (\<lambda>q. List.product [rx q..rx q + rwidth q - 1] [ry q..ry q + rheight q - 1]) qs)),
     RegionIntersect = (\<lambda>r t. filter (\<lambda>p. p \<in> set t) r)\<rparr>"

lemma list_regions_laws: "region_laws list_regions set"
proof -
  have "(x, y) \<in> pixels (RegionExtents list_regions r)" if m: "(x, y) \<in> set r" for x y and r :: "(int \<times> int) list"
  proof -
    have "x \<in> set (map fst r)" "y \<in> set (map snd r)" using m by force+
    then have "Min (set (map fst r)) \<le> x" "x \<le> Max (set (map fst r))" "Min (set (map snd r)) \<le> y" "y \<le> Max (set (map snd r))"
      by (auto intro: Min_le Max_ge)
    with m show ?thesis by (auto simp: list_regions_def pixels_def)
  qed
  moreover have "RegionContainsRect list_regions r b \<longleftrightarrow> set r \<inter> pixels b \<noteq> {}" for r b
    by (auto simp: list_regions_def pixels_def list_ex_iff)
  moreover have "set (RegionFromRects list_regions qs) = (\<Union>q \<in> set qs. rect_pixels q)" for qs
    by (auto simp: list_regions_def rect_pixels_def)
  moreover have "set (RegionIntersect list_regions r t) = set r \<inter> set t" for r t
    by (auto simp: list_regions_def)
  ultimately show ?thesis unfolding region_laws_def by auto
qed

definition byte_screen :: shadow_mem where
  "byte_screen = \<lparr>sm_new = [1, 2, 3, 4, 5, 6, 7, 8], sm_old = [1, 2, 9, 4, 5, 6, 7, 8], sm_devKind = 4, sm_cpp = 1\<rparr>"

definition copy_pixels :: "(int \<times> int) list \<Rightarrow> u8 list \<Rightarrow> u8 list \<Rightarrow> u8 list" where
  "copy_pixels r new fb = map (\<lambda>k. if list_ex (\<lambda>(x, y). y * 4 + x = int k) r then new ! k else fb ! k) [0..<length fb]"

lemma copy_pixels_copies: "copies_damage set byte_screen copy_pixels"
proof -
  have "k \<in> pixel_bytes byte_screen (set r) \<longleftrightarrow> list_ex (\<lambda>(x, y). y * 4 + x = int k) r" for k r
    by (force simp: pixel_bytes_def bytes_at_def byte_screen_def list_ex_iff)
  then show ?thesis
    by (auto simp: copies_damage_def patched_def copy_pixels_def)
qed

lemma shadow_update_shows_witness:
  "\<exists>damage'. LS_ShadowUpdatePacked list_regions \<lparr>Update32to24 = copy_pixels, UpdatePacked = copy_pixels\<rparr>
     (zero_ms\<lparr>shadow_enable2 := True, shadow_fb2 := Some 8\<rparr>) True [(2, 0), (3, 0)] byte_screen [1, 2, 9, 4, 5, 6, 7, 8] =
   Some (damage', byte_screen\<lparr>sm_old := [1, 2, 3, 4, 5, 6, 7, 8]\<rparr>, [1, 2, 3, 4, 5, 6, 7, 8]) \<and>
   set damage' \<subseteq> {(2, 0), (3, 0)}"
proof -
  let ?m = "zero_ms\<lparr>shadow_enable2 := True, shadow_fb2 := Some 8\<rparr>" and ?fb = "[1, 2, 9, 4, 5, 6, 7, 8] :: u8 list"
  let ?A = "\<lparr>Update32to24 = copy_pixels, UpdatePacked = copy_pixels\<rparr>" and ?r = "[(2, 0), (3, 0)] :: (int \<times> int) list"
  have "fits byte_screen (RegionExtents list_regions ?r)"
    by (simp add: fits_def byte_screen_def list_regions_def)
  moreover have "\<not> (force_24_32 ?m \<and> bitsPerPixel ?m = 32)" by (simp add: zero_ms_def)
  moreover have "copies_damage set byte_screen (UpdatePacked ?A)" using copy_pixels_copies by simp
  moreover have "length ?fb = length (sm_new byte_screen)" by (simp add: byte_screen_def)
  moreover have "\<forall>k < length ?fb. k \<notin> pixel_bytes byte_screen (set ?r) \<longrightarrow> ?fb ! k = sm_new byte_screen ! k"
    by (simp add: byte_screen_def pixel_bytes_def bytes_at_def nth_Cons' less_Suc_eq)
  moreover have "True = (shadow_enable2 ?m \<and> shadow_fb2 ?m \<noteq> None \<and> True)" by simp
  moreover have "True \<longrightarrow> sm_old byte_screen = ?fb" by (simp add: byte_screen_def)
  ultimately show ?thesis
    using shadow_update_shows [OF list_regions_laws, of byte_screen ?r ?m ?A ?fb True True]
    by (simp add: byte_screen_def)
qed

end
