(* ===== verification/Exa_Pixmaps.thy ===== *)
theory Exa_Pixmaps
  imports Dri2_Ext
begin

text \<open>
  The pixmaps of the EXA layer: their memory (\<^verbatim>\<open>src/src/loongson_buffer.c\<close>,
  \<^verbatim>\<open>src/src/loongson_pixmap.c\<close>), the driver functions of EXA
  (\<^verbatim>\<open>src/src/fake_exa.c\<close>) and DRI3 on top of them (\<^verbatim>\<open>src/src/dri3.c\<close>). A
  pixmap has a dumb buffer of the kernel or allocated memory, by its usage. The driver private
  of a pixmap is \<open>exa_privs\<close>, allocated memory is \<open>buf_mem\<close> by address, with its size.
\<close>

section \<open>Allocated memory\<close>

definition malloc :: "u32 \<Rightarrow> 'k drv \<Rightarrow> nat option \<times> 'k drv" where
  "malloc sz s =
     (case calloc s of (ok, s) \<Rightarrow>
        if \<not> ok then (None, s)
        else (Some (next_addr s), s\<lparr>buf_mem := (buf_mem s)(next_addr s \<mapsto> sz), next_addr := next_addr s + 1\<rparr>))"

definition free_mem :: "nat \<Rightarrow> 'k drv \<Rightarrow> 'k drv" where
  "free_mem a s = (if buf_mem s a = None then misc_fault s else s\<lparr>buf_mem := (buf_mem s)(a := None)\<rparr>)"

text \<open>
  The length of a line, in whole \<^verbatim>\<open>FbBits\<close> (32 bits) and then in multiples of 16 bytes.
  \<open>width\<close> times \<open>bpp\<close> is an \<^verbatim>\<open>int\<close>, the rest unsigned.
\<close>

definition buf_pitch :: "int \<Rightarrow> int \<Rightarrow> u32" where
  "buf_pitch width bpp =
     (let pitch = word_of_int (((width * bpp + 31) div 32) * 4) :: u32
      in (pitch + 15) AND 0xfffffff0)"

definition LS_AllocBuf :: "int \<Rightarrow> int \<Rightarrow> int \<Rightarrow> 'k drv \<Rightarrow> loongson_buf \<times> 'k drv" where
  "LS_AllocBuf width height bpp s =
     (let pitch = buf_pitch width bpp; sz = pitch * word_of_int height in
      case malloc sz s of (p, s) \<Rightarrow>
        (\<lparr>lb_pDat = p, lb_size = sz, lb_pitch = pitch, lb_width = word_of_int width, lb_height = word_of_int height\<rparr>, s))"

definition LS_FreeBuf :: "loongson_buf \<Rightarrow> 'k drv \<Rightarrow> loongson_buf \<times> 'k drv" where
  "LS_FreeBuf buf s =
     (case lb_pDat buf of
        None \<Rightarrow> (buf, s)
      | Some a \<Rightarrow> (zero_buf, free_mem a s))"

section \<open>Pixmaps\<close>

abbreviation (input) CREATE_PIXMAP_USAGE_SCRATCH :: u32 where "CREATE_PIXMAP_USAGE_SCRATCH \<equiv> 1"
abbreviation (input) CREATE_PIXMAP_USAGE_BACKING_PIXMAP :: u32 where "CREATE_PIXMAP_USAGE_BACKING_PIXMAP \<equiv> 2"
abbreviation (input) CREATE_PIXMAP_USAGE_GLYPH_PICTURE :: u32 where "CREATE_PIXMAP_USAGE_GLYPH_PICTURE \<equiv> 3"
abbreviation (input) CREATE_PIXMAP_USAGE_SHARED :: u32 where "CREATE_PIXMAP_USAGE_SHARED \<equiv> 4"
abbreviation (input) CREATE_PIXMAP_USAGE_SCANOUT :: u32 where "CREATE_PIXMAP_USAGE_SCANOUT \<equiv> 0x80000000"

definition LS_IsDumbPixmap :: "u32 \<Rightarrow> bool" where
  "LS_IsDumbPixmap usage_hint =
     (if usage_hint = CREATE_PIXMAP_USAGE_BACKING_PIXMAP then True
      else if usage_hint = CREATE_PIXMAP_USAGE_SHARED then True
      else if usage_hint = CREATE_PIXMAP_USAGE_GLYPH_PICTURE then False
      else if usage_hint = CREATE_PIXMAP_USAGE_SCRATCH then False
      else if usage_hint = CREATE_PIXMAP_USAGE_SCANOUT then True
      else False)"

text \<open>
  A creation gives the private (a null pointer is \<open>None\<close>) and the line length it reports, if
  any. When there is no memory for the pixels the code frees \<^verbatim>\<open>&priv->buf\<close>, a pointer
  into the record it allocated: that is undefined.
\<close>

definition LS_CreateExaPixmap ::
  "int \<Rightarrow> int \<Rightarrow> int \<Rightarrow> u32 \<Rightarrow> int \<Rightarrow> 'k drv \<Rightarrow> (exa_priv option \<times> u32 option) \<times> 'k drv" where
  "LS_CreateExaPixmap width height pixdepth usage_hint bpp s =
     (case calloc s of (ok, s) \<Rightarrow>
        if \<not> ok then ((None, None), s)
        else
          let priv = zero_exa\<lparr>ep_usage_hint := usage_hint\<rparr> in
          if width > 0 \<and> height > 0 \<and> pixdepth > 0 \<and> bpp > 0 then
            (case LS_AllocBuf width height bpp s of (buf, s) \<Rightarrow>
               if lb_pDat buf = None then ((None, None), misc_fault s)
               else ((Some (priv\<lparr>ep_buf := buf\<rparr>), Some (lb_pitch buf)), s))
          else ((Some priv, Some (lb_pitch (ep_buf priv))), s))"

definition LS_DestroyExaPixmap :: "exa_priv \<Rightarrow> 'k drv \<Rightarrow> 'k drv" where
  "LS_DestroyExaPixmap priv s = snd (LS_FreeBuf (ep_buf priv) s)"

definition LS_CreateDumbPixmap ::
  "'k kernel \<Rightarrow> int \<Rightarrow> int \<Rightarrow> u32 \<Rightarrow> int \<Rightarrow> 'k drv \<Rightarrow> (exa_priv option \<times> u32 option) \<times> 'k drv" where
  "LS_CreateDumbPixmap K width height usage_hint bpp s =
     (case calloc s of (ok, s) \<Rightarrow>
        if \<not> ok then ((None, None), s)
        else
          let priv = zero_exa\<lparr>ep_usage_hint := usage_hint\<rparr> in
          if width = 0 \<and> height = 0 then ((Some priv, None), s)
          else case dumb_bo_create K (word_of_int width) (word_of_int height) (word_of_int bpp) s of
            (None, s) \<Rightarrow> ((None, None), s)
          | (Some bo, s) \<Rightarrow>
              (case drmPrimeHandleToFD K (db_handle bo) (kst s) of
                 ((ret, prime_fd), k) \<Rightarrow>
                   let s = s\<lparr>kst := k\<rparr> in
                   if ret \<noteq> 0 then ((None, None), s)
                   else ((Some (priv\<lparr>ep_bo := Some bo, ep_owned := True, ep_pitch := uint (db_pitch bo)\<rparr>),
                          Some (db_pitch bo)), s)))"

definition LS_DestroyDumbPixmap :: "'k kernel \<Rightarrow> exa_priv \<Rightarrow> 'k drv \<Rightarrow> 'k drv" where
  "LS_DestroyDumbPixmap K priv s =
     (let s = (if ep_fd priv > 0 then s\<lparr>kst := close_fd K (ep_fd priv) (kst s)\<rparr> else s)
      in case ep_bo priv of
           Some bo \<Rightarrow> if ep_owned priv then snd (dumb_bo_destroy K bo s) else s
         | None \<Rightarrow> s)"

definition ms_exa_create_pixmap2 ::
  "'k kernel \<Rightarrow> int \<Rightarrow> int \<Rightarrow> int \<Rightarrow> u32 \<Rightarrow> int \<Rightarrow> 'k drv \<Rightarrow> (exa_priv option \<times> u32 option) \<times> 'k drv" where
  "ms_exa_create_pixmap2 K width height pixdepth usage_hint bpp s =
     (if LS_IsDumbPixmap usage_hint then LS_CreateDumbPixmap K width height usage_hint bpp s
      else LS_CreateExaPixmap width height pixdepth usage_hint bpp s)"

definition ms_exa_destroy_pixmap :: "'k kernel \<Rightarrow> exa_priv \<Rightarrow> 'k drv \<Rightarrow> 'k drv" where
  "ms_exa_destroy_pixmap K priv s =
     (if LS_IsDumbPixmap (ep_usage_hint priv) then LS_DestroyDumbPixmap K priv s
      else LS_DestroyExaPixmap priv s)"

section \<open>Access by the CPU\<close>

text \<open>
  A private that is null is read before it is tested, and so is a null buffer: those are
  faults. The mapping of a buffer is kept with the private of the pixmap.
\<close>

definition ms_exa_prepare_access :: "'k kernel \<Rightarrow> nat \<Rightarrow> 'k drv \<Rightarrow> bool \<times> 'k drv" where
  "ms_exa_prepare_access K px s =
     (case exa_privs s px of
        None \<Rightarrow> (False, misc_fault s)
      | Some priv \<Rightarrow>
          if LS_IsDumbPixmap (ep_usage_hint priv) then
            if pix_ptr s px \<noteq> None then (True, s)
            else case ep_bo priv of
              None \<Rightarrow> (False, misc_fault s)
            | Some bo \<Rightarrow>
                (case dumb_bo_map K bo s of
                   ((ret, bo), s) \<Rightarrow>
                     let p = (if db_ptr bo then Some (BO_MAPPING (db_handle bo)) else None)
                     in (p \<noteq> None, s\<lparr>exa_privs := (exa_privs s)(px \<mapsto> priv\<lparr>ep_bo := Some bo\<rparr>),
                                    pix_ptr := (pix_ptr s)(px := p)\<rparr>))
          else
            let p = map_option BUF_MEMORY (lb_pDat (ep_buf priv))
            in (p \<noteq> None, s\<lparr>pix_ptr := (pix_ptr s)(px := p)\<rparr>))"

definition ms_exa_finish_access :: "nat \<Rightarrow> 'k drv \<Rightarrow> 'k drv" where
  "ms_exa_finish_access px s =
     (case exa_privs s px of
        None \<Rightarrow> s
      | Some priv \<Rightarrow> if ep_bo priv \<noteq> None then s\<lparr>pix_ptr := (pix_ptr s)(px := None)\<rparr> else s)"

definition ms_exa_pixmap_is_offscreen :: "nat \<Rightarrow> 'k drv \<Rightarrow> bool" where
  "ms_exa_pixmap_is_offscreen px s =
     (case exa_privs s px of
        None \<Rightarrow> False
      | Some priv \<Rightarrow>
          if LS_IsDumbPixmap (ep_usage_hint priv) then ep_bo priv \<noteq> None
          else lb_pDat (ep_buf priv) \<noteq> None)"

section \<open>Software rendering\<close>

definition ms_exa_prepare_solid :: "int \<Rightarrow> u32 \<Rightarrow> u32 \<Rightarrow> 'k drv \<Rightarrow> bool \<times> 'k drv" where
  "ms_exa_prepare_solid alu planemask fg s =
     (True, s\<lparr>exa_prepare_args := (exa_prepare_args s)\<lparr>solid_alu := alu, solid_planemask := planemask, solid_fg := fg\<rparr>\<rparr>)"

definition ms_exa_solid :: "'k kernel \<Rightarrow> nat \<Rightarrow> int \<Rightarrow> int \<Rightarrow> int \<Rightarrow> int \<Rightarrow> 'k drv \<Rightarrow> 'k drv" where
  "ms_exa_solid K px x1 y1 x2 y2 s =
     (let a = exa_prepare_args s;
          s = snd (ms_exa_prepare_access K px s);
          s = emit (Fb_fill px (pix_ptr s px) (solid_alu a) (solid_planemask a) (solid_fg a) (x1, y1) (x2 - x1, y2 - y1)) s
      in ms_exa_finish_access px s)"

definition ms_exa_prepare_copy :: "nat \<Rightarrow> int \<Rightarrow> u32 \<Rightarrow> 'k drv \<Rightarrow> bool \<times> 'k drv" where
  "ms_exa_prepare_copy src alu planemask s =
     (True, s\<lparr>exa_prepare_args := (exa_prepare_args s)\<lparr>copy_src := Some src, copy_alu := alu, copy_planemask := planemask\<rparr>\<rparr>)"

definition ms_exa_copy ::
  "'k kernel \<Rightarrow> nat \<Rightarrow> int \<Rightarrow> int \<Rightarrow> int \<Rightarrow> int \<Rightarrow> int \<Rightarrow> int \<Rightarrow> 'k drv \<Rightarrow> 'k drv" where
  "ms_exa_copy K dst srcX srcY dstX dstY width height s =
     (let a = exa_prepare_args s in
      case copy_src a of
        None \<Rightarrow> misc_fault s
      | Some src \<Rightarrow>
          let s = snd (ms_exa_prepare_access K dst (snd (ms_exa_prepare_access K src s)));
              s = emit (Fb_copy src (pix_ptr s src) dst (pix_ptr s dst) (copy_alu a) (copy_planemask a)
                          (srcX, srcY) (width, height) (dstX, dstY)) s
          in ms_exa_finish_access src (ms_exa_finish_access dst s))"

definition ms_exa_check_composite :: "bool \<Rightarrow> bool" where
  "ms_exa_check_composite src_has_drawable = (if \<not> src_has_drawable then False else True)"

definition ms_exa_prepare_composite ::
  "int \<Rightarrow> nat \<Rightarrow> nat option \<Rightarrow> nat \<Rightarrow> nat option \<Rightarrow> nat option \<Rightarrow> 'k drv \<Rightarrow> bool \<times> 'k drv" where
  "ms_exa_prepare_composite op src_picture mask_picture dst_picture src msk s =
     (True, s\<lparr>exa_prepare_args := (exa_prepare_args s)\<lparr>comp_op := op, comp_src_picture := Some src_picture,
        comp_mask_picture := mask_picture, comp_dst_picture := Some dst_picture, comp_src := src, comp_mask := msk\<rparr>\<rparr>)"

definition ms_exa_composite ::
  "'k kernel \<Rightarrow> nat \<Rightarrow> int \<times> int \<Rightarrow> int \<times> int \<Rightarrow> int \<times> int \<Rightarrow> int \<times> int \<Rightarrow> 'k drv \<Rightarrow> 'k drv" where
  "ms_exa_composite K dst src_at mask_at dst_at extent s =
     (let a = exa_prepare_args s;
          s = (case comp_mask a of None \<Rightarrow> s | Some m \<Rightarrow> snd (ms_exa_prepare_access K m s))
      in case comp_src a of
           None \<Rightarrow> misc_fault s
         | Some src \<Rightarrow>
             let s = snd (ms_exa_prepare_access K dst (snd (ms_exa_prepare_access K src s)));
                 s = emit (Fb_composite (comp_op a) (comp_src_picture a) (comp_mask_picture a) (comp_dst_picture a)
                             (pix_ptr s src) (map_option (pix_ptr s) (comp_mask a)) (pix_ptr s dst)
                             src_at mask_at dst_at extent) s;
                 s = ms_exa_finish_access src (ms_exa_finish_access dst s)
             in case comp_mask a of None \<Rightarrow> s | Some m \<Rightarrow> ms_exa_finish_access m s)"

section \<open>Buffers of pixmaps\<close>

text \<open>
  \<open>bo\<close> becomes the buffer of the pixmap. The old one is gone already when the export of the
  new one fails, and the private still points to it.
\<close>

definition ms_exa_set_pixmap_bo :: "'k kernel \<Rightarrow> nat \<Rightarrow> nat \<Rightarrow> dumb_bo \<Rightarrow> bool \<Rightarrow> 'k drv \<Rightarrow> bool \<times> 'k drv" where
  "ms_exa_set_pixmap_bo K scr px bo owned s =
     (case exa_privs s px of
        None \<Rightarrow> (False, s)
      | Some priv \<Rightarrow>
          if \<not> exaDrvPtr (mss s scr) then (False, s)
          else
            let s = (if ep_fd priv > 0 then s\<lparr>kst := close_fd K (ep_fd priv) (kst s)\<rparr> else s);
                s = (case ep_bo priv of
                       Some old \<Rightarrow> if ep_owned priv then snd (dumb_bo_destroy K old s) else s
                     | None \<Rightarrow> s)
            in case drmPrimeHandleToFD K (db_handle bo) (kst s) of
                 ((ret, prime_fd), k) \<Rightarrow>
                   let s = s\<lparr>kst := k\<rparr> in
                   if ret \<noteq> 0 then (False, s)
                   else
                     let priv = priv\<lparr>ep_bo := Some bo, ep_fd := prime_fd, ep_pitch := uint (db_pitch bo), ep_owned := owned\<rparr>
                     in (True, s\<lparr>exa_privs := (exa_privs s)(px \<mapsto> priv), pix_ptr := (pix_ptr s)(px := None),
                                 kst := set_devKind K px (db_pitch bo) (kst s)\<rparr>))"

definition ms_exa_bo_from_pixmap :: "nat \<Rightarrow> nat \<Rightarrow> 'k drv \<Rightarrow> dumb_bo option" where
  "ms_exa_bo_from_pixmap scr px s =
     (if \<not> exaDrvPtr (mss s scr) then None
      else case exa_privs s px of None \<Rightarrow> None | Some priv \<Rightarrow> ep_bo priv)"

definition ms_exa_shareable_fd_from_pixmap :: "nat \<Rightarrow> nat \<Rightarrow> 'k drv \<Rightarrow> int" where
  "ms_exa_shareable_fd_from_pixmap scr px s =
     (if \<not> exaDrvPtr (mss s scr) then -1
      else case exa_privs s px of
        None \<Rightarrow> -1
      | Some priv \<Rightarrow> if ep_fd priv = 0 then -1 else ep_fd priv)"

text \<open>
  What the server's pixmap functions do to the driver's state when EXA runs: they call the
  driver back. The arguments of \<^verbatim>\<open>CreatePixmap\<close> are the size, the depth and the usage.
\<close>

record 'k exa_server =
  exa_CreatePixmap :: "nat \<Rightarrow> int \<Rightarrow> int \<Rightarrow> int \<Rightarrow> u32 \<Rightarrow> 'k drv \<Rightarrow> nat option \<times> 'k drv"
  exa_ModifyPixmapHeader :: "nat \<Rightarrow> int \<Rightarrow> int \<Rightarrow> int \<Rightarrow> int \<Rightarrow> int \<Rightarrow> 'k drv \<Rightarrow> bool \<times> 'k drv"
  exa_DestroyPixmap :: "nat \<Rightarrow> 'k drv \<Rightarrow> 'k drv"

definition ms_exa_back_pixmap_from_fd ::
  "'k kernel \<Rightarrow> 'k exa_server \<Rightarrow> nat \<Rightarrow> nat \<Rightarrow> int \<Rightarrow> u16 \<Rightarrow> u16 \<Rightarrow> u16 \<Rightarrow> u8 \<Rightarrow> u8 \<Rightarrow> 'k drv \<Rightarrow> bool \<times> 'k drv" where
  "ms_exa_back_pixmap_from_fd K X scr px fd width height stride pixdepth bpp s =
     (case dumb_get_bo_from_fd K fd (ucast stride) (ucast stride * ucast height) s of
        (None, s) \<Rightarrow> (False, s)
      | (Some bo, s) \<Rightarrow>
          (let s = snd (exa_ModifyPixmapHeader X px (uint width) (uint height) (uint pixdepth) (uint bpp) (uint stride) s)
           in case ms_exa_set_pixmap_bo K scr px bo True s of
                (ret, s) \<Rightarrow> (ret, if \<not> ret then snd (dumb_bo_destroy K bo s) else s)))"

section \<open>The EXA driver record\<close>

abbreviation (input) EXA_ACCEL_TYPE_FAKE :: nat where "EXA_ACCEL_TYPE_FAKE \<equiv> 1"
abbreviation (input) EXA_ACCEL_TYPE_SOFTWARE :: nat where "EXA_ACCEL_TYPE_SOFTWARE \<equiv> 2"
abbreviation (input) EXA_ACCEL_TYPE_VIVANTE :: nat where "EXA_ACCEL_TYPE_VIVANTE \<equiv> 3"
abbreviation (input) EXA_ACCEL_TYPE_ETNAVIV :: nat where "EXA_ACCEL_TYPE_ETNAVIV \<equiv> 4"

text \<open>
  The operations the server calls, by what \<^verbatim>\<open>ms_setup_exa\<close> enters: with the fake type
  each prepare function refuses, so that the server draws itself.
\<close>

record 'k exa_driver =
  maxX :: int
  maxY :: int
  pixmapOffsetAlign :: int
  pixmapPitchAlign :: int
  PrepareSolid :: "int \<Rightarrow> u32 \<Rightarrow> u32 \<Rightarrow> 'k drv \<Rightarrow> bool \<times> 'k drv"
  PrepareCopy :: "nat \<Rightarrow> int \<Rightarrow> u32 \<Rightarrow> 'k drv \<Rightarrow> bool \<times> 'k drv"
  CheckComposite :: "bool \<Rightarrow> bool"
  PrepareComposite :: "int \<Rightarrow> nat \<Rightarrow> nat option \<Rightarrow> nat \<Rightarrow> nat option \<Rightarrow> nat option \<Rightarrow> 'k drv \<Rightarrow> bool \<times> 'k drv"

definition PrepareSolidFail :: "int \<Rightarrow> u32 \<Rightarrow> u32 \<Rightarrow> 'k drv \<Rightarrow> bool \<times> 'k drv" where
  "PrepareSolidFail alu planemask fg s = (False, s)"

definition PrepareCopyFail :: "nat \<Rightarrow> int \<Rightarrow> u32 \<Rightarrow> 'k drv \<Rightarrow> bool \<times> 'k drv" where
  "PrepareCopyFail src alu planemask s = (False, s)"

definition CheckCompositeFail :: "bool \<Rightarrow> bool" where
  "CheckCompositeFail src_has_drawable = False"

definition PrepareCompositeFail ::
  "int \<Rightarrow> nat \<Rightarrow> nat option \<Rightarrow> nat \<Rightarrow> nat option \<Rightarrow> nat option \<Rightarrow> 'k drv \<Rightarrow> bool \<times> 'k drv" where
  "PrepareCompositeFail op src_picture mask_picture dst_picture src msk s = (False, s)"

definition ms_setup_exa :: "nat \<Rightarrow> 'k drv \<Rightarrow> 'k exa_driver" where
  "ms_setup_exa scr s =
     (let d = \<lparr>maxX = 8192, maxY = 8192, pixmapOffsetAlign = 16, pixmapPitchAlign = 256,
               PrepareSolid = ms_exa_prepare_solid, PrepareCopy = ms_exa_prepare_copy,
               CheckComposite = ms_exa_check_composite, PrepareComposite = ms_exa_prepare_composite\<rparr>
      in if exa_acc_type (mss s scr) = EXA_ACCEL_TYPE_FAKE then
           d\<lparr>PrepareCopy := PrepareCopyFail, PrepareSolid := PrepareSolidFail,
             CheckComposite := CheckCompositeFail, PrepareComposite := PrepareCompositeFail\<rparr>
         else d)"

text \<open>
  \<open>accel_method\<close> and \<open>exa_type\<close> are the options of the configuration file, if given. A type
  that is not known leaves the field as it was.
\<close>

definition try_enable_exa :: "string option \<Rightarrow> string option \<Rightarrow> nat \<Rightarrow> 'k drv \<Rightarrow> 'k drv" where
  "try_enable_exa accel_method exa_type scr s =
     (let do_exa = (accel_method = Some ''exa'' \<or> accel_method = Some ''EXA'') in
      if do_exa then
        upd_ms scr (\<lambda>m. m\<lparr>exa_enabled := True, exa_acc_type :=
            (case exa_type of
               None \<Rightarrow> EXA_ACCEL_TYPE_FAKE
             | Some t \<Rightarrow>
                 if t = ''fake'' then EXA_ACCEL_TYPE_FAKE
                 else if t = ''software'' then EXA_ACCEL_TYPE_SOFTWARE
                 else if t = ''vivante'' then EXA_ACCEL_TYPE_VIVANTE
                 else if t = ''etnaviv'' then EXA_ACCEL_TYPE_ETNAVIV
                 else exa_acc_type m)\<rparr>) s
      else upd_ms scr (\<lambda>m. m\<lparr>exa_enabled := False, exa_acc_type := EXA_ACCEL_TYPE_FAKE\<rparr>) s)"

text \<open>
  \<open>alloc\<close> and \<open>init\<close> are the results of \<^verbatim>\<open>exaDriverAlloc\<close> and
  \<^verbatim>\<open>exaDriverInit\<close>; \<open>dev\<close> tells whether \<^verbatim>\<open>pScreen->devPrivate\<close> is the screen's
  pixmap, and \<open>fini\<close> stands for \<^verbatim>\<open>exaDriverFini\<close>.
\<close>

definition LS_InitExaLayer :: "bool \<Rightarrow> ('k exa_driver \<Rightarrow> 'k drv \<Rightarrow> bool \<times> 'k drv) \<Rightarrow> nat \<Rightarrow> 'k drv \<Rightarrow> bool \<times> 'k drv" where
  "LS_InitExaLayer alloc init scr s =
     (if \<not> alloc then (False, s)
      else case init (ms_setup_exa scr s) s of
        (ok, s) \<Rightarrow> if ok then (True, upd_ms scr (\<lambda>m. m\<lparr>exaDrvPtr := True\<rparr>) s) else (False, s))"

definition LS_DestroyExaLayer ::
  "'k kernel \<Rightarrow> 'k exa_server \<Rightarrow> bool \<Rightarrow> ('k drv \<Rightarrow> 'k drv) \<Rightarrow> nat \<Rightarrow> 'k drv \<Rightarrow> bool \<times> 'k drv" where
  "LS_DestroyExaLayer K X dev fini scr s =
     (if exaDrvPtr (mss s scr) then
        let s = (if dev then exa_DestroyPixmap X (screen_pixmap K scr) s else s)
        in (True, upd_ms scr (\<lambda>m. m\<lparr>exaDrvPtr := False, exa_enabled := False\<rparr>) (fini s))
      else (True, s))"

section \<open>DRI3\<close>

text \<open>
  \<open>stat\<close> is what \<^verbatim>\<open>fstat\<close> gives for the driver's descriptor, whether it is a
  character device and its number; \<open>open_device\<close> stands for opening the DRI3 device. The
  status, and the descriptor written through \<^verbatim>\<open>fdp\<close>, if any.
\<close>

definition LS_IsRenderNode :: "(bool \<times> u64) option \<Rightarrow> bool" where
  "LS_IsRenderNode stat =
     (case stat of
        None \<Rightarrow> False
      | Some (is_chr, rdev) \<Rightarrow> if \<not> is_chr then False else rdev AND 0x80 \<noteq> 0)"

record 'k dri3_system =
  open_device :: "'k \<Rightarrow> int \<times> 'k"
  drmGetMagic :: "int \<Rightarrow> 'k \<Rightarrow> (int \<times> int \<times> u32) \<times> 'k"
  drmAuthMagic :: "u32 \<Rightarrow> 'k \<Rightarrow> int \<times> 'k"

definition ms_exa_dri3_open_client ::
  "'k kernel \<Rightarrow> 'k dri3_system \<Rightarrow> (bool \<times> u64) option \<Rightarrow> 'k drv \<Rightarrow> (int \<times> int option) \<times> 'k drv" where
  "ms_exa_dri3_open_client K Y stat s =
     (if LS_IsRenderNode stat then ((1, None), s)
      else case open_device Y (kst s) of
        (fd, k) \<Rightarrow>
          if fd < 0 then ((BadAlloc, None), s\<lparr>kst := k\<rparr>)
          else case drmGetMagic Y fd k of
            ((ret, err, magic), k) \<Rightarrow>
              if ret < 0 then
                if err = EACCES then ((Success, Some fd), s\<lparr>kst := k, errno := err\<rparr>)
                else ((BadMatch, None), s\<lparr>kst := close_fd K fd k, errno := err\<rparr>)
              else case drmAuthMagic Y magic k of
                (ret, k) \<Rightarrow>
                  if ret < 0 then ((BadMatch, None), s\<lparr>kst := close_fd K fd k\<rparr>)
                  else ((Success, Some fd), s\<lparr>kst := k\<rparr>))"

definition ms_exa_pixmap_from_fds ::
  "'k kernel \<Rightarrow> 'k exa_server \<Rightarrow> nat \<Rightarrow> u8 \<Rightarrow> int list \<Rightarrow> u16 \<Rightarrow> u16 \<Rightarrow> u32 list \<Rightarrow> u32 list \<Rightarrow> u8 \<Rightarrow> u8 \<Rightarrow>
     'k drv \<Rightarrow> nat option \<times> 'k drv" where
  "ms_exa_pixmap_from_fds K X scr num_fds fd_list width height strides offsets pixdepth bpp s =
     (if num_fds \<noteq> 1 \<or> offsets ! 0 \<noteq> 0 then (None, s)
      else case exa_CreatePixmap X scr 0 0 (uint pixdepth) CREATE_PIXMAP_USAGE_BACKING_PIXMAP s of
        (None, s) \<Rightarrow> (None, s)
      | (Some px, s) \<Rightarrow>
          (case exa_ModifyPixmapHeader X px (uint width) (uint height) (uint pixdepth) (uint bpp) (sint (strides ! 0)) s of
             (ok, s) \<Rightarrow>
               if \<not> ok then (None, exa_DestroyPixmap X px s)
               else case dumb_get_bo_from_fd K (fd_list ! 0) (strides ! 0) (strides ! 0 * ucast height) s of
                 (None, s) \<Rightarrow> (None, exa_DestroyPixmap X px s)
               | (Some bo, s) \<Rightarrow>
                   (case ms_exa_set_pixmap_bo K scr px bo True s of
                      (ret, s) \<Rightarrow>
                        if \<not> ret then (None, snd (dumb_bo_destroy K bo (exa_DestroyPixmap X px s)))
                        else (Some px, s))))"

text \<open>The result, and the stride and size written.\<close>

definition ms_exa_egl_fd_from_pixmap ::
  "'k kernel \<Rightarrow> nat \<Rightarrow> nat \<Rightarrow> 'k drv \<Rightarrow> (int \<times> (u16 \<times> u32) option) \<times> 'k drv" where
  "ms_exa_egl_fd_from_pixmap K scr px s =
     (case ms_exa_bo_from_pixmap scr px s of
        None \<Rightarrow> ((-1, None), s)
      | Some bo \<Rightarrow>
          (case drmPrimeHandleToFD K (db_handle bo) (kst s) of
             ((ret, prime_fd), k) \<Rightarrow>
               if ret \<noteq> 0 then ((ret, None), s\<lparr>kst := k\<rparr>)
               else ((prime_fd, Some (ucast (db_pitch bo), db_size bo)), s\<lparr>kst := k\<rparr>)))"

text \<open>The result, and the descriptor, stride, offset and modifier written.\<close>

definition ms_exa_egl_fds_from_pixmap ::
  "'k kernel \<Rightarrow> nat \<Rightarrow> nat \<Rightarrow> 'k drv \<Rightarrow> (int \<times> (int \<times> u32 \<times> u32 \<times> u64) option) \<times> 'k drv" where
  "ms_exa_egl_fds_from_pixmap K scr px s =
     (case ms_exa_bo_from_pixmap scr px s of
        None \<Rightarrow> ((0, None), s)
      | Some bo \<Rightarrow>
          (case drmPrimeHandleToFD K (db_handle bo) (kst s) of
             ((ret, prime_fd), k) \<Rightarrow>
               if ret \<noteq> 0 then ((ret, None), s\<lparr>kst := k\<rparr>)
               else ((1, Some (prime_fd, db_pitch bo, 0, DRM_FORMAT_MOD_INVALID)), s\<lparr>kst := k\<rparr>)))"

text \<open>The formats and modifiers reported: none.\<close>

definition ms_exa_get_formats :: "bool \<times> u32" where
  "ms_exa_get_formats = (True, 0)"

definition ms_exa_get_modifiers :: "u32 \<Rightarrow> bool \<times> u32" where
  "ms_exa_get_modifiers format = (True, 0)"

definition ms_exa_get_drawable_modifiers :: "u32 \<Rightarrow> bool \<times> u32" where
  "ms_exa_get_drawable_modifiers format = (True, 0)"

section \<open>A line fits, and so do all lines\<close>

lemma align_16:
  assumes "0 \<le> p" and "p \<le> 4294967280"
  shows "uint ((word_of_int p + 15 :: u32) AND 0xfffffff0) = (p + 15) div 16 * 16"
proof -
  have m: "(0xfffffff0 :: u32) = NOT (mask 4)" by (simp add: mask_eq_exp_minus_1)
  have u: "uint (word_of_int p + 15 :: u32) = p + 15"
    using assms by (simp add: uint_word_ariths unsigned_of_int take_bit_eq_mod)
  have "uint (w AND NOT (mask 4) :: u32) = uint w div 16 * 16" for w :: u32
  proof -
    have "w AND NOT (mask 4) = push_bit 4 (drop_bit 4 w)" by (rule bit_word_eqI) (auto simp: bit_simps)
    moreover have "uint (push_bit 4 (drop_bit 4 w)) = uint w div 16 * 16"
    proof -
      have "uint w div 16 * 16 \<le> uint w" by (simp add: minus_mod_eq_div_mult [symmetric])
      then have "uint w div 16 * 16 < 4294967296" using uint_lt2p [of w] by simp
      then show ?thesis
        by (simp add: push_bit_eq_mult drop_bit_eq_div uint_word_ariths uint_div)
           (rule mod_pos_pos_trivial, simp_all add: pos_imp_zdiv_nonneg_iff)
    qed
    ultimately show ?thesis by simp
  qed
  with u show ?thesis unfolding m by simp
qed

lemma buf_pitch_value:
  assumes "0 < width" and "width \<le> 32767" and "0 < bpp" and "bpp \<le> 32"
  shows "uint (buf_pitch width bpp) = ((width * bpp + 31) div 32 * 4 + 15) div 16 * 16"
    and "uint (buf_pitch width bpp) \<le> 131072" and "(width * bpp + 7) div 8 \<le> uint (buf_pitch width bpp)"
proof -
  have "width * bpp \<le> 32767 * 32" using assms by (intro mult_mono) auto
  then have wb: "0 \<le> width * bpp" "width * bpp \<le> 1048544" using assms by auto
  let ?p = "(width * bpp + 31) div 32 * 4"
  have p: "0 \<le> ?p" "?p \<le> 131072" using wb by auto
  show v: "uint (buf_pitch width bpp) = (?p + 15) div 16 * 16"
    unfolding buf_pitch_def Let_def by (rule align_16) (use p in auto)
  have "(?p + 15) div 16 \<le> 8192" using wb by auto
  then show "uint (buf_pitch width bpp) \<le> 131072" unfolding v by simp
  have "?p \<le> (?p + 15) div 16 * 16"
    using div_mult_mod_eq [of "?p + 15" 16] pos_mod_bound [of 16 "?p + 15"] by linarith
  moreover have "(width * bpp + 7) div 8 \<le> ?p" by auto
  ultimately show "(width * bpp + 7) div 8 \<le> uint (buf_pitch width bpp)" unfolding v by linarith
qed

text \<open>
  C31. The memory of a pixmap holds its lines. For every size and depth the protocol allows, the
  32-bit arithmetic of the allocation does not wrap: the line length reported is a multiple of 16
  that holds the bits of a line, and the memory allocated is a whole line for each row.
\<close>

theorem exa_pixmap_holds_lines:
  assumes "0 < width" and "width \<le> 32767" and "0 < height" and "height \<le> 32767" and "0 < bpp" and "bpp \<le> 32"
    and "0 < pixdepth" and "LS_CreateExaPixmap width height pixdepth usage bpp s = ((Some priv, Some pitch), s')"
  shows "(width * bpp + 7) div 8 \<le> uint pitch \<and> uint pitch mod 16 = 0 \<and>
    (\<exists>a sz. lb_pDat (ep_buf priv) = Some a \<and> buf_mem s' a = Some sz \<and> uint sz = uint pitch * height)"
proof -
  have c: "width > 0 \<and> height > 0 \<and> pixdepth > 0 \<and> bpp > 0" using assms by simp
  from assms(8) c obtain t where t: "priv = zero_exa\<lparr>ep_usage_hint := usage, ep_buf := fst (LS_AllocBuf width height bpp t)\<rparr>"
      "pitch = lb_pitch (fst (LS_AllocBuf width height bpp t))" "s' = snd (LS_AllocBuf width height bpp t)"
      "lb_pDat (fst (LS_AllocBuf width height bpp t)) \<noteq> None"
    by (auto simp: LS_CreateExaPixmap_def Let_def case_prod_beta split: if_splits)
  note v = buf_pitch_value [OF assms(1,2,5,6)]
  have p: "pitch = buf_pitch width bpp" unfolding t(2) by (simp add: LS_AllocBuf_def Let_def case_prod_beta)
  have "uint (buf_pitch width bpp) * height \<le> 131072 * 32767" using v(2) assms by (intro mult_mono) auto
  then have "uint (buf_pitch width bpp * word_of_int height) = uint (buf_pitch width bpp) * height"
    using assms by (simp add: uint_word_ariths unsigned_of_int take_bit_eq_mod)
  with t(3,4) have "\<exists>a sz. lb_pDat (ep_buf priv) = Some a \<and> buf_mem s' a = Some sz \<and> uint sz = uint pitch * height"
    unfolding t(1) p by (auto simp: LS_AllocBuf_def malloc_def Let_def case_prod_beta split: if_splits)
  with v show ?thesis unfolding p by (simp add: v(1))
qed

section \<open>The life of a pixmap\<close>

text \<open>
  The kernel keeps buffer handles (\<open>live\<close>) and descriptors (\<open>open_fds\<close>): exporting a buffer opens
  a descriptor, closing one removes it, and a buffer that is destroyed is gone.
\<close>

definition pixmap_kernel :: "'k kernel \<Rightarrow> ('k \<Rightarrow> u32 multiset) \<Rightarrow> ('k \<Rightarrow> int multiset) \<Rightarrow> bool" where
  "pixmap_kernel K live open_fds \<longleftrightarrow>
     buffers_ok K live \<and>
     (\<forall>h k. fst (fst (destroy_dumb K h k)) = 0 \<and> open_fds (snd (destroy_dumb K h k)) = open_fds k) \<and>
     (\<forall>w h b k. open_fds (snd (create_dumb K w h b k)) = open_fds k) \<and>
     (\<forall>n k. open_fds (sys_munmap K n k) = open_fds k) \<and>
     (\<forall>h k ret fd k'. drmPrimeHandleToFD K h k = ((ret, fd), k') \<longrightarrow>
        live k' = live k \<and> open_fds k' = (if ret = 0 then add_mset fd (open_fds k) else open_fds k)) \<and>
     (\<forall>fd k. live (close_fd K fd k) = live k \<and> open_fds (close_fd K fd k) = open_fds k - {#fd#})"

lemma pixmap_kernelD:
  assumes "pixmap_kernel K live open_fds"
  shows "buffers_ok K live" "fst (fst (destroy_dumb K h k)) = 0" "open_fds (snd (destroy_dumb K h k)) = open_fds k"
    "open_fds (snd (create_dumb K w ht b k)) = open_fds k" "open_fds (sys_munmap K n k) = open_fds k"
    "drmPrimeHandleToFD K h k = ((ret, fd), k') \<Longrightarrow> live k' = live k"
    "drmPrimeHandleToFD K h k = ((ret, fd), k') \<Longrightarrow> open_fds k' = (if ret = 0 then add_mset fd (open_fds k) else open_fds k)"
    "live (close_fd K fd k) = live k" "open_fds (close_fd K fd k) = open_fds k - {#fd#}"
  using assms unfolding pixmap_kernel_def by blast+

lemma destroy_dumb_pixmap:
  assumes "pixmap_kernel K live open_fds"
  shows "live (kst (LS_DestroyDumbPixmap K priv s)) =
      (case ep_bo priv of Some bo \<Rightarrow> if ep_owned priv then live (kst s) - {#db_handle bo#} else live (kst s) | None \<Rightarrow> live (kst s))"
    and "open_fds (kst (LS_DestroyDumbPixmap K priv s)) = (if ep_fd priv > 0 then open_fds (kst s) - {#ep_fd priv#} else open_fds (kst s))"
    and "buf_mem (LS_DestroyDumbPixmap K priv s) = buf_mem s" "misc_faults (LS_DestroyDumbPixmap K priv s) = misc_faults s"
proof -
  note K = pixmap_kernelD [OF assms]
  have gone: "live (kst (snd (dumb_bo_destroy K bo t))) = live (kst t) - {#db_handle bo#} \<and>
      open_fds (kst (snd (dumb_bo_destroy K bo t))) = open_fds (kst t)" for bo and t :: "'a drv"
  proof -
    obtain ret d u where u: "dumb_bo_destroy K bo t = ((ret, d), u)" by (metis surj_pair)
    have "ret = 0" using u K(2) by (auto simp: dumb_bo_destroy_def Let_def case_prod_beta split: if_splits)
    moreover have "open_fds (kst u) = open_fds (kst t)"
      using u K(3,5) by (auto simp: dumb_bo_destroy_def Let_def case_prod_beta split: if_splits)
    ultimately show ?thesis using dumb_destroy_live [OF K(1) u] u by simp
  qed
  have mem: "buf_mem (snd (dumb_bo_destroy K bo t)) = buf_mem t \<and> misc_faults (snd (dumb_bo_destroy K bo t)) = misc_faults t"
    for bo and t :: "'a drv"
    by (auto simp: dumb_bo_destroy_def Let_def case_prod_beta split: if_splits)
  show "live (kst (LS_DestroyDumbPixmap K priv s)) =
      (case ep_bo priv of Some bo \<Rightarrow> if ep_owned priv then live (kst s) - {#db_handle bo#} else live (kst s) | None \<Rightarrow> live (kst s))"
    "open_fds (kst (LS_DestroyDumbPixmap K priv s)) = (if ep_fd priv > 0 then open_fds (kst s) - {#ep_fd priv#} else open_fds (kst s))"
    "buf_mem (LS_DestroyDumbPixmap K priv s) = buf_mem s" "misc_faults (LS_DestroyDumbPixmap K priv s) = misc_faults s"
    using gone mem K(8,9) by (auto simp: LS_DestroyDumbPixmap_def Let_def split: option.split)
qed

text \<open>What a dumb pixmap is when it is created: its buffer, and a descriptor nobody keeps.\<close>

lemma create_dumb_pixmap:
  assumes "pixmap_kernel K live open_fds" and "LS_CreateDumbPixmap K width height usage bpp s = ((Some priv, pitch), t)"
  shows "ep_usage_hint priv = usage \<and> ep_fd priv = 0 \<and> buf_mem t = buf_mem s \<and> ep_buf priv = zero_buf \<and>
    ((width = 0 \<and> height = 0 \<and> ep_bo priv = None \<and> live (kst t) = live (kst s) \<and> open_fds (kst t) = open_fds (kst s)) \<or>
      (\<not> (width = 0 \<and> height = 0) \<and> ep_owned priv \<and> (\<exists>bo fd. ep_bo priv = Some bo \<and>
         live (kst t) = add_mset (db_handle bo) (live (kst s)) \<and> open_fds (kst t) = add_mset fd (open_fds (kst s)))))"
proof -
  note K = pixmap_kernelD [OF assms(1)]
  have "buf_mem (snd (calloc s)) = buf_mem s" by (simp add: calloc_def split: list.split)
  note m = this
  have mem: "buf_mem (snd (dumb_bo_create K w h b u)) = buf_mem u \<and> open_fds (kst (snd (dumb_bo_create K w h b u))) = open_fds (kst u)"
    for w h b and u :: "'a drv"
    using K(4) by (auto simp: dumb_bo_create_def case_prod_beta calloc_def split: if_splits list.split)
  show ?thesis
  proof (cases "width = 0 \<and> height = 0")
    case True
    with assms(2) m show ?thesis
      by (auto simp: LS_CreateDumbPixmap_def zero_exa_def case_prod_beta Let_def frame_simps split: if_splits)
  next
    case False
    let ?c = "dumb_bo_create K (word_of_int width) (word_of_int height) (word_of_int bpp) (snd (calloc s))"
    obtain bo u where u: "?c = (Some bo, u)"
      using assms(2) False by (cases ?c; cases "fst ?c") (auto simp: LS_CreateDumbPixmap_def case_prod_beta Let_def split: if_splits)
    obtain fd k where k: "drmPrimeHandleToFD K (db_handle bo) (kst u) = ((0, fd), k)"
      using assms(2) False u
      by (cases "drmPrimeHandleToFD K (db_handle bo) (kst u)") (auto simp: LS_CreateDumbPixmap_def case_prod_beta Let_def split: if_splits)
    have p: "priv = zero_exa\<lparr>ep_usage_hint := usage, ep_bo := Some bo, ep_owned := True, ep_pitch := uint (db_pitch bo)\<rparr>"
      "t = u\<lparr>kst := k\<rparr>"
      using assms(2) False u k by (auto simp: LS_CreateDumbPixmap_def case_prod_beta Let_def split: if_splits)
    have "live (kst u) = add_mset (db_handle bo) (live (kst s))" "open_fds (kst u) = open_fds (kst s)" "buf_mem u = buf_mem s"
      using dumb_create_live [OF K(1) u] mem [of "word_of_int width" "word_of_int height" "word_of_int bpp" "snd (calloc s)"] u m
      by (simp_all add: frame_simps)
    with K(6,7) [OF k] False show ?thesis
      unfolding p by (auto simp: zero_exa_def)
  qed
qed

lemma create_exa_pixmap:
  assumes "LS_CreateExaPixmap width height pixdepth usage bpp s = ((Some priv, pitch), t)"
    and "\<forall>a \<ge> next_addr s. buf_mem s a = None"
  shows "ep_usage_hint priv = usage \<and> ep_bo priv = None \<and> kst t = kst s \<and>
    (case lb_pDat (ep_buf priv) of
       None \<Rightarrow> buf_mem t = buf_mem s
     | Some a \<Rightarrow> buf_mem s a = None \<and> (\<exists>sz. buf_mem t = (buf_mem s)(a \<mapsto> sz)))"
proof -
  have m: "buf_mem (snd (calloc s)) = buf_mem s" "next_addr (snd (calloc s)) = next_addr s" "kst (snd (calloc s)) = kst s"
    for s :: "'a drv" by (simp_all add: calloc_def split: list.split)
  show ?thesis
    using assms by (auto simp: LS_CreateExaPixmap_def LS_AllocBuf_def malloc_def zero_exa_def zero_buf_def Let_def case_prod_beta m
        split: if_splits)
qed

text \<open>
  C32. A pixmap gives back what it took. Whatever the usage of a pixmap, the creation that succeeds
  adds the handle of its buffer to the kernel's, or a block to the allocated memory, or nothing
  for an empty pixmap; and destroying it later, whatever else happened to other pixmaps in
  between, removes exactly that, without freeing anything twice.
\<close>

theorem exa_pixmap_gives_back:
  assumes "pixmap_kernel K live open_fds" and "\<forall>a \<ge> next_addr s. buf_mem s a = None"
    and "ms_exa_create_pixmap2 K width height pixdepth usage bpp s = ((Some priv, pitch), t)"
    and "live (kst u) = live (kst t) + others" and "\<forall>a. lb_pDat (ep_buf priv) = Some a \<longrightarrow> buf_mem u a \<noteq> None"
    and "v = ms_exa_destroy_pixmap K priv u"
  shows "live (kst v) = live (kst s) + others \<and> misc_faults v = misc_faults u \<and>
    buf_mem v = (case lb_pDat (ep_buf priv) of None \<Rightarrow> buf_mem u | Some a \<Rightarrow> (buf_mem u)(a := None)) \<and>
    (buf_mem u = buf_mem t \<longrightarrow> buf_mem v = buf_mem s)"
proof (cases "LS_IsDumbPixmap usage")
  case True
  from assms(3) True have c: "LS_CreateDumbPixmap K width height usage bpp s = ((Some priv, pitch), t)"
    by (simp add: ms_exa_create_pixmap2_def)
  note p = create_dumb_pixmap [OF assms(1) c]
  have v: "v = LS_DestroyDumbPixmap K priv u" using p True assms(6) by (simp add: ms_exa_destroy_pixmap_def)
  note d = destroy_dumb_pixmap [OF assms(1), of priv u]
  have "lb_pDat (ep_buf priv) = None" using p by (simp add: zero_buf_def)
  moreover have "live (kst v) = live (kst s) + others"
    using p d(1) assms(4) unfolding v by (auto split: option.splits)
  ultimately show ?thesis using d(3,4) p unfolding v by simp
next
  case False
  from assms(3) False have c: "LS_CreateExaPixmap width height pixdepth usage bpp s = ((Some priv, pitch), t)"
    by (simp add: ms_exa_create_pixmap2_def)
  note p = create_exa_pixmap [OF c assms(2)]
  have v: "v = LS_DestroyExaPixmap priv u" using p False assms(6) by (simp add: ms_exa_destroy_pixmap_def)
  show ?thesis
  proof (cases "lb_pDat (ep_buf priv)")
    case None
    with p assms(4) show ?thesis unfolding v by (simp add: LS_DestroyExaPixmap_def LS_FreeBuf_def)
  next
    case (Some a)
    with p assms(4,5) show ?thesis unfolding v
      by (auto simp: LS_DestroyExaPixmap_def LS_FreeBuf_def free_mem_def fun_eq_iff)
  qed
qed

text \<open>
  Every dumb pixmap leaks a descriptor. The creation exports the buffer and drops the
  descriptor it gets; the private says it has none, and destroying the pixmap closes none.
\<close>

theorem dumb_pixmap_leaks_fd:
  assumes "pixmap_kernel K live open_fds" and "LS_IsDumbPixmap usage" and "\<not> (width = 0 \<and> height = 0)"
    and "ms_exa_create_pixmap2 K width height pixdepth usage bpp s = ((Some priv, pitch), t)"
  shows "\<exists>fd. open_fds (kst (ms_exa_destroy_pixmap K priv t)) = add_mset fd (open_fds (kst s))"
proof -
  from assms(2,4) have c: "LS_CreateDumbPixmap K width height usage bpp s = ((Some priv, pitch), t)"
    by (simp add: ms_exa_create_pixmap2_def)
  note p = create_dumb_pixmap [OF assms(1) c]
  then have "ms_exa_destroy_pixmap K priv t = LS_DestroyDumbPixmap K priv t" using assms(2) by (simp add: ms_exa_destroy_pixmap_def)
  with destroy_dumb_pixmap(2) [OF assms(1), of priv t] p assms(3) show ?thesis by auto
qed

section \<open>Rendering sees the memory\<close>

text \<open>The memory of a pixmap the CPU can reach, and what the pixmap looks like to the server outside of accesses.\<close>

definition pixel_memory :: "exa_priv \<Rightarrow> pixel_store option" where
  "pixel_memory priv =
     (if LS_IsDumbPixmap (ep_usage_hint priv) then map_option (\<lambda>bo. BO_MAPPING (db_handle bo)) (ep_bo priv)
      else map_option BUF_MEMORY (lb_pDat (ep_buf priv)))"

definition at_rest :: "nat \<Rightarrow> 'k drv \<Rightarrow> bool" where
  "at_rest px s \<longleftrightarrow> (\<forall>priv. exa_privs s px = Some priv \<longrightarrow> LS_IsDumbPixmap (ep_usage_hint priv) \<longrightarrow> pix_ptr s px = None)"

text \<open>A kernel that maps every buffer.\<close>

definition maps_buffers :: "'k kernel \<Rightarrow> bool" where
  "maps_buffers K \<longleftrightarrow> (\<forall>h k. fst (fst (map_dumb K h k)) = 0) \<and> (\<forall>n x k. fst (fst (sys_mmap K n x k)))"

lemma map_bo:
  assumes "maps_buffers K"
  shows "\<exists>k. dumb_bo_map K bo s = ((0, bo\<lparr>db_ptr := True\<rparr>), s\<lparr>kst := k\<rparr>)"
proof (cases "db_ptr bo")
  case True
  then have "bo\<lparr>db_ptr := True\<rparr> = bo" by (cases bo) simp
  then show ?thesis using True by (intro exI [of _ "kst s"]) (simp add: dumb_bo_map_def)
next
  case False
  then show ?thesis using assms by (auto simp: dumb_bo_map_def maps_buffers_def case_prod_beta)
qed

lemma access_prepared:
  fixes s :: "'k drv"
  assumes "maps_buffers K" and "exa_privs s px = Some priv" and "pixel_memory priv \<noteq> None"
    and "LS_IsDumbPixmap (ep_usage_hint priv) \<longrightarrow> pix_ptr s px \<in> {None, pixel_memory priv}"
  obtains k priv' where "ms_exa_prepare_access K px s =
      (True, s\<lparr>kst := k, exa_privs := (exa_privs s)(px \<mapsto> priv'), pix_ptr := (pix_ptr s)(px := pixel_memory priv)\<rparr>)"
    and "pixel_memory priv' = pixel_memory priv" and "ep_usage_hint priv' = ep_usage_hint priv"
    and "ep_bo priv' = None \<longleftrightarrow> ep_bo priv = None"
proof (cases "LS_IsDumbPixmap (ep_usage_hint priv)")
  case False
  with assms show thesis
    by (intro that [where k = "kst s" and priv' = priv]) (auto simp: ms_exa_prepare_access_def pixel_memory_def Let_def fun_upd_idem)
next
  case True
  then obtain bo where bo: "ep_bo priv = Some bo" using assms(3) by (auto simp: pixel_memory_def)
  show thesis
  proof (cases "pix_ptr s px")
    case None
    obtain k where "dumb_bo_map K bo s = ((0, bo\<lparr>db_ptr := True\<rparr>), s\<lparr>kst := k\<rparr>)" using map_bo [OF assms(1)] by blast
    with None True bo assms(2) show thesis
      by (intro that [where k = k and priv' = "priv\<lparr>ep_bo := Some (bo\<lparr>db_ptr := True\<rparr>)\<rparr>"])
         (simp_all add: ms_exa_prepare_access_def pixel_memory_def Let_def)
  next
    case (Some x)
    with True assms show thesis
      by (intro that [where k = "kst s" and priv' = priv]) (auto simp: ms_exa_prepare_access_def fun_upd_idem)
  qed
qed


text \<open>
  C33. A software copy reads and writes the pixmaps' own memory. When the kernel maps buffers, the
  copy that was prepared runs with the memory of its source and its destination reachable,
  mapped first if they are buffers of the kernel, also when the two are the same pixmap; and
  afterwards no pixmap with a buffer keeps a pointer into a mapping.
\<close>

theorem exa_copy_sees_memory:
  assumes "maps_buffers K"
    and "exa_privs s src = Some p" and "pixel_memory p = Some m" and "at_rest src s"
    and "exa_privs s dst = Some q" and "pixel_memory q = Some n" and "at_rest dst s"
    and "t = ms_exa_copy K dst srcX srcY dstX dstY width height (snd (ms_exa_prepare_copy src alu planemask s))"
  shows "server_log t = Fb_copy src (Some m) dst (Some n) alu planemask (srcX, srcY) (width, height) (dstX, dstY) # server_log s \<and>
    at_rest src t \<and> at_rest dst t \<and> misc_faults t = misc_faults s"
proof -
  define u where "u = snd (ms_exa_prepare_copy src alu planemask s)"
  have u: "exa_privs u = exa_privs s" "pix_ptr u = pix_ptr s" "server_log u = server_log s" "misc_faults u = misc_faults s"
    "copy_src (exa_prepare_args u) = Some src" "copy_alu (exa_prepare_args u) = alu" "copy_planemask (exa_prepare_args u) = planemask"
    by (simp_all add: u_def ms_exa_prepare_copy_def)
  have "exa_privs u src = Some p" "pixel_memory p \<noteq> None"
    "LS_IsDumbPixmap (ep_usage_hint p) \<longrightarrow> pix_ptr u src \<in> {None, pixel_memory p}"
    using assms(2-4) by (auto simp: u at_rest_def)
  from access_prepared [OF assms(1) this] obtain k p' where
    v: "ms_exa_prepare_access K src u = (True, u\<lparr>kst := k, exa_privs := (exa_privs u)(src \<mapsto> p'), pix_ptr := (pix_ptr u)(src := pixel_memory p)\<rparr>)"
    and p': "pixel_memory p' = pixel_memory p" "ep_usage_hint p' = ep_usage_hint p" "ep_bo p' = None \<longleftrightarrow> ep_bo p = None" .
  let ?v = "u\<lparr>kst := k, exa_privs := (exa_privs u)(src \<mapsto> p'), pix_ptr := (pix_ptr u)(src := pixel_memory p)\<rparr>"
  let ?q = "if dst = src then p' else q"
  have same: "dst = src \<Longrightarrow> p = q" using assms(2,5) by simp
  have qm: "pixel_memory ?q = Some n" using p' same assms(6) by auto
  have "exa_privs ?v dst = Some ?q" "pixel_memory ?q \<noteq> None"
    "LS_IsDumbPixmap (ep_usage_hint ?q) \<longrightarrow> pix_ptr ?v dst \<in> {None, pixel_memory ?q}"
    using qm p' same assms(3,5-7) by (auto simp: u at_rest_def)
  from access_prepared [OF assms(1) this] obtain l q' where
    w: "ms_exa_prepare_access K dst ?v = (True, ?v\<lparr>kst := l, exa_privs := (exa_privs ?v)(dst \<mapsto> q'), pix_ptr := (pix_ptr ?v)(dst := pixel_memory ?q)\<rparr>)"
    and q': "pixel_memory q' = pixel_memory ?q" "ep_usage_hint q' = ep_usage_hint ?q" "ep_bo q' = None \<longleftrightarrow> ep_bo ?q = None" .
  let ?w = "?v\<lparr>kst := l, exa_privs := (exa_privs ?v)(dst \<mapsto> q'), pix_ptr := (pix_ptr ?v)(dst := pixel_memory ?q)\<rparr>"
  have ptrs: "pix_ptr ?w src = Some m" "pix_ptr ?w dst = Some n" using qm assms(3,6) same by auto
  let ?x = "emit (Fb_copy src (Some m) dst (Some n) alu planemask (srcX, srcY) (width, height) (dstX, dstY)) ?w"
  have t: "t = ms_exa_finish_access src (ms_exa_finish_access dst ?x)"
    unfolding assms(8) u_def [symmetric] ms_exa_copy_def Let_def u(5-7) v w snd_conv option.case ptrs ..
  have dumb: "ep_bo priv \<noteq> None" if "LS_IsDumbPixmap (ep_usage_hint priv)" "pixel_memory priv \<noteq> None" for priv
    using that by (auto simp: pixel_memory_def)
  have fin: "exa_privs (ms_exa_finish_access px y) = exa_privs y" "server_log (ms_exa_finish_access px y) = server_log y"
    "misc_faults (ms_exa_finish_access px y) = misc_faults y"
    "pix_ptr (ms_exa_finish_access px y) z = (if z = px \<and> (\<exists>r. exa_privs y px = Some r \<and> ep_bo r \<noteq> None) then None else pix_ptr y z)"
    for px z and y :: "'a drv"
    by (auto simp: ms_exa_finish_access_def split: option.split)
  have "at_rest src t" "at_rest dst t"
    unfolding t at_rest_def fin using dumb q' qm p' assms(3,6) same by (auto simp: emit_def)
  moreover have "server_log t = Fb_copy src (Some m) dst (Some n) alu planemask (srcX, srcY) (width, height) (dstX, dstY) # server_log s"
    "misc_faults t = misc_faults s" unfolding t fin by (simp_all add: emit_def u)
  ultimately show ?thesis by simp
qed

section \<open>Examples\<close>

text \<open>A kernel that counts its buffers and keeps the list of its descriptors.\<close>

definition exa_kernel :: "(u32 list \<times> int list) kernel" where
  "exa_kernel = dead_kernel\<lparr>
     create_dumb := (\<lambda>w h b k. ((0, of_nat (length (fst k)) + 1, 0, w * 4), (of_nat (length (fst k)) + 1) # fst k, snd k)),
     destroy_dumb := (\<lambda>h k. ((0, 0), remove1 h (fst k), snd k)),
     map_dumb := (\<lambda>h k. ((0, 0), k)),
     sys_mmap := (\<lambda>n x k. ((True, 0), k)),
     gbm_bo_destroy := (\<lambda>g k. (remove1 (gb_handle g) (fst k), snd k)),
     drmPrimeHandleToFD := (\<lambda>h k. ((0, 9), fst k, 9 # snd k)),
     close_fd := (\<lambda>fd k. (fst k, remove1 fd (snd k)))\<rparr>"

lemma exa_kernel_ok: "pixmap_kernel exa_kernel (\<lambda>k. mset (fst k)) (\<lambda>k. mset (snd k))"
  by (simp add: pixmap_kernel_def buffers_ok_def exa_kernel_def dead_kernel_def)

lemma exa_pixmap_holds_lines_witness:
  "\<exists>priv pitch s'. LS_CreateExaPixmap 1023 700 24 0 32 (idle_drv ()) = ((Some priv, Some pitch), s') \<and>
     uint pitch mod 16 = 0 \<and> 4092 \<le> uint pitch \<and> (\<exists>sz :: u32. uint sz = uint pitch * 700)"
proof -
  have "\<exists>priv pitch s'. LS_CreateExaPixmap 1023 700 24 0 32 (idle_drv ()) = ((Some priv, Some pitch), s')"
    by (simp add: LS_CreateExaPixmap_def LS_AllocBuf_def malloc_def calloc_def idle_drv_def idle_drm_def drm.extend_def Let_def)
  then obtain priv pitch s' where c: "LS_CreateExaPixmap 1023 700 24 0 32 (idle_drv ()) = ((Some priv, Some pitch), s')" by blast
  from exa_pixmap_holds_lines [OF _ _ _ _ _ _ _ c]
  have "4092 \<le> uint pitch \<and> uint pitch mod 16 = 0 \<and> (\<exists>sz :: u32. uint sz = uint pitch * 700)" by auto
  with c show ?thesis by auto
qed

lemma exa_pixmap_gives_back_witness:
  "\<exists>priv pitch t. ms_exa_create_pixmap2 exa_kernel 64 32 24 2 32 (idle_drv ([7], [])) = ((Some priv, pitch), t) \<and>
     mset (fst (kst t)) = {#7, 2#} \<and> mset (fst (kst (ms_exa_destroy_pixmap exa_kernel priv t))) = {#7#}"
proof -
  let ?s = "idle_drv ([7], []) :: (u32 list \<times> int list) drv"
  have "\<exists>priv pitch t. ms_exa_create_pixmap2 exa_kernel 64 32 24 2 32 ?s = ((Some priv, pitch), t) \<and> fst (kst t) = [2, 7] \<and>
      lb_pDat (ep_buf priv) = None"
    by (simp add: ms_exa_create_pixmap2_def LS_IsDumbPixmap_def LS_CreateDumbPixmap_def dumb_bo_create_def calloc_def
        exa_kernel_def dead_kernel_def idle_drv_def idle_drm_def drm.extend_def zero_exa_def zero_buf_def Let_def)
  then obtain priv pitch t where c: "ms_exa_create_pixmap2 exa_kernel 64 32 24 2 32 ?s = ((Some priv, pitch), t)"
    "fst (kst t) = [2, 7]" "lb_pDat (ep_buf priv) = None" by blast
  have fresh: "\<forall>a \<ge> next_addr ?s. buf_mem ?s a = None" by (simp add: idle_drv_def drm.extend_def)
  have "mset (fst (kst t)) = mset (fst (kst t)) + {#}" "\<forall>a. lb_pDat (ep_buf priv) = Some a \<longrightarrow> buf_mem t a \<noteq> None"
    using c(3) by simp_all
  from exa_pixmap_gives_back [OF exa_kernel_ok fresh c(1) this refl]
  have "mset (fst (kst (ms_exa_destroy_pixmap exa_kernel priv t))) = mset (fst (kst ?s)) + {#}" by simp
  with c show ?thesis by (auto simp: idle_drv_def idle_drm_def drm.extend_def add_mset_commute)
qed

lemma dumb_pixmap_leaks_fd_witness:
  "\<exists>priv pitch t fd. ms_exa_create_pixmap2 exa_kernel 64 32 24 2 32 (idle_drv ([7], [])) = ((Some priv, pitch), t) \<and>
     mset (snd (kst (ms_exa_destroy_pixmap exa_kernel priv t))) = {#fd#}"
proof -
  let ?s = "idle_drv ([7], []) :: (u32 list \<times> int list) drv"
  have "\<exists>priv pitch t. ms_exa_create_pixmap2 exa_kernel 64 32 24 2 32 ?s = ((Some priv, pitch), t)"
    by (simp add: ms_exa_create_pixmap2_def LS_IsDumbPixmap_def LS_CreateDumbPixmap_def dumb_bo_create_def calloc_def
        exa_kernel_def dead_kernel_def idle_drv_def idle_drm_def drm.extend_def Let_def)
  then obtain priv pitch t where c: "ms_exa_create_pixmap2 exa_kernel 64 32 24 2 32 ?s = ((Some priv, pitch), t)" by blast
  have "LS_IsDumbPixmap 2" "\<not> ((64::int) = 0 \<and> (32::int) = 0)" by (simp_all add: LS_IsDumbPixmap_def)
  from dumb_pixmap_leaks_fd [OF exa_kernel_ok this c] obtain fd where
    "mset (snd (kst (ms_exa_destroy_pixmap exa_kernel priv t))) = add_mset fd (mset (snd (kst ?s)))" by auto
  with c show ?thesis by (auto simp: idle_drv_def idle_drm_def drm.extend_def)
qed

lemma exa_copy_sees_memory_witness:
  "server_log (ms_exa_copy exa_kernel 5 0 0 10 10 8 8 (snd (ms_exa_prepare_copy 4 3 255
     ((idle_drv ([7], []))\<lparr>exa_privs := [4 \<mapsto> zero_exa\<lparr>ep_usage_hint := 2,
          ep_bo := Some \<lparr>db_handle = 7, db_size = 4096, db_ptr = False, db_pitch = 64\<rparr>\<rparr>,
        5 \<mapsto> zero_exa\<lparr>ep_buf := zero_buf\<lparr>lb_pDat := Some 30\<rparr>\<rparr>]\<rparr>)))) =
   [Fb_copy 4 (Some (BO_MAPPING 7)) 5 (Some (BUF_MEMORY 30)) 3 255 (0, 0) (8, 8) (10, 10)]"
proof -
  let ?p = "zero_exa\<lparr>ep_usage_hint := 2, ep_bo := Some \<lparr>db_handle = 7, db_size = 4096, db_ptr = False, db_pitch = 64\<rparr>\<rparr>"
  let ?q = "zero_exa\<lparr>ep_buf := zero_buf\<lparr>lb_pDat := Some 30\<rparr>\<rparr>"
  let ?s = "(idle_drv ([7], []) :: (u32 list \<times> int list) drv)\<lparr>exa_privs := [4 \<mapsto> ?p, 5 \<mapsto> ?q]\<rparr>"
  have maps: "maps_buffers exa_kernel" by (simp add: maps_buffers_def exa_kernel_def)
  have src: "exa_privs ?s 4 = Some ?p" "pixel_memory ?p = Some (BO_MAPPING 7)" "at_rest 4 ?s"
    and dst: "exa_privs ?s 5 = Some ?q" "pixel_memory ?q = Some (BUF_MEMORY 30)" "at_rest 5 ?s"
    by (simp_all add: pixel_memory_def LS_IsDumbPixmap_def at_rest_def zero_exa_def idle_drv_def drm.extend_def)
  from exa_copy_sees_memory [OF maps src dst refl, of 0 0 10 10 8 8 3 255]
  have "server_log (ms_exa_copy exa_kernel 5 0 0 10 10 8 8 (snd (ms_exa_prepare_copy 4 3 255 ?s))) =
      Fb_copy 4 (Some (BO_MAPPING 7)) 5 (Some (BUF_MEMORY 30)) 3 255 (0, 0) (8, 8) (10, 10) # server_log ?s" by (elim conjE)
  moreover have "server_log ?s = []" by (simp add: idle_drv_def drm.extend_def)
  ultimately show ?thesis by simp
qed

end
