(* ===== verification/Screen_Cycle.thy ===== *)
theory Screen_Cycle
  imports Screen_Fb Cursors Present_Ext Shadow_Fb Exa_Pixmaps
begin

text \<open>
  The screen functions of the driver (\<^verbatim>\<open>src/src/driver.c\<close>): what it does before the
  server sleeps (damage handed to the kernel, shared pixmaps copied), sharing pixmaps between
  screens, switching away from and back to the virtual terminal, creating a screen's resources
  and closing it.
\<close>

section \<open>The server\<close>

text \<open>
  Damage records: of a screen, of a slave pixmap, and of an entry of a screen's list of dirty
  pixmaps (an entry by number, with the pixmap it copies to). The rectangles of a region are
  given by their corners. \<open>notify_damage\<close> is \<^verbatim>\<open>SharedPixmapNotifyDamage\<close> of the slave's
  screen, \<open>copy_dirty\<close> the helper that copies the damage of an entry to its pixmap.
\<close>

datatype damage_record = SCREEN_DAMAGE nat | SLAVE_DAMAGE nat | DIRTY_DAMAGE nat

type_synonym rects = "(int \<times> int \<times> int \<times> int) list"

record 'k screen_server =
  damage_rects :: "damage_record \<Rightarrow> 'k \<Rightarrow> rects"
  DamageEmpty :: "damage_record \<Rightarrow> 'k \<Rightarrow> 'k"
  DamageCreate :: "nat \<Rightarrow> 'k \<Rightarrow> bool \<times> 'k"
  DamageDestroy :: "damage_record \<Rightarrow> 'k \<Rightarrow> 'k"
  pixmap_dirty_list :: "nat \<Rightarrow> 'k \<Rightarrow> (nat \<times> nat) list"
  isGPU :: "nat \<Rightarrow> bool"
  master_pixmap :: "nat \<Rightarrow> nat"
  pixmap_screen :: "nat \<Rightarrow> nat"
  notify_damage :: "nat \<Rightarrow> 'k \<Rightarrow> 'k"
  append_damage :: "nat \<Rightarrow> 'k \<Rightarrow> 'k"
  copy_dirty :: "nat \<Rightarrow> 'k \<Rightarrow> 'k"
  process_damage :: "nat \<Rightarrow> 'k \<Rightarrow> 'k"
  StartDirtyTracking :: "nat \<Rightarrow> nat \<Rightarrow> 'k \<Rightarrow> bool \<times> 'k"
  StopDirtyTracking :: "nat \<Rightarrow> nat \<Rightarrow> 'k \<Rightarrow> bool \<times> 'k"
  wrapped_BlockHandler :: "nat \<Rightarrow> 'k \<Rightarrow> 'k"
  wrapped_CreateScreenResources :: "nat \<Rightarrow> 'k \<Rightarrow> bool \<times> 'k"
  wrapped_CloseScreen :: "nat \<Rightarrow> 'k \<Rightarrow> bool \<times> 'k"
  wrapped_CreateWindow :: "nat \<Rightarrow> 'k \<Rightarrow> bool \<times> 'k"
  drmSetMaster :: "'k \<Rightarrow> int \<times> 'k"
  drmDropMaster :: "'k \<Rightarrow> 'k"
  hide_cursors :: "nat \<Rightarrow> 'k drv \<Rightarrow> 'k drv"
  server_fd :: "nat \<Rightarrow> bool"
  shadow_Setup :: "nat \<Rightarrow> 'k \<Rightarrow> bool \<times> 'k"
  shadow_Add :: "nat \<Rightarrow> 'k \<Rightarrow> bool \<times> 'k"
  shadow_Remove :: "nat \<Rightarrow> 'k \<Rightarrow> 'k"
  DRI2CloseScreen :: "nat \<Rightarrow> 'k \<Rightarrow> 'k"
  exa_devPrivate :: "nat \<Rightarrow> 'k drv \<Rightarrow> bool"
  exaDriverAlloc :: "nat \<Rightarrow> bool"
  exaDriverInit :: "nat \<Rightarrow> 'k exa_driver \<Rightarrow> 'k drv \<Rightarrow> bool \<times> 'k drv"
  exaDriverFini :: "nat \<Rightarrow> 'k drv \<Rightarrow> 'k drv"

section \<open>Damage for the kernel\<close>

text \<open>A clip holds its corners as \<^verbatim>\<open>unsigned short\<close>.\<close>

definition clip_of :: "int \<times> int \<times> int \<times> int \<Rightarrow> int \<times> int \<times> int \<times> int" where
  "clip_of = (\<lambda>(x1, y1, x2, y2).
     (uint (word_of_int x1 :: u16), uint (word_of_int y1 :: u16), uint (word_of_int x2 :: u16), uint (word_of_int y2 :: u16)))"

text \<open>The loop over single rectangles, which stops when the kernel refuses one.\<close>

fun dirty_one_by_one :: "'k kernel \<Rightarrow> u32 \<Rightarrow> int \<Rightarrow> rects \<Rightarrow> 'k \<Rightarrow> int \<times> 'k" where
  "dirty_one_by_one K fb ret [] k = (ret, k)"
| "dirty_one_by_one K fb ret (c # cs) k =
     (case drmModeDirtyFB K fb [c] k of
        (r, k) \<Rightarrow> if r < 0 then (r, k) else dirty_one_by_one K fb r cs k)"

definition dispatch_dirty_region ::
  "'k kernel \<Rightarrow> 'k screen_server \<Rightarrow> damage_record \<Rightarrow> u32 \<Rightarrow> 'k drv \<Rightarrow> int \<times> 'k drv" where
  "dispatch_dirty_region K V damage fb s =
     (let dirty = damage_rects V damage (kst s) in
      if dirty = [] then (0, s)
      else case calloc s of (ok, s) \<Rightarrow>
        if \<not> ok then (- ENOMEM, s)
        else
          let clip = map clip_of dirty;
              (ret, k) = drmModeDirtyFB K fb clip (kst s);
              (ret, k) = (if ret = - EINVAL then dirty_one_by_one K fb ret clip k else (ret, k))
          in (ret, s\<lparr>kst := DamageEmpty V damage k\<rparr>))"

definition dispatch_dirty :: "'k kernel \<Rightarrow> 'k screen_server \<Rightarrow> nat \<Rightarrow> 'k drv \<Rightarrow> 'k drv" where
  "dispatch_dirty K V scr s =
     (case dispatch_dirty_region K V (SCREEN_DAMAGE scr) (fb_id (mss s scr)) s of
        (ret, s) \<Rightarrow>
          if ret = - EINVAL \<or> ret = - ENOSYS then
            upd_ms scr (\<lambda>m. m\<lparr>dirty_enabled := False, damage_set := False\<rparr>)
              (s\<lparr>kst := DamageDestroy V (SCREEN_DAMAGE scr) (kst s)\<rparr>)
          else s)"

definition dispatch_dirty_pixmap :: "'k kernel \<Rightarrow> 'k screen_server \<Rightarrow> nat \<Rightarrow> 'k drv \<Rightarrow> 'k drv" where
  "dispatch_dirty_pixmap K V ppix s =
     snd (dispatch_dirty_region K V (SLAVE_DAMAGE ppix) (pp_fb_id (ppriv s ppix)) s)"

definition dispatch_slave_dirty :: "'k kernel \<Rightarrow> 'k screen_server \<Rightarrow> nat \<Rightarrow> 'k drv \<Rightarrow> 'k drv" where
  "dispatch_slave_dirty K V scr s =
     fold (\<lambda>p s.
         let s = (case prime_pixmap (crtcs s p) of Some px \<Rightarrow> dispatch_dirty_pixmap K V px s | None \<Rightarrow> s)
         in case prime_pixmap_back (crtcs s p) of Some px \<Rightarrow> dispatch_dirty_pixmap K V px s | None \<Rightarrow> s)
       (config (mss s scr)) s"

section \<open>Copying shared pixmaps\<close>

text \<open>Whether the main loop should not wait (\<^verbatim>\<open>*timeout = 0\<close>), when it gave a timeout.\<close>

definition redisplay_dirty ::
  "'k kernel \<Rightarrow> 'k screen_server \<Rightarrow> nat \<Rightarrow> nat \<times> nat \<Rightarrow> 'k drv \<Rightarrow> bool \<times> 'k drv" where
  "redisplay_dirty K V scr = (\<lambda>(e, slave_dst) s.
     let k = copy_dirty V e (append_damage V slave_dst (kst s));
         k = (if \<not> isGPU V scr \<and> ms_glamor (mss s scr) then glamor_finish K scr k else k)
     in (\<not> isGPU V scr, s\<lparr>kst := process_damage V slave_dst k\<rparr>))"

definition dirty_update_ent ::
  "'k kernel \<Rightarrow> 'k screen_server \<Rightarrow> nat \<Rightarrow> nat \<times> nat \<Rightarrow> bool \<times> 'k drv \<Rightarrow> bool \<times> 'k drv" where
  "dirty_update_ent K V scr e = (\<lambda>(now, s).
     if damage_rects V (DIRTY_DAMAGE (fst e)) (kst s) = [] then (now, s)
     else
       let master = master_pixmap V (snd e);
           notify = (\<not> isGPU V scr \<and> pp_notify_on_damage (ppriv s master));
           s = (if notify
                then (upd_ppriv master (\<lambda>v. v\<lparr>pp_notify_on_damage := False\<rparr>) s)\<lparr>kst := notify_damage V (snd e) (kst s)\<rparr>
                else s)
       in if \<not> isGPU V scr \<and> pp_defer_dirty_update (ppriv s master) then (now, s)
          else case redisplay_dirty K V scr e s of
            (n, s) \<Rightarrow> (now \<or> n, s\<lparr>kst := DamageEmpty V (DIRTY_DAMAGE (fst e)) (kst s)\<rparr>))"

definition ms_dirty_update :: "'k kernel \<Rightarrow> 'k screen_server \<Rightarrow> nat \<Rightarrow> 'k drv \<Rightarrow> bool \<times> 'k drv" where
  "ms_dirty_update K V scr s = fold (dirty_update_ent K V scr) (pixmap_dirty_list V scr (kst s)) (False, s)"

definition ms_dirty_get_ent :: "'k screen_server \<Rightarrow> nat \<Rightarrow> nat \<Rightarrow> 'k drv \<Rightarrow> nat option" where
  "ms_dirty_get_ent V scr slave_dst s =
     map_option fst (find (\<lambda>(e, dst). dst = slave_dst) (pixmap_dirty_list V scr (kst s)))"

definition msBlockHandler :: "'k kernel \<Rightarrow> 'k screen_server \<Rightarrow> nat \<Rightarrow> 'k drv \<Rightarrow> bool \<times> 'k drv" where
  "msBlockHandler K V scr s =
     (let s = s\<lparr>kst := wrapped_BlockHandler V scr (kst s)\<rparr>;
          s = (if isGPU V scr \<and> \<not> is_reverse_prime_offload (mss s scr) then dispatch_slave_dirty K V scr s
               else if dirty_enabled (mss s scr) then dispatch_dirty K V scr s
               else s)
      in ms_dirty_update K V scr s)"

text \<open>The first call sets the desired modes, too; the handler it leaves is \<open>msBlockHandler\<close>.\<close>

definition msBlockHandler_oneshot :: "'k env \<Rightarrow> 'k screen_server \<Rightarrow> nat \<Rightarrow> 'k drv \<Rightarrow> (bool \<times> 'k drv) option" where
  "msBlockHandler_oneshot E V scr s =
     (case msBlockHandler (kernel_of E) V scr s of
        (now, s) \<Rightarrow> map_option (\<lambda>(ok, s). (now, s)) (drmmode_set_desired_modes E scr True s))"

section \<open>Shared pixmaps\<close>

fun strstr :: "string \<Rightarrow> string \<Rightarrow> bool" where
  "strstr [] n \<longleftrightarrow> n = []"
| "strstr (c # cs) n \<longleftrightarrow> take (length n) (c # cs) = n \<or> strstr cs n"

text \<open>\<open>syspath\<close> is the path of a platform device; \<open>xf86Crtc\<close> is null for a CRTC without one.\<close>

definition msEnableSharedPixmapFlipping ::
  "'k env \<Rightarrow> string option \<Rightarrow> nat \<Rightarrow> nat option \<Rightarrow> nat \<Rightarrow> nat \<Rightarrow> 'k drv \<Rightarrow> (bool \<times> 'k drv) option" where
  "msEnableSharedPixmapFlipping E syspath scr xf86Crtc front second s =
     (case xf86Crtc of
        None \<Rightarrow> Some (False, s)
      | Some p \<Rightarrow>
          if \<not> pageflip (mss s scr) then Some (False, s)
          else if is_reverse_prime_offload (mss s scr) then Some (False, s)
          else if (case syspath of None \<Rightarrow> False | Some path \<Rightarrow> strstr path ''usb'' \<or> strstr path ''evdi'') then Some (False, s)
          else drmmode_EnableSharedPixmapFlipping E p front second s)"

definition msDisableSharedPixmapFlipping :: "'k env \<Rightarrow> nat option \<Rightarrow> 'k drv \<Rightarrow> 'k drv option" where
  "msDisableSharedPixmapFlipping E xf86Crtc s =
     (case xf86Crtc of None \<Rightarrow> Some s | Some p \<Rightarrow> drmmode_DisableSharedPixmapFlipping E p s)"

definition track_slave :: "'k screen_server \<Rightarrow> nat \<Rightarrow> nat \<Rightarrow> nat \<Rightarrow> 'k drv \<Rightarrow> 'k drv" where
  "track_slave V scr src dst s =
     upd_ppriv (master_pixmap V dst)
       (\<lambda>v. v\<lparr>pp_slave_src := Some src, pp_dirty := ms_dirty_get_ent V scr dst s, pp_defer_dirty_update := True\<rparr>) s"

definition msStartFlippingPixmapTracking ::
  "'k screen_server \<Rightarrow> nat \<Rightarrow> nat \<Rightarrow> nat \<Rightarrow> nat \<Rightarrow> 'k drv \<Rightarrow> bool \<times> 'k drv" where
  "msStartFlippingPixmapTracking V scr src dst1 dst2 s =
     (case StartDirtyTracking V src dst1 (kst s) of
        (ok, k) \<Rightarrow>
          if \<not> ok then (False, s\<lparr>kst := k\<rparr>)
          else case StartDirtyTracking V src dst2 k of
            (ok, k) \<Rightarrow>
              if \<not> ok then (False, s\<lparr>kst := snd (StopDirtyTracking V src dst1 k)\<rparr>)
              else (True, track_slave V scr src dst2 (track_slave V scr src dst1 (s\<lparr>kst := k\<rparr>))))"

definition untrack_slave :: "'k screen_server \<Rightarrow> nat \<Rightarrow> 'k drv \<Rightarrow> 'k drv" where
  "untrack_slave V dst s =
     upd_ppriv (master_pixmap V dst)
       (\<lambda>v. v\<lparr>pp_slave_src := None, pp_dirty := None, pp_defer_dirty_update := False\<rparr>) s"

definition msStopFlippingPixmapTracking ::
  "'k screen_server \<Rightarrow> nat \<Rightarrow> nat \<Rightarrow> nat \<Rightarrow> 'k drv \<Rightarrow> bool \<times> 'k drv" where
  "msStopFlippingPixmapTracking V src dst1 dst2 s =
     (case StopDirtyTracking V src dst1 (kst s) of
        (ok1, k) \<Rightarrow>
          (case StopDirtyTracking V src dst2 k of
             (ok2, k) \<Rightarrow>
               let s = s\<lparr>kst := k\<rparr>; ret = (ok1 \<and> ok2)
               in (ret, if ret then untrack_slave V dst2 (untrack_slave V dst1 s) else s)))"

text \<open>\<open>ppriv->dirty\<close> and \<open>ppriv->slave_src\<close> are read without a test.\<close>

definition msPresentSharedPixmap :: "'k kernel \<Rightarrow> 'k screen_server \<Rightarrow> nat \<Rightarrow> 'k drv \<Rightarrow> bool \<times> 'k drv" where
  "msPresentSharedPixmap K V slave_dst s =
     (let v = ppriv s (master_pixmap V slave_dst) in
      case pp_dirty v of
        None \<Rightarrow> (False, misc_fault s)
      | Some e \<Rightarrow>
          if damage_rects V (DIRTY_DAMAGE e) (kst s) \<noteq> [] then
            (case pp_slave_src v of
               None \<Rightarrow> (True, misc_fault s)
             | Some src \<Rightarrow>
                 let s = snd (redisplay_dirty K V (pixmap_screen V src) (e, slave_dst) s)
                 in (True, s\<lparr>kst := DamageEmpty V (DIRTY_DAMAGE e) (kst s)\<rparr>))
          else (False, s))"

text \<open>
  Without glamor the pointer the first function calls is null. \<open>glamor_fd\<close> stands for glamor's
  function; the descriptor is what \<^verbatim>\<open>*handle\<close> gets.
\<close>

definition msSharePixmapBacking ::
  "(nat \<Rightarrow> 'k \<Rightarrow> int \<times> 'k) option \<Rightarrow> nat \<Rightarrow> 'k drv \<Rightarrow> (bool \<times> int option) \<times> 'k drv" where
  "msSharePixmapBacking glamor_fd px s =
     (case glamor_fd of
        None \<Rightarrow> ((False, None), misc_fault s)
      | Some f \<Rightarrow>
          (case f px (kst s) of
             (ret, k) \<Rightarrow> (if ret = -1 then (False, None) else (True, Some ret), s\<lparr>kst := k\<rparr>)))"

definition msSetSharedPixmapBacking ::
  "'k kernel \<Rightarrow> 'k exa_server \<Rightarrow> (nat \<Rightarrow> int \<Rightarrow> 'k \<Rightarrow> bool \<times> 'k) \<Rightarrow> nat \<Rightarrow> nat \<Rightarrow> int \<Rightarrow> u8 \<Rightarrow> u8 \<Rightarrow>
     'k drv \<Rightarrow> bool \<times> 'k drv" where
  "msSetSharedPixmapBacking K X glamor_back scr px ihandle pixdepth bpp s =
     (let m = mss s scr; devKind = pixmap_devKind K px (kst s) in
      if ihandle = -1 \<and> \<not> is_reverse_prime_offload m then drmmode_SetSlaveBO K px ihandle 0 0 s
      else if is_reverse_prime_offload m then
        if ms_glamor m then (case glamor_back px ihandle (kst s) of (ret, k) \<Rightarrow> (ret, s\<lparr>kst := k\<rparr>))
        else if exa_enabled m then
          ms_exa_back_pixmap_from_fd K X scr px ihandle (ucast (pixmap_width K px (kst s)))
            (ucast (pixmap_height K px (kst s))) (ucast devKind) pixdepth bpp s
        else (False, s)
      else drmmode_SetSlaveBO K px ihandle devKind (devKind * pixmap_height K px (kst s)) s)"

definition msRequestSharedPixmapNotifyDamage :: "'k screen_server \<Rightarrow> nat \<Rightarrow> 'k drv \<Rightarrow> bool \<times> 'k drv" where
  "msRequestSharedPixmapNotifyDamage V px s =
     (True, upd_ppriv (master_pixmap V px) (\<lambda>v. v\<lparr>pp_notify_on_damage := True\<rparr>) s)"

section \<open>Switching the virtual terminal\<close>

text \<open>
  \<open>server_fd\<close> tells that the screen is on a platform device whose descriptor the server
  manages; \<open>hide_cursors\<close> is \<^verbatim>\<open>xf86_hide_cursors\<close>, which calls the driver's
  hooks.
\<close>

definition SetMaster :: "'k screen_server \<Rightarrow> nat \<Rightarrow> 'k drv \<Rightarrow> bool \<times> 'k drv" where
  "SetMaster V scr s =
     (if server_fd V scr then (True, s)
      else if fd_passed (mss s scr) then (True, s)
      else case drmSetMaster V (kst s) of (ret, k) \<Rightarrow> (ret = 0, s\<lparr>kst := k\<rparr>))"

definition LeaveVT :: "'k screen_server \<Rightarrow> nat \<Rightarrow> 'k drv \<Rightarrow> 'k drv" where
  "LeaveVT V scr s =
     (let s = upd_ms scr (\<lambda>m. m\<lparr>vtSema := False\<rparr>) (hide_cursors V scr s) in
      if server_fd V scr then s
      else if \<not> fd_passed (mss s scr) then s\<lparr>kst := drmDropMaster V (kst s)\<rparr>
      else s)"

definition EnterVT :: "'k env \<Rightarrow> 'k screen_server \<Rightarrow> nat \<Rightarrow> 'k drv \<Rightarrow> (bool \<times> 'k drv) option" where
  "EnterVT E V scr s =
     drmmode_set_desired_modes E scr True (snd (SetMaster V scr (upd_ms scr (\<lambda>m. m\<lparr>vtSema := True\<rparr>) s)))"

definition AdjustFrame :: "'k env \<Rightarrow> nat \<Rightarrow> int \<Rightarrow> int \<Rightarrow> 'k drv \<Rightarrow> 'k drv option" where
  "AdjustFrame E scr x y s = drmmode_adjust_frame E scr x y s"

section \<open>The resources of a screen\<close>

text \<open>
  The memory the screen pixmap gets: the mapped front buffer, the shadow, or none (\<open>pix\<close>
  tells whether there is any). Without a GBM device the front buffer must be mapped. The second
  shadow is only asked for; that it could not be had is not an error.
\<close>

definition screen_memory :: "'k env \<Rightarrow> nat \<Rightarrow> 'k drv \<Rightarrow> (bool \<times> bool) \<times> 'k drv" where
  "screen_memory E scr s =
     (let s = (if \<not> sw_cursor (mss s scr)
               then snd (drmmode_map_cursor_bos (kernel_of E) (config (mss s scr)) s) else s)
      in case (if has_gbm (mss s scr) then (True, s) else drmmode_map_front_bo (kernel_of E) scr s) of
           (mapped, s) \<Rightarrow>
             if \<not> mapped then ((False, False), s)
             else
               let pix = (if shadow_enable (mss s scr) then shadow_fb (mss s scr) \<noteq> None
                             else \<not> has_gbm (mss s scr));
                   s = (if shadow_enable2 (mss s scr)
                        then case LS_ShadowAllocDoubleFB scr s of
                               (ok, s) \<Rightarrow> upd_ms scr (\<lambda>m. m\<lparr>shadow_enable2 := ok\<rparr>) s
                        else s)
               in ((True, pix), s))"

text \<open>Asking the kernel whether it wants damage, with no rectangle.\<close>

definition probe_dirty :: "'k env \<Rightarrow> 'k screen_server \<Rightarrow> nat \<Rightarrow> 'k drv \<Rightarrow> bool \<times> 'k drv" where
  "probe_dirty E V scr s =
     (case drmModeDirtyFB (kernel_of E) (fb_id (mss s scr)) [] (kst s) of
        (err, k) \<Rightarrow>
          if err \<noteq> - EINVAL \<and> err \<noteq> - ENOSYS then
            (case DamageCreate V scr k of
               (ok, k) \<Rightarrow>
                 if ok then (True, upd_ms scr (\<lambda>m. m\<lparr>damage_set := True, dirty_enabled := True\<rparr>)
                                     (s\<lparr>kst := DamageRegister E (screen_pixmap (kernel_of E) scr) k\<rparr>))
                 else (False, upd_ms scr (\<lambda>m. m\<lparr>damage_set := False\<rparr>) (s\<lparr>kst := k\<rparr>)))
          else (True, s\<lparr>kst := k\<rparr>))"

text \<open>
  \<open>None\<close> is also the end of the server, when the screen pixmap cannot be adjusted
  (\<^verbatim>\<open>FatalError\<close>).
\<close>

definition CreateScreenResources ::
  "'k env \<Rightarrow> 'k screen_server \<Rightarrow> nat \<Rightarrow> 'k drv \<Rightarrow> (bool \<times> 'k drv) option" where
  "CreateScreenResources E V scr s =
     (case wrapped_CreateScreenResources V scr (kst s) of
        (ret, k) \<Rightarrow>
          (case drmmode_set_desired_modes E scr (isGPU V scr) (s\<lparr>kst := k\<rparr>) of
             None \<Rightarrow> None
           | Some (ok, s) \<Rightarrow>
               if \<not> ok then Some (False, s)
               else case drmmode_glamor_handle_new_screen_pixmap E scr s of
                 (ok, s) \<Rightarrow>
                   if \<not> ok then Some (False, s)
                   else case screen_memory E scr s of
                     ((ok, pix), s) \<Rightarrow>
                       if \<not> ok then Some (False, s)
                       else case ModifyPixmapHeader E (screen_pixmap (kernel_of E) scr) (-1) (-1) (-1) (-1) (-1) pix (kst s) of
                         (ok, k) \<Rightarrow>
                           if \<not> ok then None
                           else case (if shadow_enable (mss s scr) then shadow_Add V scr k else (True, k)) of
                             (ok, k) \<Rightarrow>
                               if \<not> ok then Some (False, s\<lparr>kst := k\<rparr>)
                               else case probe_dirty E V scr (s\<lparr>kst := k\<rparr>) of
                                 (ok, s) \<Rightarrow> Some (if ok then ret else False, s)))"

section \<open>Closing a screen\<close>

text \<open>The server's data structures of the screen go first, then what the screen owns.\<close>

definition close_damage :: "'k env \<Rightarrow> 'k screen_server \<Rightarrow> nat \<Rightarrow> 'k drv \<Rightarrow> 'k drv" where
  "close_damage E V scr s =
     (if damage_set (mss s scr)
      then upd_ms scr (\<lambda>m. m\<lparr>damage_set := False\<rparr>)
             (s\<lparr>kst := DamageDestroy V (SCREEN_DAMAGE scr) (DamageUnregister E (screen_pixmap (kernel_of E) scr) (kst s))\<rparr>)
      else s)"

definition close_layers ::
  "'k env \<Rightarrow> 'k screen_server \<Rightarrow> 'k exa_server \<Rightarrow> nat \<Rightarrow> 'k drv \<Rightarrow> 'k drv" where
  "close_layers E V X scr s =
     (let s = (if exa_enabled (mss s scr)
               then snd (LS_DestroyExaLayer (kernel_of E) X (exa_devPrivate V scr s) (exaDriverFini V scr) scr s) else s)
      in if shadow_enable (mss s scr)
         then LS_ShadowFreeDoubleFB scr (LS_ShadowFreeFB scr (s\<lparr>kst := shadow_Remove V scr (kst s)\<rparr>))
         else s)"

definition close_upper ::
  "'k env \<Rightarrow> 'k screen_server \<Rightarrow> 'k exa_server \<Rightarrow> nat \<Rightarrow> nat \<Rightarrow> 'k drv \<Rightarrow> 'k drv" where
  "close_upper E V X serverGeneration scr s =
     (let s = s\<lparr>entity_of := LS_EntityClearAssignedCrtc (entity_of s)\<rparr>;
          s = (if dri2_enable (mss s scr) then s\<lparr>kst := DRI2CloseScreen V scr (kst s)\<rparr> else s);
          s = ms_vblank_close_screen drv_abort serverGeneration scr s
      in close_layers E V X scr (close_damage E V scr s))"

definition CloseScreen ::
  "'k env \<Rightarrow> 'k screen_server \<Rightarrow> 'k exa_server \<Rightarrow> nat \<Rightarrow> nat \<Rightarrow> 'k drv \<Rightarrow> bool \<times> 'k drv" where
  "CloseScreen E V X serverGeneration scr s =
     (let s = drmmode_free_bos (kernel_of E) scr (close_upper E V X serverGeneration scr s);
          s = (if pageflip (mss s scr) then upd_ms scr (\<lambda>m. m\<lparr>sprite_hooked := False\<rparr>) s else s);
          s = (if vtSema (mss s scr) then LeaveVT V scr s else s);
          s = upd_ms scr (\<lambda>m. m\<lparr>vtSema := False\<rparr>) s
      in case wrapped_CloseScreen V scr (kst s) of (ret, k) \<Rightarrow> (ret, s\<lparr>kst := k\<rparr>))"

section \<open>Setting a screen up\<close>

text \<open>
  The layers of the server a screen is built of, in the order \<^verbatim>\<open>ScreenInit\<close> calls
  them. Those that may refuse give a truth value. \<open>kernel_name\<close> is what
  \<^verbatim>\<open>drmGetVersion\<close> gives; \<open>async_cap\<close> the answer to
  \<^verbatim>\<open>DRM_CAP_ASYNC_PAGE_FLIP\<close>; \<open>present_register\<close> the registration of the
  Present functions with their capabilities.
\<close>

record 'k layers =
  egl_get_gbm_device :: "nat \<Rightarrow> bool"
  miSetVisualTypes :: "nat \<Rightarrow> 'k \<Rightarrow> bool \<times> 'k"
  miSetPixmapDepths :: "'k \<Rightarrow> bool \<times> 'k"
  register_pixmap_key :: "nat \<Rightarrow> 'k \<Rightarrow> bool \<times> 'k"
  fbScreenInit :: "nat \<Rightarrow> int \<Rightarrow> int \<Rightarrow> int \<Rightarrow> int \<Rightarrow> 'k \<Rightarrow> bool \<times> 'k"
  glamor_init :: "nat \<Rightarrow> 'k \<Rightarrow> bool \<times> 'k"
  register_sprite_key :: "nat \<Rightarrow> 'k \<Rightarrow> bool \<times> 'k"
  xf86CrtcScreenInit :: "nat \<Rightarrow> 'k \<Rightarrow> bool \<times> 'k"
  miCreateDefColormap :: "nat \<Rightarrow> 'k \<Rightarrow> bool \<times> 'k"
  xf86HandleColormaps :: "nat \<Rightarrow> 'k \<Rightarrow> bool \<times> 'k"
  DRI2ScreenInit :: "nat \<Rightarrow> 'k \<Rightarrow> bool \<times> 'k"
  present_register :: "nat \<Rightarrow> u32 \<Rightarrow> 'k \<Rightarrow> bool \<times> 'k"
  async_cap :: "'k \<Rightarrow> int \<times> u64"
  kernel_name :: "'k \<Rightarrow> string option"

text \<open>Calls of the server in a row, up to the first that refuses.\<close>

fun all_accept :: "('k \<Rightarrow> bool \<times> 'k) list \<Rightarrow> 'k \<Rightarrow> bool \<times> 'k" where
  "all_accept [] k = (True, k)"
| "all_accept (f # fs) k = (case f k of (ok, k) \<Rightarrow> if ok then all_accept fs k else (False, k))"

definition server_calls :: "('k \<Rightarrow> bool \<times> 'k) list \<Rightarrow> 'k drv \<Rightarrow> bool \<times> 'k drv" where
  "server_calls fs s = (case all_accept fs (kst s) of (ok, k) \<Rightarrow> (ok, s\<lparr>kst := k\<rparr>))"

definition drmmode_init :: "'k layers \<Rightarrow> nat \<Rightarrow> 'k drv \<Rightarrow> bool \<times> 'k drv" where
  "drmmode_init Y scr s = server_calls (if ms_glamor (mss s scr) then [glamor_init Y scr] else []) s"

definition drmmode_setup_colormap :: "'k layers \<Rightarrow> nat \<Rightarrow> 'k drv \<Rightarrow> bool \<times> 'k drv" where
  "drmmode_setup_colormap Y scr s = server_calls [miCreateDefColormap Y scr, xf86HandleColormaps Y scr] s"

text \<open>Until the buffers of the screen exist.\<close>

definition init_buffers :: "'k env \<Rightarrow> 'k screen_server \<Rightarrow> 'k layers \<Rightarrow> nat \<Rightarrow> 'k drv \<Rightarrow> bool \<times> 'k drv" where
  "init_buffers E V Y scr s =
     (case SetMaster V scr s of
        (ok, s) \<Rightarrow>
          if \<not> ok then (False, s)
          else
            let s = (if ms_glamor (mss s scr) then upd_ms scr (\<lambda>m. m\<lparr>has_gbm := egl_get_gbm_device Y scr\<rparr>) s else s);
                s = upd_ms scr (\<lambda>m. m\<lparr>displayWidth := virtualX m\<rparr>) s
            in case drmmode_create_initial_bos E scr s of
                 (ok, s) \<Rightarrow>
                   if \<not> ok then (False, s)
                   else if shadow_enable (mss s scr) then
                     (case LS_ShadowAllocFB scr s of
                        (ok, s) \<Rightarrow> (True, upd_ms scr (\<lambda>m. m\<lparr>shadow_enable := ok\<rparr>) s))
                   else (True, s))"

text \<open>The layers below the driver, and the driver's functions wrapped around theirs.\<close>

definition init_layers :: "'k screen_server \<Rightarrow> 'k layers \<Rightarrow> nat \<Rightarrow> 'k drv \<Rightarrow> bool \<times> 'k drv" where
  "init_layers V Y scr s =
     (let m = mss s scr in
      case server_calls [miSetVisualTypes Y scr, miSetPixmapDepths Y, register_pixmap_key Y scr,
             fbScreenInit Y scr (virtualX m) (virtualY m) (displayWidth m) (bitsPerPixel m)] s of
        (ok, s) \<Rightarrow>
          if \<not> ok then (False, s)
          else case drmmode_init Y scr s of
            (ok, s) \<Rightarrow>
              if \<not> ok then (False, s)
              else case server_calls (if shadow_enable (mss s scr) then [shadow_Setup V scr] else []) s of
                (ok, s) \<Rightarrow>
                  if \<not> ok then (False, s)
                  else if pageflip (mss s scr) then
                    (case server_calls [register_sprite_key Y scr] s of
                       (ok, s) \<Rightarrow> if ok then (True, upd_ms scr (\<lambda>m. m\<lparr>sprite_hooked := True\<rparr>) s) else (False, s))
                  else (True, s))"

text \<open>The extensions. \<open>caps\<close> is the static capability word of the Present extension.\<close>

definition init_extensions :: "'k screen_server \<Rightarrow> 'k layers \<Rightarrow> u32 \<Rightarrow> nat \<Rightarrow> 'k drv \<Rightarrow> 'k drv" where
  "init_extensions V Y caps scr s =
     (let present = (\<lambda>s. case server_calls [present_register Y scr (ms_present_screen_init (async_cap Y (kst s)) caps)] s of
            (ok, s) \<Rightarrow> upd_ms scr (\<lambda>m. m\<lparr>present_enable := ok\<rparr>) s)
      in if ms_glamor (mss s scr) then
           let s = (case server_calls [DRI2ScreenInit Y scr] s of
                      (ok, s) \<Rightarrow> present (upd_ms scr (\<lambda>m. m\<lparr>dri2_enable := ok\<rparr>) s))
           in if isGPU V scr then
                upd_ms scr (\<lambda>m. m\<lparr>is_reverse_prime_offload :=
                  (case kernel_name Y (kst s) of None \<Rightarrow> True | Some n \<Rightarrow> n \<noteq> take (length n) ''i915'')\<rparr>) s
              else s
         else if exa_enabled (mss s scr) then
           let s = present (upd_ms scr (\<lambda>m. m\<lparr>dri2_enable := False\<rparr>) s)
           in if isGPU V scr then upd_ms scr (\<lambda>m. m\<lparr>is_reverse_prime_offload := True\<rparr>) s else s
         else s)"

definition ScreenInit ::
  "'k env \<Rightarrow> 'k screen_server \<Rightarrow> 'k layers \<Rightarrow> nat \<Rightarrow> u32 \<Rightarrow> nat \<Rightarrow> 'k drv \<Rightarrow> bool \<times> 'k drv" where
  "ScreenInit E V Y serverGeneration caps scr s =
     (case init_buffers E V Y scr s of
        (ok, s) \<Rightarrow>
          if \<not> ok then (False, s)
          else case init_layers V Y scr s of
            (ok, s) \<Rightarrow>
              if \<not> ok then (False, s)
              else
                let s = upd_ms scr (\<lambda>m. m\<lparr>vtSema := True\<rparr>) s;
                    s = (if exa_enabled (mss s scr)
                         then snd (LS_InitExaLayer (exaDriverAlloc V scr) (exaDriverInit V scr) scr s) else s)
                in case server_calls [xf86CrtcScreenInit Y scr] s of
                     (ok, s) \<Rightarrow>
                       if \<not> ok then (False, s)
                       else case drmmode_setup_colormap Y scr s of
                         (ok, s) \<Rightarrow>
                           if \<not> ok then (False, s)
                           else
                             let s = init_extensions V Y caps scr (ms_vblank_screen_init serverGeneration s)
                             in (True, upd_ms scr (\<lambda>m. m\<lparr>vtSema := True\<rparr>) s))"

section \<open>Away from the terminal\<close>

text \<open>Once the terminal is left, no page flip of the screen is accepted.\<close>

lemma no_flips_away:
  assumes "t = LeaveVT V scr s"
  shows "\<not> vtSema (mss t scr)" and "\<not> fst (fst (ms_present_check_flip K scr px t))"
    and "\<not> fst (can_flip E D scr d front behind t)"
proof -
  show v: "\<not> vtSema (mss t scr)" using assms by (simp add: LeaveVT_def Let_def upd_ms_def)
  then show "\<not> fst (fst (ms_present_check_flip K scr px t))"
    by (simp add: ms_present_check_flip_def ms_present_check_unflip_def Let_def)
  show "\<not> fst (can_flip E D scr d front behind t)" using v by (simp add: can_flip_def Let_def)
qed

section \<open>Closing leaves nothing behind\<close>

text \<open>A screen's record up to the flags of the flips under way.\<close>

definition still_record :: "nat \<Rightarrow> 'k drv \<Rightarrow> modesetting" where
  "still_record scr s = (mss s scr)\<lparr>present_flipping := False, dri2_flipping := False\<rparr>"

definition same_screen :: "nat \<Rightarrow> 'k drv \<Rightarrow> 'k drv \<Rightarrow> bool" where
  "same_screen scr s t \<longleftrightarrow> kst t = kst s \<and> crtcs t = crtcs s \<and> entity_of t = entity_of s \<and>
     still_record scr t = still_record scr s"

lemma same_screen_refl [simp]: "same_screen scr s s"
  by (simp add: same_screen_def)

lemma same_screen_trans: "same_screen scr s t \<Longrightarrow> same_screen scr t u \<Longrightarrow> same_screen scr s u"
  by (simp add: same_screen_def)

lemma same_screen_updates [simp]:
  "same_screen scr s (t\<lparr>frame_events := f\<rparr>) \<longleftrightarrow> same_screen scr s t"
  "same_screen scr s (t\<lparr>ms_drm_queue := q\<rparr>) \<longleftrightarrow> same_screen scr s t"
  by (simp_all add: same_screen_def still_record_def)

lemma destroy_buffer2_same: "same_screen scr s (ms_dri2_destroy_buffer2 b s)"
  by (simp add: same_screen_def ms_dri2_destroy_buffer2_def misc_fault_def emit_def still_record_def
      split: option.split)

lemma del_frame_event_same: "same_screen scr s (ms_dri2_del_frame_event a s)"
proof (cases "frame_events s a")
  case None
  then show ?thesis by (simp add: ms_dri2_del_frame_event_def same_screen_def misc_fault_def still_record_def)
next
  case (Some info)
  let ?t = "if fe_front info \<noteq> None then ms_dri2_destroy_buffer2 (fe_front info) s else s"
  let ?u = "if fe_back info \<noteq> None then ms_dri2_destroy_buffer2 (fe_back info) ?t else ?t"
  have "same_screen scr s ?u"
    by (rule same_screen_trans [of scr s ?t]) (simp_all add: destroy_buffer2_same)
  then show ?thesis
    using Some unfolding ms_dri2_del_frame_event_def ms_dri2_destroy_buffer_def Let_def by simp
qed

lemma flip_abort_same: "same_screen scr s (flip_abort_handler c sc s)"
  by (cases c; simp add: flip_abort_handler_def ms_present_flip_abort_def ms_dri2_flip_abort_def free_present_def
      same_screen_def still_record_def upd_ms_def Let_def fault_def misc_fault_def)

lemma drv_abort_same: "same_screen scr s (drv_abort c s)"
proof (cases c)
  case (CB_flip r a)
  show ?thesis
  proof (cases "flipdatas s a")
    case None
    then show ?thesis
      using CB_flip by (simp add: ms_pageflip_abort_def same_screen_def still_record_def fault_def)
  next
    case (Some fd)
    have "same_screen scr t (ms_pageflip_free a t)" for t :: "'a drv"
      by (simp add: ms_pageflip_free_def same_screen_def still_record_def fault_def split: option.split)
    then show ?thesis
      using CB_flip Some flip_abort_same [of scr s "fl_client fd" "fl_screen fd"]
      by (auto simp: ms_pageflip_abort_def intro: same_screen_trans)
  qed
next
  case (CB_dri2 a)
  then show ?thesis by (simp add: ms_dri2_frame_event_abort_def del_frame_event_same)
qed (simp_all add: ms_present_vblank_abort_def free_present_def
      drmmode_SharedPixmapVBlankEventAbort_def same_screen_def still_record_def fault_def upd_ppriv_def)

lemma abort_scrn_same: "same_screen sc s (ms_drm_abort_scrn drv_abort scr s)"
proof -
  have "same_screen sc s (fold (\<lambda>q s. if q_scrn q = scr then ms_drm_abort_one drv_abort q s else s) qs s)" for qs
  proof (induction qs arbitrary: s)
    case Nil
    then show ?case by simp
  next
    case (Cons q qs)
    let ?t = "s\<lparr>ms_drm_queue := remove1 q (ms_drm_queue s)\<rparr>"
    have "same_screen sc s ?t" by (simp add: same_screen_def still_record_def)
    then have "same_screen sc s (ms_drm_abort_one drv_abort q s)"
      unfolding ms_drm_abort_one_def by (rule same_screen_trans [OF _ drv_abort_same])
    with Cons show ?case by (simp add: same_screen_trans [OF _ Cons.IH])
  qed
  then show ?thesis by (simp add: ms_drm_abort_scrn_def)
qed

lemma quiet_drv_abort_queue:
  "ms_drm_queue (ms_drm_abort_scrn drv_abort scr s) = filter (\<lambda>q. q_scrn q \<noteq> scr) (ms_drm_queue s)"
  by (rule abort_scrn_queue) (rule quiet_drv_abort)

text \<open>
  What closing the layers above leaves alone: the kernel's handles, the buffers of the screen,
  the queue and the CRTCs taken.
\<close>

definition closing :: "('k \<Rightarrow> u32 multiset) \<Rightarrow> nat \<Rightarrow> 'k drv \<Rightarrow> 'k drv \<Rightarrow> bool" where
  "closing live scr s t \<longleftrightarrow> live (kst t) = live (kst s) \<and> front_bo (mss t scr) = front_bo (mss s scr) \<and>
     config (mss t scr) = config (mss s scr) \<and> (\<forall>p. cursor_bo (crtcs t p) = cursor_bo (crtcs s p)) \<and>
     ms_drm_queue t = ms_drm_queue s \<and> assigned_crtcs (entity_of t) = assigned_crtcs (entity_of s)"

lemma closing_trans: "closing live scr s t \<Longrightarrow> closing live scr t u \<Longrightarrow> closing live scr s u"
  by (simp add: closing_def)

text \<open>A function of the server that leaves the driver's data alone.\<close>

definition leaves_driver :: "('k \<Rightarrow> u32 multiset) \<Rightarrow> ('k drv \<Rightarrow> 'k drv) \<Rightarrow> bool" where
  "leaves_driver live f \<longleftrightarrow> (\<forall>s. live (kst (f s)) = live (kst s) \<and> mss (f s) = mss s \<and>
     ms_drm_queue (f s) = ms_drm_queue s \<and> entity_of (f s) = entity_of s \<and>
     (\<forall>p. cursor_bo (crtcs (f s) p) = cursor_bo (crtcs s p)))"

lemma leaves_driver_closing: "leaves_driver live f \<Longrightarrow> closing live scr s (f s) \<and> mss (f s) = mss s"
  by (simp add: leaves_driver_def closing_def)

text \<open>
  The server's part in closing a screen: nothing of what it does there takes or gives back a
  buffer of the kernel.
\<close>

definition server_closes ::
  "('k \<Rightarrow> u32 multiset) \<Rightarrow> 'k env \<Rightarrow> 'k screen_server \<Rightarrow> 'k exa_server \<Rightarrow> nat \<Rightarrow> bool" where
  "server_closes live E V X scr \<longleftrightarrow>
     (\<forall>k. live (DRI2CloseScreen V scr k) = live k) \<and> (\<forall>d k. live (DamageDestroy V d k) = live k) \<and>
     (\<forall>px k. live (DamageUnregister E px k) = live k) \<and> (\<forall>k. live (shadow_Remove V scr k) = live k) \<and>
     (\<forall>k. live (drmDropMaster V k) = live k) \<and> (\<forall>k. live (snd (wrapped_CloseScreen V scr k)) = live k) \<and>
     leaves_driver live (hide_cursors V scr) \<and> leaves_driver live (exaDriverFini V scr) \<and>
     (\<forall>px. leaves_driver live (exa_DestroyPixmap X px))"

lemma vblank_close_keeps:
  fixes s :: "'k drv" and gen scr :: nat
  defines "t \<equiv> ms_vblank_close_screen drv_abort gen scr s"
  shows "kst t = kst s" and "crtcs t = crtcs s" and "still_record scr t = still_record scr s"
    and "ms_drm_queue t = filter (\<lambda>q. q_scrn q \<noteq> scr) (ms_drm_queue s)"
    and "assigned_crtcs (entity_of t) = assigned_crtcs (entity_of s)"
  using abort_scrn_same [of scr s scr] quiet_drv_abort_queue [of scr s]
  by (simp_all add: t_def ms_vblank_close_screen_def Let_def same_screen_def still_record_def LS_EntityDecRef_weakeup_def)

lemma close_damage_keeps:
  assumes "server_closes live E V X scr"
  shows "closing live scr s (close_damage E V scr s)"
    and "mss (close_damage E V scr s) scr = (mss s scr)\<lparr>damage_set := False\<rparr>"
  using assms by (simp_all add: close_damage_def closing_def upd_ms_def server_closes_def)

lemma close_layers_keeps:
  assumes "server_closes live E V X scr"
  shows "closing live scr s (close_layers E V X scr s)"
    and "damage_set (mss (close_layers E V X scr s) scr) = damage_set (mss s scr)"
    and "shadow_enable (mss s scr) \<Longrightarrow>
      shadow_fb (mss (close_layers E V X scr s) scr) = None \<and> shadow_fb2 (mss (close_layers E V X scr s) scr) = None"
proof -
  let ?D = "exa_DestroyPixmap X (screen_pixmap (kernel_of E) scr)"
  let ?d = "\<lambda>s. if exa_devPrivate V scr s then ?D s else s"
  define t where "t = (if exa_enabled (mss s scr)
    then snd (LS_DestroyExaLayer (kernel_of E) X (exa_devPrivate V scr s) (exaDriverFini V scr) scr s) else s)"
  have D: "closing live scr u (?D u)" "mss (?D u) = mss u" for u
    using assms leaves_driver_closing [of live ?D scr u] by (simp_all add: server_closes_def)
  have F: "closing live scr u (exaDriverFini V scr u)" "mss (exaDriverFini V scr u) = mss u" for u
    using assms leaves_driver_closing [of live "exaDriverFini V scr" scr u] by (simp_all add: server_closes_def)
  have DF: "closing live scr s (exaDriverFini V scr (?d s))" "mss (exaDriverFini V scr (?d s)) = mss s"
    using D [of s] F [of "?d s"] F [of s] by (auto intro: closing_trans)
  have t: "closing live scr s t" "damage_set (mss t scr) = damage_set (mss s scr)"
    "shadow_enable (mss t scr) = shadow_enable (mss s scr)"
    using DF by (simp_all add: t_def LS_DestroyExaLayer_def Let_def closing_def upd_ms_def)
  have R: "live (shadow_Remove V scr k) = live k" for k using assms by (simp add: server_closes_def)
  have e: "close_layers E V X scr s = (if shadow_enable (mss t scr)
      then LS_ShadowFreeDoubleFB scr (LS_ShadowFreeFB scr (t\<lparr>kst := shadow_Remove V scr (kst t)\<rparr>)) else t)"
    by (simp add: close_layers_def Let_def t_def)
  show "closing live scr s (close_layers E V X scr s)"
    using t(1) R by (simp add: e LS_ShadowFreeDoubleFB_def LS_ShadowFreeFB_def closing_def upd_ms_def)
  show "damage_set (mss (close_layers E V X scr s) scr) = damage_set (mss s scr)"
    using t(2) by (simp add: e LS_ShadowFreeDoubleFB_def LS_ShadowFreeFB_def upd_ms_def)
  show "shadow_enable (mss s scr) \<Longrightarrow>
      shadow_fb (mss (close_layers E V X scr s) scr) = None \<and> shadow_fb2 (mss (close_layers E V X scr s) scr) = None"
    using t(3) by (simp add: e LS_ShadowFreeDoubleFB_def LS_ShadowFreeFB_def upd_ms_def)
qed

lemma destroy_frames:
  "ms_drm_queue (snd (dumb_bo_destroy K bo s)) = ms_drm_queue s" "entity_of (snd (dumb_bo_destroy K bo s)) = entity_of s"
  "mss (snd (dumb_bo_destroy K bo s)) = mss s"
  "ms_drm_queue (snd (drmmode_bo_destroy K b s)) = ms_drm_queue s" "entity_of (snd (drmmode_bo_destroy K b s)) = entity_of s"
  by (simp_all add: dumb_bo_destroy_def drmmode_bo_destroy_def Let_def case_prod_beta split: option.split)

lemma free_cursors_frame:
  "ms_drm_queue (free_cursor_bos K ps s) = ms_drm_queue s \<and> entity_of (free_cursor_bos K ps s) = entity_of s \<and>
   mss (free_cursor_bos K ps s) = mss s"
  by (induction ps arbitrary: s)
     (simp_all add: case_prod_beta destroy_frames frame_simps upd_crtc_def misc_fault_def split: option.split)

lemma free_bos_frame:
  "ms_drm_queue (drmmode_free_bos K scr s) = ms_drm_queue s"
  "entity_of (drmmode_free_bos K scr s) = entity_of s"
  "\<exists>bo. mss (drmmode_free_bos K scr s) scr = (mss s scr)\<lparr>fb_id := 0, front_bo := bo\<rparr>"
proof -
  define w where "w = (if fb_id (mss s scr) \<noteq> 0
    then upd_ms scr (\<lambda>m. m\<lparr>fb_id := 0\<rparr>) (s\<lparr>kst := drmModeRmFB K (fb_id (mss s scr)) (kst s)\<rparr>) else s)"
  have w: "ms_drm_queue w = ms_drm_queue s" "entity_of w = entity_of s" "mss w scr = (mss s scr)\<lparr>fb_id := 0\<rparr>"
    by (simp_all add: w_def upd_ms_def)
  obtain bo x where d: "drmmode_bo_destroy K (front_bo (mss w scr)) w = (bo, x)" by (metis surj_pair)
  have x: "ms_drm_queue x = ms_drm_queue w" "entity_of x = entity_of w" "mss x = mss w"
    using destroy_frames(4,5) [of K "front_bo (mss w scr)" w] bo_destroy_frame [of K "front_bo (mss w scr)" w] d by simp_all
  have e: "drmmode_free_bos K scr s =
      free_cursor_bos K (config (mss x scr)) (upd_ms scr (\<lambda>m. m\<lparr>front_bo := bo\<rparr>) x)"
    using d by (simp add: drmmode_free_bos_def Let_def flip: w_def)
  note f = free_cursors_frame [of K "config (mss x scr)" "upd_ms scr (\<lambda>m. m\<lparr>front_bo := bo\<rparr>) x"]
  show "ms_drm_queue (drmmode_free_bos K scr s) = ms_drm_queue s"
    and "entity_of (drmmode_free_bos K scr s) = entity_of s"
    using f w x by (simp_all add: e upd_ms_def)
  have "mss (drmmode_free_bos K scr s) scr = (mss s scr)\<lparr>fb_id := 0, front_bo := bo\<rparr>"
    using f w x by (simp add: e upd_ms_def)
  then show "\<exists>bo. mss (drmmode_free_bos K scr s) scr = (mss s scr)\<lparr>fb_id := 0, front_bo := bo\<rparr>" ..
qed

lemma close_upper_keeps:
  fixes s :: "'k drv" and gen scr :: nat
  assumes "server_closes live E V X scr"
  defines "d \<equiv> close_upper E V X gen scr s"
  shows "front_bo (mss d scr) = front_bo (mss s scr)" and "config (mss d scr) = config (mss s scr)"
    and "live (kst d) = live (kst s)" and "cursor_handles ps d = cursor_handles ps s"
    and "ms_drm_queue d = filter (\<lambda>q. q_scrn q \<noteq> scr) (ms_drm_queue s)" and "assigned_crtcs (entity_of d) = 0"
    and "\<not> damage_set (mss d scr)"
    and "shadow_enable (mss s scr) \<Longrightarrow> shadow_fb (mss d scr) = None \<and> shadow_fb2 (mss d scr) = None"
proof -
  define a where "a = (let s = s\<lparr>entity_of := LS_EntityClearAssignedCrtc (entity_of s)\<rparr>
    in if dri2_enable (mss s scr) then s\<lparr>kst := DRI2CloseScreen V scr (kst s)\<rparr> else s)"
  define b where "b = ms_vblank_close_screen drv_abort gen scr a"
  define c where "c = close_damage E V scr b"
  have d_c: "d = close_layers E V X scr c"
    by (simp add: d_def close_upper_def Let_def a_def b_def c_def)
  have a: "live (kst a) = live (kst s)" "crtcs a = crtcs s" "mss a = mss s" "ms_drm_queue a = ms_drm_queue s"
    "assigned_crtcs (entity_of a) = 0"
    using assms(1) by (simp_all add: a_def Let_def server_closes_def LS_EntityClearAssignedCrtc_def)
  note b = vblank_close_keeps [where gen = gen and scr = scr and s = a, folded b_def]
  have bm: "front_bo (mss b scr) = front_bo (mss s scr)" "config (mss b scr) = config (mss s scr)"
    "shadow_enable (mss b scr) = shadow_enable (mss s scr)"
    using arg_cong [OF b(3), of front_bo] arg_cong [OF b(3), of config] arg_cong [OF b(3), of shadow_enable] a(3)
    by (simp_all add: still_record_def)
  note c = close_damage_keeps [OF assms(1), of b, folded c_def]
  note d = close_layers_keeps [OF assms(1), of c, folded d_c]
  have bd: "closing live scr b d" using c(1) d(1) by (rule closing_trans)
  then show "front_bo (mss d scr) = front_bo (mss s scr)" "config (mss d scr) = config (mss s scr)"
    "live (kst d) = live (kst s)" "ms_drm_queue d = filter (\<lambda>q. q_scrn q \<noteq> scr) (ms_drm_queue s)"
    "assigned_crtcs (entity_of d) = 0"
    using bm a b by (simp_all add: closing_def)
  show "cursor_handles ps d = cursor_handles ps s"
    using bd a b by (simp add: closing_def cursor_handles_def cursor_handle_def)
  show "\<not> damage_set (mss d scr)"
    and "shadow_enable (mss s scr) \<Longrightarrow> shadow_fb (mss d scr) = None \<and> shadow_fb2 (mss d scr) = None"
    using d(2,3) c(2) bm(3) by simp_all
qed

lemma leave_vt_keeps:
  assumes "server_closes live E V X scr"
  shows "live (kst (LeaveVT V scr s)) = live (kst s)" and "ms_drm_queue (LeaveVT V scr s) = ms_drm_queue s"
    and "entity_of (LeaveVT V scr s) = entity_of s" and "mss (LeaveVT V scr s) scr = (mss s scr)\<lparr>vtSema := False\<rparr>"
  using assms by (simp_all add: server_closes_def leaves_driver_def LeaveVT_def Let_def upd_ms_def)

text \<open>
  What is left of a screen: no event in the queue, no buffer, no framebuffer, no damage record,
  no CRTC taken; the terminal is left.
\<close>

definition screen_gone :: "nat \<Rightarrow> 'k drv \<Rightarrow> bool" where
  "screen_gone scr t \<longleftrightarrow> \<not> (\<exists>q \<in> set (ms_drm_queue t). q_scrn q = scr) \<and> fb_id (mss t scr) = 0 \<and>
     \<not> damage_set (mss t scr) \<and> \<not> vtSema (mss t scr) \<and> assigned_crtcs (entity_of t) = 0"


definition quiet_server :: "'k screen_server" where
  "quiet_server = \<lparr>damage_rects = (\<lambda>d k. []), DamageEmpty = (\<lambda>d k. k), DamageCreate = (\<lambda>scr k. (True, k)),
     DamageDestroy = (\<lambda>d k. k), pixmap_dirty_list = (\<lambda>scr k. []), isGPU = (\<lambda>scr. False),
     master_pixmap = id, pixmap_screen = (\<lambda>px. 0), notify_damage = (\<lambda>px k. k), append_damage = (\<lambda>px k. k),
     copy_dirty = (\<lambda>e k. k), process_damage = (\<lambda>px k. k), StartDirtyTracking = (\<lambda>src dst k. (True, k)),
     StopDirtyTracking = (\<lambda>src dst k. (True, k)), wrapped_BlockHandler = (\<lambda>scr k. k),
     wrapped_CreateScreenResources = (\<lambda>scr k. (True, k)), wrapped_CloseScreen = (\<lambda>scr k. (True, k)),
     wrapped_CreateWindow = (\<lambda>w k. (True, k)), drmSetMaster = (\<lambda>k. (0, k)), drmDropMaster = (\<lambda>k. k),
     hide_cursors = (\<lambda>scr s. s), server_fd = (\<lambda>scr. False), shadow_Setup = (\<lambda>scr k. (True, k)),
     shadow_Add = (\<lambda>scr k. (True, k)), shadow_Remove = (\<lambda>scr k. k), DRI2CloseScreen = (\<lambda>scr k. k),
     exa_devPrivate = (\<lambda>scr s. False), exaDriverAlloc = (\<lambda>scr. True), exaDriverInit = (\<lambda>scr d s. (True, s)),
     exaDriverFini = (\<lambda>scr s. s)\<rparr>"

definition quiet_exa :: "'k exa_server" where
  "quiet_exa = \<lparr>exa_CreatePixmap = (\<lambda>scr w h d u s. (None, s)), exa_ModifyPixmapHeader = (\<lambda>px w h d b p s. (False, s)),
     exa_DestroyPixmap = (\<lambda>px s. s)\<rparr>"

text \<open>A screen with one cursor and a Present request, while another screen waits for one, too.\<close>

definition open_screen :: "u32 list drv" where
  "open_screen = (idle_drv [7, 8, 9])\<lparr>
     mss := (\<lambda>_. zero_ms\<lparr>config := [0], vtSema := True, fb_id := 30, damage_set := True, shadow_enable := True,
       shadow_fb := Some 64, front_bo := no_bo\<lparr>bo_dumb := Some \<lparr>db_handle = 7, db_size = 64, db_ptr = False, db_pitch = 4\<rparr>\<rparr>\<rparr>),
     crtcs := (\<lambda>_. zero_crtc\<lparr>cursor_bo := Some \<lparr>db_handle = 8, db_size = 64, db_ptr = True, db_pitch = 4\<rparr>\<rparr>),
     presents := (\<lambda>_. Some \<lparr>pe_event_id = 5, pe_unflip = False\<rparr>),
     ms_drm_queue := [\<lparr>q_crtc = 0, q_seq = 1, q_data = CB_present 3, q_scrn = 0\<rparr>,
                      \<lparr>q_crtc = 1, q_seq = 2, q_data = CB_present 4, q_scrn = 1\<rparr>]\<rparr>"


section \<open>Damage is not lost\<close>

definition rect_area :: "int \<times> int \<times> int \<times> int \<Rightarrow> (int \<times> int) set" where
  "rect_area = (\<lambda>(x1, y1, x2, y2). {x1 ..< x2} \<times> {y1 ..< y2})"

definition area :: "rects \<Rightarrow> (int \<times> int) set" where
  "area cs = \<Union> (rect_area ` set cs)"

text \<open>A rectangle inside the largest screen.\<close>

definition on_screen :: "int \<times> int \<times> int \<times> int \<Rightarrow> bool" where
  "on_screen = (\<lambda>(x1, y1, x2, y2). {x1, y1, x2, y2} \<subseteq> {0 ..< 65536})"

lemma clip_of_on_screen: "on_screen c \<Longrightarrow> clip_of c = c"
  by (auto simp: on_screen_def clip_of_def unsigned_of_int take_bit_int_eq_self split: prod.splits)

text \<open>
  A kernel that either takes the rectangles, and shows what they cover from then on, or refuses
  them with one of the two errors the driver knows. \<open>shown\<close> is what of a framebuffer is up to
  date.
\<close>

definition shows_damage :: "'k kernel \<Rightarrow> ('k \<Rightarrow> u32 \<Rightarrow> (int \<times> int) set) \<Rightarrow> bool" where
  "shows_damage K shown \<longleftrightarrow> (\<forall>fb cs k r k'. drmModeDirtyFB K fb cs k = (r, k') \<longrightarrow>
     shown k fb \<subseteq> shown k' fb \<and> (r = 0 \<and> area cs \<subseteq> shown k' fb \<or> r = - EINVAL \<or> r = - ENOSYS))"

lemma one_by_one_shows:
  assumes "shows_damage K shown"
  shows "cs \<noteq> [] \<Longrightarrow> dirty_one_by_one K fb ret cs k = (r, k') \<Longrightarrow>
    shown k fb \<subseteq> shown k' fb \<and> (r = 0 \<and> area cs \<subseteq> shown k' fb \<or> r = - EINVAL \<or> r = - ENOSYS)"
proof (induction cs arbitrary: ret k)
  case Nil
  then show ?case by simp
next
  case (Cons c cs)
  obtain r1 k1 where d: "drmModeDirtyFB K fb [c] k = (r1, k1)" by (metis surj_pair)
  from assms d have s: "shown k fb \<subseteq> shown k1 fb"
    and r1: "r1 = 0 \<and> area [c] \<subseteq> shown k1 fb \<or> r1 = - EINVAL \<or> r1 = - ENOSYS"
    unfolding shows_damage_def by blast+
  show ?case
  proof (cases "r1 < 0")
    case True
    with Cons.prems d s r1 show ?thesis by auto
  next
    case False
    with r1 have a: "area [c] \<subseteq> shown k1 fb" and z: "r1 = 0" by auto
    have rest: "dirty_one_by_one K fb r1 cs k1 = (r, k')" using Cons.prems d False by simp
    show ?thesis
    proof (cases "cs = []")
      case True
      then show ?thesis using rest a z s by simp
    next
      case False
      from Cons.IH [OF this rest] a s show ?thesis by (auto simp: area_def)
    qed
  qed
qed

text \<open>Both ways of telling the kernel end alike.\<close>

lemma region_shows:
  assumes "shows_damage K shown" and "\<forall>d k. shown (DamageEmpty V d k) = shown k"
    and "\<forall>c \<in> set (damage_rects V d (kst s)). on_screen c" and "damage_rects V d (kst s) \<noteq> []"
    and "mem_ok s = []"
  obtains r k where "dispatch_dirty_region K V d fb s = (r, s\<lparr>kst := DamageEmpty V d k\<rparr>)"
    and "r = 0 \<and> area (damage_rects V d (kst s)) \<subseteq> shown k fb \<or> r = - EINVAL \<or> r = - ENOSYS"
proof -
  let ?D = "damage_rects V d (kst s)"
  have clip: "map clip_of ?D = ?D" using assms(3) by (auto intro: map_idI clip_of_on_screen)
  obtain r k where d: "drmModeDirtyFB K fb ?D (kst s) = (r, k)" by (metis surj_pair)
  from assms(1) d have s1: "r = 0 \<and> area ?D \<subseteq> shown k fb \<or> r = - EINVAL \<or> r = - ENOSYS"
    unfolding shows_damage_def by blast
  obtain r' k' where d': "(if r = - EINVAL then dirty_one_by_one K fb r ?D k else (r, k)) = (r', k')" by (metis surj_pair)
  have "r' = 0 \<and> area ?D \<subseteq> shown k' fb \<or> r' = - EINVAL \<or> r' = - ENOSYS"
  proof (cases "r = - EINVAL")
    case True
    with d' have "dirty_one_by_one K fb r ?D k = (r', k')" by simp
    from one_by_one_shows [OF assms(1,4) this] show ?thesis by blast
  next
    case False
    with d' s1 show ?thesis by auto
  qed
  moreover have "calloc s = (True, s)" using assms(5) by (simp add: calloc_def)
  then have "dispatch_dirty_region K V d fb s = (r', s\<lparr>kst := DamageEmpty V d k'\<rparr>)"
    using d d' assms(4) unfolding dispatch_dirty_region_def Let_def clip by simp
  ultimately show thesis by (rule that [rotated])
qed


text \<open>A kernel that takes one rectangle at a time, with two of them to show.\<close>

type_synonym toy_damage = "rects \<times> rects"

definition single_kernel :: "toy_damage kernel" where
  "single_kernel = dead_kernel\<lparr>drmModeDirtyFB := (\<lambda>fb cs (d, sh). if length cs \<le> 1 then (0, (d, cs @ sh)) else (- EINVAL, (d, sh)))\<rparr>"

definition toy_server :: "toy_damage screen_server" where
  "toy_server = quiet_server\<lparr>damage_rects := (\<lambda>d k. fst k), DamageEmpty := (\<lambda>d k. ([], snd k))\<rparr>"


end
