(* ===== verification/Outputs.thy ===== *)
theory Outputs
  imports Screen_Fb Leases "HOL-Library.Countable"
begin

text \<open>
  Outputs and connectors (\<^verbatim>\<open>src/src/drmmode_display.c\<close>): the connectors of the kernel
  and their properties, the RandR properties made of them, the names of outputs, and how an output
  is made for a connector.
\<close>

section \<open>Connectors\<close>

abbreviation (input) DRM_MODE_PROP_RANGE :: u32 where "DRM_MODE_PROP_RANGE \<equiv> 2"
abbreviation (input) DRM_MODE_PROP_IMMUTABLE :: u32 where "DRM_MODE_PROP_IMMUTABLE \<equiv> 4"
abbreviation (input) DRM_MODE_PROP_ENUM :: u32 where "DRM_MODE_PROP_ENUM \<equiv> 8"
abbreviation (input) DRM_MODE_PROP_BLOB :: u32 where "DRM_MODE_PROP_BLOB \<equiv> 16"

text \<open>
  libdrm's \<^verbatim>\<open>drmModePropertyRes\<close>, \<^verbatim>\<open>drmModeConnector\<close> and
  \<^verbatim>\<open>drmModeEncoder\<close>, as far as the driver reads them; a connector's properties are pairs
  of identifier and value.
\<close>

record connector_prop =
  cp_id :: u32
  cp_name :: string
  cp_flags :: u32
  cp_values :: "u64 list"
  cp_enums :: "(string \<times> u64) list"

record connector =
  cn_id :: u32
  cn_type :: u32
  cn_type_id :: u32
  cn_connection :: u32
  cn_encoders :: "u32 list"
  cn_props :: "(u32 \<times> u64) list"
  cn_modes :: "kmode list"

record encoder =
  en_id :: u32
  en_possible_crtcs :: u32
  en_possible_clones :: u32

record mode_resources =
  mr_connectors :: "u32 list"
  mr_encoders :: "u32 list"
  mr_crtcs :: "u32 list"

text \<open>
  A property of an output (\<^verbatim>\<open>drmmode_prop_rec\<close>); \<open>op_atoms\<close> is \<open>None\<close> while the
  pointer is null.
\<close>

record output_prop =
  op_mode_prop :: connector_prop
  op_value :: u64
  op_atoms :: "nat list option"

text \<open>
  The part of an output and of its \<^verbatim>\<open>drmmode_output_private_rec\<close> that the operations
  here add to what mode setting uses (the record of the same index in \<open>outputs\<close>).
\<close>

record connector_ext =
  ox_name :: string
  ox_connector :: "connector option"
  ox_encoders :: "encoder list"
  ox_props :: "output_prop list"
  ox_tile_blob :: "string option"
  ox_edid_blob :: "string option"
  ox_enc_mask :: u32
  ox_enc_clone_mask :: u32
  ox_possible_crtcs :: u32
  ox_possible_clones :: u32
  ox_non_desktop :: bool

definition zero_ext :: connector_ext where
  "zero_ext = \<lparr>ox_name = '''', ox_connector = None, ox_encoders = [], ox_props = [], ox_tile_blob = None, ox_edid_blob = None,
     ox_enc_mask = 0, ox_enc_clone_mask = 0, ox_possible_crtcs = 0, ox_possible_clones = 0, ox_non_desktop = False\<rparr>"

definition zero_output :: xf86_output where
  "zero_output = \<lparr>out_id = 0, out_crtc = None, out_current_crtc = None, out_props = [], out_koutput = None,
     out_dpms = 0, out_dpms_enum_id = 0\<rparr>"

text \<open>
  The driver with the outputs of a screen. The tables of the kernel (properties, blobs,
  encoders) are functions; probing a connector may change the kernel's state. Atoms are numbers.
  A value given to RandR is an integer or an atom.
\<close>

record 'k kms =
  kms_drv :: "'k drv"
  kms_exts :: "connector_ext list"

datatype rr_value = RR_INTEGER int | RR_ATOM nat

record 'k connectors =
  drmModeGetConnector :: "u32 \<Rightarrow> 'k \<Rightarrow> connector option \<times> 'k"
  drmModeGetProperty :: "u32 \<Rightarrow> connector_prop option"
  drmModeGetPropertyBlob :: "u32 \<Rightarrow> string option"
  drmModeGetEncoder :: "u32 \<Rightarrow> encoder option"
  drmModeGetResources :: "'k \<Rightarrow> mode_resources option \<times> 'k"
  drmModeObjectGetProperties :: "u32 \<Rightarrow> (u32 \<times> u64) list"
  MakeAtom :: "string \<Rightarrow> nat"
  NameForAtom :: "nat \<Rightarrow> string option"
  RRConfigureOutputProperty :: "nat \<Rightarrow> nat \<Rightarrow> bool \<Rightarrow> bool \<Rightarrow> bool \<Rightarrow> rr_value list \<Rightarrow> 'k \<Rightarrow> 'k"
  RRChangeOutputProperty :: "nat \<Rightarrow> nat \<Rightarrow> rr_value \<Rightarrow> bool \<Rightarrow> 'k \<Rightarrow> 'k"
  RROutputCreate :: "string \<Rightarrow> 'k \<Rightarrow> bool \<times> 'k"
  RRPostPendingProperties :: "nat \<Rightarrow> 'k \<Rightarrow> 'k"
  RRTellChanged :: "'k \<Rightarrow> 'k"
  RRGetInfo :: "'k kms \<Rightarrow> 'k kms"
  xf86OutputCreate :: "string \<Rightarrow> 'k \<Rightarrow> bool \<times> 'k"
  xf86OutputSetTile :: "nat \<Rightarrow> string option \<Rightarrow> 'k \<Rightarrow> 'k"
  parse_tile :: "string \<Rightarrow> bool"
  entity_shared :: bool
  zaphod_heads :: "string option"
  is_secondary :: bool
  screen_is_gpu :: bool
  screen_index :: int

definition on_kernel :: "('k \<Rightarrow> 'k) \<Rightarrow> 'k kms \<Rightarrow> 'k kms" where
  "on_kernel f S = S\<lparr>kms_drv := (kms_drv S)\<lparr>kst := f (kst (kms_drv S))\<rparr>\<rparr>"

definition upd_ext :: "nat \<Rightarrow> (connector_ext \<Rightarrow> connector_ext) \<Rightarrow> 'k kms \<Rightarrow> 'k kms" where
  "upd_ext i f S = S\<lparr>kms_exts := (kms_exts S)[i := f (kms_exts S ! i)]\<rparr>"

definition upd_output :: "nat \<Rightarrow> nat \<Rightarrow> (xf86_output \<Rightarrow> xf86_output) \<Rightarrow> 'k kms \<Rightarrow> 'k kms" where
  "upd_output scr i f S =
     S\<lparr>kms_drv := upd_ms scr (\<lambda>m. m\<lparr>outputs := (outputs m)[i := f (outputs m ! i)]\<rparr>) (kms_drv S)\<rparr>"

definition kms_fault :: "'k kms \<Rightarrow> 'k kms" where
  "kms_fault S = S\<lparr>kms_drv := misc_fault (kms_drv S)\<rparr>"

section \<open>Finding a property\<close>

text \<open>libdrm's \<^verbatim>\<open>drm_property_type_is\<close>.\<close>

definition drm_property_type_is :: "connector_prop \<Rightarrow> u32 \<Rightarrow> bool" where
  "drm_property_type_is prop_res t =
     (if cp_flags prop_res AND 0xffc0 \<noteq> 0 then cp_flags prop_res AND 0xffc0 = t else cp_flags prop_res AND t \<noteq> 0)"

fun prop_idx :: "'k connectors \<Rightarrow> u32 \<Rightarrow> string \<Rightarrow> nat \<Rightarrow> (u32 \<times> u64) list \<Rightarrow> int" where
  "prop_idx C t name i [] = -1"
| "prop_idx C t name i ((pid, v) # ps) =
     (case drmModeGetProperty C pid of
        None \<Rightarrow> prop_idx C t name (Suc i) ps
      | Some p \<Rightarrow>
          if drm_property_type_is p t \<and> cp_name p = name then int i else prop_idx C t name (Suc i) ps)"

definition koutput_get_prop_idx :: "'k connectors \<Rightarrow> connector \<Rightarrow> u32 \<Rightarrow> string \<Rightarrow> int" where
  "koutput_get_prop_idx C koutput t name = prop_idx C t name 0 (cn_props koutput)"

definition koutput_get_prop_id :: "'k connectors \<Rightarrow> connector \<Rightarrow> u32 \<Rightarrow> string \<Rightarrow> int" where
  "koutput_get_prop_id C koutput t name =
     (let idx = koutput_get_prop_idx C koutput t name
      in if idx > -1 then sint (fst (cn_props koutput ! nat idx)) else -1)"

definition koutput_get_prop_blob :: "'k connectors \<Rightarrow> connector \<Rightarrow> string \<Rightarrow> string option" where
  "koutput_get_prop_blob C koutput name =
     (let idx = koutput_get_prop_idx C koutput DRM_MODE_PROP_BLOB name
      in if idx > -1 then drmModeGetPropertyBlob C (ucast (snd (cn_props koutput ! nat idx))) else None)"

definition has_panel_fitter :: "'k connectors \<Rightarrow> connector \<Rightarrow> bool" where
  "has_panel_fitter C koutput \<longleftrightarrow> koutput_get_prop_idx C koutput DRM_MODE_PROP_ENUM ''scaling mode'' > -1"

definition drmmode_output_attach_tile :: "'k connectors \<Rightarrow> nat \<Rightarrow> 'k kms \<Rightarrow> 'k kms" where
  "drmmode_output_attach_tile C i S =
     (case ox_connector (kms_exts S ! i) of
        None \<Rightarrow> on_kernel (xf86OutputSetTile C i None) S
      | Some koutput \<Rightarrow>
          let tile = koutput_get_prop_blob C koutput ''TILE'';
              S = upd_ext i (\<lambda>x. x\<lparr>ox_tile_blob := tile\<rparr>) S;
              info = (case tile of None \<Rightarrow> None | Some data \<Rightarrow> if parse_tile C data then Some data else None)
          in on_kernel (xf86OutputSetTile C i info) S)"

section \<open>RandR properties\<close>

definition has_flag :: "connector_prop \<Rightarrow> u32 \<Rightarrow> bool" where
  "has_flag p f \<longleftrightarrow> cp_flags p AND f \<noteq> 0"

definition to_INT32 :: "u64 \<Rightarrow> int" where
  "to_INT32 v = sint (ucast v :: u32)"

text \<open>The position of the first enumerator with a value, the number of enumerators without one.\<close>

definition enum_idx :: "connector_prop \<Rightarrow> u64 \<Rightarrow> nat" where
  "enum_idx p v = length (takeWhile (\<lambda>e. snd e \<noteq> v) (cp_enums p))"

text \<open>
  Telling RandR of a value that changed. The atoms are read without a test; a value that is not
  among the enumerators is not reported.
\<close>

definition report_value :: "'k connectors \<Rightarrow> nat \<Rightarrow> output_prop \<Rightarrow> 'k kms \<Rightarrow> 'k kms" where
  "report_value C i q S =
     (let p = op_mode_prop q in
      if has_flag p DRM_MODE_PROP_RANGE then
        (case op_atoms q of
           None \<Rightarrow> kms_fault S
         | Some as \<Rightarrow> on_kernel (RRChangeOutputProperty C i (as ! 0) (RR_INTEGER (to_INT32 (op_value q))) True) S)
      else if has_flag p DRM_MODE_PROP_ENUM then
        (let j = enum_idx p (op_value q) in
         if j < length (cp_enums p) then
           (case op_atoms q of
              None \<Rightarrow> kms_fault S
            | Some as \<Rightarrow> on_kernel (RRChangeOutputProperty C i (as ! 0) (RR_ATOM (as ! (j + 1))) True) S)
         else S)
      else S)"

fun update_props :: "'k connectors \<Rightarrow> nat \<Rightarrow> connector \<Rightarrow> output_prop list \<Rightarrow> 'k kms \<Rightarrow> output_prop list \<times> 'k kms" where
  "update_props C i koutput [] S = ([], S)"
| "update_props C i koutput (q # qs) S =
     (case map_of (cn_props koutput) (cp_id (op_mode_prop q)) of
        None \<Rightarrow> (case update_props C i koutput qs S of (qs, S) \<Rightarrow> (q # qs, S))
      | Some v \<Rightarrow>
          if v = op_value q then (case update_props C i koutput qs S of (qs, S) \<Rightarrow> (q # qs, S))
          else
            let q = q\<lparr>op_value := v\<rparr>
            in case update_props C i koutput qs (report_value C i q S) of (qs, S) \<Rightarrow> (q # qs, S))"

definition drmmode_output_update_properties :: "'k connectors \<Rightarrow> nat \<Rightarrow> 'k kms \<Rightarrow> 'k kms" where
  "drmmode_output_update_properties C i S =
     (case ox_connector (kms_exts S ! i) of
        None \<Rightarrow> S
      | Some koutput \<Rightarrow>
          (case update_props C i koutput (ox_props (kms_exts S ! i)) S of
             (qs, S) \<Rightarrow> upd_ext i (\<lambda>x. x\<lparr>ox_props := qs\<rparr>) S))"

datatype output_status = Connected | Disconnected | UnknownStatus

text \<open>
  A connector that is gone leaves the identifier \<open>-1\<close>. \<open>set_connector\<close> keeps the two halves
  of an output in step.
\<close>

definition set_connector :: "nat \<Rightarrow> nat \<Rightarrow> connector option \<Rightarrow> 'k kms \<Rightarrow> 'k kms" where
  "set_connector scr i koutput S =
     upd_output scr i (\<lambda>out. out\<lparr>out_koutput := map_option cn_id koutput\<rparr>) (upd_ext i (\<lambda>x. x\<lparr>ox_connector := koutput\<rparr>) S)"

abbreviation output_at :: "nat \<Rightarrow> nat \<Rightarrow> 'k kms \<Rightarrow> xf86_output" where
  "output_at scr i S \<equiv> outputs (mss (kms_drv S) scr) ! i"

definition drmmode_output_detect :: "'k connectors \<Rightarrow> nat \<Rightarrow> nat \<Rightarrow> 'k kms \<Rightarrow> output_status \<times> 'k kms" where
  "drmmode_output_detect C scr i S =
     (if out_id (output_at scr i S) = -1 then (Disconnected, S)
      else case drmModeGetConnector C (word_of_int (out_id (output_at scr i S))) (kst (kms_drv S)) of
        (koutput, k) \<Rightarrow>
          let S = set_connector scr i koutput (on_kernel (\<lambda>_. k) S) in
          (case koutput of
             None \<Rightarrow> (Disconnected, upd_output scr i (\<lambda>out. out\<lparr>out_id := -1\<rparr>) S)
           | Some cn \<Rightarrow>
               (if cn_connection cn = 1 then Connected else if cn_connection cn = 2 then Disconnected else UnknownStatus,
                drmmode_output_update_properties C i S)))"

definition drmmode_property_ignore :: "connector_prop option \<Rightarrow> bool" where
  "drmmode_property_ignore prop_res =
     (case prop_res of
        None \<Rightarrow> True
      | Some p \<Rightarrow>
          if has_flag p DRM_MODE_PROP_BLOB then True
          else cp_name p = ''EDID'' \<or> cp_name p = ''DPMS'' \<or> cp_name p = ''CRTC_ID'')"

definition collect_props :: "'k connectors \<Rightarrow> (u32 \<times> u64) list \<Rightarrow> output_prop list" where
  "collect_props C ps =
     concat (map (\<lambda>(pid, v).
       let p = drmModeGetProperty C pid
       in if drmmode_property_ignore p then []
          else [\<lparr>op_mode_prop = the p, op_value = v, op_atoms = None\<rparr>]) ps)"

text \<open>
  Making the RandR property of a kernel property: one atom for its name and one for each
  enumerator. A value that is not among the enumerators would be read past the end of the atoms.
\<close>

definition create_property :: "'k connectors \<Rightarrow> nat \<Rightarrow> output_prop \<Rightarrow> 'k kms \<Rightarrow> output_prop \<times> 'k kms" where
  "create_property C i q S =
     (let p = op_mode_prop q; immutable = has_flag p DRM_MODE_PROP_IMMUTABLE in
      if has_flag p DRM_MODE_PROP_RANGE then
        (case calloc (kms_drv S) of (ok, s) \<Rightarrow>
           let S = S\<lparr>kms_drv := s\<rparr> in
           if \<not> ok then (q, S)
           else
             let a = MakeAtom C (cp_name p);
                 S = on_kernel (RRConfigureOutputProperty C i a False True immutable
                       [RR_INTEGER (to_INT32 (cp_values p ! 0)), RR_INTEGER (to_INT32 (cp_values p ! 1))]) S
             in (q\<lparr>op_atoms := Some [a]\<rparr>,
                 on_kernel (RRChangeOutputProperty C i a (RR_INTEGER (to_INT32 (op_value q))) True) S))
      else if has_flag p DRM_MODE_PROP_ENUM then
        (case calloc (kms_drv S) of (ok, s) \<Rightarrow>
           let S = S\<lparr>kms_drv := s\<rparr> in
           if \<not> ok then (q, S)
           else
             let a = MakeAtom C (cp_name p);
                 es = map (\<lambda>e. MakeAtom C (fst e)) (cp_enums p);
                 S = on_kernel (RRConfigureOutputProperty C i a False False immutable (map RR_ATOM es)) S;
                 j = enum_idx p (op_value q)
             in (q\<lparr>op_atoms := Some (a # es)\<rparr>,
                 if j < length es then on_kernel (RRChangeOutputProperty C i a (RR_ATOM ((a # es) ! (j + 1))) True) S
                 else kms_fault S))
      else (q, S))"

fun create_properties :: "'k connectors \<Rightarrow> nat \<Rightarrow> output_prop list \<Rightarrow> 'k kms \<Rightarrow> output_prop list \<times> 'k kms" where
  "create_properties C i [] S = ([], S)"
| "create_properties C i (q # qs) S =
     (case create_property C i q S of
        (q, S) \<Rightarrow> (case create_properties C i qs S of (qs, S) \<Rightarrow> (q # qs, S)))"

text \<open>\<open>mode_output\<close> is read without a test. The RandR atom for \<^verbatim>\<open>CONNECTOR_ID\<close> can be made.\<close>

definition drmmode_output_create_resources :: "'k connectors \<Rightarrow> nat \<Rightarrow> 'k kms \<Rightarrow> 'k kms" where
  "drmmode_output_create_resources C i S =
     (case ox_connector (kms_exts S ! i) of
        None \<Rightarrow> kms_fault S
      | Some cn \<Rightarrow>
          (case calloc (kms_drv S) of (ok, s) \<Rightarrow>
             let S = S\<lparr>kms_drv := s\<rparr> in
             if \<not> ok then upd_ext i (\<lambda>x. x\<lparr>ox_props := []\<rparr>) S
             else
               let a = MakeAtom C ''CONNECTOR_ID'';
                   v = RR_INTEGER (sint (cn_id cn));
                   S = on_kernel (RRChangeOutputProperty C i a v False)
                         (on_kernel (RRConfigureOutputProperty C i a False False True [v]) S)
               in case create_properties C i (collect_props C (cn_props cn)) S of
                    (qs, S) \<Rightarrow> upd_ext i (\<lambda>x. x\<lparr>ox_props := qs\<rparr>) S))"

text \<open>
  A request to set a property: \<open>format\<close> and the values, whose constructor is the type. Every
  property's first atom is read, also when it has none.
\<close>

definition set_kernel_prop :: "'k kernel \<Rightarrow> int \<Rightarrow> connector_prop \<Rightarrow> u64 \<Rightarrow> 'k kms \<Rightarrow> 'k kms" where
  "set_kernel_prop K oid p v S = on_kernel (drmModeConnectorSetProperty K (word_of_int oid) (cp_id p) (uint v)) S"

fun set_property_loop ::
  "'k kernel \<Rightarrow> 'k connectors \<Rightarrow> int \<Rightarrow> nat \<Rightarrow> int \<Rightarrow> rr_value list \<Rightarrow> output_prop list \<Rightarrow> 'k kms \<Rightarrow> bool \<times> 'k kms" where
  "set_property_loop K C oid property format vs [] S = (True, S)"
| "set_property_loop K C oid property format vs (q # qs) S =
     (case op_atoms q of
        None \<Rightarrow> (False, kms_fault S)
      | Some as \<Rightarrow>
          let p = op_mode_prop q in
          if as ! 0 \<noteq> property then set_property_loop K C oid property format vs qs S
          else if has_flag p DRM_MODE_PROP_RANGE then
            (case vs of
               [RR_INTEGER v] \<Rightarrow>
                 if format = 32 then (True, set_kernel_prop K oid p (ucast (word_of_int v :: u32)) S) else (False, S)
             | _ \<Rightarrow> (False, S))
          else if has_flag p DRM_MODE_PROP_ENUM then
            (case vs of
               [RR_ATOM a] \<Rightarrow>
                 if format = 32 then
                   (case NameForAtom C a of
                      None \<Rightarrow> (False, S)
                    | Some name \<Rightarrow>
                        (case map_of (cp_enums p) name of
                           Some v \<Rightarrow> (True, set_kernel_prop K oid p v S)
                         | None \<Rightarrow> set_property_loop K C oid property format vs qs S))
                 else (False, S)
             | _ \<Rightarrow> (False, S))
          else set_property_loop K C oid property format vs qs S)"

definition drmmode_output_set_property ::
  "'k kernel \<Rightarrow> 'k connectors \<Rightarrow> nat \<Rightarrow> nat \<Rightarrow> nat \<Rightarrow> int \<Rightarrow> rr_value list \<Rightarrow> 'k kms \<Rightarrow> bool \<times> 'k kms" where
  "drmmode_output_set_property K C scr i property format vs S =
     set_property_loop K C (out_id (output_at scr i S)) property format vs (ox_props (kms_exts S ! i)) S"

section \<open>Names\<close>

text \<open>Decimal numbers as \<^verbatim>\<open>snprintf\<close> and \<^verbatim>\<open>strtoul\<close> write and read them.\<close>

definition show_int :: "int \<Rightarrow> string" where
  "show_int i = (if i < 0 then CHR ''-'' # dec_digits (nat (- i)) else dec_digits (nat i))"

definition is_digit :: "char \<Rightarrow> bool" where
  "is_digit c \<longleftrightarrow> 48 \<le> (of_char c :: nat) \<and> (of_char c :: nat) \<le> 57"

definition digits_value :: "string \<Rightarrow> nat" where
  "digits_value ds = foldl (\<lambda>a c. 10 * a + (of_char c - 48)) 0 ds"

definition strtoul :: "string \<Rightarrow> nat" where
  "strtoul s =
     (let s = dropWhile (\<lambda>c. c = CHR '' '' \<or> 9 \<le> (of_char c :: nat) \<and> (of_char c :: nat) \<le> 13) s;
          s = (case s of c # cs \<Rightarrow> if c = CHR ''+'' then cs else s | [] \<Rightarrow> [])
      in digits_value (takeWhile is_digit s))"

text \<open>
  The path of a connector behind another one, \<^verbatim>\<open>mst:<id>-<path>\<close>; the blob is text. The
  identifier has at most four characters.
\<close>

definition parse_path_blob :: "string option \<Rightarrow> (int \<times> string) option" where
  "parse_path_blob path_blob =
     (case path_blob of
        None \<Rightarrow> None
      | Some data \<Rightarrow>
          if take 4 data \<noteq> ''mst:'' then None
          else
            let rest = drop 4 data; conn_id = takeWhile (\<lambda>c. c \<noteq> CHR ''-'') rest
            in if length conn_id = length rest then None
               else if length conn_id + 1 > 5 then None
               else Some (int (strtoul conn_id), drop (length conn_id + 1) rest))"

definition output_names :: "string list" where
  "output_names = [''None'', ''VGA'', ''DVI-I'', ''DVI-D'', ''DVI-A'', ''Composite'', ''SVIDEO'', ''LVDS'', ''Component'',
     ''DIN'', ''DP'', ''HDMI'', ''HDMI-B'', ''TV'', ''eDP'', ''Virtual'', ''DSI'', ''DPI'']"

text \<open>The index of the output with an identifier.\<close>

definition find_output :: "nat \<Rightarrow> int \<Rightarrow> 'k kms \<Rightarrow> nat option" where
  "find_output scr oid S =
     find (\<lambda>i. out_id (output_at scr i S) = oid) [0..<length (outputs (mss (kms_drv S) scr))]"

abbreviation (input) GPU_SCREEN_OFFSET :: int where "GPU_SCREEN_OFFSET \<equiv> 256"

definition fallback_name :: "bool \<Rightarrow> int \<Rightarrow> u32 \<Rightarrow> u32 \<Rightarrow> string" where
  "fallback_name gpu idx ty type_id =
     (if unat ty \<ge> length output_names then
        ''Unknown'' @ show_int (sint ty) @ ''-'' @ show_int (sint type_id)
      else if gpu then
        output_names ! unat ty @ ''-'' @ show_int (idx - GPU_SCREEN_OFFSET + 1) @ ''-'' @ show_int (sint type_id)
      else output_names ! unat ty @ ''-'' @ show_int (sint type_id))"

definition drmmode_create_name :: "'k connectors \<Rightarrow> nat \<Rightarrow> connector \<Rightarrow> string option \<Rightarrow> 'k kms \<Rightarrow> string" where
  "drmmode_create_name C scr koutput path_blob S =
     (let fallback = take 31 (fallback_name (screen_is_gpu C) (screen_index C) (cn_type koutput) (cn_type_id koutput)) in
      case parse_path_blob path_blob of
        None \<Rightarrow> fallback
      | Some (conn_id, extra_path) \<Rightarrow>
          (case find_output scr conn_id S of
             None \<Rightarrow> fallback
           | Some i \<Rightarrow> take 31 (ox_name (kms_exts S ! i) @ ''-'' @ extra_path)))"

section \<open>New outputs\<close>

text \<open>
  A connector with a path that shows up again under the name of an output is hooked into it. \<open>nonDesktop\<close>
  comes from the connector's property.
\<close>

definition non_desktop_of :: "'k connectors \<Rightarrow> connector \<Rightarrow> bool" where
  "non_desktop_of C koutput =
     (let i = koutput_get_prop_idx C koutput DRM_MODE_PROP_RANGE ''non-desktop''
      in i \<ge> 0 \<and> snd (cn_props koutput ! nat i) \<noteq> 0)"

definition rehook_output :: "nat \<Rightarrow> nat \<Rightarrow> u32 \<Rightarrow> connector \<Rightarrow> bool \<Rightarrow> 'k kms \<Rightarrow> 'k kms" where
  "rehook_output scr i cid koutput nonDesktop S =
     upd_ext i (\<lambda>x. x\<lparr>ox_non_desktop := nonDesktop\<rparr>)
       (set_connector scr i (Some koutput) (upd_output scr i (\<lambda>out. out\<lparr>out_id := sint cid\<rparr>) S))"

text \<open>Whether the configuration gives the output to this screen of a shared device.\<close>

definition output_wanted :: "'k connectors \<Rightarrow> nat \<Rightarrow> string \<Rightarrow> bool" where
  "output_wanted C num name \<longleftrightarrow>
     (if entity_shared C then
        case zaphod_heads C of
          Some heads \<Rightarrow> drmmode_zaphod_string_matches heads name
        | None \<Rightarrow> if \<not> is_secondary C \<and> num \<noteq> 0 then False else if is_secondary C \<and> num \<noteq> 1 then False else True
      else True)"

definition connector_props :: "prop_info list" where
  "connector_props = [\<lparr>pi_name = ''CRTC_ID'', pi_prop_id = 0, pi_enum_values = []\<rparr>]"

text \<open>A property as the tables of mode setting read it.\<close>

definition table_view :: "connector_prop \<Rightarrow> drm_property" where
  "table_view p = \<lparr>dp_name = cp_name p, dp_is_enum = has_flag p DRM_MODE_PROP_ENUM, dp_enums = cp_enums p\<rparr>"

definition new_output :: "'k connectors \<Rightarrow> bool \<Rightarrow> u32 \<Rightarrow> connector \<Rightarrow> xf86_output" where
  "new_output C atomic cid koutput =
     zero_output\<lparr>out_id := sint cid, out_koutput := Some (cn_id koutput),
       out_props := (if atomic then snd (drmmode_prop_info_update (\<lambda>pid. map_option table_view (drmModeGetProperty C pid))
                       (drmmode_prop_info_copy connector_props False) (drmModeObjectGetProperties C cid)) else []),
       out_dpms_enum_id := (if atomic then 0 else word_of_int (koutput_get_prop_id C koutput DRM_MODE_PROP_ENUM ''DPMS''))\<rparr>"

definition new_ext :: "string \<Rightarrow> connector \<Rightarrow> encoder list \<Rightarrow> bool \<Rightarrow> nat \<Rightarrow> connector_ext" where
  "new_ext name koutput kencoders nonDesktop crtcshift =
     zero_ext\<lparr>ox_name := name, ox_connector := Some koutput, ox_encoders := kencoders, ox_non_desktop := nonDesktop,
       ox_possible_crtcs := foldr (\<lambda>e m. m OR (drop_bit crtcshift (en_possible_crtcs e) AND 0x7f)) kencoders 0\<rparr>"

definition add_output :: "nat \<Rightarrow> xf86_output \<Rightarrow> connector_ext \<Rightarrow> 'k kms \<Rightarrow> 'k kms" where
  "add_output scr out x S =
     \<lparr>kms_drv = upd_ms scr (\<lambda>m. m\<lparr>outputs := outputs m @ [out]\<rparr>) (kms_drv S), kms_exts = kms_exts S @ [x]\<rparr>"

text \<open>
  Making the output of a connector when none has its name; whether one was made. When the record
  of a new output cannot be allocated, the server destroys the output through
  \<^verbatim>\<open>drmmode_output_destroy\<close>, which reads the record.
\<close>

definition create_output ::
  "'k connectors \<Rightarrow> nat \<Rightarrow> u32 \<Rightarrow> nat \<Rightarrow> bool \<Rightarrow> nat \<Rightarrow> connector \<Rightarrow> string \<Rightarrow> 'k kms \<Rightarrow> bool \<times> 'k kms" where
  "create_output C scr cid num dynamic crtcshift koutput name S =
     (case calloc (kms_drv S) of (ok, s) \<Rightarrow>
        let S = S\<lparr>kms_drv := s\<rparr>; kencoders = map (drmModeGetEncoder C) (cn_encoders koutput) in
        if \<not> ok then (False, S)
        else if list_ex (\<lambda>e. e = None) kencoders then (False, S)
        else if \<not> output_wanted C num name then (False, S)
        else case xf86OutputCreate C name (kst (kms_drv S)) of (ok, k) \<Rightarrow>
          let S = on_kernel (\<lambda>_. k) S in
          if \<not> ok then (False, S)
          else case calloc (kms_drv S) of (ok, s) \<Rightarrow>
            let S = S\<lparr>kms_drv := s\<rparr> in
            if \<not> ok then (False, kms_fault S)
            else
              let i = length (kms_exts S);
                  S = add_output scr (new_output C (atomic_modeset (mss (kms_drv S) scr)) cid koutput)
                        (new_ext name koutput (map the kencoders) (non_desktop_of C koutput) crtcshift) S
              in if dynamic then
                   (case RROutputCreate C name (kst (kms_drv S)) of (ok, k) \<Rightarrow>
                      let S = on_kernel (\<lambda>_. k) S in
                      (True, if ok then on_kernel (RRPostPendingProperties C i) (drmmode_output_create_resources C i S) else S))
                 else (True, S))"

definition drmmode_output_init ::
  "'k connectors \<Rightarrow> nat \<Rightarrow> u32 list \<Rightarrow> nat \<Rightarrow> bool \<Rightarrow> nat \<Rightarrow> 'k kms \<Rightarrow> bool \<times> 'k kms" where
  "drmmode_output_init C scr connectors num dynamic crtcshift S =
     (let cid = connectors ! num in
      case drmModeGetConnector C cid (kst (kms_drv S)) of (koutput, k) \<Rightarrow>
        let S = on_kernel (\<lambda>_. k) S in
        (case koutput of
           None \<Rightarrow> (False, S)
         | Some cn \<Rightarrow>
             let path_blob = koutput_get_prop_blob C cn ''PATH'';
                 name = drmmode_create_name C scr cn path_blob S in
             (case (if path_blob \<noteq> None \<and> dynamic then find (\<lambda>i. take 32 (ox_name (kms_exts S ! i)) = name) [0..<length (kms_exts S)] else None) of
                Some i \<Rightarrow> (True, rehook_output scr i cid cn (non_desktop_of C cn) S)
              | None \<Rightarrow> create_output C scr cid num dynamic crtcshift cn name S)))"

section \<open>Clones\<close>

definition find_clones :: "nat \<Rightarrow> connector_ext list \<Rightarrow> u32" where
  "find_clones i xs =
     (if ox_enc_clone_mask (xs ! i) = 0 then 0
      else foldr (\<lambda>j m. if j = i \<or> ox_enc_mask (xs ! j) = 0 then m
                        else if ox_enc_clone_mask (xs ! i) = ox_enc_mask (xs ! j) then m OR push_bit j 1 else m)
             [0..<length xs] 0)"

definition encoder_masks :: "u32 list \<Rightarrow> connector_ext \<Rightarrow> connector_ext" where
  "encoder_masks encs x =
     x\<lparr>ox_enc_clone_mask := foldr (\<lambda>e m. m AND en_possible_clones e) (ox_encoders x) 0xff,
       ox_enc_mask := foldr (\<lambda>e m. foldr (\<lambda>k m. if encs ! k = en_id e then m OR push_bit k 1 else m)
                        [0..<length encs] m) (ox_encoders x) (ox_enc_mask x)\<rparr>"

definition drmmode_clones_init :: "u32 list \<Rightarrow> 'k kms \<Rightarrow> 'k kms" where
  "drmmode_clones_init encs S =
     (let xs = map (encoder_masks encs) (kms_exts S)
      in S\<lparr>kms_exts := map (\<lambda>i. (xs ! i)\<lparr>ox_possible_clones := find_clones i xs\<rparr>) [0..<length xs]\<rparr>)"

section \<open>Names tell connectors apart\<close>

lemma of_char_digit: "d < 10 \<Longrightarrow> (of_char (hex_digit d) :: nat) = 48 + d"
  by (simp add: hex_digit_def)

lemma decimal_simps:
  "n < 10 \<Longrightarrow> dec_digits n = [hex_digit n]"
  "\<not> n < 10 \<Longrightarrow> dec_digits n = dec_digits (n div 10) @ [hex_digit (n mod 10)]"
  by (simp_all add: dec_digits.simps [of n])

lemma digits_value_snoc: "digits_value (ds @ [c]) = 10 * digits_value ds + (of_char c - 48)"
  by (simp add: digits_value_def)

lemma digits_value_decimal: "digits_value (dec_digits n) = n"
proof (induction n rule: less_induct)
  case (less n)
  show ?case
  proof (cases "n < 10")
    case True
    then show ?thesis by (simp add: decimal_simps digits_value_def of_char_digit)
  next
    case False
    then have "digits_value (dec_digits n) = 10 * digits_value (dec_digits (n div 10)) + n mod 10"
      by (simp add: decimal_simps digits_value_snoc of_char_digit)
    with less [of "n div 10"] False show ?thesis by simp
  qed
qed

lemma decimal_inject [simp]: "dec_digits m = dec_digits n \<longleftrightarrow> m = n"
  by (metis digits_value_decimal)

lemma decimal_digits: "c \<in> set (dec_digits n) \<Longrightarrow> is_digit c"
proof (induction n rule: less_induct)
  case (less n)
  show ?case
  proof (cases "n < 10")
    case True
    with less.prems show ?thesis by (simp add: decimal_simps is_digit_def of_char_digit)
  next
    case False
    with less.prems less.IH [of "n div 10"] show ?thesis
      by (auto simp: decimal_simps is_digit_def of_char_digit)
  qed
qed

lemma decimal_length: "n < 10 ^ Suc k \<Longrightarrow> length (dec_digits n) \<le> Suc k"
proof (induction k arbitrary: n)
  case 0
  then show ?case by (simp add: decimal_simps)
next
  case (Suc k)
  show ?case
  proof (cases "n < 10")
    case True
    then show ?thesis by (simp add: decimal_simps)
  next
    case False
    moreover have "n div 10 < 10 ^ Suc k" using Suc.prems by (simp add: less_mult_imp_div_less)
    ultimately show ?thesis using Suc.IH [of "n div 10"] by (simp add: decimal_simps)
  qed
qed

lemma last_segment:
  assumes "a @ CHR ''-'' # d = b @ CHR ''-'' # e" and "CHR ''-'' \<notin> set d" and "CHR ''-'' \<notin> set e"
  shows "a = b \<and> d = e"
proof -
  have "takeWhile (\<lambda>c. c \<noteq> CHR ''-'') (rev (x @ CHR ''-'' # y)) = rev y" if "CHR ''-'' \<notin> set y" for x y
    using that by (simp add: takeWhile_tail) (metis set_rev takeWhile_eq_all_conv)
  from this [of d a] this [of e b] assms have "rev d = rev e" by simp
  with assms(1) show ?thesis by simp
qed

lemma no_dash: "CHR ''-'' \<notin> set (dec_digits n)"
  using decimal_digits [of "CHR ''-''" n] by (auto simp: is_digit_def)

lemma output_names_facts:
  "distinct output_names" "list_all (\<lambda>n. n \<noteq> [] \<and> hd n \<noteq> CHR ''U'' \<and> length n \<le> 9) output_names"
  "length output_names = 18"
  by (simp_all add: output_names_def)

lemma output_name_facts:
  assumes "i < length output_names"
  shows "output_names ! i \<noteq> []" and "hd (output_names ! i) \<noteq> CHR ''U''" and "length (output_names ! i) \<le> 9"
  using output_names_facts(2) assms by (simp_all add: list_all_length)

lemma output_names_inject:
  "i < length output_names \<Longrightarrow> j < length output_names \<Longrightarrow> output_names ! i = output_names ! j \<longleftrightarrow> i = j"
  using output_names_facts(1) by (simp add: nth_eq_iff_index_eq)

text \<open>A name before its last number.\<close>

definition name_stem :: "bool \<Rightarrow> int \<Rightarrow> u32 \<Rightarrow> string" where
  "name_stem gpu idx ty =
     (if unat ty \<ge> length output_names then ''Unknown'' @ dec_digits (unat ty)
      else if gpu then output_names ! unat ty @ ''-'' @ dec_digits (nat (idx - GPU_SCREEN_OFFSET + 1))
      else output_names ! unat ty)"

lemma sint_small:
  assumes "unat (w :: u32) < 2 ^ 31"
  shows "sint w = int (unat w)"
proof -
  have u: "uint w = int (unat w)" by simp
  have "int (unat w) < int (2 ^ 31)" using assms by (simp only: of_nat_less_iff)
  then have "uint w < 2 ^ 31" by (simp only: u of_nat_power of_nat_numeral)
  then show ?thesis using sint_uint [of w] signed_take_bit_int_eq_self [of 31 "uint w"] uint_ge_0 [of w] by simp
qed

lemma fallback_stem:
  assumes "unat ty < 2 ^ 31" and "unat type_id < 2 ^ 31" and "gpu \<Longrightarrow> 255 \<le> idx \<and> idx < 2 ^ 31"
  shows "fallback_name gpu idx ty type_id = name_stem gpu idx ty @ CHR ''-'' # dec_digits (unat type_id)"
    and "length (fallback_name gpu idx ty type_id) \<le> 31"
proof -
  show e: "fallback_name gpu idx ty type_id = name_stem gpu idx ty @ CHR ''-'' # dec_digits (unat type_id)"
    using assms by (auto simp: fallback_name_def name_stem_def sint_small show_int_def)
  have d: "length (dec_digits n) \<le> 10" if "n < 2 ^ 31" for n
    using decimal_length [of n 9] that by simp
  have "length (name_stem gpu idx ty) \<le> 20"
    using d [OF assms(1)] d [of "nat (idx - 255)"] assms(3) output_name_facts(3) [of "unat ty"]
    by (cases "unat ty < length output_names"; cases gpu) (auto simp: name_stem_def nat_less_iff)
  with d [OF assms(2)] show "length (fallback_name gpu idx ty type_id) \<le> 31" by (simp add: e)
qed

lemma name_stem_inject: "name_stem gpu idx ty1 = name_stem gpu idx ty2 \<longleftrightarrow> ty1 = ty2"
proof
  assume e: "name_stem gpu idx ty1 = name_stem gpu idx ty2"
  have h: "hd (name_stem gpu idx ty) = CHR ''U'' \<longleftrightarrow> unat ty \<ge> length output_names" for ty
    using output_name_facts(1,2) [of "unat ty"] by (auto simp: name_stem_def hd_append)
  from h [of ty1] h [of ty2] e have s: "unat ty1 \<ge> length output_names \<longleftrightarrow> unat ty2 \<ge> length output_names" by simp
  have "unat ty1 = unat ty2"
  proof (cases "unat ty1 \<ge> length output_names")
    case True
    with e s show ?thesis by (simp add: name_stem_def)
  next
    case False
    with e s have "output_names ! unat ty1 = output_names ! unat ty2"
      by (simp add: name_stem_def split: if_splits)
    with False s show ?thesis using output_names_inject [of "unat ty1" "unat ty2"] by simp
  qed
  then show "ty1 = ty2" by (rule unsigned_word_eqI)
qed simp

lemma fallback_inject:
  assumes "unat ty1 < 2 ^ 31" "unat id1 < 2 ^ 31" and "unat ty2 < 2 ^ 31" "unat id2 < 2 ^ 31"
    and "gpu \<Longrightarrow> 255 \<le> idx \<and> idx < 2 ^ 31"
  shows "fallback_name gpu idx ty1 id1 = fallback_name gpu idx ty2 id2 \<longleftrightarrow> ty1 = ty2 \<and> id1 = id2"
proof
  assume "fallback_name gpu idx ty1 id1 = fallback_name gpu idx ty2 id2"
  then have "name_stem gpu idx ty1 @ CHR ''-'' # dec_digits (unat id1) = name_stem gpu idx ty2 @ CHR ''-'' # dec_digits (unat id2)"
    using fallback_stem(1) [OF assms(1,2,5)] fallback_stem(1) [OF assms(3,4,5)] by simp
  from last_segment [OF this no_dash no_dash] have "ty1 = ty2" and "unat id1 = unat id2" by (simp_all add: name_stem_inject)
  then show "ty1 = ty2 \<and> id1 = id2" by (simp add: unsigned_word_eqI)
qed simp


section \<open>Setting what was announced\<close>

text \<open>What working on the properties of an output leaves alone.\<close>

definition same_outputs :: "'k kms \<Rightarrow> 'k kms \<Rightarrow> bool" where
  "same_outputs S T \<longleftrightarrow> kms_exts T = kms_exts S \<and> mss (kms_drv T) = mss (kms_drv S) \<and>
     crtcs (kms_drv T) = crtcs (kms_drv S) \<and> mem_ok (kms_drv T) = mem_ok (kms_drv S)"

lemma same_outputs_refl [simp]: "same_outputs S S"
  by (simp add: same_outputs_def)

lemma same_outputs_trans: "same_outputs S T \<Longrightarrow> same_outputs T U \<Longrightarrow> same_outputs S U"
  by (simp add: same_outputs_def)

lemma same_outputs_kernel [simp]:
  "same_outputs S (on_kernel f T) \<longleftrightarrow> same_outputs S T" "same_outputs S (kms_fault T) \<longleftrightarrow> same_outputs S T"
  by (simp_all add: same_outputs_def on_kernel_def kms_fault_def misc_fault_def)

lemma calloc_plenty: "mem_ok s = [] \<Longrightarrow> calloc s = (True, s)"
  by (simp add: calloc_def)

definition announced :: "connector_prop \<Rightarrow> bool" where
  "announced p \<longleftrightarrow> has_flag p DRM_MODE_PROP_RANGE \<or> has_flag p DRM_MODE_PROP_ENUM"

lemma create_property_result:
  assumes "create_property C i q S = (q', S')" and "mem_ok (kms_drv S) = []"
  shows "same_outputs S S'" and "op_mode_prop q' = op_mode_prop q"
    and "announced (op_mode_prop q) \<Longrightarrow> \<exists>as. op_atoms q' = Some (MakeAtom C (cp_name (op_mode_prop q)) # as)"
  using assms by (auto simp: create_property_def Let_def calloc_plenty announced_def split: if_splits)

lemma create_properties_result:
  "create_properties C i qs S = (qs', S') \<Longrightarrow> mem_ok (kms_drv S) = [] \<Longrightarrow>
   same_outputs S S' \<and> map op_mode_prop qs' = map op_mode_prop qs \<and>
   (\<forall>q \<in> set qs'. announced (op_mode_prop q) \<longrightarrow>
      (\<exists>as. op_atoms q = Some (MakeAtom C (cp_name (op_mode_prop q)) # as)))"
proof (induction qs arbitrary: S qs' S')
  case Nil
  then show ?case by simp
next
  case (Cons q qs)
  obtain q1 S1 where c: "create_property C i q S = (q1, S1)" by (metis surj_pair)
  obtain qs2 S2 where d: "create_properties C i qs S1 = (qs2, S2)" by (metis surj_pair)
  from Cons.prems c d have r: "qs' = q1 # qs2" "S' = S2" by simp_all
  note p = create_property_result [OF c Cons.prems(2)]
  then have "mem_ok (kms_drv S1) = []" using Cons.prems(2) by (simp add: same_outputs_def)
  from Cons.IH [OF d this] p r show ?case by (auto intro: same_outputs_trans)
qed

text \<open>Atoms as the server makes them: one for each name, and the name can be had back.\<close>

definition atoms_ok :: "'k connectors \<Rightarrow> bool" where
  "atoms_ok C \<longleftrightarrow> (\<forall>n. NameForAtom C (MakeAtom C n) = Some n)"

lemma atoms_ok_inject: "atoms_ok C \<Longrightarrow> MakeAtom C m = MakeAtom C n \<longleftrightarrow> m = n"
  unfolding atoms_ok_def by (metis option.inject)

lemma set_property_finds:
  assumes "atoms_ok C"
  shows "\<forall>q \<in> set qs. \<exists>as. op_atoms q = Some (MakeAtom C (cp_name (op_mode_prop q)) # as) \<Longrightarrow>
    distinct (map (cp_name \<circ> op_mode_prop) qs) \<Longrightarrow> q \<in> set qs \<Longrightarrow> p = op_mode_prop q \<Longrightarrow>
    (\<not> has_flag p DRM_MODE_PROP_RANGE \<longrightarrow> has_flag p DRM_MODE_PROP_ENUM \<longrightarrow> map_of (cp_enums p) name = Some v \<longrightarrow>
       set_property_loop K C oid (MakeAtom C (cp_name p)) 32 [RR_ATOM (MakeAtom C name)] qs S = (True, set_kernel_prop K oid p v S)) \<and>
    (has_flag p DRM_MODE_PROP_RANGE \<longrightarrow>
       set_property_loop K C oid (MakeAtom C (cp_name p)) 32 [RR_INTEGER n] qs S =
         (True, set_kernel_prop K oid p (ucast (word_of_int n :: u32)) S))"
proof (induction qs)
  case Nil
  then show ?case by simp
next
  case (Cons r qs)
  then obtain as where r: "op_atoms r = Some (MakeAtom C (cp_name (op_mode_prop r)) # as)" by auto
  show ?case
  proof (cases "q = r")
    case True
    then show ?thesis using r Cons.prems(4) assms by (simp add: atoms_ok_def)
  next
    case False
    with Cons.prems(2,3,4) have "cp_name (op_mode_prop r) \<noteq> cp_name p" by auto
    with r Cons False show ?thesis by (simp add: atoms_ok_inject [OF assms])
  qed
qed



section \<open>The property tables are well typed\<close>

text \<open>A property with its atoms as the comment in the C structure has it.\<close>

definition typed_prop :: "output_prop \<Rightarrow> bool" where
  "typed_prop q \<longleftrightarrow> (\<exists>as. op_atoms q = Some as \<and>
     (if has_flag (op_mode_prop q) DRM_MODE_PROP_RANGE then length as = 1
      else has_flag (op_mode_prop q) DRM_MODE_PROP_ENUM \<and> length as = length (cp_enums (op_mode_prop q)) + 1))"

definition typed_table :: "nat \<Rightarrow> 'k kms \<Rightarrow> bool" where
  "typed_table i S \<longleftrightarrow> i < length (kms_exts S) \<and> list_all typed_prop (ox_props (kms_exts S ! i))"

text \<open>A property of the kernel whose value, when it is enumerated, is one of the enumerators.\<close>

definition sound_prop :: "output_prop \<Rightarrow> bool" where
  "sound_prop q \<longleftrightarrow> has_flag (op_mode_prop q) DRM_MODE_PROP_RANGE \<or>
     has_flag (op_mode_prop q) DRM_MODE_PROP_ENUM \<and> op_value q \<in> snd ` set (cp_enums (op_mode_prop q))"

abbreviation faults_of :: "'k kms \<Rightarrow> nat" where
  "faults_of S \<equiv> misc_faults (kms_drv S)"

lemma faults_steps [simp]:
  "faults_of (on_kernel f S) = faults_of S"
  "faults_of (upd_ext j g S) = faults_of S"
  "faults_of (upd_output scr j h S) = faults_of S"
  "faults_of (set_connector scr j c S) = faults_of S"
  "faults_of (set_kernel_prop K oid p v S) = faults_of S"
  by (simp_all add: on_kernel_def upd_ext_def upd_output_def set_connector_def set_kernel_prop_def upd_ms_def)

lemma exts_steps [simp]:
  "kms_exts (on_kernel f S) = kms_exts S"
  "kms_exts (upd_output scr j h S) = kms_exts S"
  "kms_exts (set_kernel_prop K oid p v S) = kms_exts S"
  "kms_exts (kms_fault S) = kms_exts S"
  "length (kms_exts (upd_ext j g S)) = length (kms_exts S)"
  by (simp_all add: on_kernel_def upd_ext_def upd_output_def set_kernel_prop_def kms_fault_def)

lemma nth_update_if: "k < length xs \<Longrightarrow> xs[i := x] ! k = (if k = i then x else xs ! k)"
  by auto

lemma typed_table_steps [simp]:
  "typed_table i (on_kernel f S) = typed_table i S"
  "typed_table i (upd_output scr j h S) = typed_table i S"
  "typed_table i (set_connector scr j c S) = typed_table i S"
  "(\<And>x. ox_props (g x) = ox_props x) \<Longrightarrow> typed_table i (upd_ext j g S) = typed_table i S"
  by (auto simp: typed_table_def set_connector_def upd_ext_def nth_update_if split: if_splits)

lemma takeWhile_shorter: "x \<in> set xs \<Longrightarrow> \<not> P x \<Longrightarrow> length (takeWhile P xs) < length xs"
  by (induction xs) auto

lemma enum_idx_less: "v \<in> snd ` set (cp_enums p) \<Longrightarrow> enum_idx p v < length (cp_enums p)"
  unfolding enum_idx_def by (auto intro: takeWhile_shorter)

lemma create_property_typed:
  assumes "create_property C i q S = (q', S')" and "mem_ok (kms_drv S) = []" and "sound_prop q"
  shows "typed_prop q'" and "faults_of S' = faults_of S" and "kms_exts S' = kms_exts S" and "mem_ok (kms_drv S') = []"
  using assms enum_idx_less [of "op_value q" "op_mode_prop q"]
  by (auto simp: create_property_def sound_prop_def typed_prop_def calloc_plenty Let_def on_kernel_def split: if_splits)

lemma create_properties_typed:
  "create_properties C i qs S = (qs', S') \<Longrightarrow> mem_ok (kms_drv S) = [] \<Longrightarrow> list_all sound_prop qs \<Longrightarrow>
   list_all typed_prop qs' \<and> faults_of S' = faults_of S \<and> kms_exts S' = kms_exts S"
proof (induction qs arbitrary: S qs' S')
  case Nil
  then show ?case by simp
next
  case (Cons q qs)
  obtain q1 U where c: "create_property C i q S = (q1, U)" by fastforce
  obtain qs2 V where cs: "create_properties C i qs U = (qs2, V)" by fastforce
  note r = create_property_typed [OF c Cons.prems(2)]
  show ?case using Cons.prems c cs r Cons.IH [OF cs] by auto
qed

lemma create_resources_typed:
  assumes "mem_ok (kms_drv S) = []" and "i < length (kms_exts S)" and "ox_connector (kms_exts S ! i) = Some cn"
    and "list_all sound_prop (collect_props C (cn_props cn))"
  shows "typed_table i (drmmode_output_create_resources C i S) \<and>
    faults_of (drmmode_output_create_resources C i S) = faults_of S"
proof -
  define S1 where "S1 = on_kernel (RRChangeOutputProperty C i (MakeAtom C ''CONNECTOR_ID'') (RR_INTEGER (sint (cn_id cn))) False)
    (on_kernel (RRConfigureOutputProperty C i (MakeAtom C ''CONNECTOR_ID'') False False True [RR_INTEGER (sint (cn_id cn))]) S)"
  obtain qs S2 where c: "create_properties C i (collect_props C (cn_props cn)) S1 = (qs, S2)" by fastforce
  have "mem_ok (kms_drv S1) = []" using assms(1) by (simp add: S1_def on_kernel_def)
  from create_properties_typed [OF c this assms(4)]
  have r: "list_all typed_prop qs" "faults_of S2 = faults_of S" "kms_exts S2 = kms_exts S" by (simp_all add: S1_def)
  have "drmmode_output_create_resources C i S = upd_ext i (\<lambda>x. x\<lparr>ox_props := qs\<rparr>) S2"
    using assms(3) c by (simp add: drmmode_output_create_resources_def calloc_plenty [OF assms(1)] S1_def Let_def)
  with r assms(2) show ?thesis by (simp add: typed_table_def upd_ext_def)
qed

lemma report_value_typed:
  assumes "typed_prop q"
  shows "faults_of (report_value C i q S) = faults_of S \<and> kms_exts (report_value C i q S) = kms_exts S"
  using assms by (auto simp: report_value_def typed_prop_def Let_def)

lemma update_props_typed:
  "list_all typed_prop qs \<Longrightarrow> update_props C i cn qs S = (qs', S') \<Longrightarrow>
   list_all typed_prop qs' \<and> faults_of S' = faults_of S \<and> kms_exts S' = kms_exts S"
proof (induction qs arbitrary: S qs' S')
  case Nil
  then show ?case by simp
next
  case (Cons q qs)
  define r where "r = (case map_of (cn_props cn) (cp_id (op_mode_prop q)) of
      None \<Rightarrow> (q, S) | Some v \<Rightarrow> if v = op_value q then (q, S)
        else (q\<lparr>op_value := v\<rparr>, report_value C i (q\<lparr>op_value := v\<rparr>) S))"
  obtain q1 S1 where r1: "r = (q1, S1)" by fastforce
  obtain qs2 S2 where u: "update_props C i cn qs S1 = (qs2, S2)" by fastforce
  have "typed_prop q" using Cons.prems(1) by simp
  then have t: "typed_prop (q\<lparr>op_value := v\<rparr>)" for v by (auto simp: typed_prop_def)
  have "faults_of (report_value C i (q\<lparr>op_value := v\<rparr>) S) = faults_of S \<and>
      kms_exts (report_value C i (q\<lparr>op_value := v\<rparr>) S) = kms_exts S" for v
    by (rule report_value_typed [OF t])
  then have "typed_prop q1 \<and> faults_of S1 = faults_of S \<and> kms_exts S1 = kms_exts S"
    using r1 \<open>typed_prop q\<close> t by (auto simp: r_def split: option.splits if_splits)
  moreover have "qs' = q1 # qs2" "S' = S2"
    using Cons.prems(2) r1 u by (auto simp: r_def Let_def split: option.splits if_splits)
  ultimately show ?case using Cons.IH [OF _ u] Cons.prems(1) by simp
qed

lemma set_property_typed:
  "list_all typed_prop qs \<Longrightarrow>
   faults_of (snd (set_property_loop K C oid property format vs qs S)) = faults_of S \<and>
   kms_exts (snd (set_property_loop K C oid property format vs qs S)) = kms_exts S"
proof (induction qs)
  case Nil
  then show ?case by simp
next
  case (Cons q qs)
  then obtain as where "op_atoms q = Some as" by (auto simp: typed_prop_def)
  with Cons show ?case by (auto simp: Let_def split: list.split rr_value.split option.split)
qed

text \<open>What the server asks of an output: to look at its connector, and to set a property.\<close>

datatype output_request =
  DETECT
| SET_PROPERTY nat int "rr_value list"
| ATTACH_TILE

fun handle_request ::
  "'k kernel \<Rightarrow> 'k connectors \<Rightarrow> nat \<Rightarrow> nat \<Rightarrow> output_request \<Rightarrow> 'k kms \<Rightarrow> 'k kms" where
  "handle_request K C scr i DETECT S = snd (drmmode_output_detect C scr i S)"
| "handle_request K C scr i (SET_PROPERTY property format vs) S =
     snd (drmmode_output_set_property K C scr i property format vs S)"
| "handle_request K C scr i ATTACH_TILE S = drmmode_output_attach_tile C i S"

lemma detect_typed:
  assumes "typed_table i S"
  shows "typed_table i (snd (drmmode_output_detect C scr i S)) \<and> faults_of (snd (drmmode_output_detect C scr i S)) = faults_of S"
proof (cases "out_id (output_at scr i S) = -1")
  case True
  with assms show ?thesis by (simp add: drmmode_output_detect_def)
next
  case False
  obtain cn k where g: "drmModeGetConnector C (word_of_int (out_id (output_at scr i S))) (kst (kms_drv S)) = (cn, k)" by fastforce
  define S1 where "S1 = set_connector scr i cn (on_kernel (\<lambda>_. k) S)"
  have S1: "typed_table i S1" "faults_of S1 = faults_of S" using assms by (simp_all add: S1_def)
  show ?thesis
  proof (cases cn)
    case None
    with False g assms show ?thesis by (simp add: drmmode_output_detect_def Let_def)
  next
    case (Some koutput)
    have e: "snd (drmmode_output_detect C scr i S) = drmmode_output_update_properties C i S1"
      using False g Some by (simp add: drmmode_output_detect_def Let_def S1_def)
    obtain qs S2 where u: "update_props C i koutput (ox_props (kms_exts S1 ! i)) S1 = (qs, S2)" by fastforce
    have il: "i < length (kms_exts S)" using assms by (simp add: typed_table_def)
    then have "ox_connector (kms_exts S1 ! i) = Some koutput"
      using Some by (simp add: S1_def set_connector_def upd_ext_def)
    with u have d: "drmmode_output_update_properties C i S1 = upd_ext i (\<lambda>x. x\<lparr>ox_props := qs\<rparr>) S2"
      by (simp add: drmmode_output_update_properties_def)
    have "list_all typed_prop (ox_props (kms_exts S1 ! i))" using S1(1) by (simp add: typed_table_def)
    from update_props_typed [OF this u] S1 show ?thesis
      unfolding e d by (simp add: typed_table_def upd_ext_def)
  qed
qed

lemma request_typed:
  assumes "typed_table i S"
  shows "typed_table i (handle_request K C scr i r S) \<and> faults_of (handle_request K C scr i r S) = faults_of S"
proof (cases r)
  case DETECT
  with detect_typed [OF assms] show ?thesis by simp
next
  case (SET_PROPERTY property format vs)
  have "list_all typed_prop (ox_props (kms_exts S ! i))" using assms by (simp add: typed_table_def)
  note set_property_typed [OF this, simp]
  from assms SET_PROPERTY show ?thesis by (simp add: drmmode_output_set_property_def typed_table_def)
next
  case ATTACH_TILE
  with assms show ?thesis by (simp add: drmmode_output_attach_tile_def Let_def split: option.split)
qed


section \<open>Examples\<close>

type_synonym prop_log = "(u32 \<times> u32 \<times> int) list"

definition log_kernel :: "prop_log kernel" where
  "log_kernel = dead_kernel\<lparr>drmModeConnectorSetProperty := (\<lambda>c p v k. (c, p, v) # k)\<rparr>"

definition scaling_mode :: connector_prop where
  "scaling_mode = \<lparr>cp_id = 5, cp_name = ''scaling mode'', cp_flags = 8, cp_values = [], cp_enums = [(''None'', 0), (''Full'', 1)]\<rparr>"

definition hdmi :: "u32 \<Rightarrow> connector" where
  "hdmi n = \<lparr>cn_id = 39 + n, cn_type = 11, cn_type_id = n, cn_connection = 1, cn_encoders = [20], cn_props = [(5, 0)], cn_modes = [hd_kmode]\<rparr>"

text \<open>A kernel with two HDMI connectors, of which the server knows nothing yet.\<close>

definition two_connectors :: "prop_log connectors" where
  "two_connectors = \<lparr>drmModeGetConnector = (\<lambda>c k. (if c = 40 then Some (hdmi 1) else if c = 41 then Some (hdmi 2) else None, k)),
     drmModeGetProperty = (\<lambda>p. if p = 5 then Some scaling_mode else None), drmModeGetPropertyBlob = (\<lambda>b. None),
     drmModeGetEncoder = (\<lambda>e. Some \<lparr>en_id = e, en_possible_crtcs = 3, en_possible_clones = 0\<rparr>),
     drmModeGetResources = (\<lambda>k. (Some \<lparr>mr_connectors = [40, 41], mr_encoders = [20], mr_crtcs = [30]\<rparr>, k)),
     drmModeObjectGetProperties = (\<lambda>c. []), MakeAtom = to_nat, NameForAtom = (\<lambda>a. Some (from_nat a)),
     RRConfigureOutputProperty = (\<lambda>i a p r im vs k. k), RRChangeOutputProperty = (\<lambda>i a v p k. k),
     RROutputCreate = (\<lambda>n k. (True, k)), RRPostPendingProperties = (\<lambda>i k. k), RRTellChanged = (\<lambda>k. k), RRGetInfo = (\<lambda>S. S),
     xf86OutputCreate = (\<lambda>n k. (True, k)), xf86OutputSetTile = (\<lambda>i t k. k), parse_tile = (\<lambda>d. False),
     entity_shared = False, zaphod_heads = None, is_secondary = False, screen_is_gpu = False, screen_index = 0\<rparr>"

lemma two_connectors_atoms: "atoms_ok two_connectors"
  by (simp add: atoms_ok_def two_connectors_def)

text \<open>The output of the first connector, with its properties announced.\<close>

definition hdmi_output :: "prop_log kms" where
  "hdmi_output = \<lparr>kms_drv = (idle_drv [])\<lparr>mss := (\<lambda>_. zero_ms\<lparr>outputs := [zero_output\<lparr>out_id := 40, out_koutput := Some 40\<rparr>], config := [0]\<rparr>)\<rparr>,
     kms_exts = [zero_ext\<lparr>ox_name := ''HDMI-1'', ox_connector := Some (hdmi 1)\<rparr>]\<rparr>"


lemma collect_hdmi:
  "collect_props two_connectors (cn_props (hdmi n)) = [\<lparr>op_mode_prop = scaling_mode, op_value = 0, op_atoms = None\<rparr>]"
  by (simp add: collect_props_def hdmi_def two_connectors_def drmmode_property_ignore_def has_flag_def scaling_mode_def Let_def)



end
