(* ===== verification/Hotplug.thy ===== *)
theory Hotplug
  imports Outputs
begin

text \<open>
  Hotplug events (\<^verbatim>\<open>src/src/drmmode_uevent.c\<close>): what happens to the outputs of a screen
  when connectors come and go.
\<close>

section \<open>Hotplug events\<close>

abbreviation (input) DRM_MODE_LINK_STATUS_BAD :: u64 where "DRM_MODE_LINK_STATUS_BAD \<equiv> 1"

text \<open>
  The mode of an output whose link went bad is set again. An output with a bad link but without
  a CRTC is left alone. The message that follows reads the connector, which may have gone.
\<close>

fun retrain :: "'k env \<Rightarrow> nat \<Rightarrow> nat option \<Rightarrow> output_prop list \<Rightarrow> 'k kms \<Rightarrow> 'k kms option" where
  "retrain E i crtc_of [] S = Some S"
| "retrain E i crtc_of (q # qs) S =
     (if cp_name (op_mode_prop q) \<noteq> ''link-status'' then retrain E i crtc_of qs S
      else if op_value q \<noteq> DRM_MODE_LINK_STATUS_BAD then Some S
      else case crtc_of of
        None \<Rightarrow> retrain E i crtc_of qs S
      | Some p \<Rightarrow>
          let c = crtcs (kms_drv S) p in
          map_option (\<lambda>(ok, s).
              let S = S\<lparr>kms_drv := s\<rparr> in if ox_connector (kms_exts S ! i) = None then kms_fault S else S)
            (drmmode_set_mode_major E p (Some (crtc_mode c)) (rotation c) (crtc_x c) (crtc_y c) (kms_drv S)))"

fun refresh_outputs :: "'k env \<Rightarrow> 'k connectors \<Rightarrow> nat \<Rightarrow> nat list \<Rightarrow> 'k kms \<Rightarrow> 'k kms option" where
  "refresh_outputs E C scr [] S = Some S"
| "refresh_outputs E C scr (i # is) S =
     (let S = snd (drmmode_output_detect C scr i S)
      in Option.bind (retrain E i (out_crtc (output_at scr i S)) (ox_props (kms_exts S ! i)) S)
           (refresh_outputs E C scr is))"

text \<open>Outputs whose connector the kernel no longer lists, and connectors without an output.\<close>

definition drop_output :: "nat \<Rightarrow> u32 list \<Rightarrow> nat \<Rightarrow> bool \<times> 'k kms \<Rightarrow> bool \<times> 'k kms" where
  "drop_output scr connectors i = (\<lambda>(changed, S).
     if word_of_int (out_id (output_at scr i S)) \<in> set connectors then (changed, S)
     else (True, upd_output scr i (\<lambda>out. out\<lparr>out_id := -1\<rparr>) (set_connector scr i None S)))"

definition has_output :: "nat \<Rightarrow> u32 \<Rightarrow> 'k kms \<Rightarrow> bool" where
  "has_output scr cid S \<longleftrightarrow> list_ex (\<lambda>out. word_of_int (out_id out) = cid) (outputs (mss (kms_drv S) scr))"

definition find_new_output :: "'k connectors \<Rightarrow> nat \<Rightarrow> u32 list \<Rightarrow> nat \<Rightarrow> bool \<times> 'k kms \<Rightarrow> bool \<times> 'k kms" where
  "find_new_output C scr connectors n = (\<lambda>(changed, S).
     if has_output scr (connectors ! n) S then (changed, S)
     else (True, snd (drmmode_output_init C scr connectors n True 0 S)))"

text \<open>\<open>found\<close> tells whether the monitor had an event.\<close>

definition drmmode_handle_uevents :: "'k env \<Rightarrow> 'k connectors \<Rightarrow> nat \<Rightarrow> bool \<Rightarrow> 'k kms \<Rightarrow> 'k kms option" where
  "drmmode_handle_uevents E C scr found S =
     (if \<not> found then Some S
      else case refresh_outputs E C scr [0..<length (outputs (mss (kms_drv S) scr))] S of
        None \<Rightarrow> None
      | Some S \<Rightarrow>
          (case drmModeGetResources C (kst (kms_drv S)) of (res, k) \<Rightarrow>
             let S = on_kernel (\<lambda>_. k) S in
             (case res of
                None \<Rightarrow> Some (RRGetInfo C S)
              | Some r \<Rightarrow>
                  let S = (if length (mr_crtcs r) = length (config (mss (kms_drv S) scr)) then
                             let n = length (outputs (mss (kms_drv S) scr));
                                 CS = fold (drop_output scr (mr_connectors r)) [0..<n] (False, S);
                                 (changed, S) = fold (find_new_output C scr (mr_connectors r)) [0..<length (mr_connectors r)] CS
                             in if changed then on_kernel (RRTellChanged C) S else S
                           else S);
                      S = S\<lparr>kms_drv := drmmode_validate_leases (kernel_of E) (randr_registered E) scr (kms_drv S)\<rparr>
                  in Some (RRGetInfo C S))))"

section \<open>The monitor\<close>

text \<open>
  The objects of libudev and of the server's main loop, counted: references to contexts and
  monitors, and registered handlers. \<open>uevent_handler\<close> tells that the field of the screen is not
  null. A call that drops what is not there is recorded.
\<close>

record udev_world =
  udev_refs :: nat
  monitor_refs :: nat
  general_handlers :: nat
  uevent_handler :: bool
  udev_faults :: nat

record udev_calls =
  udev_new_ok :: bool
  monitor_new_ok :: bool
  filter_ok :: bool
  receiving_ok :: bool
  add_handler_ok :: bool

definition drop_one :: "nat \<Rightarrow> nat \<times> nat" where
  "drop_one n = (if n = 0 then (0, 1) else (n - 1, 0))"

definition drmmode_uevent_init :: "udev_calls \<Rightarrow> udev_world \<Rightarrow> udev_world" where
  "drmmode_uevent_init U w =
     (if \<not> udev_new_ok U then w
      else
        let v = w\<lparr>udev_refs := udev_refs w + 1\<rparr> in
        if \<not> monitor_new_ok U then v\<lparr>udev_refs := udev_refs v - 1\<rparr>
        else
          let v = v\<lparr>monitor_refs := monitor_refs v + 1\<rparr> in
          if \<not> filter_ok U \<or> \<not> receiving_ok U
          then v\<lparr>monitor_refs := monitor_refs v - 1, udev_refs := udev_refs v - 1\<rparr>
          else v\<lparr>uevent_handler := add_handler_ok U,
                 general_handlers := general_handlers v + of_bool (add_handler_ok U)\<rparr>)"

definition drmmode_uevent_fini :: "udev_world \<Rightarrow> udev_world" where
  "drmmode_uevent_fini w =
     (if uevent_handler w then
        (case (drop_one (general_handlers w), drop_one (monitor_refs w), drop_one (udev_refs w)) of
           ((h, a), (m, b), (u, c)) \<Rightarrow>
             w\<lparr>general_handlers := h, monitor_refs := m, udev_refs := u, udev_faults := udev_faults w + a + b + c\<rparr>)
      else w)"

text \<open>
  A screen that is closed gives back what it took, whatever failed when it was set up, unless only
  the registration of the handler failed. The field is not cleared, so a later screen of the same
  record whose setup fails drops everything a second time.
\<close>

lemma uevent_balanced:
  assumes "\<not> uevent_handler w" and "add_handler_ok U"
  shows "drmmode_uevent_fini (drmmode_uevent_init U w) = w\<lparr>uevent_handler := uevent_handler (drmmode_uevent_init U w)\<rparr>"
  using assms by (cases w) (simp add: drmmode_uevent_fini_def drmmode_uevent_init_def drop_one_def Let_def)

lemma uevent_stale_handler:
  assumes "uevent_handler w" and "\<not> udev_new_ok U" and "general_handlers w = 0"
  shows "udev_faults (drmmode_uevent_fini (drmmode_uevent_init U w)) > udev_faults w"
  using assms by (simp add: drmmode_uevent_fini_def drmmode_uevent_init_def drop_one_def Let_def)

section \<open>Hotplug keeps outputs and connectors together\<close>

abbreviation ids_of :: "nat \<Rightarrow> 'k kms \<Rightarrow> int list" where
  "ids_of scr S \<equiv> map out_id (outputs (mss (kms_drv S) scr))"

abbreviation names_of :: "'k kms \<Rightarrow> string list" where
  "names_of S \<equiv> map ox_name (kms_exts S)"

abbreviation cid_of :: "int \<Rightarrow> u32" where
  "cid_of x \<equiv> word_of_int x"

text \<open>
  The identifiers of outputs and their names, while the kernel lists the connectors \<open>cs\<close>: an
  output of one of them has its name, and it is the only one.
\<close>

definition matched :: "(u32 \<Rightarrow> string) \<Rightarrow> u32 list \<Rightarrow> int list \<Rightarrow> string list \<Rightarrow> bool" where
  "matched nm cs ids ns \<longleftrightarrow> length ns = length ids \<and>
     (\<forall>i < length ids. cid_of (ids ! i) \<in> set cs \<longrightarrow> ns ! i = nm (cid_of (ids ! i)) \<and>
        (\<forall>j < length ids. cid_of (ids ! j) = cid_of (ids ! i) \<longrightarrow> j = i))"

lemma matched_drop:
  "matched nm cs ids ns \<Longrightarrow> cid_of (-1) \<notin> set cs \<Longrightarrow> matched nm cs (ids[i := -1]) ns"
  unfolding matched_def by (auto simp: nth_update_if split: if_splits)

lemma matched_put:
  assumes "matched nm cs ids ns" and "ns ! i = nm c" and "c \<notin> cid_of ` set ids"
  shows "matched nm cs (ids[i := sint c]) ns"
proof -
  have "cid_of (ids ! j) \<noteq> c" if "j < length ids" for j using assms(3) that by (metis imageI nth_mem)
  then show ?thesis using assms(1,2) unfolding matched_def by (auto simp: nth_update_if split: if_splits)
qed

lemma matched_snoc:
  assumes "matched nm cs ids ns" and "c \<notin> cid_of ` set ids"
  shows "matched nm cs (ids @ [sint c]) (ns @ [nm c])"
proof -
  have "cid_of (ids ! j) \<noteq> c" if "j < length ids" for j using assms(2) that by (metis imageI nth_mem)
  then show ?thesis using assms(1) unfolding matched_def by (auto simp: nth_append less_Suc_eq)
qed

text \<open>
  A kernel that lists the connectors \<open>cs\<close> and knows no others, none of them behind another one,
  told apart by type and number; a server that makes the outputs asked for.
\<close>

definition hotplug_env :: "'k connectors \<Rightarrow> (u32 \<Rightarrow> connector) \<Rightarrow> u32 list \<Rightarrow> bool" where
  "hotplug_env C cn cs \<longleftrightarrow>
     (\<forall>c k. fst (drmModeGetConnector C c k) = (if c \<in> set cs then Some (cn c) else None)) \<and>
     cid_of (-1) \<notin> set cs \<and> inj_on (\<lambda>c. (cn_type (cn c), cn_type_id (cn c))) (set cs) \<and>
     (\<forall>c \<in> set cs. parse_path_blob (koutput_get_prop_blob C (cn c) ''PATH'') = None \<and> unat (cn_type (cn c)) < 2 ^ 31 \<and>
        unat (cn_type_id (cn c)) < 2 ^ 31 \<and> (\<forall>e \<in> set (cn_encoders (cn c)). drmModeGetEncoder C e \<noteq> None)) \<and>
     \<not> entity_shared C \<and> (screen_is_gpu C \<longrightarrow> 255 \<le> screen_index C \<and> screen_index C < 2 ^ 31) \<and>
     (\<forall>n k. fst (xf86OutputCreate C n k))"

definition name_of :: "'k connectors \<Rightarrow> (u32 \<Rightarrow> connector) \<Rightarrow> u32 \<Rightarrow> string" where
  "name_of C cn c = fallback_name (screen_is_gpu C) (screen_index C) (cn_type (cn c)) (cn_type_id (cn c))"

lemma name_of_facts:
  assumes "hotplug_env C cn cs" and "c \<in> set cs"
  shows "length (name_of C cn c) \<le> 31" 
    and "parse_path_blob pb = None \<Longrightarrow> drmmode_create_name C scr (cn c) pb S = name_of C cn c"
    and "c' \<in> set cs \<Longrightarrow> name_of C cn c = name_of C cn c' \<longleftrightarrow> c = c'"
proof -
  have s: "unat (cn_type (cn c)) < 2 ^ 31" "unat (cn_type_id (cn c)) < 2 ^ 31" if "c \<in> set cs" for c
    using assms(1) that by (simp_all add: hotplug_env_def)
  have g: "screen_is_gpu C \<Longrightarrow> 255 \<le> screen_index C \<and> screen_index C < 2 ^ 31" using assms(1) by (simp add: hotplug_env_def)
  show l: "length (name_of C cn c) \<le> 31"
    unfolding name_of_def by (rule fallback_stem(2) [OF s [OF assms(2)] g])
  then show "drmmode_create_name C scr (cn c) pb S = name_of C cn c" if "parse_path_blob pb = None"
    using that by (simp add: drmmode_create_name_def name_of_def)
  assume c': "c' \<in> set cs"
  have "inj_on (\<lambda>c. (cn_type (cn c), cn_type_id (cn c))) (set cs)" using assms(1) by (simp add: hotplug_env_def)
  from inj_on_eq_iff [OF this assms(2) c'] show "name_of C cn c = name_of C cn c' \<longleftrightarrow> c = c'"
    unfolding name_of_def using fallback_inject [OF s [OF assms(2)] s [OF c'] g] by simp
qed

text \<open>Effects of the small steps on identifiers and names.\<close>

lemma map_update_same [simp]: "(map f xs)[i := f (xs ! i)] = map f xs"
  by (metis list_update_id map_update)

definition same_ids :: "nat \<Rightarrow> 'k kms \<Rightarrow> 'k kms \<Rightarrow> bool" where
  "same_ids scr S T \<longleftrightarrow> ids_of scr T = ids_of scr S \<and> names_of T = names_of S \<and>
     mem_ok (kms_drv T) = mem_ok (kms_drv S) \<and> config (mss (kms_drv T) scr) = config (mss (kms_drv S) scr)"

lemma same_ids_trans: "same_ids scr S T \<Longrightarrow> same_ids scr T U \<Longrightarrow> same_ids scr S U"
  by (simp add: same_ids_def)

lemma same_ids_steps [simp]:
  "same_ids scr S S"
  "same_ids scr S (on_kernel f T) \<longleftrightarrow> same_ids scr S T"
  "same_ids scr S (kms_fault T) \<longleftrightarrow> same_ids scr S T"
  "(\<And>x. ox_name (g x) = ox_name x) \<Longrightarrow> same_ids scr S (upd_ext i g T) \<longleftrightarrow> same_ids scr S T"
  "same_ids scr S (set_connector scr i c T) \<longleftrightarrow> same_ids scr S T"
  by (simp_all add: same_ids_def on_kernel_def kms_fault_def misc_fault_def upd_ext_def set_connector_def upd_output_def
      upd_ms_def map_update list_update_same_conv) 

lemma kms_drv_id [simp]: "S\<lparr>kms_drv := kms_drv S\<rparr> = S"
  by (cases S) simp

lemma same_outputs_ids: "same_outputs S T \<Longrightarrow> same_ids scr S T"
  by (simp add: same_outputs_def same_ids_def)

lemma report_value_same: "same_outputs S (report_value C i q S)"
  by (simp add: report_value_def Let_def split: option.split)

lemma update_props_result:
  "update_props C i cn qs S = (qs', S') \<Longrightarrow> same_outputs S S' \<and>
   (\<forall>q' \<in> set qs'. \<exists>q \<in> set qs. op_mode_prop q' = op_mode_prop q \<and>
      (op_value q' = op_value q \<or> map_of (cn_props cn) (cp_id (op_mode_prop q)) = Some (op_value q')))"
proof (induction qs arbitrary: S qs' S')
  case Nil
  then show ?case by simp
next
  case (Cons q qs)
  define r where "r = (case map_of (cn_props cn) (cp_id (op_mode_prop q)) of
      None \<Rightarrow> (q, S) | Some v \<Rightarrow> if v = op_value q then (q, S)
        else (q\<lparr>op_value := v\<rparr>, report_value C i (q\<lparr>op_value := v\<rparr>) S))"
  obtain q1 S1 where r1: "r = (q1, S1)" by (metis surj_pair)
  obtain qs2 S2 where u: "update_props C i cn qs S1 = (qs2, S2)" by (metis surj_pair)
  have "same_outputs S S1" and q1: "op_mode_prop q1 = op_mode_prop q \<and>
      (op_value q1 = op_value q \<or> map_of (cn_props cn) (cp_id (op_mode_prop q)) = Some (op_value q1))"
    using r1 report_value_same [of S] by (auto simp: r_def split: option.splits if_splits)
  moreover have "qs' = q1 # qs2" "S' = S2"
    using Cons.prems r1 u by (auto simp: r_def Let_def split: option.splits if_splits)
  ultimately show ?case using Cons.IH [OF u] by (auto intro: same_outputs_trans)
qed

text \<open>No link of an output is bad, and none of the kernel's connectors says so.\<close>

definition links_good :: "(u32 \<Rightarrow> connector) \<Rightarrow> u32 list \<Rightarrow> 'k kms \<Rightarrow> bool" where
  "links_good cn cs S \<longleftrightarrow> (\<forall>x \<in> set (kms_exts S). \<forall>q \<in> set (ox_props x). cp_name (op_mode_prop q) = ''link-status'' \<longrightarrow>
     op_value q \<noteq> DRM_MODE_LINK_STATUS_BAD \<and>
     (\<forall>c \<in> set cs. map_of (cn_props (cn c)) (cp_id (op_mode_prop q)) \<noteq> Some DRM_MODE_LINK_STATUS_BAD))"

lemma retrain_good:
  assumes "\<forall>q \<in> set qs. cp_name (op_mode_prop q) = ''link-status'' \<longrightarrow> op_value q \<noteq> DRM_MODE_LINK_STATUS_BAD"
  shows "retrain E i p qs S = Some S"
  using assms by (induction qs) auto

lemma detect_result:
  assumes "hotplug_env C cn cs" and "links_good cn cs S" and "i < length (kms_exts S)"
    and "length (kms_exts S) = length (outputs (mss (kms_drv S) scr))"
    and "drmmode_output_detect C scr i S = (st, T)"
  shows "ids_of scr T = ids_of scr S \<or> ids_of scr T = (ids_of scr S)[i := -1] \<and> cid_of (ids_of scr S ! i) \<notin> set cs"
    and "names_of T = names_of S" and "mem_ok (kms_drv T) = mem_ok (kms_drv S)"
    and "config (mss (kms_drv T) scr) = config (mss (kms_drv S) scr)" and "links_good cn cs T"
proof -
  let ?id = "out_id (output_at scr i S)"
  obtain c k where g: "drmModeGetConnector C (word_of_int ?id) (kst (kms_drv S)) = (c, k)" by (metis surj_pair)
  then have c: "c = (if cid_of ?id \<in> set cs then Some (cn (cid_of ?id)) else None)"
    using assms(1) unfolding hotplug_env_def by (metis fst_conv)
  define S1 where "S1 = set_connector scr i c (on_kernel (\<lambda>_. k) S)"
  have S1: "same_ids scr S S1" by (simp add: S1_def)
  have S1p: "map ox_props (kms_exts S1) = map ox_props (kms_exts S)"
    by (simp add: S1_def on_kernel_def set_connector_def upd_ext_def upd_output_def map_update)
  have S1c: "length (kms_exts S1) = length (kms_exts S)" "ox_connector (kms_exts S1 ! i) = c"
    using assms(3) by (simp_all add: S1_def on_kernel_def set_connector_def upd_ext_def upd_output_def)
  have ps: "links_good cn cs U \<longleftrightarrow> (\<forall>qs \<in> set (map ox_props (kms_exts U)). \<forall>q \<in> set qs. cp_name (op_mode_prop q) = ''link-status'' \<longrightarrow>
     op_value q \<noteq> 1 \<and> (\<forall>c \<in> set cs. map_of (cn_props (cn c)) (cp_id (op_mode_prop q)) \<noteq> Some 1))" for U :: "'a kms"
    by (simp add: links_good_def)
  have l1: "links_good cn cs S1" using assms(2) unfolding ps S1p .
  consider (gone) "?id = -1" | (lost) "?id \<noteq> -1" "cid_of ?id \<notin> set cs" | (there) "?id \<noteq> -1" "cid_of ?id \<in> set cs" by blast
  then have "(ids_of scr T = ids_of scr S \<or> ids_of scr T = (ids_of scr S)[i := -1] \<and> cid_of (ids_of scr S ! i) \<notin> set cs) \<and>
    names_of T = names_of S \<and> mem_ok (kms_drv T) = mem_ok (kms_drv S) \<and>
    config (mss (kms_drv T) scr) = config (mss (kms_drv S) scr) \<and> links_good cn cs T"
  proof cases
    case gone
    then have "T = S" using assms(5) by (simp add: drmmode_output_detect_def)
    then show ?thesis using assms(2) by simp
  next
    case lost
    then have T: "T = upd_output scr i (\<lambda>out. out\<lparr>out_id := -1\<rparr>) S1"
      using assms(5) g c by (simp add: drmmode_output_detect_def Let_def S1_def)
    moreover have "cid_of (ids_of scr S ! i) \<notin> set cs" using lost(2) assms(3,4) by simp
    ultimately show ?thesis
      using S1 l1 by (simp add: upd_output_def upd_ms_def map_update same_ids_def links_good_def)
  next
    case there
    obtain qs S2 where u: "update_props C i (cn (cid_of ?id)) (ox_props (kms_exts S1 ! i)) S1 = (qs, S2)" by (metis surj_pair)
    have c': "c = Some (cn (cid_of ?id))" using c there(2) by simp
    note e = S1_def [unfolded c']
    have T: "T = upd_ext i (\<lambda>x. x\<lparr>ox_props := qs\<rparr>) S2"
      using assms(5) g there(1) S1c(2) u
      by (simp add: drmmode_output_detect_def drmmode_output_update_properties_def Let_def c' flip: e)
    note r = update_props_result [OF u]
    have s: "same_ids scr S T" using S1 r by (auto simp: T intro: same_ids_trans same_outputs_ids)
    have ox: "kms_exts T = (kms_exts S1)[i := (kms_exts S1 ! i)\<lparr>ox_props := qs\<rparr>]"
      using r by (simp add: T upd_ext_def same_outputs_def)
    have "\<forall>q \<in> set qs. cp_name (op_mode_prop q) = ''link-status'' \<longrightarrow> op_value q \<noteq> 1 \<and>
        (\<forall>c \<in> set cs. map_of (cn_props (cn c)) (cp_id (op_mode_prop q)) \<noteq> Some 1)"
    proof (intro ballI impI)
      fix q' assume q': "q' \<in> set qs" and n: "cp_name (op_mode_prop q') = ''link-status''"
      from r q' obtain q where q: "q \<in> set (ox_props (kms_exts S1 ! i))" "op_mode_prop q' = op_mode_prop q"
        "op_value q' = op_value q \<or> map_of (cn_props (cn (cid_of ?id))) (cp_id (op_mode_prop q)) = Some (op_value q')" by blast
      have "kms_exts S1 ! i \<in> set (kms_exts S1)" using S1c(1) assms(3) by simp
      with l1 q(1) n q(2) have "op_value q \<noteq> 1 \<and> (\<forall>c \<in> set cs. map_of (cn_props (cn c)) (cp_id (op_mode_prop q)) \<noteq> Some 1)"
        unfolding links_good_def by metis
      with q there(2) show "op_value q' \<noteq> 1 \<and> (\<forall>c \<in> set cs. map_of (cn_props (cn c)) (cp_id (op_mode_prop q')) \<noteq> Some 1)"
        by metis
    qed
    then have "links_good cn cs T"
      using l1 set_update_subset_insert [of "kms_exts S1" i "(kms_exts S1 ! i)\<lparr>ox_props := qs\<rparr>"]
      unfolding links_good_def ox by fastforce
    with s show ?thesis by (simp add: same_ids_def)
  qed
  then show "ids_of scr T = ids_of scr S \<or> ids_of scr T = (ids_of scr S)[i := -1] \<and> cid_of (ids_of scr S ! i) \<notin> set cs"
    and "names_of T = names_of S" and "mem_ok (kms_drv T) = mem_ok (kms_drv S)"
    and "config (mss (kms_drv T) scr) = config (mss (kms_drv S) scr)" and "links_good cn cs T" by blast+
qed

lemma matched_length: "matched nm cs (ids_of scr S) (names_of S) \<Longrightarrow> length (kms_exts S) = length (outputs (mss (kms_drv S) scr))"
  by (simp add: matched_def)

lemma refresh_result:
  assumes "hotplug_env C cn cs" and "matched nm cs (ids_of scr S) (names_of S)" and "links_good cn cs S"
    and "\<forall>i \<in> set is. i < length (kms_exts S)"
  shows "\<exists>T. refresh_outputs E C scr is S = Some T \<and> matched nm cs (ids_of scr T) (names_of T) \<and>
    mem_ok (kms_drv T) = mem_ok (kms_drv S) \<and> config (mss (kms_drv T) scr) = config (mss (kms_drv S) scr)"
  using assms(2-4)
proof (induction "is" arbitrary: S)
  case Nil
  then show ?case by simp
next
  case (Cons i "is")
  obtain st U where d: "drmmode_output_detect C scr i S = (st, U)" by (metis surj_pair)
  have i: "i < length (kms_exts S)" using Cons.prems(3) by simp
  note r = detect_result [OF assms(1) Cons.prems(2) i matched_length [OF Cons.prems(1)] d]
  have m: "matched nm cs (ids_of scr U) (names_of U)"
    using r(1,2) Cons.prems(1) matched_drop [OF Cons.prems(1)] assms(1) by (auto simp: hotplug_env_def)
  have len: "length (kms_exts U) = length (kms_exts S)" using arg_cong [OF r(2), of length] by simp
  then have "kms_exts U ! i \<in> set (kms_exts U)" using i by simp
  then have "retrain E i (out_crtc (output_at scr i U)) (ox_props (kms_exts U ! i)) U = Some U"
    using r(5) unfolding links_good_def by (intro retrain_good) blast
  moreover have "\<forall>i \<in> set is. i < length (kms_exts U)" using Cons.prems(3) len by simp
  from Cons.IH [OF m r(5) this] obtain T where "refresh_outputs E C scr is U = Some T"
    "matched nm cs (ids_of scr T) (names_of T)" "mem_ok (kms_drv T) = mem_ok (kms_drv U)"
    "config (mss (kms_drv T) scr) = config (mss (kms_drv U) scr)" by blast
  ultimately show ?case using d r(3,4) by (simp add: Let_def)
qed

lemma drop_result:
  assumes "cid_of (-1) \<notin> set cs"
  shows "matched nm cs (ids_of scr S) (names_of S) \<Longrightarrow> (\<forall>i \<in> set is. i < length (kms_exts S)) \<Longrightarrow>
    fold (drop_output scr cs) is (b, S) = (b', T) \<Longrightarrow>
    matched nm cs (ids_of scr T) (names_of T) \<and> names_of T = names_of S \<and> mem_ok (kms_drv T) = mem_ok (kms_drv S) \<and>
    (\<forall>i < length (kms_exts S). ids_of scr T ! i = ids_of scr S ! i \<or> ids_of scr T ! i = -1) \<and>
    (\<forall>i \<in> set is. cid_of (ids_of scr T ! i) \<in> set cs \<or> ids_of scr T ! i = -1)"
proof (induction "is" arbitrary: b S)
  case Nil
  then show ?case by simp
next
  case (Cons i "is")
  obtain b1 U where d: "drop_output scr cs i (b, S) = (b1, U)" by (metis surj_pair)
  have i: "i < length (kms_exts S)" "i < length (outputs (mss (kms_drv S) scr))"
    using Cons.prems(2) matched_length [OF Cons.prems(1)] by simp_all
  have U: "names_of U = names_of S \<and> mem_ok (kms_drv U) = mem_ok (kms_drv S) \<and>
      (cid_of (ids_of scr S ! i) \<in> set cs \<and> ids_of scr U = ids_of scr S \<or>
       cid_of (ids_of scr S ! i) \<notin> set cs \<and> ids_of scr U = (ids_of scr S)[i := -1])"
    using d i by (auto simp: drop_output_def set_connector_def upd_output_def upd_ext_def upd_ms_def map_update split: if_splits)
  then have m: "matched nm cs (ids_of scr U) (names_of U)"
    using Cons.prems(1) matched_drop [OF Cons.prems(1) assms] by auto
  have len: "length (kms_exts U) = length (kms_exts S)" using arg_cong [OF conjunct1 [OF U], of length] by simp
  have h: "ids_of scr U ! j = ids_of scr S ! j \<or> ids_of scr U ! j = -1" if "j < length (kms_exts S)" for j
    using U that matched_length [OF Cons.prems(1)] by (auto simp: nth_update_if)
  have e: "cid_of (ids_of scr U ! i) \<in> set cs \<or> ids_of scr U ! i = -1"
    using U i by (auto simp: nth_update_if)
  have "fold (drop_output scr cs) is (b1, U) = (b', T)" using Cons.prems(3) d by simp
  moreover have "\<forall>i \<in> set is. i < length (kms_exts U)" using Cons.prems(2) len by simp
  ultimately have r: "matched nm cs (ids_of scr T) (names_of T)" "names_of T = names_of U"
    "mem_ok (kms_drv T) = mem_ok (kms_drv U)"
    "\<forall>i < length (kms_exts U). ids_of scr T ! i = ids_of scr U ! i \<or> ids_of scr T ! i = -1"
    "\<forall>i \<in> set is. cid_of (ids_of scr T ! i) \<in> set cs \<or> ids_of scr T ! i = -1" using Cons.IH [OF m] by blast+
  moreover have "cid_of (ids_of scr T ! i) \<in> set cs \<or> ids_of scr T ! i = -1" using r(4) e i(1) len by metis
  moreover have "ids_of scr T ! j = ids_of scr S ! j \<or> ids_of scr T ! j = -1" if "j < length (kms_exts S)" for j
    using r(4) h [OF that] that len by metis
  ultimately show ?case using U by simp
qed

lemma create_resources_ids:
  assumes "mem_ok (kms_drv S) = []"
  shows "same_ids scr S (drmmode_output_create_resources C i S)"
proof (cases "ox_connector (kms_exts S ! i)")
  case None
  then show ?thesis by (simp add: drmmode_output_create_resources_def)
next
  case (Some cn)
  define S1 where "S1 = on_kernel (RRChangeOutputProperty C i (MakeAtom C ''CONNECTOR_ID'') (RR_INTEGER (sint (cn_id cn))) False)
    (on_kernel (RRConfigureOutputProperty C i (MakeAtom C ''CONNECTOR_ID'') False False True [RR_INTEGER (sint (cn_id cn))]) S)"
  obtain qs S2 where c: "create_properties C i (collect_props C (cn_props cn)) S1 = (qs, S2)" by (metis surj_pair)
  have "same_outputs S S1" by (simp add: S1_def)
  moreover from this have "mem_ok (kms_drv S1) = []" using assms by (simp add: same_outputs_def)
  with create_properties_result [OF c] have "same_outputs S1 S2" by blast
  ultimately have "same_outputs S S2" by (rule same_outputs_trans)
  then have "same_ids scr S S2" by (rule same_outputs_ids)
  then show ?thesis
    using Some c by (simp add: drmmode_output_create_resources_def calloc_plenty [OF assms] S1_def Let_def)
qed

lemma take_short: "take 32 x = y \<Longrightarrow> length y \<le> 31 \<Longrightarrow> x = y"
  by (cases "length x \<le> 32") auto

lemma sint_live: "cid_of (sint c) = c"
  by simp

text \<open>Making an output succeeds and gives it the connector's identifier and name.\<close>

lemma create_output_result:
  assumes "hotplug_env C cn cs" and "c \<in> set cs" and "mem_ok (kms_drv S) = []"
    and "create_output C scr c num True sh (cn c) name S = (r, T)"
  shows "ids_of scr T = ids_of scr S @ [sint c] \<and> names_of T = names_of S @ [name] \<and> mem_ok (kms_drv T) = []"
proof -
  define ks where "ks = map (drmModeGetEncoder C) (cn_encoders (cn c))"
  have "\<forall>e \<in> set (cn_encoders (cn c)). drmModeGetEncoder C e \<noteq> None"
    using assms(1,2) unfolding hotplug_env_def by blast
  then have ks: "list_ex (\<lambda>e. e = None) ks = False"
    unfolding ks_def list_ex_iff set_map by blast
  have w: "output_wanted C num name" using assms(1) by (simp add: output_wanted_def hotplug_env_def)
  obtain k where x: "xf86OutputCreate C name (kst (kms_drv S)) = (True, k)"
  proof -
    have "fst (xf86OutputCreate C name (kst (kms_drv S)))" using assms(1) unfolding hotplug_env_def by blast
    then show ?thesis using that [of "snd (xf86OutputCreate C name (kst (kms_drv S)))"] by (metis (full_types) prod.collapse)
  qed
  define S1 where "S1 = on_kernel (\<lambda>_. k) S"
  have c1: "calloc (kms_drv S1) = (True, kms_drv S1)" and m1: "mem_ok (kms_drv S1) = []"
    using assms(3) by (simp_all add: S1_def on_kernel_def calloc_def)
  define S2 where "S2 = add_output scr (new_output C (atomic_modeset (mss (kms_drv S1) scr)) c (cn c))
    (new_ext name (cn c) (map the ks) (non_desktop_of C (cn c)) sh) S1"
  have S2: "ids_of scr S2 = ids_of scr S @ [sint c]" "names_of S2 = names_of S @ [name]" "mem_ok (kms_drv S2) = []"
    using m1 by (simp_all add: S2_def S1_def on_kernel_def add_output_def upd_ms_def new_output_def new_ext_def)
  obtain ok k2 where rr: "RROutputCreate C name (kst (kms_drv S2)) = (ok, k2)" by (metis surj_pair)
  have T: "T = (if ok then on_kernel (RRPostPendingProperties C (length (kms_exts S1)))
      (drmmode_output_create_resources C (length (kms_exts S1)) (on_kernel (\<lambda>_. k2) S2)) else on_kernel (\<lambda>_. k2) S2)"
    using assms(4) ks w x c1 rr
    by (cases ok) (simp_all add: create_output_def calloc_plenty [OF assms(3)] Let_def flip: ks_def S1_def S2_def)
  have "same_ids scr S2 (drmmode_output_create_resources C (length (kms_exts S1)) (on_kernel (\<lambda>_. k2) S2))"
    by (rule same_ids_trans [OF _ create_resources_ids]) (simp, simp add: S2(3) on_kernel_def)
  then have "same_ids scr S2 T" by (simp add: T)
  with S2 show ?thesis by (simp add: same_ids_def)
qed

lemma find_new_result:
  assumes "hotplug_env C cn cs" and "matched (name_of C cn) cs (ids_of scr S) (names_of S)" and "mem_ok (kms_drv S) = []"
    and "n < length cs" and "find_new_output C scr cs n (b, S) = (b', T)"
  shows "matched (name_of C cn) cs (ids_of scr T) (names_of T)" and "mem_ok (kms_drv T) = []"
    and "cs ! n \<in> cid_of ` set (ids_of scr T)"
    and "\<forall>c \<in> set cs. c \<in> cid_of ` set (ids_of scr S) \<longrightarrow> c \<in> cid_of ` set (ids_of scr T)"
    and "set (ids_of scr T) \<subseteq> set (ids_of scr S) \<union> {x. cid_of x \<in> set cs}"
proof -
  let ?c = "cs ! n" and ?nm = "name_of C cn"
  have c: "?c \<in> set cs" using assms(4) by simp
  have has: "has_output scr ?c S \<longleftrightarrow> ?c \<in> cid_of ` set (ids_of scr S)"
    by (force simp: has_output_def list_ex_iff)
  have "matched ?nm cs (ids_of scr T) (names_of T) \<and> mem_ok (kms_drv T) = [] \<and> ?c \<in> cid_of ` set (ids_of scr T) \<and>
    (\<forall>c \<in> set cs. c \<in> cid_of ` set (ids_of scr S) \<longrightarrow> c \<in> cid_of ` set (ids_of scr T)) \<and>
    set (ids_of scr T) \<subseteq> set (ids_of scr S) \<union> {x. cid_of x \<in> set cs}"
  proof (cases "has_output scr ?c S")
    case True
    with assms(2,3,5) has show ?thesis by (auto simp: find_new_output_def)
  next
    case False
    with has have new: "?c \<notin> cid_of ` set (ids_of scr S)" by simp
    obtain k where g: "drmModeGetConnector C ?c (kst (kms_drv S)) = (Some (cn ?c), k)"
      using assms(1) c by (metis (no_types, lifting) hotplug_env_def prod.collapse)
    define S1 where "S1 = on_kernel (\<lambda>_. k) S"
    have S1: "ids_of scr S1 = ids_of scr S" "names_of S1 = names_of S" "mem_ok (kms_drv S1) = []"
      using assms(3) by (simp_all add: S1_def on_kernel_def)
    have len: "length (kms_exts S1) = length (ids_of scr S)"
      using arg_cong [OF S1(2), of length] assms(2) by (simp add: matched_def)
    define pb where "pb = koutput_get_prop_blob C (cn ?c) ''PATH''"
    have "parse_path_blob pb = None" using assms(1) c by (simp add: hotplug_env_def pb_def)
    then have nm: "drmmode_create_name C scr (cn ?c) pb S1 = ?nm ?c"
      by (rule name_of_facts(2) [OF assms(1) c])
    define f where "f = (if pb \<noteq> None
      then find (\<lambda>i. take 32 (ox_name (kms_exts S1 ! i)) = ?nm ?c) [0..<length (kms_exts S1)] else None)"
    have T: "T = (case f of Some i \<Rightarrow> rehook_output scr i ?c (cn ?c) (non_desktop_of C (cn ?c)) S1
        | None \<Rightarrow> snd (create_output C scr ?c n True 0 (cn ?c) (?nm ?c) S1))"
    proof -
      have "drmmode_output_init C scr cs n True 0 S = (case f of
          Some i \<Rightarrow> (True, rehook_output scr i ?c (cn ?c) (non_desktop_of C (cn ?c)) S1)
        | None \<Rightarrow> create_output C scr ?c n True 0 (cn ?c) (?nm ?c) S1)"
        unfolding drmmode_output_init_def Let_def g prod.case option.case S1_def [symmetric] pb_def [symmetric] nm simp_thms
          f_def [symmetric] ..
      then show ?thesis using assms(5) False by (simp add: find_new_output_def split: option.splits)
    qed
    show ?thesis
    proof (cases f)
      case None
      obtain r U where u: "create_output C scr ?c n True 0 (cn ?c) (?nm ?c) S1 = (r, U)" by (metis surj_pair)
      from create_output_result [OF assms(1) c S1(3) u] T None u S1
      have i: "ids_of scr T = ids_of scr S @ [sint ?c]" "names_of T = names_of S @ [?nm ?c]" "mem_ok (kms_drv T) = []" by simp_all
      show ?thesis
        using matched_snoc [OF assms(2) new] c i(3) unfolding i(1,2) by auto
    next
      case (Some i)
      then have i: "i < length (kms_exts S1)" and "take 32 (ox_name (kms_exts S1 ! i)) = ?nm ?c"
        by (auto simp: f_def find_Some_iff split: if_splits)
      then have ni: "names_of S ! i = ?nm ?c"
        using take_short [OF _ name_of_facts(1) [OF assms(1) c]] by (simp flip: S1(2))
      define S2 where "S2 = upd_output scr i (\<lambda>out. out\<lparr>out_id := sint ?c\<rparr>) S1"
      have S2: "ids_of scr S2 = (ids_of scr S)[i := sint ?c]" "names_of S2 = names_of S" "mem_ok (kms_drv S2) = []"
        using S1 by (simp_all add: S2_def upd_output_def upd_ms_def map_update)
      have "same_ids scr S2 T" using T Some by (simp add: rehook_output_def flip: S2_def)
      then have t: "ids_of scr T = (ids_of scr S)[i := sint ?c]" "names_of T = names_of S" "mem_ok (kms_drv T) = []"
        using S2 by (simp_all add: same_ids_def)
      have il: "i < length (ids_of scr S)" using i len by simp
      have "cid_of (ids_of scr S ! i) \<notin> set cs"
      proof
        assume a: "cid_of (ids_of scr S ! i) \<in> set cs"
        then have "names_of S ! i = ?nm (cid_of (ids_of scr S ! i))" using assms(2) il unfolding matched_def by blast
        then have "cid_of (ids_of scr S ! i) = ?c" using ni name_of_facts(3) [OF assms(1) c a] by simp
        then show False using new il by (metis imageI nth_mem)
      qed
      moreover have "x \<in> set ((ids_of scr S)[i := sint ?c])" if "x \<in> set (ids_of scr S)" "x \<noteq> ids_of scr S ! i" for x
        using that by (metis in_set_conv_nth length_list_update nth_list_update_neq)
      ultimately have "\<forall>c \<in> set cs. c \<in> cid_of ` set (ids_of scr S) \<longrightarrow> c \<in> cid_of ` set ((ids_of scr S)[i := sint ?c])"
        by blast
      moreover have "sint ?c \<in> set ((ids_of scr S)[i := sint ?c])" using il by (rule set_update_memI)
      then have "cid_of (sint ?c) \<in> cid_of ` set ((ids_of scr S)[i := sint ?c])" by (rule imageI)
      then have "?c \<in> cid_of ` set ((ids_of scr S)[i := sint ?c])" by (simp only: sint_live)
      moreover have "set ((ids_of scr S)[i := sint ?c]) \<subseteq> set (ids_of scr S) \<union> {x. cid_of x \<in> set cs}"
      proof -
        have "sint ?c \<in> {x. cid_of x \<in> set cs}" using c by simp
        then show ?thesis using set_update_subset_insert [of "ids_of scr S" i "sint ?c"] by blast
      qed
      ultimately show ?thesis
        using matched_put [OF assms(2) ni new] t(3) unfolding t(1,2) by blast
    qed
  qed
  then show "matched ?nm cs (ids_of scr T) (names_of T)" and "mem_ok (kms_drv T) = []"
    and "?c \<in> cid_of ` set (ids_of scr T)"
    and "\<forall>c \<in> set cs. c \<in> cid_of ` set (ids_of scr S) \<longrightarrow> c \<in> cid_of ` set (ids_of scr T)"
    and "set (ids_of scr T) \<subseteq> set (ids_of scr S) \<union> {x. cid_of x \<in> set cs}" by blast+
qed

lemma find_all_result:
  assumes "hotplug_env C cn cs"
  shows "matched (name_of C cn) cs (ids_of scr S) (names_of S) \<Longrightarrow> mem_ok (kms_drv S) = [] \<Longrightarrow>
    \<forall>n \<in> set ns. n < length cs \<Longrightarrow> fold (find_new_output C scr cs) ns (b, S) = (b', T) \<Longrightarrow>
    matched (name_of C cn) cs (ids_of scr T) (names_of T) \<and> (\<forall>n \<in> set ns. cs ! n \<in> cid_of ` set (ids_of scr T)) \<and>
    (\<forall>c \<in> set cs. c \<in> cid_of ` set (ids_of scr S) \<longrightarrow> c \<in> cid_of ` set (ids_of scr T)) \<and>
    set (ids_of scr T) \<subseteq> set (ids_of scr S) \<union> {x. cid_of x \<in> set cs}"
proof (induction ns arbitrary: b S)
  case Nil
  then show ?case by simp
next
  case (Cons n ns)
  obtain b1 U where d: "find_new_output C scr cs n (b, S) = (b1, U)" by (metis surj_pair)
  have n: "n < length cs" "\<forall>n \<in> set ns. n < length cs" using Cons.prems(3) by simp_all
  note r = find_new_result [OF assms Cons.prems(1,2) n(1) d]
  have "fold (find_new_output C scr cs) ns (b1, U) = (b', T)" using Cons.prems(4) d by simp
  note h = Cons.IH [OF r(1,2) n(2) this]
  have "cs ! n \<in> set cs" using n(1) by simp
  with h r(3) have "cs ! n \<in> cid_of ` set (ids_of scr T)" by blast
  moreover have "\<forall>c \<in> set cs. c \<in> cid_of ` set (ids_of scr S) \<longrightarrow> c \<in> cid_of ` set (ids_of scr T)"
    using r(4) h by blast
  moreover have "set (ids_of scr T) \<subseteq> set (ids_of scr S) \<union> {x. cid_of x \<in> set cs}" using r(5) h by blast
  ultimately show ?case using h by simp
qed

lemma validate_leases_outputs: "outputs (mss (drmmode_validate_leases K randr scr s) sc) = outputs (mss s sc)"
proof -
  have "outputs (mss (validate_lease K scr ls l s) sc) = outputs (mss s sc)" for ls l s
    by (simp add: validate_lease_def lease_gone_def set_lease_private_def misc_fault_def upd_ms_def Let_def split: option.split)
  then have "outputs (mss (fold (validate_lease K scr ls) rs s) sc) = outputs (mss s sc)" for ls rs s
    by (induction rs arbitrary: s) simp_all
  then show ?thesis by (simp add: drmmode_validate_leases_def Let_def split: option.split prod.split)
qed


section \<open>Example\<close>


end
