(* ===== verification/Pre_Init.thy ===== *)
theory Pre_Init
  imports Outputs Shadow_Fb Exa_Pixmaps Cursors
begin

text \<open>
  Starting a screen: the choices \<^verbatim>\<open>PreInit\<close> makes (\<^verbatim>\<open>src/src/driver.c\<close>, with
  \<^verbatim>\<open>src/src/loongson_cursor.c\<close> and \<^verbatim>\<open>src/src/loongson_glamor.c\<close>), and how
  \<^verbatim>\<open>drmmode_pre_init\<close> (\<^verbatim>\<open>src/src/drmmode_display.c\<close>) makes the outputs of the
  screen and hands out the CRTCs of the device.
\<close>

section \<open>The CRTCs of a screen\<close>

text \<open>
  What is outside: capabilities of the device as the return value of \<^verbatim>\<open>drmGetCap\<close> and what
  a variable that was zero holds then, the queries for CRTCs and planes, and the functions of the
  server. \<open>xf86CrtcCreate\<close> gives the number of the new CRTC.
\<close>

record 'k start_server =
  drmGetCap :: "string \<Rightarrow> int \<times> u64"
  drmSetClientCap_atomic :: "'k \<Rightarrow> int \<times> 'k"
  xf86CrtcCreate :: "nat \<Rightarrow> 'k drv \<Rightarrow> nat option \<times> 'k"
  drmModeGetCrtc :: "u32 \<Rightarrow> 'k \<Rightarrow> u32 option \<times> 'k"
  crtc_properties :: "u32 \<Rightarrow> (u32 \<times> u64) list option"
  get_plane :: "u32 \<Rightarrow> drm_plane option"
  plane_properties :: "u32 \<Rightarrow> (u32 \<times> u64) list option"
  format_blob_of :: "u32 \<Rightarrow> format_blob option"
  blob_realloc_fails :: "nat option"
  plane_list :: "u32 list option"
  xf86InitialConfiguration :: "nat \<Rightarrow> 'k kms \<Rightarrow> 'k kms"

text \<open>The CRTC as the server and the driver make it, before it is asked about properties.\<close>

definition new_crtc :: "nat \<Rightarrow> nat \<Rightarrow> u32 option \<Rightarrow> crtc" where
  "new_crtc scr num mode_crtc =
     zero_crtc\<lparr>crtc_scrn := scr, crtc_id := (case mode_crtc of None \<Rightarrow> 0 | Some i \<Rightarrow> i),
       vblank_pipe := drmmode_crtc_vblank_pipe num\<rparr>"

text \<open>
  Reading its properties and choosing its primary plane among those of the screen's other
  CRTCs; \<open>None\<close> when the CRTC is given up.
\<close>

definition atomic_crtc :: "'k connectors \<Rightarrow> 'k start_server \<Rightarrow> crtc list \<Rightarrow> u32 \<Rightarrow> nat \<Rightarrow> crtc \<Rightarrow> crtc option" where
  "atomic_crtc C G cs cid num c =
     (case crtc_properties G cid of
        None \<Rightarrow> None
      | Some ps \<Rightarrow>
          let getprop = (\<lambda>pid. map_option table_view (drmModeGetProperty C pid));
              c = c\<lparr>props := snd (drmmode_prop_info_update getprop (drmmode_prop_info_copy crtc_props False) ps)\<rparr>
          in Some (drmmode_crtc_create_planes (get_plane G) (plane_properties G) getprop (format_blob_of G)
               (blob_realloc_fails G) (plane_list G) (cs @ [c]) num c))"

definition drmmode_crtc_init ::
  "'k kernel \<Rightarrow> 'k connectors \<Rightarrow> 'k start_server \<Rightarrow> nat \<Rightarrow> u32 list \<Rightarrow> nat \<Rightarrow> 'k kms \<Rightarrow> bool \<times> 'k kms" where
  "drmmode_crtc_init K C G scr cids num S =
     (case xf86CrtcCreate G scr (kms_drv S) of
        (None, k) \<Rightarrow> (False, on_kernel (\<lambda>_. k) S)
      | (Some p, k) \<Rightarrow>
          (case drmModeGetCrtc G (cids ! num) k of (mode_crtc, k) \<Rightarrow>
             let S = on_kernel (\<lambda>_. k) S;
                 m = mss (kms_drv S) scr;
                 c = new_crtc scr num mode_crtc;
                 made = (if atomic_modeset m
                         then atomic_crtc C G (map (crtcs (kms_drv S)) (config m)) (cids ! num) num c else Some c)
             in (case made of
                   None \<Rightarrow> (False, S)
                 | Some c \<Rightarrow>
                     let s = upd_ms scr (\<lambda>m. m\<lparr>config := config m @ [p]\<rparr>) (upd_crtc p (\<lambda>_. c) (kms_drv S));
                         s = (if mode_crtc = None then misc_fault s
                              else s\<lparr>kst := snd (drmModeSetCursor K (crtc_id c) 0 0 0 (kst s))\<rparr>)
                     in (True, S\<lparr>kms_drv := s\<lparr>entity_of := LS_MarkCrtcInUse num (entity_of s)\<rparr>\<rparr>))))"

text \<open>
  \<^verbatim>\<open>ffs\<close> counts from one. Its argument is not zero as long as the device has a free CRTC
  bit; when it is, the shift by \<open>-1\<close> is one by 31 on the machine.
\<close>

definition ffs :: "u32 \<Rightarrow> nat" where
  "ffs w = (case find (bit w) [0..<32] of None \<Rightarrow> 0 | Some n \<Rightarrow> n + 1)"

definition crtcshift_of :: "entity \<Rightarrow> nat" where
  "crtcshift_of e = nat ((int (ffs (LS_GetAssignedCrtc e XOR 0xffffffff)) - 1) mod 32)"

text \<open>The two loops; \<open>crtcs_needed\<close> is an \<^verbatim>\<open>unsigned int\<close>.\<close>

definition init_one_output ::
  "'k connectors \<Rightarrow> nat \<Rightarrow> u32 list \<Rightarrow> nat \<Rightarrow> nat \<Rightarrow> u32 \<times> 'k kms \<Rightarrow> u32 \<times> 'k kms" where
  "init_one_output C scr connectors crtcshift n = (\<lambda>(crtcs_needed, S).
     case drmmode_output_init C scr connectors n False crtcshift S of
       (made, S) \<Rightarrow> (crtcs_needed + of_bool made, S))"

definition init_one_crtc ::
  "'k kernel \<Rightarrow> 'k connectors \<Rightarrow> 'k start_server \<Rightarrow> nat \<Rightarrow> u32 list \<Rightarrow> nat \<Rightarrow> u32 \<times> 'k kms \<Rightarrow> u32 \<times> 'k kms" where
  "init_one_crtc K C G scr cids n = (\<lambda>(crtcs_needed, S).
     if \<not> entity_shared C \<or> crtcs_needed \<noteq> 0 \<and> LS_GetAssignedCrtc (entity_of (kms_drv S)) AND push_bit n 1 = 0 then
       (case drmmode_crtc_init K C G scr cids n S of
          (made, S) \<Rightarrow> (crtcs_needed - of_bool made, S))
     else (crtcs_needed, S))"

text \<open>
  \<^verbatim>\<open>xf86CrtcConfigInit\<close> starts with no CRTC and no output. Sizes and the provider, which
  only the server keeps, are left out.
\<close>

definition drmmode_pre_init ::
  "'k kernel \<Rightarrow> 'k connectors \<Rightarrow> 'k start_server \<Rightarrow> nat \<Rightarrow> 'k kms \<Rightarrow> bool \<times> 'k kms" where
  "drmmode_pre_init K C G scr S =
     (case drmGetCap G ''DUMB_BUFFER'' of (ret, value) \<Rightarrow>
        if ret > 0 \<or> value \<noteq> 1 then (False, S)
        else
          let S = \<lparr>kms_drv = upd_ms scr (\<lambda>m. m\<lparr>config := [], outputs := []\<rparr>) (kms_drv S), kms_exts = []\<rparr> in
          (case drmModeGetResources C (kst (kms_drv S)) of
             (None, k) \<Rightarrow> (False, on_kernel (\<lambda>_. k) S)
           | (Some r, k) \<Rightarrow>
               let S = on_kernel (\<lambda>_. k) S;
                   sh = crtcshift_of (entity_of (kms_drv S));
                   (needed, S) = fold (init_one_output C scr (mr_connectors r) sh) [0..<length (mr_connectors r)] (0, S);
                   (needed, S) = fold (init_one_crtc K C G scr (mr_crtcs r)) [0..<length (mr_crtcs r)] (needed, S)
               in (True, xf86InitialConfiguration G scr (drmmode_clones_init (mr_encoders r) S))))"

section \<open>No CRTC is handed out twice\<close>

lemma and_push_bit_zero: "(w :: u32) AND push_bit n 1 = 0 \<longleftrightarrow> \<not> bit w n"
  by (simp add: and_exp_eq_0_iff_not_bit)

lemma create_planes_keeps [simp]:
  "crtc_id (drmmode_crtc_create_planes gp pp pr fb fl pls cs num c) = crtc_id c"
  "crtc_scrn (drmmode_crtc_create_planes gp pp pr fb fl pls cs num c) = crtc_scrn c"
  "vblank_pipe (drmmode_crtc_create_planes gp pp pr fb fl pls cs num c) = vblank_pipe c"
  by (simp_all add: drmmode_crtc_create_planes_def split: option.split prod.split bool.split)

lemma atomic_crtc_plane:
  assumes "atomic_crtc C G cs cid num c = Some c'" and "plane_id c = 0" and "plane_id c' \<noteq> 0" and "d \<in> set cs"
  shows "plane_id d \<noteq> plane_id c'"
proof (cases "crtc_properties G cid")
  case None
  with assms(1) show ?thesis by (simp add: atomic_crtc_def)
next
  case (Some ps)
  define getprop where "getprop = (\<lambda>pid. map_option table_view (drmModeGetProperty C pid))"
  define c1 where "c1 = c\<lparr>props := snd (drmmode_prop_info_update getprop (drmmode_prop_info_copy crtc_props False) ps)\<rparr>"
  have c': "c' = drmmode_crtc_create_planes (get_plane G) (plane_properties G) getprop (format_blob_of G)
      (blob_realloc_fails G) (plane_list G) (cs @ [c1]) num c1"
    using assms(1) Some by (simp add: atomic_crtc_def Let_def getprop_def c1_def)
  have "plane_id c1 = 0" using assms(2) by (simp add: c1_def)
  then obtain pl where pl: "plane_list G = Some pl" using c' assms(3) by (auto simp: drmmode_crtc_create_planes_def split: option.splits)
  show ?thesis using planes_not_shared [OF c' [unfolded pl] assms(3)] assms(4) by simp
qed

lemma atomic_crtc_keeps:
  "atomic_crtc C G cs cid num c = Some c' \<Longrightarrow>
     crtc_id c' = crtc_id c \<and> crtc_scrn c' = crtc_scrn c \<and> vblank_pipe c' = vblank_pipe c"
  by (auto simp: atomic_crtc_def Let_def split: option.splits)

text \<open>What the screen does and which acceleration it uses; CRTCs and outputs do not change it.\<close>

definition choices :: "modesetting \<Rightarrow> (bool \<times> bool \<times> bool \<times> bool) \<times> (bool \<times> bool \<times> bool) \<times> u32" where
  "choices m = ((ms_glamor m, exa_enabled m, shadow_enable m, force_24_32 m),
     (pageflip m, atomic_modeset m, kms_has_modifiers m), scrn_capabilities m)"

lemma choices_updates [simp]:
  "choices (m\<lparr>config := ps\<rparr>) = choices m"
  "choices (m\<lparr>outputs := xs\<rparr>) = choices m"
  by (simp_all add: choices_def)

text \<open>What making an output leaves alone.\<close>

definition same_crtcs :: "'k kms \<Rightarrow> 'k kms \<Rightarrow> bool" where
  "same_crtcs S T \<longleftrightarrow> crtcs (kms_drv T) = crtcs (kms_drv S) \<and> entity_of (kms_drv T) = entity_of (kms_drv S) \<and>
     (\<forall>scr. config (mss (kms_drv T) scr) = config (mss (kms_drv S) scr) \<and>
       choices (mss (kms_drv T) scr) = choices (mss (kms_drv S) scr))"

lemma same_crtcs_refl [simp]: "same_crtcs S S"
  by (simp add: same_crtcs_def)

lemma same_crtcs_trans: "same_crtcs S T \<Longrightarrow> same_crtcs T U \<Longrightarrow> same_crtcs S U"
  by (simp add: same_crtcs_def)

lemma same_crtcs_steps [simp]:
  "same_crtcs S (on_kernel f T) \<longleftrightarrow> same_crtcs S T"
  "same_crtcs S (kms_fault T) \<longleftrightarrow> same_crtcs S T"
  "same_crtcs S (add_output scr out x T) \<longleftrightarrow> same_crtcs S T"
  by (auto simp: same_crtcs_def on_kernel_def kms_fault_def misc_fault_def add_output_def upd_ms_def)

lemma same_crtcs_calloc: "calloc (kms_drv S) = (ok, s) \<Longrightarrow> same_crtcs S (S\<lparr>kms_drv := s\<rparr>)"
  by (auto simp: same_crtcs_def calloc_def split: list.splits)

abbreviation outputs_of :: "nat \<Rightarrow> 'k kms \<Rightarrow> xf86_output list" where
  "outputs_of scr S \<equiv> outputs (mss (kms_drv S) scr)"

lemma outputs_steps [simp]:
  "outputs_of scr (on_kernel f S) = outputs_of scr S"
  "outputs_of scr (kms_fault S) = outputs_of scr S"
  "outputs_of scr (add_output scr out x S) = outputs_of scr S @ [out]"
  "q \<noteq> scr \<Longrightarrow> outputs_of q (add_output scr out x S) = outputs_of q S"
  "kms_exts (on_kernel f S) = kms_exts S"
  "kms_exts (kms_fault S) = kms_exts S"
  "kms_exts (add_output scr out x S) = kms_exts S @ [x]"
  by (simp_all add: on_kernel_def kms_fault_def misc_fault_def add_output_def upd_ms_def)

lemma create_output_static:
  assumes "create_output C scr cid num False sh cn name S = (made, T)"
  shows "same_crtcs S T \<and> length (outputs_of scr T) = length (outputs_of scr S) + of_bool made \<and>
    (\<forall>q. q \<noteq> scr \<longrightarrow> outputs_of q T = outputs_of q S)"
proof -
  obtain ok s where a: "calloc (kms_drv S) = (ok, s)" by fastforce
  define S1 where "S1 = S\<lparr>kms_drv := s\<rparr>"
  have 1: "same_crtcs S S1" "\<And>q. outputs_of q S1 = outputs_of q S"
    using same_crtcs_calloc [OF a] a by (auto simp: S1_def calloc_def split: list.splits)
  obtain ok1 k where x: "xf86OutputCreate C name (kst (kms_drv S1)) = (ok1, k)" by fastforce
  define S2 where "S2 = on_kernel (\<lambda>_. k) S1"
  obtain ok2 s2 where b: "calloc (kms_drv S2) = (ok2, s2)" by fastforce
  define S3 where "S3 = S2\<lparr>kms_drv := s2\<rparr>"
  have 3: "same_crtcs S S2" "same_crtcs S S3" "\<And>q. outputs_of q S2 = outputs_of q S" "\<And>q. outputs_of q S3 = outputs_of q S"
    using 1 same_crtcs_trans [OF _ same_crtcs_calloc [OF b]] b
    by (auto simp: S2_def S3_def calloc_def split: list.splits)
  show ?thesis
    using assms a 1 3 x b
    by (auto simp: create_output_def Let_def simp flip: S1_def S2_def S3_def split: if_splits)
qed

lemma output_init_static:
  assumes "drmmode_output_init C scr cs num False sh S = (made, T)"
  shows "same_crtcs S T \<and> length (outputs_of scr T) = length (outputs_of scr S) + of_bool made \<and>
    (\<forall>q. q \<noteq> scr \<longrightarrow> outputs_of q T = outputs_of q S)"
proof -
  obtain cn k where g: "drmModeGetConnector C (cs ! num) (kst (kms_drv S)) = (cn, k)" by fastforce
  show ?thesis
  proof (cases cn)
    case None
    with assms g show ?thesis by (auto simp: drmmode_output_init_def)
  next
    case (Some koutput)
    with assms g have "create_output C scr (cs ! num) num False sh koutput
        (drmmode_create_name C scr koutput (koutput_get_prop_blob C koutput ''PATH'') (on_kernel (\<lambda>_. k) S))
        (on_kernel (\<lambda>_. k) S) = (made, T)"
      by (simp add: drmmode_output_init_def Let_def)
    from create_output_static [OF this] show ?thesis by (simp add: same_crtcs_def on_kernel_def)
  qed
qed

lemma init_outputs_result:
  "fold (init_one_output C scr cs sh) ns (needed, S) = (needed', T) \<Longrightarrow> unat needed \<le> length (outputs_of scr S) \<Longrightarrow>
   same_crtcs S T \<and> unat needed' \<le> length (outputs_of scr T) \<and> (\<forall>q. q \<noteq> scr \<longrightarrow> outputs_of q T = outputs_of q S)"
proof (induction ns arbitrary: needed S)
  case Nil
  then show ?case by simp
next
  case (Cons n ns)
  obtain made U where d: "drmmode_output_init C scr cs n False sh S = (made, U)" by fastforce
  have "unat (needed + of_bool made) \<le> unat needed + of_bool made"
    by (cases made) (simp_all add: unat_word_ariths)
  with Cons.prems(2) output_init_static [OF d] have u: "unat (needed + of_bool made) \<le> length (outputs_of scr U)" by linarith
  have "init_one_output C scr cs sh n (needed, S) = (needed + of_bool made, U)"
    using d by (simp add: init_one_output_def)
  with Cons.prems(1) have "fold (init_one_output C scr cs sh) ns (needed + of_bool made, U) = (needed', T)" by simp
  from Cons.IH [OF this u] output_init_static [OF d] show ?case by (auto intro: same_crtcs_trans)
qed

text \<open>
  The kernel gives the CRTC asked for, and the server a record that no screen of the device uses.
\<close>

definition crtc_env :: "'k start_server \<Rightarrow> nat set \<Rightarrow> bool" where
  "crtc_env G Q \<longleftrightarrow> (\<forall>c k. fst (drmModeGetCrtc G c k) = Some c) \<and>
     (\<forall>scr s p. fst (xf86CrtcCreate G scr s) = Some p \<longrightarrow> (\<forall>q \<in> Q. p \<notin> set (config (mss s q))))"

lemma crtc_init_result:
  assumes "crtc_env G Q" and "drmmode_crtc_init K C G scr cids n S = (made, T)"
  shows "(\<forall>q. outputs_of q T = outputs_of q S) \<and>
    (\<not> made \<and> same_crtcs S T \<or>
     made \<and> (\<exists>p c. (\<forall>q \<in> Q. p \<notin> set (config (mss (kms_drv S) q))) \<and>
       crtc_id c = cids ! n \<and> crtc_scrn c = scr \<and> vblank_pipe c = drmmode_crtc_vblank_pipe n \<and>
       (plane_id c \<noteq> 0 \<longrightarrow> (\<forall>x \<in> set (config (mss (kms_drv S) scr)). plane_id (crtcs (kms_drv S) x) \<noteq> plane_id c)) \<and>
       crtcs (kms_drv T) = (crtcs (kms_drv S))(p := c) \<and>
       (\<forall>q. config (mss (kms_drv T) q) = config (mss (kms_drv S) q) @ (if q = scr then [p] else [])) \<and>
       entity_of (kms_drv T) = LS_MarkCrtcInUse n (entity_of (kms_drv S))))"
proof -
  obtain po k where x: "xf86CrtcCreate G scr (kms_drv S) = (po, k)" by fastforce
  show ?thesis
  proof (cases po)
    case None
    with assms(2) x show ?thesis by (auto simp: drmmode_crtc_init_def)
  next
    case (Some p)
    with x assms(1) have fresh: "\<forall>q \<in> Q. p \<notin> set (config (mss (kms_drv S) q))"
      unfolding crtc_env_def by (metis fst_conv)
    obtain k2 where g: "drmModeGetCrtc G (cids ! n) k = (Some (cids ! n), k2)"
      using assms(1) unfolding crtc_env_def by (metis prod.collapse)
    define S1 where "S1 = on_kernel (\<lambda>_. k2) S"
    define c where "c = new_crtc scr n (Some (cids ! n))"
    define made_crtc where "made_crtc = (if atomic_modeset (mss (kms_drv S1) scr)
      then atomic_crtc C G (map (crtcs (kms_drv S1)) (config (mss (kms_drv S1) scr))) (cids ! n) n c else Some c)"
    have S1: "same_crtcs S S1" "\<And>q. outputs_of q S1 = outputs_of q S" by (simp_all add: S1_def)
    have init: "drmmode_crtc_init K C G scr cids n S = (case made_crtc of
        None \<Rightarrow> (False, S1)
      | Some c \<Rightarrow>
          let s = upd_ms scr (\<lambda>m. m\<lparr>config := config m @ [p]\<rparr>) (upd_crtc p (\<lambda>_. c) (kms_drv S1));
              s = s\<lparr>kst := snd (drmModeSetCursor K (crtc_id c) 0 0 0 (kst s))\<rparr>
          in (True, S1\<lparr>kms_drv := s\<lparr>entity_of := LS_MarkCrtcInUse n (entity_of s)\<rparr>\<rparr>))"
      unfolding drmmode_crtc_init_def x Some g prod.case option.case Let_def S1_def [symmetric] c_def [symmetric]
        made_crtc_def [symmetric] by (simp split: option.split)
    show ?thesis
    proof (cases made_crtc)
      case None
      with assms(2) init S1 show ?thesis by simp
    next
      case made: (Some c')
      have c': "crtc_id c' = cids ! n" "crtc_scrn c' = scr" "vblank_pipe c' = drmmode_crtc_vblank_pipe n"
        using made atomic_crtc_keeps [of C G _ "cids ! n" n c c']
        by (auto simp: made_crtc_def c_def new_crtc_def split: if_splits)
      have pl: "plane_id c' \<noteq> 0 \<longrightarrow> (\<forall>x \<in> set (config (mss (kms_drv S1) scr)). plane_id (crtcs (kms_drv S1) x) \<noteq> plane_id c')"
        using made atomic_crtc_plane [of C G _ "cids ! n" n c c']
        by (auto simp: made_crtc_def c_def new_crtc_def zero_crtc_def split: if_splits)
      have "made" "kms_drv T = (let s = upd_ms scr (\<lambda>m. m\<lparr>config := config m @ [p]\<rparr>) (upd_crtc p (\<lambda>_. c') (kms_drv S1));
          s = s\<lparr>kst := snd (drmModeSetCursor K (crtc_id c') 0 0 0 (kst s))\<rparr>
          in s\<lparr>entity_of := LS_MarkCrtcInUse n (entity_of s)\<rparr>)"
        using assms(2) init made by (auto simp: Let_def)
      with S1 c' pl fresh show ?thesis
        by (auto simp: Let_def upd_ms_def upd_crtc_def same_crtcs_def)
    qed
  qed
qed

text \<open>
  The CRTCs of a set of screens: each is one of the device's that was free before and is marked
  as used now, and no two are the same.
\<close>

definition handed :: "u32 list \<Rightarrow> u32 \<Rightarrow> nat set \<Rightarrow> 'k kms \<Rightarrow> bool" where
  "handed cids used Q S \<longleftrightarrow>
     (\<forall>n. bit used n \<longrightarrow> bit (assigned_crtcs (entity_of (kms_drv S))) n) \<and>
     (\<forall>q \<in> Q. distinct (config (mss (kms_drv S) q)) \<and>
        (\<forall>p \<in> set (config (mss (kms_drv S) q)). \<exists>n < length cids. crtc_id (crtcs (kms_drv S) p) = cids ! n \<and>
           bit (assigned_crtcs (entity_of (kms_drv S))) n \<and> \<not> bit used n)) \<and>
     (\<forall>q \<in> Q. \<forall>q' \<in> Q. \<forall>p \<in> set (config (mss (kms_drv S) q)). \<forall>p' \<in> set (config (mss (kms_drv S) q')).
        crtc_id (crtcs (kms_drv S) p) = crtc_id (crtcs (kms_drv S) p') \<longrightarrow> p = p' \<and> q = q')"

lemma handed_same: "same_crtcs S T \<Longrightarrow> handed cids used Q S \<Longrightarrow> handed cids used Q T"
  by (simp add: handed_def same_crtcs_def)

lemma handed_add:
  assumes "handed cids used Q S" and "distinct cids" and "n < length cids" and "length cids \<le> 32"
    and "\<not> bit (assigned_crtcs (entity_of (kms_drv S))) n" and "\<forall>q \<in> Q. p \<notin> set (config (mss (kms_drv S) q))"
    and "crtc_id c = cids ! n" and "crtcs (kms_drv T) = (crtcs (kms_drv S))(p := c)"
    and "\<forall>q. config (mss (kms_drv T) q) = config (mss (kms_drv S) q) @ (if q = scr then [p] else [])"
    and "entity_of (kms_drv T) = LS_MarkCrtcInUse n (entity_of (kms_drv S))"
  shows "handed cids used Q T"
proof -
  let ?a = "assigned_crtcs (entity_of (kms_drv S))" and ?b = "assigned_crtcs (entity_of (kms_drv T))"
  have b: "bit ?b m \<longleftrightarrow> bit ?a m \<or> m = n" for m
    using assms(3,4,10) by (auto simp: LS_MarkCrtcInUse_def bit_or_iff bit_exp_iff)
  have u: "\<not> bit used n" using assms(1,5) unfolding handed_def by blast
  have old: "\<exists>m < length cids. crtc_id (crtcs (kms_drv S) x) = cids ! m \<and> bit ?a m \<and> \<not> bit used m"
    if "q \<in> Q" "x \<in> set (config (mss (kms_drv S) q))" for q x
    using assms(1) that unfolding handed_def by blast
  have new: "crtc_id (crtcs (kms_drv S) x) \<noteq> cids ! n" if "q \<in> Q" "x \<in> set (config (mss (kms_drv S) q))" for q x
    using old [OF that] assms(2,3,5) by (metis nth_eq_iff_index_eq)
  have d: "distinct (config (mss (kms_drv S) q))" if "q \<in> Q" for q using assms(1) that unfolding handed_def by blast
  have uq: "x = y \<and> q = r" if "q \<in> Q" "r \<in> Q" "x \<in> set (config (mss (kms_drv S) q))" "y \<in> set (config (mss (kms_drv S) r))"
      "crtc_id (crtcs (kms_drv S) x) = crtc_id (crtcs (kms_drv S) y)" for q r x y
    using assms(1) that unfolding handed_def by blast
  have in_T: "x \<in> set (config (mss (kms_drv T) q)) \<longleftrightarrow> x \<in> set (config (mss (kms_drv S) q)) \<or> x = p \<and> q = scr" for x q
    using assms(9) by auto
  have at: "crtcs (kms_drv T) x = (if x = p then c else crtcs (kms_drv S) x)" for x using assms(8) by simp
  have ne: "x \<noteq> p" if "q \<in> Q" "x \<in> set (config (mss (kms_drv S) q))" for x q using assms(6) that by blast
  have 1: "\<exists>m < length cids. crtc_id (crtcs (kms_drv T) x) = cids ! m \<and> bit ?b m \<and> \<not> bit used m"
    if "q \<in> Q" "x \<in> set (config (mss (kms_drv T) q))" for q x
  proof (cases "x = p")
    case True
    then show ?thesis using assms(3,7) u b by (auto simp: at)
  next
    case False
    with that(2) have "x \<in> set (config (mss (kms_drv S) q))" unfolding in_T by blast
    from old [OF that(1) this] show ?thesis using False b by (auto simp: at)
  qed
  have 2: "distinct (config (mss (kms_drv T) q))" if "q \<in> Q" for q
    using assms(6,9) d [OF that] that by auto
  have 3: "x = y \<and> q = r" if "q \<in> Q" "r \<in> Q" "x \<in> set (config (mss (kms_drv T) q))" "y \<in> set (config (mss (kms_drv T) r))"
      "crtc_id (crtcs (kms_drv T) x) = crtc_id (crtcs (kms_drv T) y)" for q r x y
  proof (cases "x = p")
    case True
    with that(1,3) ne have "q = scr" unfolding in_T by blast
    moreover have "y = p" using that(2,4,5) True new assms(7) unfolding in_T at by (metis (full_types))
    moreover from this that(2,4) ne have "r = scr" unfolding in_T by blast
    ultimately show ?thesis using True by simp
  next
    case False
    then have x: "x \<in> set (config (mss (kms_drv S) q))" using that(3) unfolding in_T by blast
    have "y \<noteq> p" using that(1,5) False new [OF that(1) x] assms(7) unfolding at by (metis (full_types))
    then have "y \<in> set (config (mss (kms_drv S) r))" using that(4) unfolding in_T by blast
    moreover have "crtc_id (crtcs (kms_drv S) x) = crtc_id (crtcs (kms_drv S) y)"
      using that(5) False \<open>y \<noteq> p\<close> by (simp add: at)
    ultimately show ?thesis using uq that(1,2) x by blast
  qed
  have 0: "\<forall>m. bit used m \<longrightarrow> bit ?b m" using assms(1) b unfolding handed_def by blast
  show ?thesis unfolding handed_def using 0 1 2 3 by blast
qed

lemma init_crtcs_result:
  assumes "crtc_env G Q" and "entity_shared C" and "distinct cids" and "length cids \<le> 32"
  shows "fold (init_one_crtc K C G scr cids) ns (needed, S) = (needed', T) \<Longrightarrow> \<forall>n \<in> set ns. n < length cids \<Longrightarrow>
    handed cids used Q S \<Longrightarrow> unat needed + length (config (mss (kms_drv S) scr)) \<le> length (outputs_of scr S) \<Longrightarrow>
    handed cids used Q T \<and> unat needed' + length (config (mss (kms_drv T) scr)) \<le> length (outputs_of scr T) \<and>
    (\<forall>q. outputs_of q T = outputs_of q S) \<and> (\<forall>q. q \<noteq> scr \<longrightarrow> config (mss (kms_drv T) q) = config (mss (kms_drv S) q))"
proof (induction ns arbitrary: needed S)
  case Nil
  then show ?case by simp
next
  case (Cons n ns)
  obtain needed1 U where d: "init_one_crtc K C G scr cids n (needed, S) = (needed1, U)" by fastforce
  have "handed cids used Q U \<and> unat needed1 + length (config (mss (kms_drv U) scr)) \<le> length (outputs_of scr U) \<and>
    (\<forall>q. outputs_of q U = outputs_of q S) \<and> (\<forall>q. q \<noteq> scr \<longrightarrow> config (mss (kms_drv U) q) = config (mss (kms_drv S) q))"
  proof (cases "needed \<noteq> 0 \<and> \<not> bit (assigned_crtcs (entity_of (kms_drv S))) n")
    case False
    with d assms(2) Cons.prems(3,4) show ?thesis
      by (auto simp: init_one_crtc_def LS_GetAssignedCrtc_def and_exp_eq_0_iff_not_bit)
  next
    case True
    obtain made V where i: "drmmode_crtc_init K C G scr cids n S = (made, V)" by fastforce
    have d1: "needed1 = needed - of_bool made" "U = V"
      using d i True by (auto simp: init_one_crtc_def LS_GetAssignedCrtc_def and_exp_eq_0_iff_not_bit)
    note r = crtc_init_result [OF assms(1) i]
    show ?thesis
    proof (cases made)
      case False
      with r Cons.prems(3,4) d1 handed_same [of S U] show ?thesis by (auto simp: same_crtcs_def)
    next
      case m: True
      with r obtain p c where pc: "\<forall>q \<in> Q. p \<notin> set (config (mss (kms_drv S) q))" "crtc_id c = cids ! n"
        "crtcs (kms_drv V) = (crtcs (kms_drv S))(p := c)"
        "\<forall>q. config (mss (kms_drv V) q) = config (mss (kms_drv S) q) @ (if q = scr then [p] else [])"
        "entity_of (kms_drv V) = LS_MarkCrtcInUse n (entity_of (kms_drv S))" by blast
      have "n < length cids" using Cons.prems(2) by simp
      from handed_add [OF Cons.prems(3) assms(3) this assms(4) _ pc(1-5)] True
      have "handed cids used Q V" by blast
      moreover have "unat (needed - 1) = unat needed - 1" "unat needed > 0"
        using True by (simp_all add: unat_minus_one unat_gt_0)
      moreover have "\<And>q. outputs_of q V = outputs_of q S" using r by blast
      ultimately show ?thesis using d1 m pc(4) Cons.prems(4) by auto
    qed
  qed
  note u = this
  have "fold (init_one_crtc K C G scr cids) ns (needed1, U) = (needed', T)" using Cons.prems(1) d by simp
  note v = Cons.IH [OF this _ conjunct1 [OF u] conjunct1 [OF conjunct2 [OF u]]]
  have "\<forall>n \<in> set ns. n < length cids" using Cons.prems(2) by simp
  from v [OF this] u show ?case by auto
qed

text \<open>Clones do not touch CRTCs, and the server's choice of modes is taken to leave their records in place.\<close>

definition start_env :: "'k start_server \<Rightarrow> (nat \<Rightarrow> 'k connectors) \<Rightarrow> u32 list \<Rightarrow> nat set \<Rightarrow> bool" where
  "start_env G Cs cids Q \<longleftrightarrow> crtc_env G Q \<and> distinct cids \<and> length cids \<le> 32 \<and>
     (\<forall>q \<in> Q. entity_shared (Cs q) \<and> (\<forall>k r. fst (drmModeGetResources (Cs q) k) = Some r \<longrightarrow> mr_crtcs r = cids)) \<and>
     (\<forall>q S. entity_of (kms_drv (xf86InitialConfiguration G q S)) = entity_of (kms_drv S) \<and>
        (\<forall>p. crtc_id (crtcs (kms_drv (xf86InitialConfiguration G q S)) p) = crtc_id (crtcs (kms_drv S) p)) \<and>
        (\<forall>scr. config (mss (kms_drv (xf86InitialConfiguration G q S)) scr) = config (mss (kms_drv S) scr) \<and>
          length (outputs_of scr (xf86InitialConfiguration G q S)) = length (outputs_of scr S)))"

text \<open>At most as many CRTCs as outputs.\<close>

definition crtcs_within :: "nat \<Rightarrow> 'k kms \<Rightarrow> bool" where
  "crtcs_within q S \<longleftrightarrow> length (config (mss (kms_drv S) q)) \<le> length (outputs_of q S)"

lemma pre_init_result:
  assumes "start_env G Cs cids Q" and "scr \<in> Q" and "handed cids used Q S" and "\<forall>q \<in> Q. crtcs_within q S"
    and "drmmode_pre_init K (Cs scr) G scr S = (ok, T)"
  shows "handed cids used Q T \<and> (\<forall>q \<in> Q. crtcs_within q T)"
proof -
  let ?C = "Cs scr"
  obtain ret v where c: "drmGetCap G ''DUMB_BUFFER'' = (ret, v)" by fastforce
  define S0 where "S0 = \<lparr>kms_drv = upd_ms scr (\<lambda>m. m\<lparr>config := [], outputs := []\<rparr>) (kms_drv S), kms_exts = []\<rparr>"
  have h0: "handed cids used Q S0" using assms(3) by (auto simp: handed_def S0_def upd_ms_def)
  obtain ro k where r: "drmModeGetResources ?C (kst (kms_drv S0)) = (ro, k)" by fastforce
  define S1 where "S1 = on_kernel (\<lambda>_. k) S0"
  have h1: "handed cids used Q S1" using handed_same [OF _ h0] by (simp add: S1_def)
  have w1: "\<forall>q \<in> Q. crtcs_within q S1"
    using assms(4) by (simp add: crtcs_within_def S1_def S0_def on_kernel_def upd_ms_def)
  show ?thesis
  proof (cases "ret > 0 \<or> v \<noteq> 1")
    case True
    with assms(3-5) c show ?thesis by (auto simp: drmmode_pre_init_def)
  next
    case supported: False
    show ?thesis
    proof (cases ro)
      case None
      with assms(5) c supported r have "T = S1" by (simp add: drmmode_pre_init_def flip: S0_def S1_def)
      with h1 w1 show ?thesis by simp
    next
      case (Some res)
      with r assms(1,2) have cids: "mr_crtcs res = cids" unfolding start_env_def by (metis fst_conv)
      define sh where "sh = crtcshift_of (entity_of (kms_drv S1))"
      obtain n2 S2 where o: "fold (init_one_output ?C scr (mr_connectors res) sh) [0..<length (mr_connectors res)] (0, S1) = (n2, S2)"
        by fastforce
      obtain n3 S3 where p: "fold (init_one_crtc K ?C G scr cids) [0..<length cids] (n2, S2) = (n3, S3)" by fastforce
      have T: "ok" "T = xf86InitialConfiguration G scr (drmmode_clones_init (mr_encoders res) S3)"
        using assms(5) c supported r Some o p cids
        by (auto simp: drmmode_pre_init_def Let_def simp flip: S0_def S1_def sh_def)
      from init_outputs_result [OF o] have s2: "same_crtcs S1 S2" "unat n2 \<le> length (outputs_of scr S2)" by simp_all
      have "config (mss (kms_drv S1) scr) = []" by (simp add: S1_def S0_def on_kernel_def upd_ms_def)
      with s2 have b: "unat n2 + length (config (mss (kms_drv S2) scr)) \<le> length (outputs_of scr S2)"
        by (simp add: same_crtcs_def)
      have i: "crtc_env G Q" "entity_shared ?C" "distinct cids" "length cids \<le> 32"
        using assms(1,2) by (simp_all add: start_env_def)
      have "\<forall>n \<in> set [0..<length cids]. n < length cids" by simp
      note s3 = init_crtcs_result [OF i p this handed_same [OF s2(1) h1] b]
      let ?S4 = "drmmode_clones_init (mr_encoders res) S3"
      have 4: "handed cids used Q ?S4" using conjunct1 [OF s3] by (simp add: drmmode_clones_init_def Let_def handed_def)
      have w: "crtcs_within q S3" if "q \<in> Q" for q
      proof (cases "q = scr")
        case True
        with conjunct1 [OF conjunct2 [OF s3]] show ?thesis by (simp add: crtcs_within_def)
      next
        case False
        have "outputs_of q S3 = outputs_of q S2" "config (mss (kms_drv S3) q) = config (mss (kms_drv S2) q)"
          using s3 False by blast+
        moreover have "outputs_of q S2 = outputs_of q S1" using init_outputs_result [OF o] False by simp
        moreover have "config (mss (kms_drv S2) q) = config (mss (kms_drv S1) q)" using s2(1) by (simp add: same_crtcs_def)
        moreover have "crtcs_within q S1" using w1 that by blast
        ultimately show ?thesis by (simp add: crtcs_within_def)
      qed
      have "handed cids used Q T" using 4 assms(1) by (simp add: T(2) handed_def start_env_def)
      moreover have "\<forall>q \<in> Q. crtcs_within q T"
        using w assms(1) by (simp add: T(2) crtcs_within_def start_env_def drmmode_clones_init_def Let_def)
      ultimately show ?thesis by blast
    qed
  qed
qed

text \<open>The identifiers of a screen's CRTCs.\<close>

definition crtc_ids :: "nat \<Rightarrow> 'k kms \<Rightarrow> u32 list" where
  "crtc_ids q S = map (\<lambda>p. crtc_id (crtcs (kms_drv S) p)) (config (mss (kms_drv S) q))"

definition start_screens ::
  "'k kernel \<Rightarrow> (nat \<Rightarrow> 'k connectors) \<Rightarrow> 'k start_server \<Rightarrow> nat list \<Rightarrow> 'k kms \<Rightarrow> 'k kms" where
  "start_screens K Cs G scrs S = fold (\<lambda>q S. snd (drmmode_pre_init K (Cs q) G q S)) scrs S"

text \<open>
  C38. No CRTC of a shared device is given to two screens. However many screens start on it, in
  whatever order, and whatever the kernel and the server refuse on the way: a CRTC of a screen was
  free before the first of them started and is marked as used after the last, no screen has a CRTC
  twice or one of another screen, and no screen has more CRTCs than outputs. The device has at
  most 32 CRTCs, as the kernel guarantees.
\<close>

theorem crtcs_handed_out_once:
  assumes "start_env G Cs cids (set scrs)" and "\<forall>q \<in> set scrs. config (mss (kms_drv S) q) = []"
    and "T = start_screens K Cs G scrs S" and "q \<in> set scrs"
  shows "distinct (crtc_ids q T) \<and> length (crtc_ids q T) \<le> length (outputs_of q T) \<and>
    (\<forall>c \<in> set (crtc_ids q T). \<exists>n < length cids. c = cids ! n \<and>
       \<not> bit (assigned_crtcs (entity_of (kms_drv S))) n \<and> bit (assigned_crtcs (entity_of (kms_drv T))) n) \<and>
    (\<forall>q' \<in> set scrs. q' \<noteq> q \<longrightarrow> set (crtc_ids q T) \<inter> set (crtc_ids q' T) = {})"
proof -
  let ?Q = "set scrs" and ?used = "assigned_crtcs (entity_of (kms_drv S))"
  have "handed cids ?used ?Q S" using assms(2) by (simp add: handed_def)
  moreover have "\<forall>q \<in> ?Q. crtcs_within q S" using assms(2) by (simp add: crtcs_within_def)
  moreover have "handed cids ?used ?Q (start_screens K Cs G qs S') \<and> (\<forall>q \<in> ?Q. crtcs_within q (start_screens K Cs G qs S'))"
    if "set qs \<subseteq> ?Q" "handed cids ?used ?Q S'" "\<forall>q \<in> ?Q. crtcs_within q S'" for qs S'
    using that
  proof (induction qs arbitrary: S')
    case Nil
    then show ?case by (simp add: start_screens_def)
  next
    case (Cons x qs)
    obtain ok U where "drmmode_pre_init K (Cs x) G x S' = (ok, U)" by fastforce
    with pre_init_result [OF assms(1) _ Cons.prems(2,3) this] Cons show ?case by (simp add: start_screens_def)
  qed
  ultimately have h: "handed cids ?used ?Q T" "\<forall>q \<in> ?Q. crtcs_within q T" using assms(3) by blast+
  have "distinct (crtc_ids q T)" using h(1) assms(4) by (auto simp: handed_def crtc_ids_def distinct_map inj_on_def)
  moreover have "length (crtc_ids q T) \<le> length (outputs_of q T)"
    using h(2) assms(4) by (simp add: crtc_ids_def crtcs_within_def)
  moreover have "\<forall>c \<in> set (crtc_ids q T). \<exists>n < length cids. c = cids ! n \<and> \<not> bit ?used n \<and>
      bit (assigned_crtcs (entity_of (kms_drv T))) n"
    using h(1) assms(4) unfolding handed_def crtc_ids_def set_map ball_simps by blast
  moreover have "\<forall>q' \<in> ?Q. q' \<noteq> q \<longrightarrow> set (crtc_ids q T) \<inter> set (crtc_ids q' T) = {}"
    using h(1) assms(4) unfolding handed_def crtc_ids_def by auto
  ultimately show ?thesis by blast
qed

section \<open>No primary plane is shared\<close>

definition planes_distinct :: "nat \<Rightarrow> 'k kms \<Rightarrow> bool" where
  "planes_distinct scr S \<longleftrightarrow>
     (\<forall>p \<in> set (config (mss (kms_drv S) scr)). \<forall>q \<in> set (config (mss (kms_drv S) scr)).
        plane_id (crtcs (kms_drv S) p) \<noteq> 0 \<longrightarrow> plane_id (crtcs (kms_drv S) p) = plane_id (crtcs (kms_drv S) q) \<longrightarrow> p = q)"

lemma init_crtcs_planes:
  assumes "crtc_env G {scr}"
  shows "fold (init_one_crtc K C G scr cids) ns (needed, S) = (needed', T) \<Longrightarrow> planes_distinct scr S \<Longrightarrow> planes_distinct scr T"
proof (induction ns arbitrary: needed S)
  case Nil
  then show ?case by simp
next
  case (Cons n ns)
  obtain needed1 U where d: "init_one_crtc K C G scr cids n (needed, S) = (needed1, U)" by fastforce
  obtain made V where i: "drmmode_crtc_init K C G scr cids n S = (made, V)" by fastforce
  have "U = S \<or> U = V" using d i by (auto simp: init_one_crtc_def split: if_splits)
  moreover have "planes_distinct scr V"
  proof (cases "made")
    case False
    with crtc_init_result [OF assms i] Cons.prems(2) show ?thesis by (auto simp: planes_distinct_def same_crtcs_def)
  next
    case True
    with crtc_init_result [OF assms i] obtain p c where pc: "p \<notin> set (config (mss (kms_drv S) scr))"
      "plane_id c \<noteq> 0 \<longrightarrow> (\<forall>x \<in> set (config (mss (kms_drv S) scr)). plane_id (crtcs (kms_drv S) x) \<noteq> plane_id c)"
      "crtcs (kms_drv V) = (crtcs (kms_drv S))(p := c)"
      "\<forall>q. config (mss (kms_drv V) q) = config (mss (kms_drv S) q) @ (if q = scr then [p] else [])" by blast
    then have at: "plane_id (crtcs (kms_drv V) x) = (if x = p then plane_id c else plane_id (crtcs (kms_drv S) x))" for x by simp
    have "set (config (mss (kms_drv V) scr)) = insert p (set (config (mss (kms_drv S) scr)))" using pc(4) by simp
    with pc(1,2) Cons.prems(2) show ?thesis unfolding planes_distinct_def at by (auto split: if_splits)
  qed
  ultimately have "planes_distinct scr U" using Cons.prems(2) by blast
  moreover have "fold (init_one_crtc K C G scr cids) ns (needed1, U) = (needed', T)" using Cons.prems(1) d by simp
  ultimately show ?case using Cons.IH by blast
qed

text \<open>
  C12. No two CRTCs of a screen share a primary plane. Whatever planes and properties the kernel
  reports, with atomic mode setting or without, for the screens of a shared device and for one of
  its own: once the screen has started, two of its CRTCs with a plane have different ones.
  The server's choice of modes does not change planes.
\<close>

theorem screen_planes_distinct:
  assumes "crtc_env G {scr}"
    and "\<forall>S. planes_distinct scr S \<longrightarrow> planes_distinct scr (xf86InitialConfiguration G scr S)"
    and "drmmode_pre_init K C G scr S = (True, T)"
  shows "\<forall>p \<in> set (config (mss (kms_drv T) scr)). \<forall>q \<in> set (config (mss (kms_drv T) scr)).
    p \<noteq> q \<longrightarrow> plane_id (crtcs (kms_drv T) p) \<noteq> 0 \<longrightarrow> plane_id (crtcs (kms_drv T) p) \<noteq> plane_id (crtcs (kms_drv T) q)"
proof -
  define S0 where "S0 = \<lparr>kms_drv = upd_ms scr (\<lambda>m. m\<lparr>config := [], outputs := []\<rparr>) (kms_drv S), kms_exts = []\<rparr>"
  obtain ro k where r: "drmModeGetResources C (kst (kms_drv S0)) = (ro, k)" by fastforce
  define S1 where "S1 = on_kernel (\<lambda>_. k) S0"
  obtain res where res: "ro = Some res"
    using assms(3) r by (cases ro) (auto simp: drmmode_pre_init_def simp flip: S0_def split: prod.splits if_splits)
  define sh where "sh = crtcshift_of (entity_of (kms_drv S1))"
  obtain n2 S2 where o: "fold (init_one_output C scr (mr_connectors res) sh) [0..<length (mr_connectors res)] (0, S1) = (n2, S2)"
    by fastforce
  obtain n3 S3 where p: "fold (init_one_crtc K C G scr (mr_crtcs res)) [0..<length (mr_crtcs res)] (n2, S2) = (n3, S3)"
    by fastforce
  have T: "T = xf86InitialConfiguration G scr (drmmode_clones_init (mr_encoders res) S3)"
    using assms(3) r res o p
    by (auto simp: drmmode_pre_init_def Let_def simp flip: S0_def S1_def sh_def split: prod.splits if_splits)
  have "config (mss (kms_drv S1) scr) = []" by (simp add: S1_def S0_def on_kernel_def upd_ms_def)
  moreover have "same_crtcs S1 S2" using init_outputs_result [OF o] by simp
  ultimately have "planes_distinct scr S2" by (simp add: planes_distinct_def same_crtcs_def)
  from init_crtcs_planes [OF assms(1) p this] have "planes_distinct scr (drmmode_clones_init (mr_encoders res) S3)"
    by (simp add: planes_distinct_def drmmode_clones_init_def Let_def)
  with assms(2) T have "planes_distinct scr T" by blast
  then show ?thesis unfolding planes_distinct_def by blast
qed

section \<open>The choices of PreInit\<close>

text \<open>
  The configuration of a screen: an option is \<open>None\<close> when it is not given. \<open>stack_bpp\<close>
  is what an uninitialised variable holds. \<open>set_depth_bpp\<close> is \<^verbatim>\<open>xf86SetDepthBpp\<close> with
  the depth and the bits per pixel the server settles on, \<open>visual_ok\<close> the calls for weight and
  visual after it; \<open>load_ok\<close> tells which modules load, \<open>egl_init_ok\<close> whether glamor starts.
\<close>

record 'k startup =
  num_entities :: nat
  probe_detect :: bool
  opt_accel_method :: "string option"
  opt_exa_type :: "string option"
  opt_shadow :: "bool option"
  opt_double_shadow :: "bool option"
  opt_sw_cursor :: "bool option"
  opt_pageflip :: "bool option"
  opt_atomic :: "bool option"
  driver_name :: string
  min_size :: "(u32 \<times> u32) option"
  stack_bpp :: int
  set_depth_bpp :: "int \<Rightarrow> int \<Rightarrow> (u8 \<times> int) option"
  visual_ok :: bool
  load_ok :: "string \<Rightarrow> bool"
  egl_init_ok :: bool
  gamma_ok :: bool
  scrn_modes :: "'k kms \<Rightarrow> bool"

definition xf86ReturnOptValBool :: "bool option \<Rightarrow> bool \<Rightarrow> bool" where
  "xf86ReturnOptValBool opt dflt = (case opt of None \<Rightarrow> dflt | Some b \<Rightarrow> b)"

definition InitDefaultVisual ::
  "'k kernel \<Rightarrow> 'k start_server \<Rightarrow> 'k startup \<Rightarrow> nat \<Rightarrow> 'k drv \<Rightarrow> bool \<times> 'k drv" where
  "InitDefaultVisual K G cf scr s =
     (case drmmode_get_default_bpp K (drmGetCap G ''DUMB_PREFERRED_DEPTH'') (min_size cf) (stack_bpp cf) s of
        ((defaultdepth, defaultbpp), s) \<Rightarrow>
          let packed = (defaultdepth = 24 \<and> defaultbpp = 24);
              s = upd_ms scr (\<lambda>m. if packed then m\<lparr>force_24_32 := True, kbpp := 24\<rparr> else m\<lparr>kbpp := 0\<rparr>) s
          in case set_depth_bpp cf defaultdepth (if packed then 32 else defaultbpp) of
               None \<Rightarrow> (False, s)
             | Some (d, bpp) \<Rightarrow>
                 let s = upd_ms scr (\<lambda>m. m\<lparr>depth := d, bitsPerPixel := bpp\<rparr>) s
                 in if d \<notin> {15, 16, 24, 30} then (False, s)
                    else (visual_ok cf, upd_ms scr (\<lambda>m. m\<lparr>kbpp := (if kbpp m = 0 then word_of_int bpp else kbpp m)\<rparr>) s))"

definition LS_GetCursorDimK :: "'k start_server \<Rightarrow> 'k startup \<Rightarrow> modesetting \<Rightarrow> modesetting" where
  "LS_GetCursorDimK G cf m =
     (let m = (if xf86ReturnOptValBool (opt_sw_cursor cf) False then m\<lparr>sw_cursor := True\<rparr> else m);
          m = m\<lparr>cursor_width := 64, cursor_height := 64\<rparr>;
          m = (case drmGetCap G ''CURSOR_WIDTH'' of (ret, v) \<Rightarrow> if ret = 0 then m\<lparr>cursor_width := ucast v\<rparr> else m)
      in case drmGetCap G ''CURSOR_HEIGHT'' of (ret, v) \<Rightarrow> if ret = 0 then m\<lparr>cursor_height := ucast v\<rparr> else m)"

text \<open>With \<^verbatim>\<open>GLAMOR_HAS_GBM\<close>.\<close>

definition try_enable_glamor :: "'k startup \<Rightarrow> modesetting \<Rightarrow> bool \<times> modesetting" where
  "try_enable_glamor cf m =
     (let do_glamor = (opt_accel_method cf = None \<or> opt_accel_method cf = Some ''glamor'');
          m = m\<lparr>ms_glamor := False\<rparr>
      in if force_24_32 m then (False, m)
         else if \<not> do_glamor then (False, m)
         else if load_ok cf ''glamoregl'' then
           (if egl_init_ok cf then (True, m\<lparr>ms_glamor := True\<rparr>) else (ms_glamor m, m))
         else (False, m))"

text \<open>Glamor, then EXA when PRIME works, and the shadow framebuffer when there is neither.\<close>

definition choose_acceleration :: "'k start_server \<Rightarrow> 'k startup \<Rightarrow> bool \<Rightarrow> nat \<Rightarrow> 'k drv \<Rightarrow> 'k drv" where
  "choose_acceleration G cf is_prime_supported scr s =
     (case try_enable_glamor cf (mss s scr) of
        (ok, m) \<Rightarrow>
          let s = upd_ms scr (\<lambda>_. m) s;
              s = (if ok then s
                   else if is_prime_supported then try_enable_exa (opt_accel_method cf) (opt_exa_type cf) scr s
                   else upd_ms scr (\<lambda>m. m\<lparr>exa_enabled := False\<rparr>) s)
          in if \<not> ms_glamor (mss s scr) \<and> \<not> exa_enabled (mss s scr)
             then LS_TryEnableShadow (drmGetCap G ''DUMB_PREFER_SHADOW'') (opt_shadow cf) (driver_name cf) (opt_double_shadow cf) scr s
             else s)"

abbreviation (input) RR_Capability_SourceOutput :: u32 where "RR_Capability_SourceOutput \<equiv> 1"
abbreviation (input) RR_Capability_SinkOutput :: u32 where "RR_Capability_SinkOutput \<equiv> 2"
abbreviation (input) RR_Capability_SourceOffload :: u32 where "RR_Capability_SourceOffload \<equiv> 4"
abbreviation (input) RR_Capability_SinkOffload :: u32 where "RR_Capability_SinkOffload \<equiv> 8"
abbreviation (input) DRM_PRIME_CAP_IMPORT :: u64 where "DRM_PRIME_CAP_IMPORT \<equiv> 1"
abbreviation (input) DRM_PRIME_CAP_EXPORT :: u64 where "DRM_PRIME_CAP_EXPORT \<equiv> 2"

text \<open>With \<^verbatim>\<open>GLAMOR_HAS_GBM_LINEAR\<close>.\<close>

definition prime_capabilities :: "bool \<Rightarrow> bool \<Rightarrow> int \<Rightarrow> u64 \<Rightarrow> u32" where
  "prime_capabilities is_prime_supported glamor connector_count value =
     (if \<not> is_prime_supported then 0
      else
        (if connector_count \<noteq> 0 \<and> value AND DRM_PRIME_CAP_IMPORT \<noteq> 0
         then RR_Capability_SinkOutput OR (if glamor then RR_Capability_SinkOffload else 0) else 0) OR
        (if value AND DRM_PRIME_CAP_EXPORT \<noteq> 0 \<and> glamor
         then RR_Capability_SourceOutput OR RR_Capability_SourceOffload else 0))"

text \<open>
  The state at startup: the descriptors and records of the screens (a screen without
  \<open>ms_fd\<close> has no record yet), the screen's outputs, and whether the first screen of a shared
  device has been set up.
\<close>

record 'k start =
  st_fds :: fd_world
  st_kms :: "'k kms"
  st_prim_done :: bool

definition on_ms :: "nat \<Rightarrow> (modesetting \<Rightarrow> modesetting) \<Rightarrow> 'k kms \<Rightarrow> 'k kms" where
  "on_ms scr f S = S\<lparr>kms_drv := upd_ms scr f (kms_drv S)\<rparr>"

definition LS_AllocDriverPrivate :: "nat \<Rightarrow> 'k start \<Rightarrow> 'k start" where
  "LS_AllocDriverPrivate scr st =
     (if ms_fd (st_fds st) scr = None then
        st\<lparr>st_fds := (st_fds st)\<lparr>ms_fd := (ms_fd (st_fds st))(scr := Some 0)\<rparr>,
           st_kms := on_ms scr (\<lambda>_. zero_ms) (st_kms st)\<rparr>
      else st)"

text \<open>\<^verbatim>\<open>ms_get_drm_master_fd\<close> on the entity of the driver's state.\<close>

definition take_descriptor ::
  "fd_env \<Rightarrow> (string \<Rightarrow> bool) \<Rightarrow> bool \<Rightarrow> bus_location \<Rightarrow> nat \<Rightarrow> 'k start \<Rightarrow> bool \<times> 'k start" where
  "take_descriptor E drm_open_ok mem loc scr st =
     (case ms_get_drm_master_fd E drm_open_ok mem loc scr ((st_fds st)\<lparr>ent := entity_of (kms_drv (st_kms st))\<rparr>) of
        (ok, w) \<Rightarrow>
          (ok, st\<lparr>st_fds := w, st_kms := (st_kms st)\<lparr>kms_drv :=
             upd_ms scr (\<lambda>m. m\<lparr>fd_passed := ms_fd_passed w scr\<rparr>) ((kms_drv (st_kms st))\<lparr>entity_of := ent w\<rparr>)\<rparr>\<rparr>))"

text \<open>
  The part of \<^verbatim>\<open>PreInit\<close> that works on the device, once its connectors are counted. The
  result of the visual is ignored. Without memory for the options the option table is null and
  is read all the same.
\<close>

definition configure_screen ::
  "'k kernel \<Rightarrow> 'k connectors \<Rightarrow> 'k start_server \<Rightarrow> 'k startup \<Rightarrow> nat \<Rightarrow> int \<Rightarrow> 'k kms \<Rightarrow> bool \<times> 'k kms" where
  "configure_screen K C G cf scr connector_count S =
     (let s = snd (InitDefaultVisual K G cf scr (kms_drv S));
          (ok, s) = calloc s;
          s = (if ok then s else misc_fault s);
          s = upd_ms scr (LS_GetCursorDimK G cf) s;
          (ret, v) = drmGetCap G ''PRIME'';
          is_prime_supported = (ret = 0 \<and> v \<noteq> 0);
          s = choose_acceleration G cf is_prime_supported scr s
      in if \<not> load_ok cf ''fb'' then (False, S\<lparr>kms_drv := s\<rparr>)
         else
           let s = upd_ms scr (\<lambda>m. m\<lparr>pageflip := xf86ReturnOptValBool (opt_pageflip cf) True,
                     scrn_capabilities := prime_capabilities is_prime_supported (ms_glamor m) connector_count v\<rparr>) s;
               (ret, k) = (if xf86ReturnOptValBool (opt_atomic cf) False then drmSetClientCap_atomic G (kst s) else (-1, kst s));
               has = (case drmGetCap G ''ADDFB2_MODIFIERS'' of (r, w) \<Rightarrow> r = 0 \<and> w \<noteq> 0);
               s = upd_ms scr (\<lambda>m. m\<lparr>atomic_modeset := (ret = 0), kms_has_modifiers := has\<rparr>) (s\<lparr>kst := k\<rparr>)
           in case drmmode_pre_init K C G scr (S\<lparr>kms_drv := s\<rparr>) of
                (ok, S) \<Rightarrow>
                  (ok \<and> gamma_ok cf \<and> (screen_is_gpu C \<and> connector_count = 0 \<or> scrn_modes cf S), S))"

definition PreInit ::
  "'k kernel \<Rightarrow> fd_env \<Rightarrow> (string \<Rightarrow> bool) \<Rightarrow> bool \<Rightarrow> bus_location \<Rightarrow> 'k connectors \<Rightarrow> 'k start_server \<Rightarrow> 'k startup \<Rightarrow>
     nat \<Rightarrow> 'k start \<Rightarrow> bool \<times> 'k start" where
  "PreInit K E drm_open_ok mem loc C G cf scr st =
     (if num_entities cf \<noteq> 1 then (False, st)
      else if probe_detect cf then (False, st)
      else
        let st = LS_AllocDriverPrivate scr st;
            secondary = (entity_shared C \<and> st_prim_done st);
            st = st\<lparr>st_kms := on_ms scr (\<lambda>m. m\<lparr>displayWidth := 640\<rparr>) (st_kms st),
                    st_prim_done := st_prim_done st \<or> entity_shared C\<rparr>
        in case take_descriptor E drm_open_ok mem loc scr st of
             (ok, st) \<Rightarrow>
               if \<not> ok then (False, st)
               else
                 let fd = the (ms_fd (st_fds st) scr) in
                 if LS_CheckOutputs E fd = 0 then (False, st)
                 else case configure_screen K (C\<lparr>is_secondary := secondary\<rparr>) G cf scr
                        (the (count_connectors E fd)) (st_kms st) of
                   (ok, S) \<Rightarrow> (ok, st\<lparr>st_kms := S\<rparr>))"

section \<open>The choices fit together\<close>

lemma crtc_init_choices:
  "choices (mss (kms_drv (snd (drmmode_crtc_init K C G scr cids n S))) q) = choices (mss (kms_drv S) q)"
  by (simp add: drmmode_crtc_init_def Let_def on_kernel_def upd_ms_def upd_crtc_def misc_fault_def split: prod.split option.split)

lemma init_crtcs_choices:
  "choices (mss (kms_drv (snd (fold (init_one_crtc K C G scr cids) ns (needed, S)))) q) = choices (mss (kms_drv S) q)"
proof (induction ns arbitrary: needed S)
  case Nil
  then show ?case by simp
next
  case (Cons n ns)
  obtain needed1 U where d: "init_one_crtc K C G scr cids n (needed, S) = (needed1, U)" by fastforce
  then have "choices (mss (kms_drv U) q) = choices (mss (kms_drv S) q)"
    using crtc_init_choices [of K C G scr cids n S q] by (auto simp: init_one_crtc_def split: if_splits prod.splits)
  with Cons.IH [of needed1 U] d show ?case by simp
qed

lemma pre_init_choices:
  assumes "\<forall>S. choices (mss (kms_drv (xf86InitialConfiguration G scr S)) scr) = choices (mss (kms_drv S) scr)"
  shows "choices (mss (kms_drv (snd (drmmode_pre_init K C G scr S))) scr) = choices (mss (kms_drv S) scr)"
proof -
  define S0 where "S0 = \<lparr>kms_drv = upd_ms scr (\<lambda>m. m\<lparr>config := [], outputs := []\<rparr>) (kms_drv S), kms_exts = []\<rparr>"
  obtain ro k where r: "drmModeGetResources C (kst (kms_drv S0)) = (ro, k)" by fastforce
  define S1 where "S1 = on_kernel (\<lambda>_. k) S0"
  have 1: "choices (mss (kms_drv S1) scr) = choices (mss (kms_drv S) scr)"
    by (simp add: S1_def S0_def on_kernel_def upd_ms_def)
  show ?thesis
  proof (cases ro)
    case None
    with 1 r show ?thesis by (simp add: drmmode_pre_init_def flip: S0_def S1_def split: prod.split)
  next
    case (Some res)
    define sh where "sh = crtcshift_of (entity_of (kms_drv S1))"
    obtain n2 S2 where o: "fold (init_one_output C scr (mr_connectors res) sh) [0..<length (mr_connectors res)] (0, S1) = (n2, S2)"
      by fastforce
    obtain n3 S3 where p: "fold (init_one_crtc K C G scr (mr_crtcs res)) [0..<length (mr_crtcs res)] (n2, S2) = (n3, S3)"
      by fastforce
    have "same_crtcs S1 S2" using init_outputs_result [OF o] by simp
    then have "choices (mss (kms_drv S2) scr) = choices (mss (kms_drv S) scr)" using 1 by (simp add: same_crtcs_def)
    with init_crtcs_choices [of K C G scr "mr_crtcs res" "[0..<length (mr_crtcs res)]" n2 S2 scr] p
    have "choices (mss (kms_drv (drmmode_clones_init (mr_encoders res) S3)) scr) = choices (mss (kms_drv S) scr)"
      by (simp add: drmmode_clones_init_def Let_def)
    then show ?thesis
      using assms r Some o p by (simp add: drmmode_pre_init_def Let_def flip: S0_def S1_def sh_def split: prod.split)
  qed
qed

text \<open>What the choice of acceleration gives a screen whose record is new.\<close>

definition acceleration_ok :: "'k startup \<Rightarrow> bool \<Rightarrow> modesetting \<Rightarrow> bool" where
  "acceleration_ok cf prime m \<longleftrightarrow>
     (ms_glamor m \<longrightarrow> \<not> exa_enabled m \<and> \<not> shadow_enable m \<and> \<not> force_24_32 m \<and> load_ok cf ''glamoregl'' \<and> egl_init_ok cf) \<and>
     (exa_enabled m \<longrightarrow> \<not> shadow_enable m \<and> prime \<and>
        (opt_accel_method cf = Some ''exa'' \<or> opt_accel_method cf = Some ''EXA'')) \<and>
     (\<not> ms_glamor m \<and> \<not> exa_enabled m \<and> force_24_32 m \<longrightarrow> shadow_enable m)"

lemma choose_acceleration_ok:
  assumes "\<not> exa_enabled (mss s scr)" and "\<not> shadow_enable (mss s scr)"
  shows "acceleration_ok cf prime (mss (choose_acceleration G cf prime scr s) scr)"
proof (cases "try_enable_glamor cf (mss s scr)")
  case (Pair ok m)
  then have m: "\<not> exa_enabled m" "\<not> shadow_enable m" "ms_glamor m = ok"
    "ok \<Longrightarrow> \<not> force_24_32 m \<and> load_ok cf ''glamoregl'' \<and> egl_init_ok cf"
    using assms by (auto simp: try_enable_glamor_def Let_def split: if_splits)
  show ?thesis
  proof (cases ok)
    case True
    with Pair m show ?thesis by (simp add: choose_acceleration_def Let_def upd_ms_def acceleration_ok_def)
  next
    case False
    define s1 where "s1 = (if prime then try_enable_exa (opt_accel_method cf) (opt_exa_type cf) scr (upd_ms scr (\<lambda>_. m) s)
      else upd_ms scr (\<lambda>m. m\<lparr>exa_enabled := False\<rparr>) (upd_ms scr (\<lambda>_. m) s))"
    have s1: "\<not> ms_glamor (mss s1 scr)" "\<not> shadow_enable (mss s1 scr)"
      "exa_enabled (mss s1 scr) \<Longrightarrow> prime \<and> (opt_accel_method cf = Some ''exa'' \<or> opt_accel_method cf = Some ''EXA'')"
      using m False by (auto simp: s1_def try_enable_exa_def upd_ms_def Let_def split: if_splits)
    have e: "choose_acceleration G cf prime scr s = (if \<not> ms_glamor (mss s1 scr) \<and> \<not> exa_enabled (mss s1 scr)
        then LS_TryEnableShadow (drmGetCap G ''DUMB_PREFER_SHADOW'') (opt_shadow cf) (driver_name cf) (opt_double_shadow cf) scr s1
        else s1)"
      using Pair False by (simp add: choose_acceleration_def Let_def s1_def)
    show ?thesis
      using s1 by (auto simp: e acceleration_ok_def LS_TryEnableShadow_def Let_def upd_ms_def)
  qed
qed

lemma prime_capabilities_ok:
  "prime_capabilities prime glamor n v \<noteq> 0 \<Longrightarrow> prime"
  "prime_capabilities prime glamor n v AND (RR_Capability_SourceOutput OR RR_Capability_SourceOffload OR RR_Capability_SinkOffload) \<noteq> 0
     \<Longrightarrow> glamor"
  by (simp_all add: prime_capabilities_def split: if_splits)

lemma dumb_mss:
  "mss (snd (dumb_bo_create K w h b s)) = mss s"
  "mss (snd (dumb_bo_destroy K bo s)) = mss s"
  by (simp_all add: dumb_bo_create_def dumb_bo_destroy_def calloc_queue Let_def case_prod_beta)

lemma default_bpp_mss: "mss (snd (drmmode_get_default_bpp K cap res bpp s)) = mss s"
proof (cases "fst cap = 0 \<and> (snd cap = 16 \<or> snd cap = 8)")
  case True
  then show ?thesis by (auto simp: drmmode_get_default_bpp_def)
next
  case False
  show ?thesis
  proof (cases res)
    case None
    with False show ?thesis by (auto simp: drmmode_get_default_bpp_def)
  next
    case (Some wh)
    obtain w0 h0 where wh: "wh = (w0, h0)" by fastforce
    define w h where "w = (if w0 = 0 then 1 else w0)" and "h = (if h0 = 0 then 1 else h0)"
    obtain bo t where c: "dumb_bo_create K w h 32 s = (bo, t)" by fastforce
    have t: "mss t = mss s" using dumb_mss(1) [of K w h 32 s] c by simp
    have d: "drmmode_get_default_bpp K cap res bpp s =
      (case dumb_bo_create K w h 32 s of
         (None, s) \<Rightarrow> ((24, 24), s)
       | (Some bo, s) \<Rightarrow>
           (case drmModeAddFB K w h 24 32 (db_pitch bo) (db_handle bo) (kst s) of
              ((ret, fb), k) \<Rightarrow>
                let s = s\<lparr>kst := k\<rparr> in
                if ret \<noteq> 0 then ((24, 24), snd (dumb_bo_destroy K bo s))
                else ((24, 32), snd (dumb_bo_destroy K bo (s\<lparr>kst := drmModeRmFB K fb (kst s)\<rparr>)))))"
      unfolding drmmode_get_default_bpp_def Some wh option.case prod.case if_not_P [OF False] Let_def
        w_def [symmetric] h_def [symmetric] ..
    show ?thesis
      unfolding d c using t by (cases bo) (simp_all add: Let_def dumb_mss split: prod.split)
  qed
qed

lemma default_visual_keeps:
  "exa_enabled (mss (snd (InitDefaultVisual K G cf scr s)) scr) = exa_enabled (mss s scr) \<and>
   shadow_enable (mss (snd (InitDefaultVisual K G cf scr s)) scr) = shadow_enable (mss s scr)"
proof -
  obtain d b t where p: "drmmode_get_default_bpp K (drmGetCap G ''DUMB_PREFERRED_DEPTH'') (min_size cf) (stack_bpp cf) s = ((d, b), t)"
    by (metis prod.collapse)
  have t: "mss t = mss s"
    using default_bpp_mss [of K "drmGetCap G ''DUMB_PREFERRED_DEPTH''" "min_size cf" "stack_bpp cf" s] p by simp
  define packed where "packed = (d = 24 \<and> b = 24)"
  define q where "q = set_depth_bpp cf d (if packed then 32 else b)"
  show ?thesis
    by (cases q) (simp_all add: InitDefaultVisual_def p Let_def t upd_ms_def split: prod.split flip: packed_def q_def)
qed

definition startup_ok :: "'k start_server \<Rightarrow> 'k startup \<Rightarrow> modesetting \<Rightarrow> bool" where
  "startup_ok G cf m \<longleftrightarrow>
     (let prime = (fst (drmGetCap G ''PRIME'') = 0 \<and> snd (drmGetCap G ''PRIME'') \<noteq> 0) in
      acceleration_ok cf prime m \<and> (scrn_capabilities m \<noteq> 0 \<longrightarrow> prime) \<and>
      (scrn_capabilities m AND (RR_Capability_SourceOutput OR RR_Capability_SourceOffload OR RR_Capability_SinkOffload) \<noteq> 0
         \<longrightarrow> ms_glamor m) \<and>
      (atomic_modeset m \<longrightarrow> opt_atomic cf = Some True))"

lemma startup_ok_choices: "choices m = choices m' \<Longrightarrow> startup_ok G cf m = startup_ok G cf m'"
  by (simp add: startup_ok_def acceleration_ok_def choices_def Let_def)

lemma cursor_dim_keeps:
  "exa_enabled (LS_GetCursorDimK G cf m) = exa_enabled m"
  "shadow_enable (LS_GetCursorDimK G cf m) = shadow_enable m"
  by (simp_all add: LS_GetCursorDimK_def Let_def split: prod.split)

lemma configure_screen_ok:
  assumes "\<forall>S. choices (mss (kms_drv (xf86InitialConfiguration G scr S)) scr) = choices (mss (kms_drv S) scr)"
    and "\<not> exa_enabled (mss (kms_drv S) scr)" and "\<not> shadow_enable (mss (kms_drv S) scr)"
    and "configure_screen K C G cf scr n S = (True, T)"
  shows "startup_ok G cf (mss (kms_drv T) scr)"
proof -
  define s1 where "s1 = snd (InitDefaultVisual K G cf scr (kms_drv S))"
  obtain ok s2 where a: "calloc s1 = (ok, s2)" by fastforce
  define s3 where "s3 = upd_ms scr (LS_GetCursorDimK G cf) (if ok then s2 else misc_fault s2)"
  have "mss s2 = mss s1" using calloc_queue(4) [of s1] a by simp
  then have 3: "\<not> exa_enabled (mss s3 scr)" "\<not> shadow_enable (mss s3 scr)"
    using assms(2,3) default_visual_keeps [of K G cf scr "kms_drv S"]
    by (simp_all add: s3_def s1_def upd_ms_def cursor_dim_keeps misc_fault_def)
  obtain ret v where c: "drmGetCap G ''PRIME'' = (ret, v)" by fastforce
  define prime where "prime = (ret = 0 \<and> v \<noteq> 0)"
  define s4 where "s4 = choose_acceleration G cf prime scr s3"
  note 4 = choose_acceleration_ok [OF 3, of cf prime G]
  define s5 where "s5 = upd_ms scr (\<lambda>m. m\<lparr>pageflip := xf86ReturnOptValBool (opt_pageflip cf) True,
      scrn_capabilities := prime_capabilities prime (ms_glamor m) n v\<rparr>) s4"
  obtain r k where k: "(if xf86ReturnOptValBool (opt_atomic cf) False then drmSetClientCap_atomic G (kst s5) else (-1, kst s5)) = (r, k)"
    by fastforce
  define has where "has = (case drmGetCap G ''ADDFB2_MODIFIERS'' of (r, w) \<Rightarrow> r = 0 \<and> w \<noteq> 0)"
  define s6 where "s6 = upd_ms scr (\<lambda>m. m\<lparr>atomic_modeset := (r = 0), kms_has_modifiers := has\<rparr>) (s5\<lparr>kst := k\<rparr>)"
  have 6: "startup_ok G cf (mss s6 scr)"
  proof -
    have "r = 0 \<Longrightarrow> opt_atomic cf = Some True"
      using k by (cases "opt_atomic cf") (auto simp: xf86ReturnOptValBool_def split: if_splits)
    moreover have "acceleration_ok cf prime (mss s6 scr)"
      using 4 by (simp add: s6_def s5_def upd_ms_def acceleration_ok_def flip: s4_def)
    moreover have "scrn_capabilities (mss s6 scr) = prime_capabilities prime (ms_glamor (mss s4 scr)) n v"
      "ms_glamor (mss s6 scr) = ms_glamor (mss s4 scr)" "atomic_modeset (mss s6 scr) = (r = 0)"
      by (simp_all add: s6_def s5_def upd_ms_def)
    ultimately show ?thesis
      using prime_capabilities_ok [of prime "ms_glamor (mss s4 scr)" n v]
      unfolding startup_ok_def c fst_conv snd_conv prime_def [symmetric] Let_def by auto
  qed
  have "configure_screen K C G cf scr n S = (if \<not> load_ok cf ''fb'' then (False, S\<lparr>kms_drv := s4\<rparr>)
      else case drmmode_pre_init K C G scr (S\<lparr>kms_drv := s6\<rparr>) of
        (ok, S) \<Rightarrow> (ok \<and> gamma_ok cf \<and> (screen_is_gpu C \<and> n = 0 \<or> scrn_modes cf S), S))"
    unfolding configure_screen_def Let_def s1_def [symmetric] a prod.case s3_def [symmetric] c prime_def [symmetric]
      s4_def [symmetric] s5_def [symmetric] k has_def [symmetric] s6_def [symmetric] ..
  with assms(4) have "T = snd (drmmode_pre_init K C G scr (S\<lparr>kms_drv := s6\<rparr>))"
    by (auto split: if_splits prod.splits)
  then have "choices (mss (kms_drv T) scr) = choices (mss s6 scr)"
    using pre_init_choices [OF assms(1)] by (metis kms.select_convs(1) kms.surjective kms.update_convs(1))
  from startup_ok_choices [OF this] 6 show ?thesis by blast
qed


section \<open>Example\<close>

text \<open>Two screens on one device with two CRTCs and two connectors; each takes one of both.\<close>

definition shared_device :: "nat \<Rightarrow> prop_log connectors" where
  "shared_device q = two_connectors\<lparr>entity_shared := True, is_secondary := (q = 1),
     drmModeGetResources := (\<lambda>k. (Some \<lparr>mr_connectors = [40, 41], mr_encoders = [20], mr_crtcs = [30, 31]\<rparr>, k))\<rparr>"

definition two_screens :: "prop_log start_server" where
  "two_screens = \<lparr>drmGetCap = (\<lambda>c. (0, 1)), drmSetClientCap_atomic = (\<lambda>k. (0, k)),
     xf86CrtcCreate = (\<lambda>scr s. (Some (Suc (sum_list (config (mss s 0)) + sum_list (config (mss s 1)))), kst s)),
     drmModeGetCrtc = (\<lambda>c k. (Some c, k)), crtc_properties = (\<lambda>c. Some []), get_plane = (\<lambda>p. None),
     plane_properties = (\<lambda>p. None), format_blob_of = (\<lambda>b. None), blob_realloc_fails = None, plane_list = None,
     xf86InitialConfiguration = (\<lambda>scr S. S)\<rparr>"

definition blank_kms :: "prop_log kms" where
  "blank_kms = \<lparr>kms_drv = idle_drv [], kms_exts = []\<rparr>"

lemma two_screens_env: "start_env two_screens shared_device [30, 31] (set [0, 1])"
proof -
  have "Suc (sum_list xs + sum_list ys) \<notin> set xs \<union> set ys" for xs ys :: "nat list"
    using member_le_sum_list [of "Suc (sum_list xs + sum_list ys)" xs] member_le_sum_list [of "Suc (sum_list xs + sum_list ys)" ys]
    by auto
  then show ?thesis
    by (auto simp: start_env_def crtc_env_def two_screens_def shared_device_def two_connectors_def)
qed

lemma crtcs_handed_out_witness:
  "let T = start_screens log_kernel shared_device two_screens [0, 1] blank_kms
   in crtc_ids 0 T = [30] \<and> crtc_ids 1 T = [31] \<and> set (crtc_ids 0 T) \<inter> set (crtc_ids 1 T) = {}"
proof -
  let ?T = "start_screens log_kernel shared_device two_screens [0, 1] blank_kms"
  have "crtc_ids 0 ?T = [30] \<and> crtc_ids 1 ?T = [31]" by code_simp
  moreover have "\<forall>q \<in> set [0, 1]. config (mss (kms_drv blank_kms) q) = []"
    by (simp add: blank_kms_def idle_drv_def idle_drm_def drm.extend_def zero_ms_def)
  from crtcs_handed_out_once [OF two_screens_env this refl, of 0]
  have "set (crtc_ids 0 ?T) \<inter> set (crtc_ids 1 ?T) = {}" by simp
  ultimately show ?thesis by (simp add: Let_def)
qed

lemma pre_init_accepts:
  assumes "drmGetCap G ''DUMB_BUFFER'' = (0, 1)" and "\<forall>k. fst (drmModeGetResources C k) \<noteq> None"
  shows "fst (drmmode_pre_init K C G scr S)"
  using assms by (auto simp: drmmode_pre_init_def Let_def case_prod_beta split: option.split) 

text \<open>
  A device with atomic mode setting and two planes that both CRTCs can use, with the screen for
  itself.
\<close>

definition two_planes :: "prop_log start_server" where
  "two_planes = two_screens\<lparr>
     get_plane := (\<lambda>p. Some \<lparr>pl_id = p, pl_possible_crtcs = 3, pl_formats = []\<rparr>), plane_properties := (\<lambda>p. Some [(9, 1)]),
     plane_list := Some [50, 51]\<rparr>"

definition plane_type :: connector_prop where
  "plane_type = \<lparr>cp_id = 9, cp_name = ''type'', cp_flags = 8, cp_values = [], cp_enums = [(''Overlay'', 0), (''Primary'', 1)]\<rparr>"

definition atomic_device :: "prop_log connectors" where
  "atomic_device = two_connectors\<lparr>drmModeGetProperty := (\<lambda>p. if p = 9 then Some plane_type else None),
     drmModeGetResources := (\<lambda>k. (Some \<lparr>mr_connectors = [], mr_encoders = [20], mr_crtcs = [30, 31]\<rparr>, k))\<rparr>"

definition atomic_kms :: "prop_log kms" where
  "atomic_kms = on_ms 0 (\<lambda>m. m\<lparr>atomic_modeset := True\<rparr>) blank_kms"

lemma screen_planes_witness:
  "let T = snd (drmmode_pre_init log_kernel atomic_device two_planes 0 atomic_kms); ps = config (mss (kms_drv T) 0)
   in map (\<lambda>p. plane_id (crtcs (kms_drv T) p)) ps = [50, 51] \<and>
      (\<forall>p \<in> set ps. \<forall>q \<in> set ps. p \<noteq> q \<longrightarrow> plane_id (crtcs (kms_drv T) p) \<noteq> 0 \<longrightarrow>
         plane_id (crtcs (kms_drv T) p) \<noteq> plane_id (crtcs (kms_drv T) q))"
proof -
  let ?T = "snd (drmmode_pre_init log_kernel atomic_device two_planes 0 atomic_kms)"
  have v: "map (\<lambda>p. plane_id (crtcs (kms_drv ?T) p)) (config (mss (kms_drv ?T) 0)) = [50, 51]" by code_simp
  have "fst (drmmode_pre_init log_kernel atomic_device two_planes 0 atomic_kms)"
    by (rule pre_init_accepts) (simp_all add: two_planes_def two_screens_def atomic_device_def two_connectors_def)
  then have "drmmode_pre_init log_kernel atomic_device two_planes 0 atomic_kms = (True, ?T)" by (metis prod.collapse)
  moreover have "crtc_env two_planes {0}"
    using two_screens_env by (simp add: start_env_def crtc_env_def two_planes_def)
  moreover have "\<forall>S. planes_distinct 0 S \<longrightarrow> planes_distinct 0 (xf86InitialConfiguration two_planes 0 S)"
    by (simp add: two_planes_def two_screens_def)
  ultimately show ?thesis using v screen_planes_distinct unfolding Let_def by blast
qed

text \<open>
  The first of the two screens without any option, on a server without glamor: the shadow
  framebuffer is taken, and the screen can show what others render.
\<close>

definition plain_startup :: "prop_log startup" where
  "plain_startup = \<lparr>num_entities = 1, probe_detect = False, opt_accel_method = None, opt_exa_type = None,
     opt_shadow = None, opt_double_shadow = None, opt_sw_cursor = None, opt_pageflip = None, opt_atomic = None,
     driver_name = ''loongson-drm'', min_size = None, stack_bpp = 32, set_depth_bpp = (\<lambda>d b. Some (24, 32)),
     visual_ok = True, load_ok = (\<lambda>n. n = ''fb''), egl_init_ok = False, gamma_ok = True, scrn_modes = (\<lambda>S. True)\<rparr>"

definition first_start :: "prop_log start" where
  "first_start = \<lparr>st_fds = \<lparr>ent = zero_entity, fds = [0, 1, 2], ms_fd = (\<lambda>_. None), ms_fd_passed = (\<lambda>_. False)\<rparr>,
     st_kms = blank_kms, st_prim_done = False\<rparr>"


end
