(* ===== verification/First_Image.thy ===== *)
theory First_Image
  imports Screen_Cycle
begin

text \<open>
  What a screen shows first: the gamma tables made of the server's palette, and the contents of
  the console when the server starts without a background (\<^verbatim>\<open>src/src/drmmode_display.c\<close>
  and \<^verbatim>\<open>CreateWindow_oneshot\<close> of \<^verbatim>\<open>src/src/driver.c\<close>).
\<close>

section \<open>Gamma tables\<close>

text \<open>The server's \<^verbatim>\<open>LOCO\<close>, and the three tables of 256 entries.\<close>

record loco =
  red :: u16
  green :: u16
  blue :: u16

record luts =
  lut_r :: "u16 list"
  lut_g :: "u16 list"
  lut_b :: "u16 list"

text \<open>
  Writing one value to a range of entries; \<open>None\<close> when an entry is not in the table.
\<close>

definition set_block :: "nat \<Rightarrow> nat \<Rightarrow> u16 \<Rightarrow> u16 list \<Rightarrow> u16 list option" where
  "set_block a n v lut =
     (if a + n \<le> length lut then Some (fold (\<lambda>k l. l[k := v]) [a..<a + n] lut) else None)"

definition set_luts :: "nat \<Rightarrow> nat \<Rightarrow> bool \<Rightarrow> nat \<Rightarrow> nat \<Rightarrow> loco \<Rightarrow> luts \<Rightarrow> luts option" where
  "set_luts a n with_rb ga gn c l =
     (case (if with_rb then set_block a n (push_bit 6 (red c)) (lut_r l) else Some (lut_r l)) of
        None \<Rightarrow> None
      | Some r \<Rightarrow>
          (case (if with_rb then set_block a n (push_bit 6 (blue c)) (lut_b l) else Some (lut_b l)) of
             None \<Rightarrow> None
           | Some b \<Rightarrow> map_option (\<lambda>g. \<lparr>lut_r = r, lut_g = g, lut_b = b\<rparr>) (set_block ga gn (push_bit 6 (green c)) (lut_g l))))"

text \<open>The \<open>i\<close>-th color of a call. Depth 16 has 32 levels of red and blue and 64 of green.\<close>

definition load_color :: "nat \<Rightarrow> loco list \<Rightarrow> nat \<times> nat \<Rightarrow> luts option \<Rightarrow> luts option" where
  "load_color dep colors = (\<lambda>(i, index) lo.
     case lo of
       None \<Rightarrow> None
     | Some l \<Rightarrow>
         if index \<ge> length colors then None
         else
           let c = colors ! index in
           if dep = 15 then set_luts (index * 8) 8 True (index * 8) 8 c l
           else if dep = 16 then set_luts (index * 8) 8 (i \<le> 31) (index * 4) 4 c l
           else set_luts index 1 True index 1 c l)"

definition load_luts :: "nat \<Rightarrow> nat list \<Rightarrow> loco list \<Rightarrow> luts \<Rightarrow> luts option" where
  "load_luts dep indices colors l = fold (load_color dep colors) (enumerate 0 indices) (Some l)"

text \<open>
  The tables of the CRTC records that the loop starts with are never written by the driver; they
  are as \<^verbatim>\<open>xnfcalloc\<close> leaves them. A CRTC without a RandR object gets the tables through the
  driver's own hook.
\<close>

definition zero_luts :: luts where
  "zero_luts = \<lparr>lut_r = replicate 256 0, lut_g = replicate 256 0, lut_b = replicate 256 0\<rparr>"

record 'k palette_server =
  has_randr_crtc :: "nat \<Rightarrow> bool"
  RRCrtcGammaSet :: "nat \<Rightarrow> luts \<Rightarrow> 'k \<Rightarrow> 'k"
  gamma_set :: "nat \<Rightarrow> luts \<Rightarrow> 'k \<Rightarrow> 'k"

definition drmmode_load_palette ::
  "'k palette_server \<Rightarrow> nat \<Rightarrow> nat list \<Rightarrow> loco list \<Rightarrow> 'k drv \<Rightarrow> 'k drv" where
  "drmmode_load_palette P scr indices colors s =
     fold (\<lambda>p s.
         case load_luts (unat (depth (mss s scr))) indices colors zero_luts of
           None \<Rightarrow> misc_fault s
         | Some l \<Rightarrow>
             if has_randr_crtc P p then s\<lparr>kst := RRCrtcGammaSet P p l (kst s)\<rparr> else s\<lparr>kst := gamma_set P p l (kst s)\<rparr>)
       (config (mss s scr)) s"

section \<open>A whole palette\<close>

text \<open>Tables given by a function of the entry.\<close>

abbreviation table :: "(nat \<Rightarrow> u16) \<Rightarrow> u16 list" where
  "table f \<equiv> map f [0..<256]"

lemma set_block_table:
  assumes "a + n \<le> 256"
  shows "set_block a n v (table f) = Some (table (\<lambda>k. if a \<le> k \<and> k < a + n then v else f k))"
proof -
  have "fold (\<lambda>k l. l[k := v]) [a..<a + m] (table f) = table (\<lambda>k. if a \<le> k \<and> k < a + m then v else f k)" if "m \<le> n" for m
    using that
  proof (induction m)
    case 0
    then show ?case by (auto intro: map_cong)
  next
    case (Suc m)
    then have "fold (\<lambda>k l. l[k := v]) [a..<a + Suc m] (table f) =
        (table (\<lambda>k. if a \<le> k \<and> k < a + m then v else f k))[a + m := v]" by simp
    also have "\<dots> = table (\<lambda>k. if a \<le> k \<and> k < a + Suc m then v else f k)"
      using Suc.prems assms by (intro nth_equalityI) (auto simp: nth_list_update)
    finally show ?case .
  qed
  from this [of n] assms show ?thesis by (simp add: set_block_def)
qed

text \<open>
  The tables after the colors \<open>0\<close> to \<open>n - 1\<close>: each color of a component with
  \<open>levels\<close> levels fills the entries of one level.
\<close>

definition ramp :: "(loco \<Rightarrow> u16) \<Rightarrow> nat \<Rightarrow> loco list \<Rightarrow> nat \<Rightarrow> u16 list" where
  "ramp part width colors n = table (\<lambda>k. if k div width < n then push_bit 6 (part (colors ! (k div width))) else 0)"

lemma set_block_ramp:
  assumes "0 < width" and "n * width + width \<le> 256"
  shows "set_block (n * width) width (push_bit 6 (part (colors ! n))) (ramp part width colors n) =
    Some (ramp part width colors (Suc n))"
proof -
  have "n * width \<le> k \<and> k < n * width + width \<longleftrightarrow> k div width = n" for k
    using assms(1) by (metis add.commute div_nat_eqI div_times_less_eq_dividend dividend_less_div_times mult.commute mult_Suc)
  then show ?thesis
    using set_block_table [OF assms(2)] by (auto simp: ramp_def less_Suc_eq intro!: map_cong)
qed

definition palette_luts :: "nat \<Rightarrow> loco list \<Rightarrow> nat \<Rightarrow> luts" where
  "palette_luts dep colors n =
     (let rb = (if dep = 15 \<or> dep = 16 then 8 else 1); g = (if dep = 15 then 8 else if dep = 16 then 4 else 1);
          m = (if dep = 16 then min n 32 else n)
      in \<lparr>lut_r = ramp red rb colors m, lut_g = ramp green g colors n, lut_b = ramp blue rb colors m\<rparr>)"

definition palette_size :: "nat \<Rightarrow> nat" where
  "palette_size dep = (if dep = 15 then 32 else if dep = 16 then 64 else 256)"

lemma load_color_next:
  assumes "n < palette_size dep" and "n < length colors"
  shows "load_color dep colors (n, n) (Some (palette_luts dep colors n)) = Some (palette_luts dep colors (Suc n))"
proof -
  have b: "set_block (n * w) w (push_bit 6 (part (colors ! n))) (ramp part w colors n) = Some (ramp part w colors (Suc n))"
    if "0 < w" "n * w + w \<le> 256" for part w using set_block_ramp [OF that] .
  show ?thesis
  proof (cases "dep = 16 \<and> 31 < n")
    case True
    then show ?thesis
      using assms b [of 4 green] by (simp add: load_color_def set_luts_def palette_luts_def palette_size_def Let_def)
  next
    case False
    then have "n < (if dep = 15 \<or> dep = 16 then 32 else 256)" using assms(1) by (auto simp: palette_size_def)
    then show ?thesis
      using assms False b [of 8 red] b [of 8 blue] b [of 8 green] b [of 4 green] b [of 1 red] b [of 1 blue] b [of 1 green]
      by (auto simp: load_color_def set_luts_def palette_luts_def Let_def min_def split: if_splits)
  qed
qed

lemma palette_start: "palette_luts dep colors 0 = zero_luts"
  by (simp add: palette_luts_def zero_luts_def ramp_def Let_def map_replicate_const)

lemma load_luts_whole:
  "n \<le> palette_size dep \<Longrightarrow> n \<le> length colors \<Longrightarrow> load_luts dep [0..<n] colors zero_luts = Some (palette_luts dep colors n)"
proof (induction n)
  case 0
  then show ?case by (simp add: load_luts_def palette_start)
next
  case (Suc n)
  then show ?case by (simp add: load_luts_def enumerate_append_eq enumerate_eq_zip load_color_next)
qed

text \<open>
  C40. Loading a whole palette. No color is written outside the tables, at any depth, and every
  CRTC of the screen gets tables in which each entry holds the color of its level: eight entries
  for one of 32 levels and four for one of 64.
\<close>

theorem whole_palette_loaded:
  assumes "dep = unat (depth (mss s scr))" and "n \<le> palette_size dep" and "n \<le> length colors"
  shows "drmmode_load_palette P scr [0..<n] colors s =
    s\<lparr>kst := fold (\<lambda>p. (if has_randr_crtc P p then RRCrtcGammaSet P p else gamma_set P p) (palette_luts dep colors n))
      (config (mss s scr)) (kst s)\<rparr>"
proof -
  let ?l = "palette_luts dep colors n"
  have "fold (\<lambda>p s.
         case load_luts (unat (depth (mss s scr))) [0..<n] colors zero_luts of
           None \<Rightarrow> misc_fault s
         | Some l \<Rightarrow>
             if has_randr_crtc P p then s\<lparr>kst := RRCrtcGammaSet P p l (kst s)\<rparr> else s\<lparr>kst := gamma_set P p l (kst s)\<rparr>) ps t =
      t\<lparr>kst := fold (\<lambda>p. (if has_randr_crtc P p then RRCrtcGammaSet P p else gamma_set P p) ?l) ps (kst t)\<rparr>"
    if "mss t = mss s" for ps t
    using that
  proof (induction ps arbitrary: t)
    case Nil
    then show ?case by simp
  next
    case (Cons p ps)
    then show ?case using load_luts_whole [OF assms(2,3)] by (simp add: flip: assms(1))
  qed
  from this [of s "config (mss s scr)"] show ?thesis by (simp add: drmmode_load_palette_def)
qed

section \<open>The contents of the console\<close>

text \<open>A framebuffer as \<^verbatim>\<open>drmModeGetFB\<close> describes it.\<close>

record fb_info =
  fi_width :: int
  fi_height :: int
  fi_pitch :: int
  fi_bpp :: int
  fi_depth :: int
  fi_handle :: u32

record 'k console =
  crtc_buffer_id :: "nat \<Rightarrow> u32"
  drmModeGetFB :: "u32 \<Rightarrow> 'k \<Rightarrow> fb_info option \<times> 'k"
  textured_pixmap :: "nat \<Rightarrow> u32 \<Rightarrow> int \<Rightarrow> 'k \<Rightarrow> bool \<times> 'k"
  CopyArea :: "nat \<Rightarrow> nat \<Rightarrow> int \<Rightarrow> int \<Rightarrow> 'k \<Rightarrow> 'k"

text \<open>\<open>pixmap\<close> is \<^verbatim>\<open>drmmode->fbcon_pixmap\<close>.\<close>

definition create_pixmap_for_fbcon ::
  "'k env \<Rightarrow> 'k console \<Rightarrow> nat \<Rightarrow> nat option \<Rightarrow> u32 \<Rightarrow> 'k drv \<Rightarrow> nat option \<times> 'k drv" where
  "create_pixmap_for_fbcon E Q scr pixmap fbcon_id s =
     (if pixmap \<noteq> None then (pixmap, s)
      else case drmModeGetFB Q fbcon_id (kst s) of
        (fbcon, k) \<Rightarrow>
          let s = s\<lparr>kst := k\<rparr>; m = mss s scr in
          (case fbcon of
             None \<Rightarrow> (None, s)
           | Some f \<Rightarrow>
               if fi_depth f \<noteq> uint (depth m) \<or> fi_width f \<noteq> virtualX m \<or> fi_height f \<noteq> virtualY m then (None, s)
               else case drmmode_create_pixmap_header E scr (fi_width f) (fi_height f) (fi_depth f) (fi_bpp f) (fi_pitch f) False s of
                 (None, s) \<Rightarrow> (None, s)
               | (Some px, s) \<Rightarrow>
                   (case textured_pixmap Q px (fi_handle f) (fi_pitch f) (kst s) of
                      (ok, k) \<Rightarrow>
                        if ok then (Some px, s\<lparr>kst := k\<rparr>) else (None, s\<lparr>kst := DestroyPixmap E px k\<rparr>))))"

text \<open>
  The last framebuffer a CRTC showed when the driver started is copied to the screen, unless it
  is the screen's own.
\<close>

definition fbcon_of :: "'k console \<Rightarrow> nat list \<Rightarrow> u32" where
  "fbcon_of Q ps = fold (\<lambda>p fb. if crtc_buffer_id Q p \<noteq> 0 then crtc_buffer_id Q p else fb) ps 0"

definition drmmode_copy_fb :: "'k env \<Rightarrow> 'k console \<Rightarrow> nat \<Rightarrow> nat option \<Rightarrow> 'k drv \<Rightarrow> nat option \<times> 'k drv" where
  "drmmode_copy_fb E Q scr pixmap s =
     (let fbcon_id = fbcon_of Q (config (mss s scr)) in
      if fbcon_id = 0 then (pixmap, s)
      else if fbcon_id = fb_id (mss s scr) then (pixmap, s)
      else case create_pixmap_for_fbcon E Q scr pixmap fbcon_id s of
        (None, s) \<Rightarrow> (None, s)
      | (Some src, s) \<Rightarrow>
          let m = mss s scr;
              k = CopyArea Q src (screen_pixmap (kernel_of E) scr) (virtualX m) (virtualY m) (kst s)
          in (None, s\<lparr>kst := DestroyPixmap E src k\<rparr>))"

definition CreateWindow_oneshot ::
  "'k env \<Rightarrow> 'k screen_server \<Rightarrow> 'k console \<Rightarrow> nat \<Rightarrow> nat option \<Rightarrow> 'k drv \<Rightarrow> bool \<times> nat option \<times> 'k drv" where
  "CreateWindow_oneshot E V Q scr pixmap s =
     (case wrapped_CreateWindow V scr (kst s) of
        (ok, k) \<Rightarrow>
          let s = s\<lparr>kst := k\<rparr> in
          if ok then (True, drmmode_copy_fb E Q scr pixmap s) else (False, pixmap, s))"

section \<open>Examples\<close>

text \<open>
  The test for the first 32 colors is on the position in the call, not on the color: a call for
  color 40 alone writes red and blue outside their tables.
\<close>

lemma partial_palette_overruns: "load_luts 16 [40] (replicate 64 \<lparr>red = 1, green = 1, blue = 1\<rparr>) zero_luts = None"
  by (simp add: load_luts_def load_color_def set_luts_def set_block_def zero_luts_def)

text \<open>A screen of depth 16 with one CRTC, and a server that keeps the tables it is given.\<close>

definition keep_luts :: "luts list palette_server" where
  "keep_luts = \<lparr>has_randr_crtc = (\<lambda>p. True), RRCrtcGammaSet = (\<lambda>p l k. l # k), gamma_set = (\<lambda>p l k. k)\<rparr>"

definition gray :: "nat \<Rightarrow> loco" where
  "gray n = \<lparr>red = of_nat n, green = of_nat n, blue = of_nat n\<rparr>"

lemma whole_palette_witness:
  "let s = (idle_drv [])\<lparr>mss := (\<lambda>_. zero_ms\<lparr>config := [3], depth := 16\<rparr>)\<rparr>
   in \<exists>l. kst (drmmode_load_palette keep_luts 0 [0..<64] (map gray [0..<64]) s) = [l] \<and>
        lut_r l ! 9 = 64 \<and> lut_g l ! 9 = 128 \<and> lut_g l ! 255 = 63 * 64"
proof -
  let ?s = "(idle_drv [])\<lparr>mss := (\<lambda>_. zero_ms\<lparr>config := [3], depth := 16\<rparr>)\<rparr>"
  have "drmmode_load_palette keep_luts 0 [0..<64] (map gray [0..<64]) ?s =
      ?s\<lparr>kst := [palette_luts 16 (map gray [0..<64]) 64]\<rparr>"
    using whole_palette_loaded [of 16 ?s 0 64 "map gray [0..<64]" keep_luts]
    by (simp add: palette_size_def keep_luts_def idle_drv_def idle_drm_def drm.extend_def)
  moreover have "lut_r (palette_luts 16 (map gray [0..<64]) 64) ! 9 = 64 \<and> lut_g (palette_luts 16 (map gray [0..<64]) 64) ! 9 = 128 \<and>
      lut_g (palette_luts 16 (map gray [0..<64]) 64) ! 255 = 63 * 64"
    by (simp add: palette_luts_def ramp_def gray_def)
  ultimately show ?thesis by (simp add: Let_def)
qed

end
