(* ===== verification/Output_Modes.thy ===== *)
theory Output_Modes
  imports Outputs Complex_Main
begin

text \<open>
  The modes of an output (\<^verbatim>\<open>src/src/drmmode_display.c\<close>): those of its connector and, for a
  panel that can scale, the server's default modes that fit.
\<close>

section \<open>The server\<close>

text \<open>
  Refresh rates are numbers: \<open>xf86ModeVRefresh\<close> is the server's, \<open>to_float\<close> the rounding of a
  double to the float the driver keeps. \<open>size_ok\<close> tells which modes
  \<^verbatim>\<open>xf86ValidateModesSize\<close> leaves valid for a width and height. An EDID is interpreted as a
  monitor, of which only \<^verbatim>\<open>GTF_SUPPORTED\<close> matters here.
\<close>

record 'k mode_server =
  xf86ModeVRefresh :: "display_mode \<Rightarrow> rat"
  to_float :: "rat \<Rightarrow> rat"
  xf86GetDefaultModes :: "display_mode list"
  size_ok :: "int \<Rightarrow> int \<Rightarrow> display_mode \<Rightarrow> bool"
  xf86InterpretEDID :: "string \<Rightarrow> bool option"
  xf86OutputSetEDID :: "nat \<Rightarrow> bool option \<Rightarrow> 'k \<Rightarrow> 'k"

section \<open>Modes for a panel that scales\<close>

definition is_preferred :: "display_mode \<Rightarrow> bool" where
  "is_preferred m \<longleftrightarrow> m_type m AND M_T_PREFERRED \<noteq> 0"

text \<open>The loop over the connector's modes: the preferred one (the last), and the largest values.\<close>

fun largest ::
  "'k mode_server \<Rightarrow> display_mode list \<Rightarrow> display_mode option \<times> int \<times> int \<times> rat \<Rightarrow> display_mode option \<times> int \<times> int \<times> rat" where
  "largest M [] acc = acc"
| "largest M (m # ms) (preferred, max_x, max_y, max_vrefresh) =
     largest M ms (if is_preferred m then Some m else preferred, max max_x (m_HDisplay m), max max_y (m_VDisplay m),
       to_float M (max max_vrefresh (xf86ModeVRefresh M m)))"

text \<open>Whether a default mode survives; \<^verbatim>\<open>SYNC_TOLERANCE\<close> is one percent.\<close>

definition gtf_mode_ok ::
  "'k mode_server \<Rightarrow> display_mode option \<Rightarrow> int \<Rightarrow> int \<Rightarrow> rat \<Rightarrow> display_mode \<Rightarrow> bool" where
  "gtf_mode_ok M preferred max_x max_y max_vrefresh i \<longleftrightarrow>
     size_ok M max_x max_y i \<and> \<not> xf86ModeVRefresh M i > max_vrefresh \<and>
     (case preferred of
        None \<Rightarrow> True
      | Some p \<Rightarrow> \<not> (m_HDisplay i \<ge> m_HDisplay p \<and> m_VDisplay i \<ge> m_VDisplay p \<and>
                     xf86ModeVRefresh M i \<ge> xf86ModeVRefresh M p))"

definition drmmode_output_add_gtf_modes ::
  "'k connectors \<Rightarrow> 'k mode_server \<Rightarrow> connector \<Rightarrow> bool option \<Rightarrow> display_mode list \<Rightarrow> display_mode list" where
  "drmmode_output_add_gtf_modes C M koutput mon Modes =
     (if mon = Some True then Modes
      else if \<not> has_panel_fitter C koutput then Modes
      else case largest M Modes (None, 0, 0, 0) of
        (preferred, max_x, max_y, max_vrefresh) \<Rightarrow>
          let max_vrefresh = to_float M (max max_vrefresh 60);
              max_vrefresh = to_float M (max_vrefresh * (1 + 1 / 100))
          in Modes @ filter (gtf_mode_ok M preferred max_x max_y max_vrefresh) (xf86GetDefaultModes M))"

definition drmmode_output_get_modes ::
  "'k connectors \<Rightarrow> 'k mode_server \<Rightarrow> nat \<Rightarrow> 'k kms \<Rightarrow> display_mode list \<times> 'k kms" where
  "drmmode_output_get_modes C M i S =
     (case ox_connector (kms_exts S ! i) of
        None \<Rightarrow> ([], S)
      | Some koutput \<Rightarrow>
          let edid = koutput_get_prop_blob C koutput ''EDID'';
              S = upd_ext i (\<lambda>x. x\<lparr>ox_edid_blob := edid\<rparr>) S;
              mon = Option.bind edid (xf86InterpretEDID M);
              S = drmmode_output_attach_tile C i (on_kernel (xf86OutputSetEDID M i mon) S)
          in (drmmode_output_add_gtf_modes C M koutput mon (map drmmode_ConvertFromKMode (cn_modes koutput)), S))"

section \<open>Freeing an output\<close>

text \<open>
  The objects that are freed with an output, in order. As many encoders are freed as the
  connector has now; \<open>None\<close> when that is more than the array holds.
\<close>

datatype freed_object = FREE_BLOB string | FREE_PROPERTY u32 | FREE_ATOMS u32 | FREE_ENCODER u32 | FREE_CONNECTOR u32

definition free_blob :: "string option \<Rightarrow> freed_object list" where
  "free_blob b = (case b of None \<Rightarrow> [] | Some d \<Rightarrow> [FREE_BLOB d])"

definition drmmode_output_destroy :: "connector_ext \<Rightarrow> freed_object list option" where
  "drmmode_output_destroy x =
     (let objs = free_blob (ox_edid_blob x) @ free_blob (ox_tile_blob x) @
            concat (map (\<lambda>q. FREE_PROPERTY (cp_id (op_mode_prop q)) #
                       (if op_atoms q = None then [] else [FREE_ATOMS (cp_id (op_mode_prop q))])) (ox_props x))
      in case ox_connector x of
           None \<Rightarrow> Some objs
         | Some koutput \<Rightarrow>
             let n = length (cn_encoders koutput) in
             if n \<le> length (ox_encoders x)
             then Some (objs @ map (\<lambda>e. FREE_ENCODER (en_id e)) (take n (ox_encoders x)) @ [FREE_CONNECTOR (cn_id koutput)])
             else None)"

text \<open>
  An output whose connector is the one it was made for gives back every encoder; one whose
  connector is gone keeps them; one that was hooked to a connector with more encoders reads past
  them.
\<close>

lemma destroyed_encoders:
  assumes "ox_connector x = Some koutput" and "length (ox_encoders x) = length (cn_encoders koutput)"
  shows "\<exists>objs. drmmode_output_destroy x =
    Some (objs @ map (\<lambda>e. FREE_ENCODER (en_id e)) (ox_encoders x) @ [FREE_CONNECTOR (cn_id koutput)])"
  using assms by (auto simp: drmmode_output_destroy_def Let_def)

lemma gone_connector_keeps_encoders:
  assumes "ox_connector x = None" and "drmmode_output_destroy x = Some objs"
  shows "FREE_ENCODER e \<notin> set objs"
  using assms by (auto simp: drmmode_output_destroy_def free_blob_def Let_def split: option.splits if_splits)

section \<open>What is added fits the panel\<close>

text \<open>The mode the connector prefers, and its largest width and height.\<close>

definition preferred_of :: "display_mode list \<Rightarrow> display_mode option" where
  "preferred_of ms = find is_preferred (rev ms)"

definition widest :: "display_mode list \<Rightarrow> int" where
  "widest ms = fold max (map m_HDisplay ms) 0"

definition tallest :: "display_mode list \<Rightarrow> int" where
  "tallest ms = fold max (map m_VDisplay ms) 0"

lemma largest_snoc:
  "largest M (ms @ [m]) acc = (case largest M ms acc of (p, x, y, v) \<Rightarrow>
     (if is_preferred m then Some m else p, max x (m_HDisplay m), max y (m_VDisplay m), to_float M (max v (xf86ModeVRefresh M m))))"
proof (induction ms arbitrary: acc)
  case Nil
  then show ?case by (cases acc) simp
next
  case (Cons k ms)
  then show ?case by (cases acc) simp
qed

lemma largest_result:
  "largest M ms (None, 0, 0, 0) = (p, x, y, v) \<Longrightarrow> p = preferred_of ms \<and> x = widest ms \<and> y = tallest ms"
proof (induction ms arbitrary: p x y v rule: rev_induct)
  case Nil
  then show ?case by (simp add: preferred_of_def widest_def tallest_def)
next
  case (snoc m ms)
  obtain p1 x1 y1 v1 where l: "largest M ms (None, 0, 0, 0) = (p1, x1, y1, v1)" by (metis prod.collapse)
  from snoc.IH [OF this] snoc.prems l show ?case
    by (auto simp: largest_snoc preferred_of_def widest_def tallest_def max.commute)
qed

text \<open>
  The modes of an output are the connector's, followed by default modes of the server, none larger
  than the connector's largest; when the connector prefers a mode, none of those is both as large
  and as fast. A monitor that computes modes itself, or a panel that cannot scale, gets none.
\<close>

lemma added_modes_fit:
  assumes "ox_connector (kms_exts S ! i) = Some koutput"
    and "\<forall>w h m. size_ok M w h m \<longrightarrow> m_HDisplay m \<le> w \<and> m_VDisplay m \<le> h"
    and "ms = map drmmode_ConvertFromKMode (cn_modes koutput)"
  shows "\<exists>added. fst (drmmode_output_get_modes C M i S) = ms @ added \<and> set added \<subseteq> set (xf86GetDefaultModes M) \<and>
    (\<forall>m \<in> set added. has_panel_fitter C koutput \<and> m_HDisplay m \<le> widest ms \<and> m_VDisplay m \<le> tallest ms \<and>
       (\<forall>p. preferred_of ms = Some p \<longrightarrow>
          m_HDisplay m < m_HDisplay p \<or> m_VDisplay m < m_VDisplay p \<or> xf86ModeVRefresh M m < xf86ModeVRefresh M p))"
proof -
  define mon where "mon = Option.bind (koutput_get_prop_blob C koutput ''EDID'') (xf86InterpretEDID M)"
  have g: "fst (drmmode_output_get_modes C M i S) = drmmode_output_add_gtf_modes C M koutput mon ms"
    using assms(1,3) by (simp add: drmmode_output_get_modes_def Let_def mon_def)
  show ?thesis
  proof (cases "mon = Some True \<or> \<not> has_panel_fitter C koutput")
    case True
    then show ?thesis by (intro exI [of _ "[]"]) (auto simp: g drmmode_output_add_gtf_modes_def)
  next
    case False
    obtain p x y v where l: "largest M ms (None, 0, 0, 0) = (p, x, y, v)" by (metis prod.collapse)
    note b = largest_result [OF l]
    define v' where "v' = to_float M (to_float M (max v 60) * (1 + 1 / 100))"
    have "fst (drmmode_output_get_modes C M i S) = ms @ filter (gtf_mode_ok M p x y v') (xf86GetDefaultModes M)"
      using False l by (simp add: g drmmode_output_add_gtf_modes_def v'_def)
    then show ?thesis
      using False b assms(2) by (intro exI [of _ "filter (gtf_mode_ok M p x y v') (xf86GetDefaultModes M)"])
        (auto simp: gtf_mode_ok_def not_le)
  qed
qed

end
