(* ===== verification/Probe_Screens.thy ===== *)
theory Probe_Screens
  imports Entity_Fd
begin

text \<open>
  What the bus probes leave behind (\<^verbatim>\<open>src/src/loongson_probe.c\<close>): the screens of the server
  with their entity and the functions the driver hooks into them (\<^verbatim>\<open>LS_SetupScrnHooks\<close>), and
  the entities with their private and their flags. The device itself is asked by the functions of
  \<open>Entity_Fd\<close>.
\<close>

section \<open>Screens and entities\<close>

text \<open>
  A screen the server allocated: its driver, the functions the server calls it with, whether it is
  a GPU screen, its entity.
\<close>

datatype driver_function =
  PREINIT | SCREENINIT | SWITCHMODE | ADJUSTFRAME | ENTERVT | LEAVEVT | FREESCREEN | VALIDMODE

record scrn_info =
  si_driverVersion :: int
  si_driverName :: string
  si_name :: string
  si_Probe :: "(int \<Rightarrow> bool) option"
  si_PreInit :: "driver_function option"
  si_ScreenInit :: "driver_function option"
  si_SwitchMode :: "driver_function option"
  si_AdjustFrame :: "driver_function option"
  si_EnterVT :: "driver_function option"
  si_LeaveVT :: "driver_function option"
  si_FreeScreen :: "driver_function option"
  si_ValidMode :: "driver_function option"
  si_gpu :: bool
  si_entity :: "int option"

record probe_state =
  pr_fds :: "int list"
  pr_screens :: "scrn_info list"
  pr_private :: "int \<Rightarrow> entity option"
  pr_sharable :: "int \<Rightarrow> bool"
  pr_shared :: "int \<Rightarrow> bool"

text \<open>A screen as the server hands it out.\<close>

definition new_scrn :: "bool \<Rightarrow> int option \<Rightarrow> scrn_info" where
  "new_scrn gpu en =
     \<lparr>si_driverVersion = 0, si_driverName = [], si_name = [], si_Probe = None, si_PreInit = None,
      si_ScreenInit = None, si_SwitchMode = None, si_AdjustFrame = None, si_EnterVT = None, si_LeaveVT = None,
      si_FreeScreen = None, si_ValidMode = None, si_gpu = gpu, si_entity = en\<rparr>"

text \<open>The hooks go to the newest screen.\<close>

definition on_newest :: "(scrn_info \<Rightarrow> scrn_info) \<Rightarrow> probe_state \<Rightarrow> probe_state" where
  "on_newest f st = st\<lparr>pr_screens := butlast (pr_screens st) @ map f (drop (length (pr_screens st) - 1) (pr_screens st))\<rparr>"

definition LS_SetupScrnHooks :: "(int \<Rightarrow> bool) option \<Rightarrow> scrn_info \<Rightarrow> scrn_info" where
  "LS_SetupScrnHooks pFnProbe scrn =
     scrn\<lparr>si_driverVersion := 1, si_driverName := ''loongson'', si_name := ''loongson'',
       si_Probe := pFnProbe, si_PreInit := Some PREINIT, si_ScreenInit := Some SCREENINIT,
       si_SwitchMode := Some SWITCHMODE, si_AdjustFrame := Some ADJUSTFRAME, si_EnterVT := Some ENTERVT,
       si_LeaveVT := Some LEAVEVT, si_FreeScreen := Some FREESCREEN, si_ValidMode := Some VALIDMODE\<rparr>"

definition setup_entity :: "int \<Rightarrow> probe_state \<Rightarrow> probe_state" where
  "setup_entity n st = st\<lparr>pr_sharable := (pr_sharable st)(n := True), pr_private := (pr_private st)(n := LS_SetupEntity (pr_private st n))\<rparr>"

text \<open>
  \<open>config_ok\<close>: \<^verbatim>\<open>xf86ConfigPciEntity\<close> returned a screen for the entity. A device that is not
  the driver's leaves the screen without hooks.
\<close>

definition LS_PciProbe ::
  "fd_env \<Rightarrow> bool \<Rightarrow> bool \<Rightarrow> string option \<Rightarrow> int \<Rightarrow> pci_device \<Rightarrow> probe_state \<Rightarrow> bool \<times> probe_state" where
  "LS_PciProbe E mem config_ok kmsdev entity_num dev st =
     (if \<not> config_ok then (False, st)
      else
        let st = st\<lparr>pr_screens := pr_screens st @ [new_scrn False (Some entity_num)]\<rparr> in
        case probe_pci_hw E mem kmsdev dev (pr_fds st) of
          (ret, fs) \<Rightarrow>
            let st = st\<lparr>pr_fds := fs\<rparr> in
            if ret \<noteq> 0 then (True, setup_entity entity_num (on_newest (LS_SetupScrnHooks None) st)) else (False, st))"

definition LS_PlatformProbe ::
  "fd_env \<Rightarrow> bool \<Rightarrow> int option \<Rightarrow> string option \<Rightarrow> int \<Rightarrow> probe_state \<Rightarrow> bool \<times> probe_state" where
  "LS_PlatformProbe E gpu_screen server_fd path entity_num st =
     (case probe_hw E server_fd path (pr_fds st) of
        (ret, fs) \<Rightarrow>
          let st = st\<lparr>pr_fds := fs\<rparr> in
          if ret \<noteq> 0 then
            let st = st\<lparr>pr_screens := pr_screens st @ [new_scrn gpu_screen None]\<rparr>;
                st = (if pr_sharable st entity_num then st\<lparr>pr_shared := (pr_shared st)(entity_num := True)\<rparr> else st);
                st = on_newest (\<lambda>scrn. scrn\<lparr>si_entity := Some entity_num\<rparr>) st
            in (True, setup_entity entity_num (on_newest (LS_SetupScrnHooks None) st))
          else (False, st))"

section \<open>What a probe leaves\<close>

lemma on_newest_snoc [simp]: "pr_screens st = xs @ [x] \<Longrightarrow> on_newest f st = st\<lparr>pr_screens := xs @ [f x]\<rparr>"
  by (simp add: on_newest_def)

text \<open>
  A screen is taken by the driver exactly when the probe says so; it has then its functions, its
  entity has a private, one that was there is kept, and the other screens are as they were. The
  second screen of an entity makes it shared.
\<close>

lemma platform_probe_screens:
  assumes "LS_PlatformProbe E gpu server_fd path n st = (ok, st')"
  shows "pr_screens st' = pr_screens st @ (if ok then [LS_SetupScrnHooks None (new_scrn gpu (Some n))] else [])"
    and "ok \<Longrightarrow> pr_private st' n = Some (case pr_private st n of None \<Rightarrow> zero_entity | Some e \<Rightarrow> e)"
    and "m \<noteq> n \<Longrightarrow> pr_private st' m = pr_private st m"
    and "pr_shared st' m \<longleftrightarrow> pr_shared st m \<or> m = n \<and> ok \<and> pr_sharable st n"
  using assms
  by (auto simp: LS_PlatformProbe_def setup_entity_def LS_SetupScrnHooks_def new_scrn_def LS_SetupEntity_def on_newest_def Let_def
      split: prod.splits if_splits option.splits)

lemma pci_probe_screens:
  assumes "LS_PciProbe E mem config_ok kmsdev n dev st = (ok, st')"
  shows "pr_screens st' = pr_screens st @ (if config_ok then [(if ok then LS_SetupScrnHooks None else id) (new_scrn False (Some n))] else [])"
    and "ok \<Longrightarrow> pr_private st' n = Some (case pr_private st n of None \<Rightarrow> zero_entity | Some e \<Rightarrow> e)"
    and "m \<noteq> n \<Longrightarrow> pr_private st' m = pr_private st m"
  using assms
  by (auto simp: LS_PciProbe_def setup_entity_def LS_SetupScrnHooks_def new_scrn_def LS_SetupEntity_def on_newest_def Let_def
      split: prod.splits if_splits option.splits)

text \<open>Two probes of one entity, as for two heads of a device: the second shares it.\<close>

lemma second_probe_shares:
  assumes "LS_PlatformProbe E g1 fd1 p1 n st = (True, st1)" and "LS_PlatformProbe E g2 fd2 p2 n st1 = (True, st2)"
  shows "pr_shared st2 n" and "pr_private st2 n = pr_private st1 n"
proof -
  have "pr_sharable st1 n"
    using assms(1) by (auto simp: LS_PlatformProbe_def setup_entity_def Let_def split: prod.splits if_splits)
  then show "pr_shared st2 n" using platform_probe_screens(4) [OF assms(2)] by blast
  show "pr_private st2 n = pr_private st1 n"
    using platform_probe_screens(2) [OF assms(1)] platform_probe_screens(2) [OF assms(2)] by (simp split: option.splits)
qed

end
