(* ===== verification/Driver_Module.thy ===== *)
theory Driver_Module
  imports Dri2_Ext
begin

text \<open>
  What the driver declares to the server: its module (\<^verbatim>\<open>src/src/loongson_module.c\<close>) with
  the devices it takes, its options (\<^verbatim>\<open>src/src/loongson_options.c\<close>,
  \<^verbatim>\<open>src/src/loongson_debug.c\<close>), the symbols it loads (\<^verbatim>\<open>src/src/loongson_shadow.c\<close>,
  \<^verbatim>\<open>src/src/loongson_glamor.c\<close>), and the registration of a screen with DRI2 and DRI3
  (\<^verbatim>\<open>src/src/dri2.c\<close>, \<^verbatim>\<open>src/src/dri3.c\<close>).
\<close>

section \<open>The module\<close>

text \<open>
  The static variable of \<^verbatim>\<open>fnSetup\<close> and the drivers the server was given. The result is the
  returned pointer and, when it was written, the error.
\<close>

record module_state =
  setupDone :: bool
  xf86AddDriver :: "string list"

datatype load_error = LDR_ONCEONLY

definition fnSetup :: "bool \<Rightarrow> module_state \<Rightarrow> (nat option \<times> load_error option) \<times> module_state" where
  "fnSetup errmaj st =
     (if \<not> setupDone st
      then ((Some 1, None), st\<lparr>setupDone := True, xf86AddDriver := xf86AddDriver st @ [''loongson'']\<rparr>)
      else ((None, if errmaj then Some LDR_ONCEONLY else None), st))"

fun load_repeatedly :: "bool list \<Rightarrow> module_state \<Rightarrow> (nat option \<times> load_error option) list \<times> module_state" where
  "load_repeatedly [] st = ([], st)"
| "load_repeatedly (e # es) st =
     (case fnSetup e st of (r, st) \<Rightarrow> case load_repeatedly es st of (rs, st) \<Rightarrow> (r # rs, st))"

datatype driver_op = GET_REQUIRED_HW_INTERFACES | SUPPORTS_SERVER_FDS | OTHER_DRIVER_OP int

definition DriverFunc :: "driver_op \<Rightarrow> u32 \<Rightarrow> bool \<times> u32" where
  "DriverFunc oper flag =
     (case oper of
        GET_REQUIRED_HW_INTERFACES \<Rightarrow> (True, 0)
      | SUPPORTS_SERVER_FDS \<Rightarrow> (True, flag)
      | OTHER_DRIVER_OP _ \<Rightarrow> (False, flag))"

text \<open>
  The devices: vendor, device, subsystem vendor and device (\<open>None\<close> is
  \<^verbatim>\<open>PCI_MATCH_ANY\<close>), class and its mask.
\<close>

record pci_id_match =
  vendor_id :: "u32 option"
  device_id :: "u32 option"
  subvendor_id :: "u32 option"
  subdevice_id :: "u32 option"
  device_class :: u32
  device_class_mask :: u32

record pci_ident =
  pi_vendor :: u32
  pi_device :: u32
  pi_subvendor :: u32
  pi_subdevice :: u32
  pi_class :: u32

definition LOONGSON_DEVICE_MATCH_V1 :: pci_id_match where
  "LOONGSON_DEVICE_MATCH_V1 =
     \<lparr>vendor_id = Some 0x0014, device_id = Some 0x7a06, subvendor_id = None, subdevice_id = None,
      device_class = 0x00030000, device_class_mask = 0x00ffff00\<rparr>"

definition LOONGSON_DEVICE_MATCH_V2 :: pci_id_match where
  "LOONGSON_DEVICE_MATCH_V2 =
     \<lparr>vendor_id = Some 0x0014, device_id = Some 0x7a06, subvendor_id = None, subdevice_id = None,
      device_class = 0x00038000, device_class_mask = 0x00ffff00\<rparr>"

definition loongson_device_match :: "pci_id_match list" where
  "loongson_device_match = [LOONGSON_DEVICE_MATCH_V1, LOONGSON_DEVICE_MATCH_V2]"

section \<open>Options\<close>

datatype modesettingOpts =
  OPTION_SW_CURSOR | OPTION_DEVICE_PATH | OPTION_SHADOW_FB | OPTION_ACCEL_METHOD | OPTION_EXA_TYPE |
  OPTION_PAGEFLIP | OPTION_ZAPHOD_HEADS | OPTION_DOUBLE_SHADOW | OPTION_ATOMIC | OPTION_DEBUG

datatype option_type = OPTV_NONE | OPTV_STRING | OPTV_BOOLEAN

text \<open>An option of the table; the entry that ends it has the token \<open>None\<close> and no name.\<close>

datatype option_value = ZERO_VALUE | BOOL_VALUE bool | STRING_VALUE string

record OptionInfoRec =
  token :: "modesettingOpts option"
  opt_name :: "string option"
  opt_type :: option_type
  opt_value :: option_value
  found :: bool

definition option_entry :: "modesettingOpts \<Rightarrow> string \<Rightarrow> option_type \<Rightarrow> OptionInfoRec" where
  "option_entry t n ty = \<lparr>token = Some t, opt_name = Some n, opt_type = ty, opt_value = ZERO_VALUE, found = False\<rparr>"

definition Options :: "OptionInfoRec list" where
  "Options =
    [option_entry OPTION_SW_CURSOR ''SWcursor'' OPTV_BOOLEAN,
     option_entry OPTION_DEVICE_PATH ''kmsdev'' OPTV_STRING,
     option_entry OPTION_SHADOW_FB ''ShadowFB'' OPTV_BOOLEAN,
     option_entry OPTION_ACCEL_METHOD ''AccelMethod'' OPTV_STRING,
     option_entry OPTION_EXA_TYPE ''ExaType'' OPTV_STRING,
     option_entry OPTION_PAGEFLIP ''PageFlip'' OPTV_BOOLEAN,
     option_entry OPTION_ZAPHOD_HEADS ''ZaphodHeads'' OPTV_STRING,
     option_entry OPTION_DOUBLE_SHADOW ''DoubleShadow'' OPTV_BOOLEAN,
     option_entry OPTION_ATOMIC ''Atomic'' OPTV_BOOLEAN,
     option_entry OPTION_DEBUG ''Debug'' OPTV_BOOLEAN,
     \<lparr>token = None, opt_name = None, opt_type = OPTV_NONE, opt_value = ZERO_VALUE, found = False\<rparr>]"

definition LS_AvailableOptions :: "int \<Rightarrow> int \<Rightarrow> OptionInfoRec list" where
  "LS_AvailableOptions chipid busid = Options"

text \<open>
  A screen gets a table of its own, which the server's \<^verbatim>\<open>xf86ProcessOptions\<close> fills with the
  options of the configuration, collected by \<^verbatim>\<open>xf86CollectOptions\<close>. Without memory the
  pointer keeps what it was.
\<close>

definition LS_ProcessOptions ::
  "('c \<Rightarrow> 'opts) \<Rightarrow> ('opts \<Rightarrow> OptionInfoRec list \<Rightarrow> OptionInfoRec list) \<Rightarrow> bool \<Rightarrow> 'c \<Rightarrow>
   OptionInfoRec list option \<Rightarrow> bool \<times> OptionInfoRec list option" where
  "LS_ProcessOptions xf86CollectOptions xf86ProcessOptions malloc_ok pScrn ppOptions =
     (let opts = xf86CollectOptions pScrn in
      if \<not> malloc_ok then (False, ppOptions)
      else let pTmpOps = Options in (True, Some (xf86ProcessOptions opts pTmpOps)))"

definition LS_PrepareDebug ::
  "(OptionInfoRec list option \<Rightarrow> modesettingOpts \<Rightarrow> bool \<Rightarrow> bool) \<Rightarrow> OptionInfoRec list option \<Rightarrow> bool" where
  "LS_PrepareDebug xf86ReturnOptValBool opts = xf86ReturnOptValBool opts OPTION_DEBUG False"

section \<open>Symbols of loaded modules\<close>

text \<open>\<open>sub\<close>: the submodules that load; \<open>LoaderSymbol\<close>: the address of a symbol, when there is one.\<close>

record 'f ShadowAPI =
  Setup :: "'f option"
  Add :: "'f option"
  Remove :: "'f option"
  Update32to24 :: "'f option"
  UpdatePacked :: "'f option"

definition LS_ShadowLoadAPI ::
  "(string \<Rightarrow> bool) \<Rightarrow> (string \<Rightarrow> 'f option) \<Rightarrow> 'f ShadowAPI \<Rightarrow> bool \<times> 'f ShadowAPI" where
  "LS_ShadowLoadAPI sub LoaderSymbol shadow =
     (if \<not> sub ''shadow'' then (False, shadow)
      else (True, \<lparr>Setup = LoaderSymbol ''shadowSetup'', Add = LoaderSymbol ''shadowAdd'',
              Remove = LoaderSymbol ''shadowRemove'', Update32to24 = LoaderSymbol ''shadowUpdate32to24'',
              UpdatePacked = LoaderSymbol ''shadowUpdatePacked''\<rparr>))"

record 'f GlamorAPI =
  back_pixmap_from_fd :: "'f option"
  gl_block_handler :: "'f option"
  gl_clear_pixmap :: "'f option"
  egl_create_textured_pixmap :: "'f option"
  egl_create_textured_pixmap_from_gbm_bo :: "'f option"
  egl_exchange_buffers :: "'f option"
  egl_get_gbm_device :: "'f option"
  egl_init :: "'f option"
  gl_finish :: "'f option"
  gl_gbm_bo_from_pixmap :: "'f option"
  gl_init :: "'f option"
  name_from_pixmap :: "'f option"
  set_drawable_modifiers_func :: "'f option"
  shareable_fd_from_pixmap :: "'f option"
  supports_pixmap_import_export :: "'f option"
  xv_init :: "'f option"
  egl_get_driver_name :: "'f option"

definition load_glamor ::
  "string \<Rightarrow> (string \<Rightarrow> bool) \<Rightarrow> (string \<Rightarrow> 'f option) \<Rightarrow> 'f GlamorAPI \<Rightarrow> bool \<times> 'f GlamorAPI" where
  "load_glamor GLAMOR_EGL_MODULE_NAME sub LoaderSymbol glamor =
     (if \<not> sub GLAMOR_EGL_MODULE_NAME then (False, glamor)
      else (True,
        \<lparr>back_pixmap_from_fd = LoaderSymbol ''glamor_back_pixmap_from_fd'',
         gl_block_handler = LoaderSymbol ''glamor_block_handler'',
         gl_clear_pixmap = LoaderSymbol ''glamor_clear_pixmap'',
         egl_create_textured_pixmap = LoaderSymbol ''glamor_egl_create_textured_pixmap'',
         egl_create_textured_pixmap_from_gbm_bo = LoaderSymbol ''glamor_egl_create_textured_pixmap_from_gbm_bo'',
         egl_exchange_buffers = LoaderSymbol ''glamor_egl_exchange_buffers'',
         egl_get_gbm_device = LoaderSymbol ''glamor_egl_get_gbm_device'',
         egl_init = LoaderSymbol ''glamor_egl_init'',
         gl_finish = LoaderSymbol ''glamor_finish'',
         gl_gbm_bo_from_pixmap = LoaderSymbol ''glamor_gbm_bo_from_pixmap'',
         gl_init = LoaderSymbol ''glamor_init'',
         name_from_pixmap = LoaderSymbol ''glamor_name_from_pixmap'',
         set_drawable_modifiers_func = LoaderSymbol ''glamor_set_drawable_modifiers_func'',
         shareable_fd_from_pixmap = LoaderSymbol ''glamor_shareable_fd_from_pixmap'',
         supports_pixmap_import_export = LoaderSymbol ''glamor_supports_pixmap_import_export'',
         xv_init = LoaderSymbol ''glamor_xv_init'',
         egl_get_driver_name = LoaderSymbol ''glamor_egl_get_driver_name''\<rparr>))"

section \<open>Registration with DRI2\<close>

text \<open>
  The resource types of frame events and the server generation they were made in are static, so
  they outlive a screen. \<open>CreateNewResourceType\<close> gives zero when it fails.
\<close>

record dri2_static =
  ms_dri2_server_generation :: nat
  frame_event_client_type :: u32
  frame_event_drawable_type :: u32
  resource_types :: "(u32 \<times> string) list"

datatype dri2_function =
  MS_DRI2_CREATE_BUFFER | MS_DRI2_DESTROY_BUFFER | MS_DRI2_COPY_REGION | MS_DRI2_SCHEDULE_SWAP |
  MS_DRI2_GET_MSC | MS_DRI2_SCHEDULE_WAIT_MSC | MS_DRI2_CREATE_BUFFER2 | MS_DRI2_DESTROY_BUFFER2 |
  MS_DRI2_COPY_REGION2

record DRI2InfoRec =
  d_fd :: int
  d_driverName :: string
  d_deviceName :: "string option"
  d_version :: nat
  d_CreateBuffer :: dri2_function
  d_DestroyBuffer :: dri2_function
  d_CopyRegion :: dri2_function
  d_ScheduleSwap :: dri2_function
  d_GetMSC :: dri2_function
  d_ScheduleWaitMSC :: dri2_function
  d_CreateBuffer2 :: dri2_function
  d_DestroyBuffer2 :: dri2_function
  d_CopyRegion2 :: dri2_function
  d_numDrivers :: nat
  d_driverNames :: "string list option"

record dri2_server =
  has_DRI2Version :: bool
  dixRegisterPrivateKey_ok :: bool
  serverGeneration :: nat
  CreateNewResourceType :: "(u32 \<times> string) list \<Rightarrow> string \<Rightarrow> u32"
  drmGetDeviceNameFromFd :: "int \<Rightarrow> string option"
  glamor_driver_name :: "string option option"
  DRI2ScreenInit :: "DRI2InfoRec \<Rightarrow> bool"

text \<open>A type that was made is one of the server's.\<close>

definition new_resource_type :: "dri2_server \<Rightarrow> string \<Rightarrow> dri2_static \<Rightarrow> u32 \<times> dri2_static" where
  "new_resource_type V nm st =
     (let t = CreateNewResourceType V (resource_types st) nm
      in (t, if t = 0 then st else st\<lparr>resource_types := (t, nm) # resource_types st\<rparr>))"

definition ms_dri2_register_frame_event_resource_types :: "dri2_server \<Rightarrow> dri2_static \<Rightarrow> bool \<times> dri2_static" where
  "ms_dri2_register_frame_event_resource_types V st =
     (case new_resource_type V ''Frame Event Client'' st of (t, st) \<Rightarrow>
        let st = st\<lparr>frame_event_client_type := t\<rparr> in
        if t = 0 then (False, st)
        else case new_resource_type V ''Frame Event Drawable'' st of (t, st) \<Rightarrow>
          let st = st\<lparr>frame_event_drawable_type := t\<rparr> in (t \<noteq> 0, st))"

text \<open>
  \<open>glamor_driver_name\<close> is \<open>None\<close> when glamor has no \<^verbatim>\<open>egl_get_driver_name\<close>.
\<close>

definition dri2_info_of :: "dri2_server \<Rightarrow> int \<Rightarrow> DRI2InfoRec" where
  "dri2_info_of V fd =
     (let names = dri2_driver_names (Option.bind (glamor_driver_name V) (\<lambda>n. n))
      in \<lparr>d_fd = fd, d_driverName = ''etnaviv'', d_deviceName = drmGetDeviceNameFromFd V fd, d_version = 9,
          d_CreateBuffer = MS_DRI2_CREATE_BUFFER, d_DestroyBuffer = MS_DRI2_DESTROY_BUFFER,
          d_CopyRegion = MS_DRI2_COPY_REGION, d_ScheduleSwap = MS_DRI2_SCHEDULE_SWAP, d_GetMSC = MS_DRI2_GET_MSC,
          d_ScheduleWaitMSC = MS_DRI2_SCHEDULE_WAIT_MSC, d_CreateBuffer2 = MS_DRI2_CREATE_BUFFER2,
          d_DestroyBuffer2 = MS_DRI2_DESTROY_BUFFER2, d_CopyRegion2 = MS_DRI2_COPY_REGION2,
          d_numDrivers = length names, d_driverNames = (if names = [] then None else Some names)\<rparr>)"

definition ms_dri2_screen_init :: "dri2_server \<Rightarrow> int \<Rightarrow> dri2_static \<Rightarrow> bool \<times> dri2_static" where
  "ms_dri2_screen_init V fd st =
     (if \<not> has_DRI2Version V then (False, st)
      else if \<not> dixRegisterPrivateKey_ok V then (False, st)
      else
        let (types_ok, st) =
          (if serverGeneration V \<noteq> ms_dri2_server_generation st
           then ms_dri2_register_frame_event_resource_types V (st\<lparr>ms_dri2_server_generation := serverGeneration V\<rparr>)
           else (True, st))
        in if \<not> types_ok then (False, st) else (DRI2ScreenInit V (dri2_info_of V fd), st))"

section \<open>Registration with DRI3\<close>

text \<open>
  The render node of the Vivante core is opened only to print its version. The result of the
  function, the name of the device, the open descriptors.
\<close>

datatype dri3_function =
  MS_EXA_DRI3_OPEN_CLIENT | MS_EXA_PIXMAP_FROM_FDS | MS_EXA_EGL_FD_FROM_PIXMAP | MS_EXA_EGL_FDS_FROM_PIXMAP |
  MS_EXA_GET_FORMATS | MS_EXA_GET_MODIFIERS | MS_EXA_GET_DRAWABLE_MODIFIERS

record dri3_screen_info_rec =
  i_version :: nat
  i_open_client :: dri3_function
  i_pixmap_from_fds :: dri3_function
  i_fd_from_pixmap :: dri3_function
  i_fds_from_pixmap :: dri3_function
  i_get_formats :: dri3_function
  i_get_modifiers :: dri3_function
  i_get_drawable_modifiers :: dri3_function

definition loongson_dri3_info :: dri3_screen_info_rec where
  "loongson_dri3_info =
     \<lparr>i_version = 2, i_open_client = MS_EXA_DRI3_OPEN_CLIENT, i_pixmap_from_fds = MS_EXA_PIXMAP_FROM_FDS,
      i_fd_from_pixmap = MS_EXA_EGL_FD_FROM_PIXMAP, i_fds_from_pixmap = MS_EXA_EGL_FDS_FROM_PIXMAP,
      i_get_formats = MS_EXA_GET_FORMATS, i_get_modifiers = MS_EXA_GET_MODIFIERS,
      i_get_drawable_modifiers = MS_EXA_GET_DRAWABLE_MODIFIERS\<rparr>"

record dri3_server =
  miSyncShmScreenInit :: bool
  drmOpenWithType :: "string \<Rightarrow> int list \<Rightarrow> int"
  drmGetDeviceNameFromFd2 :: "int \<Rightarrow> string option"
  dri3_screen_init :: "dri3_screen_info_rec \<Rightarrow> bool"

definition ms_exa_dri3_init ::
  "dri3_server \<Rightarrow> int \<Rightarrow> string option \<times> int list \<Rightarrow> bool \<times> string option \<times> int list" where
  "ms_exa_dri3_init V drm_fd st =
     (case st of (dri3_device_name, fs) \<Rightarrow>
        if \<not> miSyncShmScreenInit V then (False, dri3_device_name, fs)
        else
          let fd = drmOpenWithType V ''etnaviv'' fs;
              fs = (if fd \<noteq> -1 then sys_close fd (fd # fs) else fs);
              dri3_device_name = drmGetDeviceNameFromFd2 V drm_fd
          in (dri3_screen_init V loongson_dri3_info, dri3_device_name, fs))"

section \<open>Loading, options, types\<close>

text \<open>However often the module is loaded, the server has the driver once; only the first load succeeds.\<close>

lemma loaded_once:
  assumes "\<not> setupDone st" and "es \<noteq> []"
  shows "xf86AddDriver (snd (load_repeatedly es st)) = xf86AddDriver st @ [''loongson'']"
    and "map fst (fst (load_repeatedly es st)) = Some 1 # replicate (length es - 1) None"
proof -
  have late: "setupDone x \<Longrightarrow> snd (load_repeatedly fs x) = x \<and> map fst (fst (load_repeatedly fs x)) = replicate (length fs) None" for fs x
    by (induction fs arbitrary: x) (simp_all add: fnSetup_def case_prod_beta)
  obtain e fs where es: "es = e # fs" using assms(2) by (cases es) auto
  note l = late [of "st\<lparr>setupDone := True, xf86AddDriver := xf86AddDriver st @ [''loongson'']\<rparr>" fs]
  show "xf86AddDriver (snd (load_repeatedly es st)) = xf86AddDriver st @ [''loongson'']"
    and "map fst (fst (load_repeatedly es st)) = Some 1 # replicate (length es - 1) None"
    using assms(1) l by (simp_all add: es fnSetup_def case_prod_beta)
qed

text \<open>
  A device is taken exactly when it is the display controller: the graphics core of the same
  vendor has another class, and the programming interface does not matter. The comparison is that
  of libpciaccess.
\<close>

lemma display_controllers_match:
  assumes "\<forall>m d. pci_matches m d \<longleftrightarrow>
      vendor_id m \<in> {None, Some (pi_vendor d)} \<and> device_id m \<in> {None, Some (pi_device d)} \<and>
      subvendor_id m \<in> {None, Some (pi_subvendor d)} \<and> subdevice_id m \<in> {None, Some (pi_subdevice d)} \<and>
      (pi_class d AND device_class_mask m) = device_class m"
  shows "(\<exists>m \<in> set loongson_device_match. pci_matches m d) \<longleftrightarrow>
   pi_vendor d = 0x0014 \<and> pi_device d = 0x7a06 \<and> (pi_class d AND 0x00ffff00) \<in> {0x00030000, 0x00038000}"
  using assms by (auto simp: loongson_device_match_def LOONGSON_DEVICE_MATCH_V1_def
      LOONGSON_DEVICE_MATCH_V2_def)

text \<open>Every option has one entry in the table, which nothing but its end follows.\<close>

lemma every_option_listed:
  "\<exists>es z. Options = es @ [z] \<and> token z = None \<and> distinct (map token es) \<and> (\<forall>t. Some t \<in> token ` set es)"
proof -
  have "Options = butlast Options @ [last Options]" by (simp add: Options_def)
  moreover have "token (last Options) = None" "distinct (map token (butlast Options))"
    by (simp_all add: Options_def option_entry_def)
  moreover have "Some t \<in> token ` set (butlast Options)" for t
    by (cases t) (simp_all add: Options_def option_entry_def)
  ultimately show ?thesis by blast
qed

text \<open>
  After a screen was set up, the resources of frame events have types of their own. A first screen
  whose types could not be made leaves the generation set, so that the next one goes on without.
\<close>

lemma frame_event_types:
  assumes "ms_dri2_screen_init V fd st = (True, st')" and "serverGeneration V \<noteq> ms_dri2_server_generation st"
    and "\<forall>ts n. CreateNewResourceType V ts n = 0 \<or> CreateNewResourceType V ts n \<notin> fst ` set ts"
  shows "frame_event_client_type st' \<noteq> 0" and "frame_event_drawable_type st' \<noteq> 0"
    and "frame_event_client_type st' \<noteq> frame_event_drawable_type st'"
proof -
  have r: "ms_dri2_register_frame_event_resource_types V (st\<lparr>ms_dri2_server_generation := serverGeneration V\<rparr>) = (True, st')"
    using assms(1,2) by (auto simp: ms_dri2_screen_init_def Let_def split: if_splits prod.splits)
  then have "frame_event_client_type st' \<noteq> 0 \<and> frame_event_drawable_type st' \<noteq> 0 \<and>
      frame_event_client_type st' \<noteq> frame_event_drawable_type st'"
    using assms(3) [rule_format, of "(frame_event_client_type st', ''Frame Event Client'') # resource_types st" "''Frame Event Drawable''"]
    by (auto simp: ms_dri2_register_frame_event_resource_types_def new_resource_type_def Let_def split: if_splits prod.splits)
  then show "frame_event_client_type st' \<noteq> 0" "frame_event_drawable_type st' \<noteq> 0"
    "frame_event_client_type st' \<noteq> frame_event_drawable_type st'" by simp_all
qed

lemma second_screen_without_types:
  assumes "has_DRI2Version V" and "dixRegisterPrivateKey_ok V" and "serverGeneration V \<noteq> ms_dri2_server_generation st"
    and "\<forall>ts n. CreateNewResourceType V ts n = 0" and "\<forall>info. DRI2ScreenInit V info"
  shows "\<exists>st1 st2. ms_dri2_screen_init V fd st = (False, st1) \<and> ms_dri2_screen_init V fd' st1 = (True, st2) \<and>
    frame_event_client_type st2 = 0"
  using assms
  by (simp add: ms_dri2_screen_init_def ms_dri2_register_frame_event_resource_types_def new_resource_type_def Let_def)

text \<open>Setting up DRI3 leaves no descriptor open.\<close>

lemma dri3_init_closes:
  "snd (snd (ms_exa_dri3_init V drm_fd (n, fs))) = fs"
  by (simp add: ms_exa_dri3_init_def sys_close_def Let_def)

end
