(* ===== verification/Spec2Isabelle.thy ===== *)
theory Spec2Isabelle
  imports Geometry Queue_Life Kms_Props Buffers Kms_Atomic Flip_Events Page_Flip
    Prime_Flip Leases Kms_Modeset Screen_Fb Cursors Present_Ext Dri2_Ext Driver_Loop
    Shadow_Fb Exa_Pixmaps Screen_Cycle Hotplug Pre_Init First_Image Output_Modes Probe_Screens
    Driver_Module
begin

text \<open>
  The X.Org video driver for Loongson display controllers: a model of its C sources under
  \<^verbatim>\<open>src/src\<close> and the theorems about it. The driver sits between the X server and the
  kernel: it opens the DRM device, makes CRTCs and outputs of its objects, allocates the buffers
  that are scanned out, programs modes, queues page flips and vblank events for the Present and
  DRI2 extensions, keeps pixmaps for EXA or a shadow framebuffer when there is no glamor, and
  follows hotplug.

  \<^bold>\<open>How the code is modelled.\<close> C structures are records with the fields the code uses, enums and
  unions are datatypes, integers have the width of the C type (words; \<^verbatim>\<open>int\<close> and
  \<^verbatim>\<open>short\<close> as integers in range where the code computes with signs). Pointers to CRTCs,
  outputs, screens and pixmaps are numbers; memory with shared ownership (event records, flip data,
  DRI2 buffers) is an explicit store. The state of the driver is the record \<open>'k drv\<close> of
  \<open>Driver_State\<close>; \<open>'k\<close> is the state of the kernel and the server, which the driver touches only
  through calls: these are functions in the records \<open>'k kernel\<close> and \<open>'k env\<close> (and some smaller
  ones, for a component's own callers), with their results and effects left open. What a theorem
  needs of them is a hypothesis of it, named after documented behaviour, and its witness gives a
  concrete kernel that has it. Failing calls are answers of these functions, failing allocations
  follow the list \<open>mem_ok\<close> of the state, so all
  error paths are part of the definitions. Uses of freed memory, reads through a null pointer and
  reads past an array are counted in fields of the state (\<open>faults\<close>, \<open>misc_faults\<close>) or
  are the value \<open>None\<close>, as each theory says.

  \<^bold>\<open>Theories.\<close>

  \<^item> \<open>Prelude\<close>: integer types, errno values, unlinking from intrusive lists, the collections
    \<open>frame_simps\<close> and \<open>inv_intros\<close>. \<open>Refcount\<close>: the contract of reference-counted objects (locale
    \<open>ref_store\<close>), interpreted on the cached descriptor (\<open>Entity_Fd\<close>), on flip data and on DRI2
    buffers (\<open>Flip_Events\<close>).
  \<^item> \<open>Driver_Types\<close>, \<open>Driver_State\<close>: the structures of \<^verbatim>\<open>driver.h\<close>,
    \<^verbatim>\<open>drmmode_display.h\<close>, \<^verbatim>\<open>dumb_bo.h\<close>, and the state.
  \<^item> \<open>Driver_Module\<close>: the module (\<^verbatim>\<open>loongson_module.c\<close>), options
    (\<^verbatim>\<open>loongson_options.c\<close>), symbols of loaded modules, registration with DRI2 and DRI3:
    the driver is added once however often it is loaded, every option is listed once, a device
    matches exactly when it is a display controller.
  \<^item> \<open>Entity_Fd\<close>, \<open>Probe_Screens\<close>: \<^verbatim>\<open>loongson_entity.c\<close>,
    \<^verbatim>\<open>loongson_helpers.c\<close>, \<^verbatim>\<open>loongson_probe.c\<close> and the descriptor of a
    screen in \<^verbatim>\<open>driver.c\<close>: the screens of a device share one descriptor, closed by the
    last; probes leave no descriptor open and hook exactly the screens they take.
  \<^item> \<open>Pre_Init\<close>: \<^verbatim>\<open>PreInit\<close>, \<^verbatim>\<open>drmmode_pre_init\<close>,
    \<^verbatim>\<open>drmmode_crtc_init\<close>, with \<^verbatim>\<open>loongson_cursor.c\<close> and
    \<^verbatim>\<open>loongson_glamor.c\<close>: CRTCs and planes are handed out once, the choices of
    acceleration and capabilities are consistent.
  \<^item> \<open>Outputs\<close>, \<open>Output_Modes\<close>, \<open>Hotplug\<close>: connectors, names, RandR properties and mode lists of
    outputs (\<^verbatim>\<open>drmmode_display.c\<close>) and hotplug (\<^verbatim>\<open>drmmode_uevent.c\<close>):
    tables of properties stay well typed, an announced value sets what it names, names are
    distinct, after an event the outputs are those of the kernel.
  \<^item> \<open>Kms_Props\<close>: modes, formats, modifiers, KMS properties, planes. \<open>Buffers\<close>: dumb and GBM
    buffers (\<^verbatim>\<open>dumb_bo.c\<close> and the buffer functions of
    \<^verbatim>\<open>drmmode_display.c\<close>). \<open>Kms_Atomic\<close>, \<open>Kms_Modeset\<close>: atomic requests, power states,
    \<^verbatim>\<open>drmmode_set_mode_major\<close>. \<open>Screen_Fb\<close>: resizing, rotation, scanout pixmaps.
    \<open>First_Image\<close>: gamma tables and the contents of the console. \<open>Cursors\<close>: cursor images and the
    count of sprites. \<open>Leases\<close>: leases. \<open>Prime_Flip\<close>: flipping between shared pixmaps.
  \<^item> \<open>Geometry\<close>, \<open>Event_Queue\<close>, \<open>Msc_Counter\<close>, \<open>Queue_Life\<close>: \<^verbatim>\<open>vblank.c\<close>: which CRTC
    covers a drawable, the queue of pending events with its aborts, 64-bit frame counters made of
    32-bit ones. \<open>Queue_Life\<close> has the contract of the queue (locale \<open>token_queue\<close>, interpreted in
    \<open>Flip_Events\<close> on the driver's queue) and its histories.
  \<^item> \<open>Flip_Events\<close>, \<open>Page_Flip\<close>: \<^verbatim>\<open>pageflip.c\<close> with the records behind pending events;
    the locale \<open>flushing\<close> is what flips and waits need of a flush of the kernel's events.
    \<open>Present_Ext\<close>: \<^verbatim>\<open>present.c\<close>. \<open>Dri2_Ext\<close>: \<^verbatim>\<open>dri2.c\<close>.
  \<^item> \<open>Driver_Loop\<close>: the four kinds of handlers tied into the dispatcher that runs them, the
    interpretation of \<open>flushing\<close> on it, and histories of the whole driver.
  \<^item> \<open>Shadow_Fb\<close>: \<^verbatim>\<open>loongson_shadow.c\<close>. \<open>Exa_Pixmaps\<close>: \<^verbatim>\<open>fake_exa.c\<close>,
    \<^verbatim>\<open>loongson_pixmap.c\<close>, \<^verbatim>\<open>loongson_buffer.c\<close>, \<^verbatim>\<open>dri3.c\<close>.
    \<open>Screen_Cycle\<close>: the screen functions of \<^verbatim>\<open>driver.c\<close>, from
    \<^verbatim>\<open>ScreenInit\<close> to \<^verbatim>\<open>CloseScreen\<close>.

  \<^bold>\<open>What the theorems show.\<close> Of requests: each is finished exactly once, by its event or an abort,
  in every history of the queue (\<open>Queue_Life\<close>); records of events are neither lost nor used after
  they are freed, in every history of the driver with flushes nested to any depth (\<open>Driver_Loop\<close>); a
  flip tells its client once (\<open>Flip_Events\<close>), waits and swaps are answered (\<open>Driver_Loop\<close>,
  \<open>Dri2_Ext\<close>), aborts hit only their request (\<open>Present_Ext\<close>). Of counters: the 64-bit count refines an
  unbounded one over any number of wraps (\<open>Msc_Counter\<close>). Of flips and modes: success and failure
  leave the framebuffer, the CRTCs, outputs and buffers as they should (\<open>Page_Flip\<close>, \<open>Kms_Atomic\<close>,
  \<open>Kms_Modeset\<close>, \<open>Screen_Fb\<close>, \<open>Prime_Flip\<close>). Of resources: descriptors, buffers, framebuffers and
  pixmaps are given back (\<open>Entity_Fd\<close>, \<open>Buffers\<close>, \<open>Exa_Pixmaps\<close>, \<open>Screen_Cycle\<close>), planes and CRTCs are
  exclusive (\<open>Pre_Init\<close>). Of data: formats and modes survive conversion (\<open>Kms_Props\<close>), names and
  properties mean what was announced (\<open>Outputs\<close>), gamma tables are filled and nothing else
  (\<open>First_Image\<close>). Of pictures: the CRTC that covers a drawable (\<open>Geometry\<close>), damage that reaches the
  kernel (\<open>Screen_Cycle\<close>), the shadow that reaches the screen (\<open>Shadow_Fb\<close>), software copies that see
  the memory of their pixmaps (\<open>Exa_Pixmaps\<close>). Of the objects of the server: leases, sprites,
  outputs, the choices of the start (\<open>Leases\<close>, \<open>Cursors\<close>, \<open>Hotplug\<close>, \<open>Pre_Init\<close>).

  \<^bold>\<open>Bounds.\<close> Some loops have no bound in the code. The loop around \<^verbatim>\<open>poll\<close> is a
  \<open>partial_function\<close>, \<open>None\<close> when it is interrupted for ever. The retry loops of page flips and vblank
  requests go on while the kernel is busy: they try \<open>loop_bound\<close> times and are \<open>None\<close> when that is not
  enough; \<open>Page_Flip\<close>, \<open>Driver_Loop\<close> and \<open>Dri2_Ext\<close> prove the result under a kernel that accepts, where one
  try suffices. Handlers may flush and so run handlers: \<open>drv_handler\<close> takes the depth of the nesting,
  and the invariant of \<open>Driver_Loop\<close> holds for every depth. Setting a mode may call itself through the
  power state of an output: depth two is enough and a larger one gives the same result
  (\<open>Kms_Modeset\<close>).

  \<^bold>\<open>Not modelled.\<close> The X server, libdrm, GBM, EGL, glamor, udev and the kernel are parameters. The
  rounding of doubles to floats in mode rates is one, too. Pixels are modelled where the driver
  computes with them (the shadow, software copies, the console), not where it asks the server to
  draw. Left out are the text of the log, functions that only pass a call on (the sprite functions
  that realise a cursor) or do nothing, and fields of the server's
  own records that no modelled code reads again (sizes of the monitor, the provider, visual classes).
  Locks and threads do not occur: the server is single-threaded, and interleaving is that of
  events, requests and nested flushes.

  \<^bold>\<open>Behaviour worth knowing.\<close> Some lemmas pin down what the code does against its intent:
  \<open>first_reading_below_zero\<close> (\<open>Msc_Counter\<close>), \<open>passed_fd_not_shared\<close> (\<open>Entity_Fd\<close>),
  \<open>high_formats_misread\<close> (\<open>Kms_Props\<close>), \<open>ensure_blob_once\<close> (\<open>Kms_Atomic\<close>),
  \<open>partial_palette_overruns\<close> (\<open>First_Image\<close>), \<open>uevent_stale_handler\<close> (\<open>Hotplug\<close>),
  \<open>gone_connector_keeps_encoders\<close> (\<open>Output_Modes\<close>), \<open>second_screen_without_types\<close>
  (\<open>Driver_Module\<close>).
\<close>

end
